(* ===== verification/Bottle_Prelude.thy ===== *)
theory Bottle_Prelude
  imports Main "HOL-Library.Word"
begin

section \<open>Shared vocabulary of the development\<close>

text \<open>
  What every component uses: Go's error values and \<open>errors.Is\<close>, the outcome of a call that
  may panic, a small state monad (\<open>bindP\<close>) with its weakest-precondition calculus, the
  string functions of Go's standard library that the program calls, JSON values, and list
  lemmas about bounded retention (\<open>keep_last\<close>).

  Go strings are byte strings; they are \<^typ>\<open>string\<close> here (a list of 8-bit characters).
\<close>

named_theorems prog_simps \<open>symbolic execution of programs: weakest preconditions of the monad\<close>
named_theorems retain_simps \<open>facts about bounded retention of the newest elements\<close>

subsection \<open>Errors as values\<close>

text \<open>
  \<open>ErrText\<close> is \<open>errors.New\<close> or \<open>fmt.Errorf\<close> without \<open>%w\<close>; \<open>ErrSentinel\<close> a package
  variable (its name and its text); \<open>ErrWrap pre e post\<close> is \<open>fmt.Errorf\<close> with \<open>%w\<close>.
\<close>

datatype go_error =
    ErrText string
  | ErrSentinel string string
  | ErrWrap string go_error string

fun error_text :: "go_error \<Rightarrow> string" where
  "error_text (ErrText t) = t"
| "error_text (ErrSentinel n t) = t"
| "error_text (ErrWrap pre e post) = pre @ error_text e @ post"

fun errors_is :: "go_error \<Rightarrow> go_error \<Rightarrow> bool" where
  "errors_is (ErrWrap pre e post) target \<longleftrightarrow> ErrWrap pre e post = target \<or> errors_is e target"
| "errors_is e target \<longleftrightarrow> e = target"

lemma errors_is_refl [simp]: "errors_is e e"
  by (cases e) auto

definition ctx_canceled :: go_error where
  "ctx_canceled = ErrSentinel ''context.Canceled'' ''context canceled''"

definition io_eof :: go_error where
  "io_eof = ErrSentinel ''io.EOF'' ''EOF''"

definition net_err_closed :: go_error where
  "net_err_closed = ErrSentinel ''net.ErrClosed'' ''use of closed network connection''"

subsection \<open>Computations that may panic\<close>

datatype 'a outcome = Ret 'a | Panic string

type_synonym ('s, 'a) prog = "'s \<Rightarrow> 'a outcome \<times> 's"

definition retP :: "'a \<Rightarrow> ('s, 'a) prog" where
  "retP a s = (Ret a, s)"

definition panicP :: "string \<Rightarrow> ('s, 'a) prog" where
  "panicP m s = (Panic m, s)"

definition bindP :: "('s, 'a) prog \<Rightarrow> ('a \<Rightarrow> ('s, 'b) prog) \<Rightarrow> ('s, 'b) prog" where
  "bindP m f s = (case m s of (Ret a, s') \<Rightarrow> f a s' | (Panic p, s') \<Rightarrow> (Panic p, s'))"

text \<open>
  \<open>wp m Q s\<close>: running \<open>m\<close> from \<open>s\<close> ends in an outcome and a state that satisfy \<open>Q\<close>.
\<close>

definition wp :: "('s, 'a) prog \<Rightarrow> ('a outcome \<Rightarrow> 's \<Rightarrow> bool) \<Rightarrow> 's \<Rightarrow> bool" where
  "wp m Q s \<longleftrightarrow> (case m s of (r, s') \<Rightarrow> Q r s')"

lemma wp_iff: "m s = (r, s') \<Longrightarrow> wp m Q s \<longleftrightarrow> Q r s'"
  by (simp add: wp_def)

lemma wpD: "wp m Q s \<Longrightarrow> m s = (r, s') \<Longrightarrow> Q r s'"
  by (simp add: wp_def)

lemma wpI: "(\<And>r s'. m s = (r, s') \<Longrightarrow> Q r s') \<Longrightarrow> wp m Q s"
  by (cases "m s") (auto simp: wp_def)

lemma wp_mono: "wp m P s \<Longrightarrow> (\<And>r s'. P r s' \<Longrightarrow> Q r s') \<Longrightarrow> wp m Q s"
  by (auto simp: wp_def split: prod.splits)

lemma wp_conj: "wp m P s \<Longrightarrow> wp m Q s \<Longrightarrow> wp m (\<lambda>r s'. P r s' \<and> Q r s') s"
  by (auto simp: wp_def split: prod.splits)

lemma wp_ret [prog_simps]: "wp (retP a) Q s \<longleftrightarrow> Q (Ret a) s"
  by (simp add: wp_def retP_def)

lemma wp_panic [prog_simps]: "wp (panicP m) Q s \<longleftrightarrow> Q (Panic m) s"
  by (simp add: wp_def panicP_def)

lemma wp_bind [prog_simps]:
  "wp (bindP m f) Q s \<longleftrightarrow>
     wp m (\<lambda>r s'. case r of Ret a \<Rightarrow> wp (f a) Q s' | Panic p \<Rightarrow> Q (Panic p) s') s"
  by (auto simp: wp_def bindP_def split: prod.splits outcome.splits)

lemma bindP_Ret: "m s = (Ret a, s') \<Longrightarrow> bindP m f s = f a s'"
  by (simp add: bindP_def)

lemma bindP_assoc: "bindP (bindP m f) g = bindP m (\<lambda>a. bindP (f a) g)"
  by (auto simp: bindP_def fun_eq_iff split: prod.splits outcome.splits)

lemma retP_bind [simp]: "bindP (retP a) f = f a"
  by (simp add: bindP_def retP_def fun_eq_iff)

subsection \<open>Programs that fail with an error\<close>

definition tryP :: "(go_error \<Rightarrow> go_error) \<Rightarrow> ('s, go_error + 'a) prog \<Rightarrow> ('a \<Rightarrow> ('s, go_error + 'b) prog) \<Rightarrow> ('s, go_error + 'b) prog" where
  "tryP wrap m f = bindP m (\<lambda>r. case r of Inl e \<Rightarrow> retP (Inl (wrap e)) | Inr x \<Rightarrow> f x)"

definition checkP :: "(go_error \<Rightarrow> go_error) \<Rightarrow> ('s, go_error option) prog \<Rightarrow> ('s, go_error + 'b) prog \<Rightarrow> ('s, go_error + 'b) prog" where
  "checkP wrap m k = bindP m (\<lambda>r. case r of Some e \<Rightarrow> retP (Inl (wrap e)) | None \<Rightarrow> k)"

definition wrapped :: "string \<Rightarrow> go_error \<Rightarrow> go_error" where
  "wrapped pre e = ErrWrap pre e []"

subsection \<open>Go's string functions\<close>

text \<open>
  \<open>strings.ToLower\<close> maps the 26 ASCII capitals of an all-ASCII string; a string with a byte
  above 127 takes the Unicode tables, which are the parameter \<open>uni\<close>.
\<close>

definition is_ascii :: "string \<Rightarrow> bool" where
  "is_ascii s \<longleftrightarrow> (\<forall>c \<in> set s. (of_char c :: nat) < 128)"

definition lower_char :: "char \<Rightarrow> char" where
  "lower_char c = (let n = (of_char c :: nat) in if 65 \<le> n \<and> n \<le> 90 then char_of (n + 32) else c)"

definition to_lower :: "(string \<Rightarrow> string) \<Rightarrow> string \<Rightarrow> string" where
  "to_lower uni s = (if is_ascii s then map lower_char s else uni s)"

text \<open>\<open>strings.TrimSpace\<close> on the ASCII white space (tab to carriage return, and blank).\<close>

definition is_space :: "char \<Rightarrow> bool" where
  "is_space c \<longleftrightarrow> (let n = (of_char c :: nat) in (9 \<le> n \<and> n \<le> 13) \<or> n = 32)"

definition trim_space :: "string \<Rightarrow> string" where
  "trim_space s = rev (dropWhile is_space (rev (dropWhile is_space s)))"

fun has_prefix :: "string \<Rightarrow> string \<Rightarrow> bool" where
  "has_prefix s [] = True"
| "has_prefix [] (p # ps) = False"
| "has_prefix (c # s) (p # ps) = (c = p \<and> has_prefix s ps)"

fun contains :: "string \<Rightarrow> string \<Rightarrow> bool" where
  "contains [] p = (p = [])"
| "contains (c # s) p = (has_prefix (c # s) p \<or> contains s p)"

definition cut_prefix :: "string \<Rightarrow> string \<Rightarrow> string option" where
  "cut_prefix s p = (if has_prefix s p then Some (drop (length p) s) else None)"

definition trim_suffix :: "string \<Rightarrow> string \<Rightarrow> string" where
  "trim_suffix s p = (if has_prefix (rev s) (rev p) then take (length s - length p) s else s)"

fun split_on :: "char \<Rightarrow> string \<Rightarrow> string list" where
  "split_on d [] = [[]]"
| "split_on d (c # s) =
     (if c = d then [] # split_on d s
      else (case split_on d s of [] \<Rightarrow> [[c]] | w # ws \<Rightarrow> (c # w) # ws))"

fun join_with :: "string \<Rightarrow> string list \<Rightarrow> string" where
  "join_with d [] = []"
| "join_with d [w] = w"
| "join_with d (w # ws) = w @ d @ join_with d ws"

lemma split_on_nonempty: "split_on d s \<noteq> []"
  by (induction s) (auto split: list.splits)

lemma has_prefix_append: "has_prefix s p \<longleftrightarrow> (\<exists>t. s = p @ t)"
  by (induction s p rule: has_prefix.induct) auto

lemma contains_append: "contains s p \<longleftrightarrow> (\<exists>a b. s = a @ p @ b)"
proof (induction s)
  case Nil
  then show ?case by simp
next
  case (Cons c s)
  have "(\<exists>a b. c # s = a @ p @ b) \<longleftrightarrow> (\<exists>b. c # s = p @ b) \<or> (\<exists>a b. s = a @ p @ b)"
    by (metis Cons_eq_append_conv append_Cons append_Nil)
  with Cons show ?case by (simp add: has_prefix_append)
qed

text \<open>Decimal text of integers: \<open>strconv.Itoa\<close> and the \<open>%d\<close> verb.\<close>

fun nat_digits :: "nat \<Rightarrow> string" where
  "nat_digits n = (if n < 10 then [char_of (48 + n)] else nat_digits (n div 10) @ [char_of (48 + n mod 10)])"

declare nat_digits.simps [simp del]

lemma digit_chars:
  "char_of (48 :: nat) = CHR ''0''" "char_of (49 :: nat) = CHR ''1''" "char_of (50 :: nat) = CHR ''2''"
  "char_of (51 :: nat) = CHR ''3''" "char_of (52 :: nat) = CHR ''4''" "char_of (53 :: nat) = CHR ''5''"
  "char_of (54 :: nat) = CHR ''6''" "char_of (55 :: nat) = CHR ''7''" "char_of (56 :: nat) = CHR ''8''"
  "char_of (57 :: nat) = CHR ''9''"
  by (simp_all add: char_of_def bit_0)

definition itoa :: "int \<Rightarrow> string" where
  "itoa i = (if i < 0 then ''-'' @ nat_digits (nat (- i)) else nat_digits (nat i))"

text \<open>
  The \<open>%q\<close> verb: a double-quoted string with Go's escapes for quotes, backslashes and ASCII
  control characters; bytes of UTF-8 sequences are kept as they are.
\<close>

definition hex_digit :: "nat \<Rightarrow> char" where
  "hex_digit n = char_of (if n < 10 then 48 + n else 87 + n)"

definition quote_char :: "char \<Rightarrow> string" where
  "quote_char c = (let n = (of_char c :: nat) in
     if n = 34 then [char_of (92::nat), c]
     else if n = 92 then [c, c]
     else if n = 7 then [char_of (92::nat), CHR ''a'']
     else if n = 8 then [char_of (92::nat), CHR ''b'']
     else if n = 9 then [char_of (92::nat), CHR ''t'']
     else if n = 10 then [char_of (92::nat), CHR ''n'']
     else if n = 11 then [char_of (92::nat), CHR ''v'']
     else if n = 12 then [char_of (92::nat), CHR ''f'']
     else if n = 13 then [char_of (92::nat), CHR ''r'']
     else if n < 32 \<or> n = 127 then [char_of (92::nat), CHR ''x'', hex_digit (n div 16), hex_digit (n mod 16)]
     else [c])"

definition go_quote :: "string \<Rightarrow> string" where
  "go_quote s = [char_of (34::nat)] @ concat (map quote_char s) @ [char_of (34::nat)]"

subsection \<open>JSON values\<close>

text \<open>
  The values \<open>encoding/json\<close> decodes into \<open>any\<close>. A Go map is an association list: the model
  lists its entries in one order, and no function below depends on which.
\<close>

datatype json =
    JNull
  | JBool bool
  | JNum string
  | JStr string
  | JArr "json list"
  | JObj "(string \<times> json) list"

type_synonym payload = "(string \<times> json) list"

subsection \<open>Times\<close>

text \<open>
  A \<open>time.Time\<close> is a number of nanoseconds, with Go's zero time (year 1) as 0.
\<close>

type_synonym time = int

subsection \<open>Bounded retention\<close>

definition keep_last :: "nat \<Rightarrow> 'a list \<Rightarrow> 'a list" where
  "keep_last n xs = drop (length xs - n) xs"

lemma length_keep_last [retain_simps]: "length (keep_last n xs) = min n (length xs)"
  by (simp add: keep_last_def)

lemma keep_last_all [retain_simps]: "length xs \<le> n \<Longrightarrow> keep_last n xs = xs"
  by (simp add: keep_last_def)

lemma keep_last_snoc [retain_simps]:
  "length xs = n \<Longrightarrow> 0 < n \<Longrightarrow> keep_last n (xs @ [x]) = tl xs @ [x]"
  by (cases xs) (auto simp: keep_last_def)

lemma set_keep_last: "set (keep_last n xs) \<subseteq> set xs"
  by (simp add: keep_last_def set_drop_subset)

lemma last_keep_last: "xs \<noteq> [] \<Longrightarrow> 0 < n \<Longrightarrow> keep_last n xs \<noteq> [] \<and> last (keep_last n xs) = last xs"
  by (cases xs) (auto simp: keep_last_def last_drop)

end
