(* ===== verification/Go_OS.thy ===== *)
theory Go_OS
  imports Bottle_Prelude
begin

section \<open>The parts of Go's os and path/filepath packages the agent uses\<close>

text \<open>
  A file system is a map from cleaned paths to nodes; \<open>ios\<close> counts the operations done so
  far. An operation may fail for reasons outside the program (disk full, permissions, power
  loss): the environment \<open>io_env\<close> gives the fault of the n-th operation. A fault of a write
  may leave a truncated file behind (\<open>FailPartial\<close>), any other fault leaves the file system
  as it was. Symbolic links are followed by \<open>os_stat\<close> only, one level deep; the program reads
  and writes no file through a link.
\<close>

type_synonym path = string

datatype node = FileNode string nat | DirNode | LinkNode path

datatype fault = FailClean go_error | FailPartial nat go_error

record io_env =
  io_fault :: "nat \<Rightarrow> fault option"
  tmp_name :: "nat \<Rightarrow> string"

record os =
  fs :: "path \<Rightarrow> node option"
  ios :: nat

definition no_faults :: io_env where
  "no_faults = \<lparr>io_fault = (\<lambda>_. None), tmp_name = (\<lambda>_. ''1'')\<rparr>"

definition err_not_exist :: go_error where
  "err_not_exist = ErrSentinel ''fs.ErrNotExist'' ''no such file or directory''"

definition is_not_exist :: "go_error \<Rightarrow> bool" where
  "is_not_exist e \<longleftrightarrow> e = err_not_exist"

subsection \<open>Paths\<close>

fun clean_parts :: "bool \<Rightarrow> string list \<Rightarrow> string list \<Rightarrow> string list" where
  "clean_parts rooted acc [] = rev acc"
| "clean_parts rooted acc (p # ps) =
     (if p = '''' \<or> p = ''.'' then clean_parts rooted acc ps
      else if p = ''..'' then
        (if acc \<noteq> [] \<and> hd acc \<noteq> ''..'' then clean_parts rooted (tl acc) ps
         else if rooted then clean_parts rooted acc ps
         else clean_parts rooted (p # acc) ps)
      else clean_parts rooted (p # acc) ps)"

definition is_rooted :: "path \<Rightarrow> bool" where
  "is_rooted p \<longleftrightarrow> has_prefix p ''/''"

definition of_parts :: "bool \<Rightarrow> string list \<Rightarrow> path" where
  "of_parts rooted ps =
     (if rooted then ''/'' @ join_with ''/'' ps
      else if ps = [] then ''.'' else join_with ''/'' ps)"

text \<open>\<open>filepath.Clean\<close>, \<open>Join\<close>, \<open>Dir\<close> and \<open>Base\<close>.\<close>

definition path_parts :: "path \<Rightarrow> string list" where
  "path_parts p = clean_parts (is_rooted p) [] (split_on (CHR ''/'') p)"

definition path_clean :: "path \<Rightarrow> path" where
  "path_clean p = of_parts (is_rooted p) (path_parts p)"

definition path_join :: "string list \<Rightarrow> path" where
  "path_join es = (case dropWhile (\<lambda>e. e = []) es of
       [] \<Rightarrow> [] | e # rest \<Rightarrow> path_clean (join_with ''/'' (e # rest)))"

definition path_dir :: "path \<Rightarrow> path" where
  "path_dir p = path_clean (rev (dropWhile (\<lambda>c. c \<noteq> CHR ''/'') (rev p)))"

definition path_base :: "path \<Rightarrow> string" where
  "path_base p =
     (if p = [] then ''.''
      else let q = rev (dropWhile (\<lambda>c. c = CHR ''/'') (rev p)) in
        if q = [] then ''/'' else rev (takeWhile (\<lambda>c. c \<noteq> CHR ''/'') (rev q)))"

text \<open>Every directory from the top down to a path, the path included.\<close>

definition ancestors :: "path \<Rightarrow> path list" where
  "ancestors p = (let ps = path_parts p in
     map (\<lambda>n. of_parts (is_rooted p) (take n ps)) [1..<Suc (length ps)])"

subsection \<open>Operations\<close>

definition is_dir :: "(path \<Rightarrow> node option) \<Rightarrow> path \<Rightarrow> bool" where
  "is_dir f p \<longleftrightarrow> p = ''/'' \<or> p = ''.'' \<or> f p = Some DirNode"

definition is_link :: "node option \<Rightarrow> bool" where
  "is_link x \<longleftrightarrow> (case x of Some (LinkNode t) \<Rightarrow> True | _ \<Rightarrow> False)"

lemma is_link_iff [simp]: "is_link x \<longleftrightarrow> (\<exists>t. x = Some (LinkNode t))"
  by (auto simp: is_link_def split: option.split node.split)

definition tick :: "os \<Rightarrow> os" where
  "tick s = s\<lparr>ios := Suc (ios s)\<rparr>"

definition fault_error :: "fault \<Rightarrow> go_error" where
  "fault_error f = (case f of FailClean e \<Rightarrow> e | FailPartial _ e \<Rightarrow> e)"

definition os_read_file :: "io_env \<Rightarrow> path \<Rightarrow> os \<Rightarrow> (go_error + string) \<times> os" where
  "os_read_file io p s =
     (case io_fault io (ios s) of
        Some f \<Rightarrow> (Inl (fault_error f), tick s)
      | None \<Rightarrow>
          (case fs s (path_clean p) of
             None \<Rightarrow> (Inl err_not_exist, tick s)
           | Some (FileNode d m) \<Rightarrow> (Inr d, tick s)
           | Some _ \<Rightarrow> (Inl (ErrText ''is a directory''), tick s)))"

definition os_stat :: "io_env \<Rightarrow> path \<Rightarrow> os \<Rightarrow> go_error option \<times> os" where
  "os_stat io p s =
     (case io_fault io (ios s) of
        Some f \<Rightarrow> (Some (fault_error f), tick s)
      | None \<Rightarrow>
          (case fs s (path_clean p) of
             None \<Rightarrow> (if is_dir (fs s) (path_clean p) then None else Some err_not_exist, tick s)
           | Some (LinkNode t) \<Rightarrow>
               (if is_dir (fs s) (path_clean t) \<or> fs s (path_clean t) \<noteq> None then None
                else Some err_not_exist, tick s)
           | Some _ \<Rightarrow> (None, tick s)))"

definition os_mkdir_all :: "io_env \<Rightarrow> path \<Rightarrow> os \<Rightarrow> go_error option \<times> os" where
  "os_mkdir_all io p s =
     (case io_fault io (ios s) of
        Some f \<Rightarrow> (Some (fault_error f), tick s)
      | None \<Rightarrow>
          (if \<exists>q \<in> set (ancestors p). fs s q \<noteq> None \<and> fs s q \<noteq> Some DirNode
           then (Some (ErrText ''not a directory''), tick s)
           else (None, tick (s\<lparr>fs := (\<lambda>q. if q \<in> set (ancestors p) then Some DirNode else fs s q)\<rparr>))))"

text \<open>\<open>os.WriteFile\<close>: truncates an existing file and keeps its mode, creates a missing one.\<close>

definition put_file :: "path \<Rightarrow> string \<Rightarrow> nat \<Rightarrow> os \<Rightarrow> os" where
  "put_file p d mode s =
     s\<lparr>fs := (fs s)(p \<mapsto> FileNode d (case fs s p of Some (FileNode _ m) \<Rightarrow> m | _ \<Rightarrow> mode))\<rparr>"

definition os_write_file :: "io_env \<Rightarrow> path \<Rightarrow> string \<Rightarrow> nat \<Rightarrow> os \<Rightarrow> go_error option \<times> os" where
  "os_write_file io p d mode s =
     (let q = path_clean p in
      if \<not> is_dir (fs s) (path_dir q) then (Some err_not_exist, tick s)
      else if is_dir (fs s) q \<or> is_link (fs s q) then (Some (ErrText ''is a directory''), tick s)
      else (case io_fault io (ios s) of
          Some (FailClean e) \<Rightarrow> (Some e, tick s)
        | Some (FailPartial k e) \<Rightarrow> (Some e, tick (put_file q (take k d) mode s))
        | None \<Rightarrow> (None, tick (put_file q d mode s))))"

definition os_rename :: "io_env \<Rightarrow> path \<Rightarrow> path \<Rightarrow> os \<Rightarrow> go_error option \<times> os" where
  "os_rename io old new s =
     (let p = path_clean old; q = path_clean new in
      case io_fault io (ios s) of
        Some f \<Rightarrow> (Some (fault_error f), tick s)
      | None \<Rightarrow>
          (case fs s p of
             None \<Rightarrow> (Some err_not_exist, tick s)
           | Some n \<Rightarrow>
               if is_dir (fs s) q then (Some (ErrText ''file exists''), tick s)
               else (None, tick (s\<lparr>fs := (fs s)(p := None, q := Some n)\<rparr>))))"

definition os_remove :: "io_env \<Rightarrow> path \<Rightarrow> os \<Rightarrow> go_error option \<times> os" where
  "os_remove io p s =
     (case io_fault io (ios s) of
        Some f \<Rightarrow> (Some (fault_error f), tick s)
      | None \<Rightarrow>
          (case fs s (path_clean p) of
             None \<Rightarrow> (Some err_not_exist, tick s)
           | Some _ \<Rightarrow> (None, tick (s\<lparr>fs := (fs s)(path_clean p := None)\<rparr>))))"

definition os_symlink :: "io_env \<Rightarrow> path \<Rightarrow> path \<Rightarrow> os \<Rightarrow> go_error option \<times> os" where
  "os_symlink io target p s =
     (let q = path_clean p in
      case io_fault io (ios s) of
        Some f \<Rightarrow> (Some (fault_error f), tick s)
      | None \<Rightarrow>
          if fs s q \<noteq> None \<or> is_dir (fs s) q then (Some (ErrText ''file exists''), tick s)
          else (None, tick (s\<lparr>fs := (fs s)(q \<mapsto> LinkNode target)\<rparr>)))"

definition os_readlink :: "io_env \<Rightarrow> path \<Rightarrow> os \<Rightarrow> (go_error + path) \<times> os" where
  "os_readlink io p s =
     (case io_fault io (ios s) of
        Some f \<Rightarrow> (Inl (fault_error f), tick s)
      | None \<Rightarrow>
          (case fs s (path_clean p) of
             Some (LinkNode t) \<Rightarrow> (Inr t, tick s)
           | Some _ \<Rightarrow> (Inl (ErrText ''invalid argument''), tick s)
           | None \<Rightarrow> (Inl err_not_exist, tick s)))"

text \<open>
  \<open>os.CreateTemp\<close>: the name is the pattern completed with text chosen outside the program; a
  name that exists is never reused.
\<close>

definition os_create_temp :: "io_env \<Rightarrow> path \<Rightarrow> string \<Rightarrow> os \<Rightarrow> (go_error + path) \<times> os" where
  "os_create_temp io dir prefix s =
     (let p = path_join [dir, prefix @ tmp_name io (ios s)] in
      case io_fault io (ios s) of
        Some f \<Rightarrow> (Inl (fault_error f), tick s)
      | None \<Rightarrow>
          if \<not> is_dir (fs s) (path_dir p) then (Inl err_not_exist, tick s)
          else if fs s p \<noteq> None \<or> is_dir (fs s) p then (Inl (ErrText ''file exists''), tick s)
          else (Inr p, tick (s\<lparr>fs := (fs s)(p \<mapsto> FileNode [] 384)\<rparr>)))"

text \<open>Operations on the open temporary file, which is named by its path.\<close>

definition file_chmod :: "io_env \<Rightarrow> path \<Rightarrow> nat \<Rightarrow> os \<Rightarrow> go_error option \<times> os" where
  "file_chmod io p mode s =
     (case io_fault io (ios s) of
        Some f \<Rightarrow> (Some (fault_error f), tick s)
      | None \<Rightarrow>
          (case fs s p of
             Some (FileNode d m) \<Rightarrow> (None, tick (s\<lparr>fs := (fs s)(p \<mapsto> FileNode d mode)\<rparr>))
           | _ \<Rightarrow> (None, tick s)))"

definition file_write :: "io_env \<Rightarrow> path \<Rightarrow> string \<Rightarrow> os \<Rightarrow> go_error option \<times> os" where
  "file_write io p d s =
     (let put = (\<lambda>x. case fs s p of
          Some (FileNode old m) \<Rightarrow> s\<lparr>fs := (fs s)(p \<mapsto> FileNode (old @ x) m)\<rparr> | _ \<Rightarrow> s) in
      case io_fault io (ios s) of
        Some (FailClean e) \<Rightarrow> (Some e, tick s)
      | Some (FailPartial k e) \<Rightarrow> (Some e, tick (put (take k d)))
      | None \<Rightarrow> (None, tick (put d)))"

definition file_sync :: "io_env \<Rightarrow> os \<Rightarrow> go_error option \<times> os" where
  "file_sync io s = (map_option fault_error (io_fault io (ios s)), tick s)"

definition file_close :: "io_env \<Rightarrow> os \<Rightarrow> go_error option \<times> os" where
  "file_close io s = (map_option fault_error (io_fault io (ios s)), tick s)"

subsection \<open>What an operation leaves alone\<close>

lemmas os_op_defs =
  os_read_file_def os_stat_def os_mkdir_all_def os_write_file_def os_rename_def os_remove_def
  os_symlink_def os_readlink_def os_create_temp_def file_chmod_def file_write_def file_sync_def
  file_close_def tick_def put_file_def Let_def

lemmas os_splits = option.splits fault.splits node.splits if_splits

lemma read_file_fs [simp]: "fs (snd (os_read_file io p s)) = fs s"
  by (auto simp: os_op_defs split: os_splits)

lemma stat_fs [simp]: "fs (snd (os_stat io p s)) = fs s"
  by (auto simp: os_op_defs split: os_splits)

lemma readlink_fs [simp]: "fs (snd (os_readlink io p s)) = fs s"
  by (auto simp: os_op_defs split: os_splits)

lemma sync_fs [simp]: "fs (snd (file_sync io s)) = fs s"
  by (simp add: os_op_defs)

lemma close_fs [simp]: "fs (snd (file_close io s)) = fs s"
  by (simp add: os_op_defs)

lemma write_file_other: "q \<noteq> path_clean p \<Longrightarrow> fs (snd (os_write_file io p d m s)) q = fs s q"
  by (auto simp: os_op_defs split: os_splits)

lemma mkdir_all_file:
  "fs (snd (os_mkdir_all io p s)) q = Some (FileNode d m) \<longleftrightarrow> fs s q = Some (FileNode d m)"
  by (auto simp: os_op_defs split: os_splits)

lemma chmod_other: "q \<noteq> p \<Longrightarrow> fs (snd (file_chmod io p m s)) q = fs s q"
  by (auto simp: os_op_defs split: os_splits)

lemma file_write_other: "q \<noteq> p \<Longrightarrow> fs (snd (file_write io p d s)) q = fs s q"
  by (auto simp: os_op_defs split: os_splits)

lemma remove_other: "q \<noteq> path_clean p \<Longrightarrow> fs (snd (os_remove io p s)) q = fs s q"
  by (auto simp: os_op_defs split: os_splits)

lemma create_temp_other:
  "os_create_temp io dir pre s = (Inr p, s') \<Longrightarrow> fs s p = None \<and> (q \<noteq> p \<longrightarrow> fs s' q = fs s q)"
  by (auto simp: os_op_defs split: os_splits)

lemma create_temp_fail: "os_create_temp io dir pre s = (Inl e, s') \<Longrightarrow> fs s' = fs s"
  by (auto simp: os_op_defs split: os_splits)

lemma rename_fail: "os_rename io a b s = (Some e, s') \<Longrightarrow> fs s' = fs s"
  by (auto simp: os_op_defs split: os_splits)

lemma rename_ok:
  "os_rename io a b s = (None, s') \<Longrightarrow>
     fs s' = (fs s)(path_clean a := None, path_clean b := fs s (path_clean a))"
  by (auto simp: os_op_defs split: os_splits)

text \<open>The same facts about a given result.\<close>

lemma os_keptD:
  "os_read_file io p s = (r, s') \<Longrightarrow> fs s' = fs s"
  "os_stat io p s = (e, s') \<Longrightarrow> fs s' = fs s"
  "os_readlink io p s = (t, s') \<Longrightarrow> fs s' = fs s"
  "file_sync io s = (e, s') \<Longrightarrow> fs s' = fs s"
  "file_close io s = (e, s') \<Longrightarrow> fs s' = fs s"
  using read_file_fs [of io p s] stat_fs [of io p s] readlink_fs [of io p s] sync_fs [of io s] close_fs [of io s]
  by simp_all

lemma os_otherD:
  "os_write_file io p d m s = (e, s') \<Longrightarrow> q \<noteq> path_clean p \<Longrightarrow> fs s' q = fs s q"
  "file_write io p d s = (e, s') \<Longrightarrow> q \<noteq> p \<Longrightarrow> fs s' q = fs s q"
  "file_chmod io p m s = (e, s') \<Longrightarrow> q \<noteq> p \<Longrightarrow> fs s' q = fs s q"
  "os_remove io p s = (e, s') \<Longrightarrow> q \<noteq> path_clean p \<Longrightarrow> fs s' q = fs s q"
  "os_mkdir_all io p s = (e, s') \<Longrightarrow> q \<notin> set (ancestors p) \<Longrightarrow> fs s' q = fs s q"
  "os_symlink io t p s = (e, s') \<Longrightarrow> q \<noteq> path_clean p \<Longrightarrow> fs s' q = fs s q"
  using write_file_other [of q p io d m s] file_write_other [of q p io d s] chmod_other [of q p io m s]
    remove_other [of q p io s]
  by (simp_all) (auto simp: os_op_defs split: os_splits)

subsection \<open>Contents of files\<close>

text \<open>\<open>file_at s p\<close> is the content of the file at \<open>p\<close>; \<open>touches P\<close>: only files of \<open>P\<close> changed.\<close>

definition file_at :: "os \<Rightarrow> path \<Rightarrow> string option" where
  "file_at s p = (case fs s (path_clean p) of Some (FileNode d m) \<Rightarrow> Some d | _ \<Rightarrow> None)"

definition touches :: "path set \<Rightarrow> os \<Rightarrow> os \<Rightarrow> bool" where
  "touches P s s' \<longleftrightarrow> (\<forall>q. path_clean q \<notin> path_clean ` P \<longrightarrow> file_at s' q = file_at s q)"

lemma touches_refl: "touches P s s"
  by (simp add: touches_def)

lemma touches_trans: "touches P s s1 \<Longrightarrow> touches P s1 s2 \<Longrightarrow> touches P s s2"
  by (simp add: touches_def)

lemma touches_mono: "touches P s s' \<Longrightarrow> P \<subseteq> Q \<Longrightarrow> touches Q s s'"
  by (auto simp: touches_def)

lemma touchesD: "touches P s s' \<Longrightarrow> path_clean q \<notin> path_clean ` P \<Longrightarrow> file_at s' q = file_at s q"
  by (simp add: touches_def)

lemma read_file_touches: "os_read_file io p s = (r, s') \<Longrightarrow> touches P s s'"
  by (drule os_keptD(1)) (simp add: touches_def file_at_def)

text \<open>\<open>no_fault\<close>: an environment that never fails.\<close>

definition no_fault :: "io_env \<Rightarrow> bool" where
  "no_fault io \<longleftrightarrow> (\<forall>n. io_fault io n = None)"

lemma read_file_no_fault: "no_fault io \<Longrightarrow> os_read_file io p s = (Inl e, s') \<Longrightarrow> file_at s p = None"
  by (auto simp: no_fault_def os_read_file_def file_at_def split: os_splits)

lemma stat_no_fault: "no_fault io \<Longrightarrow> file_at s p \<noteq> None \<Longrightarrow> os_stat io p s = (r, s') \<Longrightarrow> r = None"
  by (auto simp: no_fault_def os_stat_def file_at_def split: os_splits)

lemma read_file_at: "os_read_file io p s = (Inr d, s') \<Longrightarrow> file_at s p = Some d"
  by (auto simp: os_read_file_def file_at_def split: os_splits)

lemma stat_touches: "os_stat io p s = (r, s') \<Longrightarrow> touches P s s'"
  by (drule os_keptD(2)) (simp add: touches_def file_at_def)

lemma write_file_touches: "os_write_file io p d m s = (r, s') \<Longrightarrow> p \<in> P \<Longrightarrow> touches P s s'"
  unfolding touches_def file_at_def
  by (metis imageI os_otherD(1))

lemma write_file_at: "os_write_file io p d m s = (None, s') \<Longrightarrow> file_at s' p = Some d"
  by (auto simp: os_op_defs file_at_def split: os_splits)

lemma mkdir_all_touches: "os_mkdir_all io p s = (r, s') \<Longrightarrow> touches P s s'"
  by (fastforce simp: os_op_defs touches_def file_at_def split: os_splits)

lemma rename_touches: "os_rename io a b s = (r, s') \<Longrightarrow> a \<in> P \<Longrightarrow> b \<in> P \<Longrightarrow> touches P s s'"
  by (cases r) (auto simp: touches_def file_at_def dest!: rename_fail rename_ok)

lemma rename_at: "os_rename io a b s = (None, s') \<Longrightarrow> file_at s' b = file_at s a"
  by (auto simp: file_at_def dest!: rename_ok)

end
