(* ===== verification/Jobs.thy ===== *)
theory Jobs
  imports Go_OS
begin

section \<open>Job records and job stores\<close>

text \<open>
  \<open>bottle-agent/internal/lifecycle\<close>: the \<open>Job\<close> record, the in-memory store \<open>MemoryJobs\<close> and
  the durable store \<open>FileJobs\<close>. The interface both implement is the locale \<open>job_store\<close>: what
  \<open>Get\<close> returns after a \<open>Put\<close>. Go's maps may be nil; reading a nil map yields nothing and
  writing to one panics, so \<open>completed\<close> and \<open>fj_jobs\<close> are optional maps (\<open>None\<close> is nil).
\<close>

datatype job_state = Queued | Running | Succeeded | Failed | NeedsInput

fun state_string :: "job_state \<Rightarrow> string" where
  "state_string Queued = ''queued''"
| "state_string Running = ''running''"
| "state_string Succeeded = ''succeeded''"
| "state_string Failed = ''failed''"
| "state_string NeedsInput = ''needs_input''"

record job =
  job_id :: string
  job_kind :: string
  job_state :: job_state
  job_phase :: string
  job_message :: string
  changed_paths :: "string list"
  completed :: "(string \<Rightarrow> bool option) option"
  updated_at :: time

text \<open>Reading a map that may be nil.\<close>

definition nil_lookup :: "(string \<Rightarrow> 'a option) option \<Rightarrow> string \<Rightarrow> 'a option" where
  "nil_lookup m k = (case m of None \<Rightarrow> None | Some f \<Rightarrow> f k)"

lemma nil_lookup_simps [simp]:
  "nil_lookup None k = None" "nil_lookup (Some m) k = m k"
  by (simp_all add: nil_lookup_def)

definition is_completed :: "job \<Rightarrow> string \<Rightarrow> bool" where
  "is_completed j k = (nil_lookup (completed j) k = Some True)"

text \<open>\<open>cloneJob\<close>: copies the slice, and copies the map into a fresh one that is never nil.\<close>

definition clone_job :: "job \<Rightarrow> job" where
  "clone_job j = j\<lparr>changed_paths := [] @ changed_paths j,
                   completed := Some (\<lambda>k. nil_lookup (completed j) k)\<rparr>"

lemma clone_job_simps [simp]:
  "job_id (clone_job j) = job_id j" "job_kind (clone_job j) = job_kind j"
  "job_state (clone_job j) = job_state j" "job_phase (clone_job j) = job_phase j"
  "job_message (clone_job j) = job_message j" "changed_paths (clone_job j) = changed_paths j"
  "updated_at (clone_job j) = updated_at j" "is_completed (clone_job j) k = is_completed j k"
  "completed (clone_job j) = Some (\<lambda>k. nil_lookup (completed j) k)"
  by (simp_all add: clone_job_def is_completed_def nil_lookup_def)

lemma clone_job_idem [simp]: "clone_job (clone_job j) = clone_job j"
  by (simp add: clone_job_def nil_lookup_def)

lemma clone_job_updated [simp]: "clone_job (j\<lparr>updated_at := t\<rparr>) = (clone_job j)\<lparr>updated_at := t\<rparr>"
  by (simp add: clone_job_def)

text \<open>Writing one checkpoint, \<open>job.Completed[k] = true\<close>, panics on a nil map.\<close>

definition mark_completed :: "string \<Rightarrow> job \<Rightarrow> ('s, job) prog" where
  "mark_completed k j = (case completed j of
       None \<Rightarrow> panicP ''assignment to entry in nil map''
     | Some m \<Rightarrow> retP (j\<lparr>completed := Some (m(k \<mapsto> True))\<rparr>))"

subsection \<open>The interface\<close>

text \<open>
  \<open>Put\<close> of the file store panics when the state cannot be persisted, hence its outcome; \<open>Get\<close>
  returns Go's pair of a job and a found flag, here an option.
\<close>

record 'j jobs =
  jGet :: "string \<Rightarrow> 'j \<Rightarrow> job option"
  jPut :: "job \<Rightarrow> 'j \<Rightarrow> unit outcome \<times> 'j"

locale job_store =
  fixes get :: "string \<Rightarrow> 'j \<Rightarrow> job option"
    and put :: "job \<Rightarrow> 'j \<Rightarrow> unit outcome \<times> 'j"
    and inv :: "'j \<Rightarrow> bool"
  assumes get_clone: "inv s \<Longrightarrow> get i s = Some j \<Longrightarrow> completed j \<noteq> None"
    and get_id: "inv s \<Longrightarrow> get i s = Some j \<Longrightarrow> job_id j = i"
    and put_get_same: "inv s \<Longrightarrow> put j s = (Ret (), s') \<Longrightarrow>
          \<exists>t. get (job_id j) s' = Some (clone_job (j\<lparr>updated_at := t\<rparr>))"
    and put_get_other: "inv s \<Longrightarrow> put j s = (r, s') \<Longrightarrow> i \<noteq> job_id j \<Longrightarrow> get i s' = get i s"
    and put_inv: "inv s \<Longrightarrow> put j s = (r, s') \<Longrightarrow> inv s'"
begin

text \<open>Two puts of one job: the second one is what a later \<open>Get\<close> sees.\<close>

lemma put_put_get:
  assumes "inv s" "put j s = (Ret (), s1)" "put j' s1 = (Ret (), s2)" "job_id j' = job_id j"
  shows "\<exists>t. get (job_id j) s2 = Some (clone_job (j'\<lparr>updated_at := t\<rparr>))"
  using put_get_same [OF put_inv [OF assms(1,2)] assms(3)] assms(4) by simp

end

text \<open>A store whose \<open>Put\<close> never panics, as one that keeps its jobs in memory.\<close>

locale total_job_store = job_store +
  assumes put_total: "\<exists>s'. put j s = (Ret (), s')"

subsection \<open>MemoryJobs\<close>

text \<open>\<open>now n\<close> is the n-th reading of the clock (\<open>time.Now().UTC()\<close>).\<close>

record memory_jobs =
  mem_jobs :: "string \<Rightarrow> job option"
  mem_reads :: nat

definition new_memory_jobs :: memory_jobs where
  "new_memory_jobs = \<lparr>mem_jobs = Map.empty, mem_reads = 0\<rparr>"

definition memory_get :: "string \<Rightarrow> memory_jobs \<Rightarrow> job option" where
  "memory_get i s = map_option clone_job (mem_jobs s i)"

definition memory_put :: "(nat \<Rightarrow> time) \<Rightarrow> job \<Rightarrow> memory_jobs \<Rightarrow> unit outcome \<times> memory_jobs" where
  "memory_put now j s =
     (let j = j\<lparr>updated_at := now (mem_reads s)\<rparr> in
      (Ret (), s\<lparr>mem_jobs := (mem_jobs s)(job_id j \<mapsto> clone_job j), mem_reads := Suc (mem_reads s)\<rparr>))"

definition memory_store :: "(nat \<Rightarrow> time) \<Rightarrow> memory_jobs jobs" where
  "memory_store now = \<lparr>jGet = memory_get, jPut = memory_put now\<rparr>"

definition memory_inv :: "memory_jobs \<Rightarrow> bool" where
  "memory_inv s \<longleftrightarrow> (\<forall>i j. mem_jobs s i = Some j \<longrightarrow> job_id j = i)"

lemma memory_inv_new: "memory_inv new_memory_jobs"
  by (simp add: memory_inv_def new_memory_jobs_def)

interpretation mem: total_job_store memory_get "memory_put now" memory_inv for now
proof unfold_locales
  fix s i j
  assume "memory_inv s" "memory_get i s = Some j"
  then show "completed j \<noteq> None" "job_id j = i"
    by (auto simp: memory_get_def memory_inv_def)
next
  fix s j s'
  assume "memory_put now j s = (Ret (), s')"
  then have "memory_get (job_id j) s' = Some (clone_job (j\<lparr>updated_at := now (mem_reads s)\<rparr>))"
    by (auto simp: memory_put_def memory_get_def Let_def)
  then show "\<exists>t. memory_get (job_id j) s' = Some (clone_job (j\<lparr>updated_at := t\<rparr>))" ..
qed (auto simp: memory_put_def memory_get_def memory_inv_def Let_def)

subsection \<open>FileJobs\<close>

text \<open>
  The durable store: the map in memory, the path, and the file system. \<open>marshal\<close> and
  \<open>unmarshal\<close> are the JSON text of the job map; what is used of them is that decoding an
  encoded map gives it back (\<open>job_codec\<close> below). The map is nil when the file holds the JSON
  value null: \<open>json.Unmarshal\<close> then replaces the empty map of the literal by a nil one, every
  \<open>Get\<close> finds nothing, and the first \<open>Put\<close> panics on the assignment, before anything is
  written.
\<close>

record job_codec =
  marshal_jobs :: "(string \<Rightarrow> job option) option \<Rightarrow> string"
  unmarshal_jobs :: "string \<Rightarrow> go_error + (string \<Rightarrow> job option) option"

record file_jobs =
  fj_path :: path
  fj_jobs :: "(string \<Rightarrow> job option) option"
  fj_os :: os
  fj_reads :: nat

definition new_file_jobs :: "io_env \<Rightarrow> job_codec \<Rightarrow> path \<Rightarrow> os \<Rightarrow> (go_error + file_jobs) \<times> os" where
  "new_file_jobs io cd p s =
     (case os_read_file io p s of
        (Inl e, s') \<Rightarrow>
          if is_not_exist e then (Inr \<lparr>fj_path = p, fj_jobs = Some Map.empty, fj_os = s', fj_reads = 0\<rparr>, s')
          else (Inl e, s')
      | (Inr payload, s') \<Rightarrow>
          (case unmarshal_jobs cd payload of
             Inl e \<Rightarrow> (Inl e, s')
           | Inr m \<Rightarrow> (Inr \<lparr>fj_path = p, fj_jobs = m, fj_os = s', fj_reads = 0\<rparr>, s')))"

text \<open>
  \<open>flush\<close>: write a temporary file beside the target, then rename it over the target; the
  deferred \<open>os.Remove\<close> of the temporary name runs on every path after its creation.
\<close>

definition flush_body :: "io_env \<Rightarrow> path \<Rightarrow> path \<Rightarrow> string \<Rightarrow> os \<Rightarrow> go_error option \<times> os" where
  "flush_body io path name payload s =
     (case file_chmod io name 384 s of
        (Some e, s) \<Rightarrow> (Some e, snd (file_close io s))
      | (None, s) \<Rightarrow>
     (case file_write io name payload s of
        (Some e, s) \<Rightarrow> (Some e, snd (file_close io s))
      | (None, s) \<Rightarrow>
     (case file_sync io s of
        (Some e, s) \<Rightarrow> (Some e, snd (file_close io s))
      | (None, s) \<Rightarrow>
     (case file_close io s of
        (Some e, s) \<Rightarrow> (Some e, s)
      | (None, s) \<Rightarrow> os_rename io name path s))))"

definition flush :: "io_env \<Rightarrow> job_codec \<Rightarrow> path \<Rightarrow> (string \<Rightarrow> job option) option \<Rightarrow> os \<Rightarrow> go_error option \<times> os" where
  "flush io cd path js s =
     (case os_mkdir_all io (path_dir path) s of
        (Some e, s) \<Rightarrow> (Some e, s)
      | (None, s) \<Rightarrow>
          let payload = marshal_jobs cd js in
          (case os_create_temp io (path_dir path) ''.jobs-'' s of
             (Inl e, s) \<Rightarrow> (Some e, s)
           | (Inr name, s) \<Rightarrow>
               (case flush_body io path name payload s of
                  (r, s) \<Rightarrow> (r, snd (os_remove io name s)))))"

definition file_get :: "string \<Rightarrow> file_jobs \<Rightarrow> job option" where
  "file_get i f = map_option clone_job (nil_lookup (fj_jobs f) i)"

definition file_put :: "io_env \<Rightarrow> job_codec \<Rightarrow> (nat \<Rightarrow> time) \<Rightarrow> job \<Rightarrow> file_jobs \<Rightarrow> unit outcome \<times> file_jobs" where
  "file_put io cd now j f =
     (let j = j\<lparr>updated_at := now (fj_reads f)\<rparr>;
          f = f\<lparr>fj_reads := Suc (fj_reads f)\<rparr>
      in case fj_jobs f of
           None \<Rightarrow> (Panic ''assignment to entry in nil map'', f)
         | Some m \<Rightarrow>
             (let f = f\<lparr>fj_jobs := Some (m(job_id j \<mapsto> clone_job j))\<rparr>
              in case flush io cd (fj_path f) (fj_jobs f) (fj_os f) of
                   (Some e, s) \<Rightarrow> (Panic (''persist lifecycle job: '' @ error_text e), f\<lparr>fj_os := s\<rparr>)
                 | (None, s) \<Rightarrow> (Ret (), f\<lparr>fj_os := s\<rparr>)))"

definition file_store :: "io_env \<Rightarrow> job_codec \<Rightarrow> (nat \<Rightarrow> time) \<Rightarrow> file_jobs jobs" where
  "file_store io cd now = \<lparr>jGet = file_get, jPut = file_put io cd now\<rparr>"

definition file_inv :: "file_jobs \<Rightarrow> bool" where
  "file_inv f \<longleftrightarrow> (\<forall>i j. nil_lookup (fj_jobs f) i = Some j \<longrightarrow> job_id j = i)"

lemma file_put_jobs:
  "file_put io cd now j f = (r, f') \<Longrightarrow>
     fj_jobs f' = map_option (\<lambda>m. m(job_id j \<mapsto> clone_job (j\<lparr>updated_at := now (fj_reads f)\<rparr>))) (fj_jobs f) \<and>
     fj_path f' = fj_path f \<and> (r = Ret () \<longrightarrow> fj_jobs f \<noteq> None)"
  by (auto simp: file_put_def Let_def split: prod.splits option.splits)

lemma nil_lookup_put [simp]:
  "nil_lookup (map_option (\<lambda>m. m(k \<mapsto> v)) o') i =
     (if i = k \<and> o' \<noteq> None then Some v else nil_lookup o' i)"
  by (auto simp: nil_lookup_def split: option.splits)

interpretation filej: job_store file_get "file_put io cd now" file_inv for io cd now
proof unfold_locales
  fix s i j
  assume "file_inv s" "file_get i s = Some j"
  then show "completed j \<noteq> None" "job_id j = i"
    by (auto simp: file_get_def file_inv_def)
next
  fix s j s'
  assume "file_put io cd now j s = (Ret (), s')"
  from file_put_jobs [OF this]
  have "file_get (job_id j) s' = Some (clone_job (j\<lparr>updated_at := now (fj_reads s)\<rparr>))"
    by (simp add: file_get_def)
  then show "\<exists>t. file_get (job_id j) s' = Some (clone_job (j\<lparr>updated_at := t\<rparr>))" ..
qed (auto simp: file_get_def file_inv_def dest!: file_put_jobs split: if_splits)

subsection \<open>The file on disk\<close>

lemma rename_node:
  assumes "os_rename io a b s = (None, s')" "a = path_clean a"
  shows "fs s' (path_clean b) = fs s a"
  using rename_ok [OF assms(1)] assms(2) by simp

lemma flush_body_path:
  assumes run: "flush_body io path name payload s = (r, s')"
    and ne: "path_clean path \<noteq> name" and nm: "path_clean name = name"
    and nd: "fs s name = Some (FileNode [] m)"
  shows "(r \<noteq> None \<longrightarrow> fs s' (path_clean path) = fs s (path_clean path)) \<and>
         (r = None \<longrightarrow> fs s' (path_clean path) = Some (FileNode payload 384))"
  using run ne nm nd
  by (auto simp: flush_body_def os_op_defs fault_error_def split: os_splits prod.splits)

lemma path_join_tmp_clean:
  "os_create_temp io dir pre s = (Inr name, s') \<Longrightarrow> name = path_join [dir, pre @ tmp_name io (ios s)]"
  by (auto simp: os_op_defs split: os_splits)

lemma create_temp_node:
  "os_create_temp io dir pre s = (Inr name, s') \<Longrightarrow> fs s' name = Some (FileNode [] 384)"
  by (auto simp: os_op_defs split: os_splits)

text \<open>The names a store's temporary files can get: none is the store's own file.\<close>

definition tmp_safe :: "io_env \<Rightarrow> path \<Rightarrow> bool" where
  "tmp_safe io path \<longleftrightarrow>
     (\<forall>n. let name = path_join [path_dir path, ''.jobs-'' @ tmp_name io n]
          in name \<noteq> path_clean path \<and> path_clean name = name)"

lemma flush_ok:
  assumes run: "flush io cd path js s = (None, s')" and safe: "tmp_safe io path"
  shows "fs s' (path_clean path) = Some (FileNode (marshal_jobs cd js) 384)"
proof -
  obtain s1 where m: "os_mkdir_all io (path_dir path) s = (None, s1)"
    using run by (auto simp: flush_def split: prod.splits option.splits)
  then obtain name s2 where c: "os_create_temp io (path_dir path) ''.jobs-'' s1 = (Inr name, s2)"
    using run by (auto simp: flush_def Let_def split: prod.splits sum.splits)
  obtain s3 where b: "flush_body io path name (marshal_jobs cd js) s2 = (None, s3)"
    and s': "s' = snd (os_remove io name s3)"
    using run m c by (auto simp: flush_def Let_def split: prod.splits)
  have ne: "path_clean path \<noteq> name" "path_clean name = name"
    using safe path_join_tmp_clean [OF c] by (auto simp: tmp_safe_def Let_def)
  then have "fs s' (path_clean path) = fs s3 (path_clean path)"
    unfolding s' by (intro remove_other) auto
  then show ?thesis using flush_body_path [OF b ne create_temp_node [OF c]] by simp
qed

lemma flush_failed:
  assumes run: "flush io cd path js s = (Some e, s')" and safe: "tmp_safe io path"
    and old: "fs s (path_clean path) = Some (FileNode d m)"
  shows "fs s' (path_clean path) = Some (FileNode d m)"
proof -
  obtain e1 s1 where m: "os_mkdir_all io (path_dir path) s = (e1, s1)" by fastforce
  have p1: "fs s1 (path_clean path) = Some (FileNode d m)"
    using mkdir_all_file [of io "path_dir path" s "path_clean path" d m] m old by simp
  obtain c s2 where c: "os_create_temp io (path_dir path) ''.jobs-'' s1 = (c, s2)" by fastforce
  show ?thesis
  proof (cases "e1 = None \<and> isl c")
    case True
    then obtain e2 where "c = Inl e2" by (auto simp: isl_def)
    with run m c p1 True create_temp_fail [of io _ _ s1 e2 s2] show ?thesis
      by (auto simp: flush_def)
  next
    case not_early: False
    show ?thesis
    proof (cases e1)
      case (Some _)
      with run m p1 show ?thesis by (auto simp: flush_def)
    next
      case None
      then obtain name where cn: "c = Inr name" using not_early by (cases c) auto
      obtain s3 where b: "flush_body io path name (marshal_jobs cd js) s2 = (Some e, s3)"
        and s': "s' = snd (os_remove io name s3)"
        using run m None c cn by (auto simp: flush_def Let_def split: prod.splits)
      have ne: "path_clean path \<noteq> name" "path_clean name = name"
        using safe path_join_tmp_clean [OF c [unfolded cn]] by (auto simp: tmp_safe_def Let_def)
      then have "fs s' (path_clean path) = fs s3 (path_clean path)"
        unfolding s' by (intro remove_other) auto
      moreover have "fs s2 (path_clean path) = fs s1 (path_clean path)"
        using create_temp_other [OF c [unfolded cn], of "path_clean path"] ne by auto
      ultimately show ?thesis
        using flush_body_path [OF b ne create_temp_node [OF c [unfolded cn]]] p1 by simp
    qed
  qed
qed

lemma file_put_flush:
  assumes "file_put io cd now j f = (r, f')" and "fj_jobs f \<noteq> None"
  shows "\<exists>e. flush io cd (fj_path f) (fj_jobs f') (fj_os f) = (e, fj_os f') \<and> (e = None \<longleftrightarrow> r = Ret ())"
  using assms by (auto simp: file_put_def Let_def split: prod.splits option.splits)

text \<open>A store loaded from a file that holds null: nothing is found, and \<open>Put\<close> writes nothing.\<close>

lemma file_put_nil:
  assumes "fj_jobs f = None"
  shows "file_get i f = None"
    and "file_put io cd now j f = (Panic ''assignment to entry in nil map'', f\<lparr>fj_reads := Suc (fj_reads f)\<rparr>)"
  using assms by (simp_all add: file_get_def nil_lookup_def file_put_def)


subsection \<open>Properties of the durable store\<close>

text \<open>
  C4. Replacing the job file is atomic: whatever operation fails, and wherever the process stops,
  the file holds either its old content untouched or the complete new one with mode 0600, and it
  holds the new one exactly when \<open>Put\<close> returns instead of panicking.
\<close>

theorem file_put_atomic:
  assumes "file_put io cd now j f = (r, f')" and "tmp_safe io (fj_path f)"
    and "fs (fj_os f) (path_clean (fj_path f)) = Some (FileNode d m)"
  shows "fs (fj_os f') (path_clean (fj_path f)) =
    (if r = Ret () then Some (FileNode (marshal_jobs cd (fj_jobs f')) 384) else Some (FileNode d m))"
proof (cases "fj_jobs f")
  case None
  with assms(1,3) show ?thesis by (auto simp: file_put_nil(2))
next
  case (Some _)
  then obtain e where fl: "flush io cd (fj_path f) (fj_jobs f') (fj_os f) = (e, fj_os f')"
    and e: "e = None \<longleftrightarrow> r = Ret ()"
    using file_put_flush [OF assms(1)] by blast
  then show ?thesis
    using flush_ok [of io cd _ _ _ _, OF _ assms(2)] flush_failed [OF _ assms(2,3)] by (cases e) auto
qed

text \<open>
  Jobs survive a restart: after a \<open>Put\<close> that returned, loading the file again gives a store that
  answers every \<open>Get\<close> as the running one does, provided the JSON codec decodes what it encoded.
\<close>

theorem file_jobs_survive_restart:
  assumes "file_put io cd now j f = (Ret (), f')" and "tmp_safe io (fj_path f)"
    and "unmarshal_jobs cd (marshal_jobs cd (fj_jobs f')) = Inr (fj_jobs f')"
    and "io_fault io2 (ios (fj_os f')) = None"
  shows "\<exists>g s. new_file_jobs io2 cd (fj_path f) (fj_os f') = (Inr g, s) \<and>
    fj_path g = fj_path f' \<and> (\<forall>i. file_get i g = file_get i f')"
proof -
  have "flush io cd (fj_path f) (fj_jobs f') (fj_os f) = (None, fj_os f')"
    using file_put_flush [OF assms(1)] file_put_jobs [OF assms(1)] by auto
  from flush_ok [OF this assms(2)] show ?thesis
    using assms(3,4) file_put_jobs [OF assms(1)]
    by (simp add: new_file_jobs_def os_read_file_def file_get_def)
qed

subsection \<open>Witnesses\<close>

definition test_job :: job where
  "test_job = \<lparr>job_id = ''durable-1'', job_kind = ''provision'', job_state = Running, job_phase = ''packages'',
     job_message = [], changed_paths = [], completed = Some [''backup'' \<mapsto> True], updated_at = 0\<rparr>"

definition test_codec :: job_codec where
  "test_codec = \<lparr>marshal_jobs = (\<lambda>m. ''{durable-1}''),
     unmarshal_jobs = (\<lambda>t. Inr (Some [''durable-1'' \<mapsto> clone_job (test_job\<lparr>updated_at := 7\<rparr>)]))\<rparr>"

definition test_jobs :: file_jobs where
  "test_jobs = \<lparr>fj_path = ''/state/jobs.json'', fj_jobs = Some Map.empty,
     fj_os = \<lparr>fs = [''/state'' \<mapsto> DirNode, ''/state/jobs.json'' \<mapsto> FileNode ''{}'' 384], ios = 0\<rparr>, fj_reads = 0\<rparr>"

lemmas path_eval = path_dir_def path_clean_def path_parts_def of_parts_def is_rooted_def path_join_def
  ancestors_def is_dir_def

lemmas put_eval = file_put_def flush_def flush_body_def os_op_defs path_eval no_faults_def fault_error_def

text \<open>One environment without faults and one whose disk is full when the temporary file is written.\<close>

definition full_disk :: io_env where
  "full_disk = no_faults\<lparr>io_fault := (\<lambda>n. if n < 3 then None else Some (FailPartial 1 (ErrText ''no space left on device'')))\<rparr>"

lemma test_put_ok:
  "\<exists>f'. file_put no_faults test_codec (\<lambda>_. 7) test_job test_jobs = (Ret (), f') \<and>
     fj_jobs f' = Some [''durable-1'' \<mapsto> clone_job (test_job\<lparr>updated_at := 7\<rparr>)]"
  by (simp add: put_eval test_jobs_def test_codec_def test_job_def)

lemma test_put_full:
  "\<exists>p f'. file_put full_disk test_codec (\<lambda>_. 7) test_job test_jobs = (Panic p, f')"
  by (simp add: put_eval full_disk_def test_jobs_def test_codec_def test_job_def)

lemma test_tmp_safe: "tmp_safe no_faults (fj_path test_jobs)" "tmp_safe full_disk (fj_path test_jobs)"
  by (simp_all add: tmp_safe_def full_disk_def no_faults_def test_jobs_def path_eval)

theorem file_put_atomic_witness:
  "\<exists>p f'. file_put full_disk test_codec (\<lambda>_. 7) test_job test_jobs = (Panic p, f') \<and>
     fs (fj_os f') (path_clean (fj_path test_jobs)) = Some (FileNode ''{}'' 384)"
proof -
  obtain p f' where run: "file_put full_disk test_codec (\<lambda>_. 7) test_job test_jobs = (Panic p, f')"
    using test_put_full by blast
  have "fs (fj_os test_jobs) (path_clean (fj_path test_jobs)) = Some (FileNode ''{}'' 384)"
    by (simp add: test_jobs_def path_eval)
  from file_put_atomic [OF run test_tmp_safe(2) this] run show ?thesis by auto
qed

theorem file_jobs_survive_restart_witness:
  "\<exists>f' g s. file_put no_faults test_codec (\<lambda>_. 7) test_job test_jobs = (Ret (), f') \<and>
     new_file_jobs no_faults test_codec (fj_path test_jobs) (fj_os f') = (Inr g, s) \<and>
     file_get ''durable-1'' g = Some (clone_job (test_job\<lparr>updated_at := 7\<rparr>))"
proof -
  obtain f' where run: "file_put no_faults test_codec (\<lambda>_. 7) test_job test_jobs = (Ret (), f')"
    and f': "fj_jobs f' = Some [''durable-1'' \<mapsto> clone_job (test_job\<lparr>updated_at := 7\<rparr>)]"
    using test_put_ok by blast
  have "unmarshal_jobs test_codec (marshal_jobs test_codec (fj_jobs f')) = Inr (fj_jobs f')"
    by (simp add: test_codec_def f')
  from file_jobs_survive_restart [OF run test_tmp_safe(1) this, of no_faults] run f' show ?thesis
    by (fastforce simp: no_faults_def file_get_def nil_lookup_def)
qed

end
