(* ===== verification/Lifecycle.thy ===== *)
theory Lifecycle
  imports Jobs
begin

section \<open>The host interface and the job bookkeeping of a workflow\<close>

text \<open>
  \<open>bottle-agent/internal/lifecycle/lifecycle.go\<close>, what the provisioner and the updater share. The
  \<open>Host\<close> interface is a record of functions on a world of any type, so an answer may depend on
  everything that happened before; \<open>calls\<close> is a ghost log of every host call with its answer
  and of every job put. The job store is any implementation of \<open>job_store\<close>.
\<close>

record 'w host =
  hArchitecture :: "'w \<Rightarrow> string \<times> 'w"
  hIsBookworm :: "'w \<Rightarrow> bool \<times> 'w"
  hFreeStorageMB :: "'w \<Rightarrow> int \<times> 'w"
  hHasEthernet :: "string \<Rightarrow> 'w \<Rightarrow> bool \<times> 'w"
  hRadioCount :: "'w \<Rightarrow> int \<times> 'w"
  hGPSVisible :: "'w \<Rightarrow> bool \<times> 'w"
  hConfig :: "string \<Rightarrow> 'w \<Rightarrow> (string \<times> bool) \<times> 'w"
  hBackup :: "string list \<Rightarrow> 'w \<Rightarrow> go_error option \<times> 'w"
  hRun :: "string \<Rightarrow> 'w \<Rightarrow> go_error option \<times> 'w"
  hHealthCheck :: "'w \<Rightarrow> go_error option \<times> 'w"
  hFetch :: "string \<Rightarrow> 'w \<Rightarrow> (go_error + string) \<times> 'w"
  hStage :: "string \<Rightarrow> string \<Rightarrow> 'w \<Rightarrow> go_error option \<times> 'w"
  hActiveRelease :: "'w \<Rightarrow> string \<times> 'w"
  hActivate :: "string \<Rightarrow> 'w \<Rightarrow> go_error option \<times> 'w"
  hRollback :: "string \<Rightarrow> 'w \<Rightarrow> go_error option \<times> 'w"

datatype host_call =
    CArchitecture string
  | CBookworm bool
  | CFreeStorage int
  | CEthernet string bool
  | CRadios int
  | CGPS bool
  | CConfig string bool
  | CBackup "string list" "go_error option"
  | CRun string "go_error option"
  | CHealth "go_error option"
  | CFetch string "go_error + string"
  | CActiveRelease string
  | CStage string string "go_error option"
  | CActivate string "go_error option"
  | CRollback string "go_error option"
  | CPut job

record ('w, 'j) lstate =
  world :: 'w
  store :: 'j
  calls :: "host_call list"

definition host_op :: "('w \<Rightarrow> 'a \<times> 'w) \<Rightarrow> ('a \<Rightarrow> host_call) \<Rightarrow> (('w, 'j) lstate, 'a) prog" where
  "host_op f ev s = (case f (world s) of (a, w) \<Rightarrow> (Ret a, s\<lparr>world := w, calls := calls s @ [ev a]\<rparr>))"

definition jobs_get :: "'j jobs \<Rightarrow> string \<Rightarrow> (('w, 'j) lstate, job option) prog" where
  "jobs_get js i s = (Ret (jGet js i (store s)), s)"

definition jobs_put :: "'j jobs \<Rightarrow> job \<Rightarrow> (('w, 'j) lstate, unit) prog" where
  "jobs_put js j s = (case jPut js j (store s) of (r, st) \<Rightarrow> (r, s\<lparr>store := st, calls := calls s @ [CPut j]\<rparr>))"

text \<open>A result is Go's pair \<open>(Job, error)\<close>; \<open>None\<close> for the job is the zero value \<open>Job{}\<close>.\<close>

type_synonym job_result = "job option \<times> go_error option"

subsection \<open>Symbolic execution\<close>

lemma wp_host_op [prog_simps]:
  "wp (host_op f ev) Q s \<longleftrightarrow>
     (\<forall>a w. f (world s) = (a, w) \<longrightarrow> Q (Ret a) (s\<lparr>world := w, calls := calls s @ [ev a]\<rparr>))"
  by (auto simp: wp_def host_op_def split: prod.splits)

lemma wp_jobs_get [prog_simps]: "wp (jobs_get js i) Q s \<longleftrightarrow> Q (Ret (jGet js i (store s))) s"
  by (simp add: wp_def jobs_get_def)

lemma wp_jobs_put [prog_simps]:
  "wp (jobs_put js j) Q s \<longleftrightarrow>
     (\<forall>r st. jPut js j (store s) = (r, st) \<longrightarrow> Q r (s\<lparr>store := st, calls := calls s @ [CPut j]\<rparr>))"
  by (auto simp: wp_def jobs_put_def split: prod.splits)

lemma wp_mark_completed [prog_simps]:
  "wp (mark_completed k j) Q s \<longleftrightarrow>
     (case completed j of None \<Rightarrow> Q (Panic ''assignment to entry in nil map'') s
      | Some m \<Rightarrow> Q (Ret (j\<lparr>completed := Some (m(k \<mapsto> True))\<rparr>)) s)"
  by (simp add: mark_completed_def prog_simps split: option.splits)

text \<open>The effects on the host: what a run changes there, as opposed to what it asks.\<close>

fun call_error :: "host_call \<Rightarrow> go_error option" where
  "call_error (CBackup ps e) = e"
| "call_error (CRun c e) = e"
| "call_error (CHealth e) = e"
| "call_error (CStage v d e) = e"
| "call_error (CActivate v e) = e"
| "call_error (CRollback v e) = e"
| "call_error _ = None"

fun is_effect :: "host_call \<Rightarrow> bool" where
  "is_effect (CBackup ps e) = True"
| "is_effect (CRun c e) = True"
| "is_effect (CHealth e) = True"
| "is_effect (CStage v d e) = True"
| "is_effect (CActivate v e) = True"
| "is_effect (CRollback v e) = True"
| "is_effect _ = False"

definition host_effects :: "host_call list \<Rightarrow> host_call list" where
  "host_effects cs = filter is_effect cs"

lemma host_effects_simps [simp]:
  "host_effects [] = []"
  "host_effects (xs @ ys) = host_effects xs @ host_effects ys"
  "host_effects (c # cs) = (if is_effect c then c # host_effects cs else host_effects cs)"
  by (simp_all add: host_effects_def)

definition all_ok :: "host_call list \<Rightarrow> bool" where
  "all_ok log \<longleftrightarrow> (\<forall>c \<in> set log. call_error c = None)"

lemma all_ok_simps [simp]:
  "all_ok []" "all_ok (c # log) \<longleftrightarrow> call_error c = None \<and> all_ok log"
  "all_ok (xs @ ys) \<longleftrightarrow> all_ok xs \<and> all_ok ys"
  by (auto simp: all_ok_def)

subsection \<open>The abstract workflow\<close>

text \<open>
  What a workflow promises: the actions of a plan are performed in order, each once, until
  one fails; nothing is performed after a failure.
\<close>

datatype action = DoBackup "string list" | DoRun string | DoHealth | DoStage string string | DoActivate string

fun effect_of :: "action \<Rightarrow> go_error option \<Rightarrow> host_call" where
  "effect_of (DoBackup ps) e = CBackup ps e"
| "effect_of (DoRun c) e = CRun c e"
| "effect_of DoHealth e = CHealth e"
| "effect_of (DoStage v d) e = CStage v d e"
| "effect_of (DoActivate v) e = CActivate v e"

fun executes :: "action list \<Rightarrow> host_call list \<Rightarrow> bool" where
  "executes [] log \<longleftrightarrow> log = []"
| "executes (a # plan) [] \<longleftrightarrow> False"
| "executes (a # plan) (c # log) \<longleftrightarrow>
     c = effect_of a (call_error c) \<and>
     (if call_error c = None then executes plan log else log = [])"

lemma call_error_effect [simp]: "call_error (effect_of a e) = e"
  by (cases a) auto

lemma executes_ok_append:
  "executes p l \<Longrightarrow> all_ok l \<Longrightarrow> executes (p @ p') (l @ l') \<longleftrightarrow> executes p' l'"
  by (induction p l rule: executes.induct) auto

lemma executes_failed_append:
  "executes p l \<Longrightarrow> \<not> all_ok l \<Longrightarrow> executes (p @ p') l"
  by (induction p l rule: executes.induct) (auto split: if_splits)

lemma executes_ok_length: "executes p l \<Longrightarrow> all_ok l \<Longrightarrow> length l = length p"
  by (induction p l rule: executes.induct) auto

lemma executes_failed_nonempty: "\<not> all_ok l \<Longrightarrow> l \<noteq> []"
  by auto

lemma executes_length: "executes p l \<Longrightarrow> length l \<le> length p"
  by (induction p l rule: executes.induct) (auto split: if_splits)

end
