(* ===== verification/Provisioner.thy ===== *)
theory Provisioner
  imports Lifecycle
begin

section \<open>The provisioning workflow\<close>

text \<open>
  \<open>Provisioner.Run\<close> of \<open>lifecycle.go\<close>, block by block, and its correctness: the effects on the
  host are those of a plan made from the job's checkpoints, in order, up to the first failure; a
  later run continues with what is left; a finished job is never run again.
\<close>

subsection \<open>Provisioner\<close>

record provision_request =
  pr_id :: string
  pr_confirm :: bool

definition protected_config_paths :: "string list" where
  "protected_config_paths = [''/etc/kismet/kismet.conf'', ''/etc/bottle-agent/config.yaml'']"

definition preflight :: "'w host \<Rightarrow> (('w, 'j) lstate, go_error option) prog" where
  "preflight h =
     bindP (host_op (hArchitecture h) CArchitecture) (\<lambda>arch.
     if arch \<noteq> ''arm64'' then
       bindP (host_op (hArchitecture h) CArchitecture) (\<lambda>arch.
         retP (Some (ErrText (''unsupported architecture '' @ go_quote arch @ '': Raspberry Pi arm64 required''))))
     else
     bindP (host_op (hIsBookworm h) CBookworm) (\<lambda>bookworm.
     if \<not> bookworm then retP (Some (ErrText ''Raspberry Pi OS Bookworm is required''))
     else
     bindP (host_op (hFreeStorageMB h) CFreeStorage) (\<lambda>free.
     if free < 2048 then retP (Some (ErrText ''at least 2048 MB free storage is required''))
     else
     bindP (host_op (hHasEthernet h ''eth0'') (CEthernet ''eth0'')) (\<lambda>eth.
     if \<not> eth then retP (Some (ErrText ''required management interface eth0 is unavailable''))
     else
     bindP (host_op (hRadioCount h) CRadios) (\<lambda>radios.
     if radios = 0 then retP (Some (ErrText ''no supported radio is visible''))
     else
     bindP (host_op (hGPSVisible h) CGPS) (\<lambda>gps.
     if \<not> gps then retP (Some (ErrText ''GPS is not visible''))
     else retP None))))))"

definition provision_fail :: "'j jobs \<Rightarrow> job \<Rightarrow> string \<Rightarrow> go_error \<Rightarrow> (('w, 'j) lstate, job_result) prog" where
  "provision_fail js job phase err =
     (let job = job\<lparr>job_state := Failed, job_phase := phase, job_message := error_text err\<rparr> in
      bindP (jobs_put js job) (\<lambda>_. retP (Some job, None)))"

definition new_provision_job :: "string \<Rightarrow> job" where
  "new_provision_job i = \<lparr>job_id = i, job_kind = ''provision'', job_state = Queued, job_phase = [],
     job_message = [], changed_paths = [], completed = Some Map.empty, updated_at = 0\<rparr>"

text \<open>The loop over \<open>protectedConfigPaths\<close> that collects the files that exist.\<close>

fun changed_configs :: "'w host \<Rightarrow> string list \<Rightarrow> (('w, 'j) lstate, string list) prog" where
  "changed_configs h [] = retP []"
| "changed_configs h (p # ps) =
     bindP (host_op (hConfig h p) (\<lambda>(c, ex). CConfig p ex)) (\<lambda>(c, ex).
     bindP (changed_configs h ps) (\<lambda>rest. retP (if ex then p # rest else rest)))"

text \<open>The backup block: \<open>Inl\<close> is an early return, \<open>Inr\<close> the job to go on with.\<close>

definition backup_block ::
  "'w host \<Rightarrow> 'j jobs \<Rightarrow> provision_request \<Rightarrow> job \<Rightarrow> (('w, 'j) lstate, job_result + job) prog" where
  "backup_block h js req job =
     (if is_completed job ''backup'' then retP (Inr job)
      else
      bindP (changed_configs h protected_config_paths) (\<lambda>changed.
      if changed \<noteq> [] \<and> \<not> pr_confirm req then
        (let job = job\<lparr>job_state := NeedsInput, job_phase := ''confirm_config'',
                       job_message := ''existing configuration will be backed up; explicit confirmation required'',
                       changed_paths := changed\<rparr> in
         bindP (jobs_put js job) (\<lambda>_. retP (Inl (Some job, None))))
      else
      bindP (host_op (hBackup h protected_config_paths) (CBackup protected_config_paths)) (\<lambda>e.
      case e of
        Some err \<Rightarrow> bindP (provision_fail js job ''backup'' err) (\<lambda>r. retP (Inl r))
      | None \<Rightarrow> bindP (mark_completed ''backup'' job) (\<lambda>job. retP (Inr job)))))"

definition provision_steps :: "(string \<times> string) list" where
  "provision_steps =
     [(''packages'', ''apt-get install --yes kismet gpsd nftables''),
      (''configure'', ''bottle-provisioner configure --preserve-existing --backup-created''),
      (''services'', ''systemctl enable --now bottle-agent kismet'')]"

fun run_steps ::
  "'w host \<Rightarrow> 'j jobs \<Rightarrow> (string \<times> string) list \<Rightarrow> job \<Rightarrow> (('w, 'j) lstate, job_result + job) prog" where
  "run_steps h js [] job = retP (Inr job)"
| "run_steps h js ((checkpoint, command) # rest) job =
     (if is_completed job checkpoint then run_steps h js rest job
      else
        (let job = job\<lparr>job_state := Running, job_phase := checkpoint\<rparr> in
         bindP (jobs_put js job) (\<lambda>_.
         bindP (host_op (hRun h command) (CRun command)) (\<lambda>e.
         case e of
           Some err \<Rightarrow> bindP (provision_fail js job checkpoint err) (\<lambda>r. retP (Inl r))
         | None \<Rightarrow> bindP (mark_completed checkpoint job) (\<lambda>job. run_steps h js rest job)))))"

definition complete_message :: string where
  "complete_message = ''provisioning completed; mTLS, loopback Kismet, radios, GPS, and service health verified''"

definition finish_provision :: "'w host \<Rightarrow> 'j jobs \<Rightarrow> job \<Rightarrow> (('w, 'j) lstate, job_result) prog" where
  "finish_provision h js job =
     bindP (host_op (hHealthCheck h) CHealth) (\<lambda>e.
     case e of
       Some err \<Rightarrow> provision_fail js job ''health'' err
     | None \<Rightarrow>
         bindP (mark_completed ''health'' job) (\<lambda>job.
         (let job = job\<lparr>job_state := Succeeded, job_phase := ''complete'', job_message := complete_message\<rparr> in
          bindP (jobs_put js job) (\<lambda>_. retP (Some job, None)))))"

definition start_job :: "'j jobs \<Rightarrow> string \<Rightarrow> 'j \<Rightarrow> job" where
  "start_job js i st = (case jGet js i st of Some j \<Rightarrow> j | None \<Rightarrow> new_provision_job i)"

text \<open>\<open>Run\<close>, in the order of its source: the request check and the job lookup, the preflight, the
  checkpoint loop, the health check.\<close>

definition provision_rest :: "'w host \<Rightarrow> 'j jobs \<Rightarrow> job \<Rightarrow> (('w, 'j) lstate, job_result) prog" where
  "provision_rest h js job =
     bindP (run_steps h js provision_steps job) (\<lambda>st.
     case st of Inl r \<Rightarrow> retP r | Inr job \<Rightarrow> finish_provision h js job)"

definition provision_work ::
  "'w host \<Rightarrow> 'j jobs \<Rightarrow> provision_request \<Rightarrow> job \<Rightarrow> (('w, 'j) lstate, job_result) prog" where
  "provision_work h js req job =
     bindP (backup_block h js req job) (\<lambda>b.
     case b of Inl r \<Rightarrow> retP r | Inr job \<Rightarrow> provision_rest h js job)"

definition provision_job ::
  "'w host \<Rightarrow> 'j jobs \<Rightarrow> provision_request \<Rightarrow> job \<Rightarrow> (('w, 'j) lstate, job_result) prog" where
  "provision_job h js req job =
     (if job_state job = Succeeded then retP (Some job, None)
      else
      bindP (preflight h) (\<lambda>perr.
      case perr of
        Some err \<Rightarrow> provision_fail js job ''preflight'' err
      | None \<Rightarrow> provision_work h js req job))"

definition provisioner_run ::
  "'w host \<Rightarrow> 'j jobs \<Rightarrow> provision_request \<Rightarrow> (('w, 'j) lstate, job_result) prog" where
  "provisioner_run h js req =
     (if pr_id req = [] then retP (None, Some (ErrText ''provision request id is required''))
      else
      bindP (jobs_get js (pr_id req)) (\<lambda>got.
      provision_job h js req (case got of Some j \<Rightarrow> j | None \<Rightarrow> new_provision_job (pr_id req))))"

subsection \<open>The plan of a job\<close>

text \<open>The actions a job still needs, from its checkpoints.\<close>

definition todo :: "job \<Rightarrow> (string \<times> string) list \<Rightarrow> action list" where
  "todo j steps = map (\<lambda>st. DoRun (snd st)) (filter (\<lambda>st. \<not> is_completed j (fst st)) steps)"

definition plan_of :: "job \<Rightarrow> action list" where
  "plan_of j = (if is_completed j ''backup'' then [] else [DoBackup protected_config_paths]) @ todo j provision_steps @ [DoHealth]"

lemma todo_simps [simp]:
  "todo j [] = []"
  "todo j ((cp, cmd) # rest) = (if is_completed j cp then todo j rest else DoRun cmd # todo j rest)"
  by (auto simp: todo_def)

lemma todo_cong: "(\<And>k. k \<in> fst ` set steps \<Longrightarrow> is_completed j k = is_completed j' k) \<Longrightarrow> todo j steps = todo j' steps"
  unfolding todo_def by (intro arg_cong [where f = "map _"] filter_cong) auto

lemma is_completed_mark [simp]:
  "is_completed (j\<lparr>completed := Some (m(k \<mapsto> True))\<rparr>) k' \<longleftrightarrow> k' = k \<or> m k' = Some True"
  "is_completed (j\<lparr>job_state := st\<rparr>) k' = is_completed j k'"
  "is_completed (j\<lparr>job_phase := ph\<rparr>) k' = is_completed j k'"
  "is_completed (j\<lparr>job_message := ms\<rparr>) k' = is_completed j k'"
  "is_completed (j\<lparr>changed_paths := cp\<rparr>) k' = is_completed j k'"
  "is_completed (j\<lparr>updated_at := t\<rparr>) k' = is_completed j k'"
  by (auto simp: is_completed_def nil_lookup_def)

lemma is_completed_Some: "completed j = Some m \<Longrightarrow> is_completed j k \<longleftrightarrow> m k = Some True"
  by (simp add: is_completed_def nil_lookup_def)

lemma todo_upd [simp]:
  "todo (j\<lparr>job_state := st\<rparr>) steps = todo j steps"
  "todo (j\<lparr>job_phase := ph\<rparr>) steps = todo j steps"
  "todo (j\<lparr>job_message := ms\<rparr>) steps = todo j steps"
  "todo (j\<lparr>changed_paths := cp\<rparr>) steps = todo j steps"
  "todo (j\<lparr>updated_at := t\<rparr>) steps = todo j steps"
  "todo (clone_job j) steps = todo j steps"
  by (simp_all add: todo_def)

subsection \<open>Block by block\<close>

text \<open>
  What a block guarantees when it returns: \<open>steps_post\<close> relates the job it started with, the
  effects of the block and the job it ends with.
\<close>

definition steps_post :: "(string \<times> string) list \<Rightarrow> job \<Rightarrow> host_call list \<Rightarrow> job_result + job \<Rightarrow> bool" where
  "steps_post steps job log x \<longleftrightarrow> (case x of
       Inr j \<Rightarrow> executes (todo job steps) log \<and> all_ok log \<and> completed j \<noteq> None \<and> job_id j = job_id job \<and>
                (\<forall>k. is_completed j k \<longleftrightarrow> is_completed job k \<or> k \<in> fst ` set steps)
     | Inl (jo, e) \<Rightarrow> e = None \<and> executes (todo job steps) log \<and> \<not> all_ok log \<and>
         (\<exists>j. jo = Some j \<and> job_state j = Failed \<and> job_id j = job_id job \<and>
              (\<forall>k. is_completed job k \<longrightarrow> is_completed j k) \<and>
              (\<forall>k. k \<notin> fst ` set steps \<longrightarrow> is_completed j k = is_completed job k) \<and>
              todo j steps = drop (length log - 1) (todo job steps)))"

lemma steps_post_skip:
  assumes "steps_post rest job log x" "is_completed job cp"
  shows "steps_post ((cp, cmd) # rest) job log x"
proof (cases x)
  case (Inl r)
  then obtain jo e where "x = Inl (jo, e)" by (cases r) auto
  with assms show ?thesis by (auto simp: steps_post_def)
next
  case (Inr j)
  with assms show ?thesis by (auto simp: steps_post_def)
qed

lemma steps_post_ok:
  assumes post: "steps_post rest job1 log x"
    and new: "\<not> is_completed job cp" "cp \<notin> fst ` set rest"
    and j1: "job_id job1 = job_id job" "\<And>k. is_completed job1 k \<longleftrightarrow> is_completed job k \<or> k = cp"
  shows "steps_post ((cp, cmd) # rest) job (CRun cmd None # log) x"
proof -
  have t: "todo job1 rest = todo job rest"
    using new(2) j1(2) by (intro todo_cong) auto
  show ?thesis
  proof (cases x)
    case (Inl r)
    then obtain j e where x: "x = Inl (Some j, e)" and e: "e = None" "executes (todo job rest) log" "\<not> all_ok log"
      and j: "job_state j = Failed" "job_id j = job_id job" "\<And>k. is_completed job1 k \<Longrightarrow> is_completed j k"
        "\<And>k. k \<notin> fst ` set rest \<Longrightarrow> is_completed j k = is_completed job1 k"
        "todo j rest = drop (length log - 1) (todo job rest)"
      using post t j1(1) by (cases r) (auto simp: steps_post_def)
    have l: "length log = Suc (length log - 1)" using e(3) by (cases log) auto
    have "is_completed j cp" using j(3) j1(2) by blast
    moreover have "drop (length log) (DoRun cmd # todo job rest) = todo j rest"
      using j(5) l by (metis drop_Suc_Cons)
    ultimately show ?thesis
      using x e j new j1 by (auto simp: steps_post_def)
  next
    case (Inr j)
    with post t new j1 show ?thesis by (auto simp: steps_post_def)
  qed
qed

lemma steps_post_fail:
  assumes "\<not> is_completed job cp" "job_state j = Failed" "job_id j = job_id job"
    "\<And>k. is_completed j k = is_completed job k"
  shows "steps_post ((cp, cmd) # rest) job [CRun cmd (Some e)] (Inl (Some j, None))"
proof -
  have "todo j ((cp, cmd) # rest) = todo job ((cp, cmd) # rest)"
    using assms(4) by (intro todo_cong) auto
  with assms show ?thesis by (auto simp: steps_post_def)
qed

definition block_post :: "(host_call list \<Rightarrow> 'a \<Rightarrow> bool) \<Rightarrow> ('w, 'j) lstate \<Rightarrow> 'a outcome \<Rightarrow> ('w, 'j) lstate \<Rightarrow> bool" where
  "block_post P s r s' \<longleftrightarrow> (case r of Panic p \<Rightarrow> True
     | Ret x \<Rightarrow> \<exists>log. host_effects (calls s') = host_effects (calls s) @ log \<and> P log x)"

lemma block_post_simps [simp]:
  "block_post P s (Panic p) s'"
  "block_post P s (Ret x) s' \<longleftrightarrow> (\<exists>log. host_effects (calls s') = host_effects (calls s) @ log \<and> P log x)"
  by (simp_all add: block_post_def)

lemma block_post_cong:
  "host_effects (calls s1) = host_effects (calls s) \<Longrightarrow> block_post P s1 r s' \<Longrightarrow> block_post P s r s'"
  by (cases r) simp_all

lemma run_steps_post:
  assumes "distinct (map fst steps)" "completed job \<noteq> None"
  shows "wp (run_steps h js steps job) (block_post (steps_post steps job) s) s"
  using assms
proof (induction steps arbitrary: job s)
  case Nil
  then show ?case by (auto simp: prog_simps steps_post_def)
next
  case (Cons st rest)
  obtain cp cmd where st: "st = (cp, cmd)" by fastforce
  obtain m where m: "completed job = Some m" using Cons.prems by auto
  have fresh: "cp \<notin> fst ` set rest" and dist: "distinct (map fst rest)"
    using Cons.prems st by auto
  show ?case
  proof (cases "is_completed job cp")
    case True
    have "wp (run_steps h js rest job) (block_post (steps_post rest job) s) s"
      using Cons.IH dist Cons.prems by simp
    then have "wp (run_steps h js rest job) (block_post (steps_post (st # rest) job) s) s"
      by (rule wp_mono) (auto simp: st True block_post_def split: outcome.splits intro: steps_post_skip [OF _ True])
    then show ?thesis by (simp add: st True)
  next
    case False
    let ?job1 = "job\<lparr>job_state := Running, job_phase := cp\<rparr>"
    let ?job2 = "?job1\<lparr>completed := Some (m(cp \<mapsto> True))\<rparr>"
    have IH: "wp (run_steps h js rest ?job2) (block_post (steps_post ((cp, cmd) # rest) job) s) s2"
      if s2: "host_effects (calls s2) = host_effects (calls s) @ [CRun cmd None]" for s2
    proof -
      have "wp (run_steps h js rest ?job2) (block_post (steps_post rest ?job2) s2) s2"
        using Cons.IH dist by simp
      then show ?thesis
      proof (rule wp_mono)
        fix r s'
        assume "block_post (steps_post rest ?job2) s2 r s'"
        then show "block_post (steps_post ((cp, cmd) # rest) job) s r s'"
          using s2 False fresh m
          by (auto simp: block_post_def st is_completed_Some split: outcome.splits intro!: steps_post_ok [where ?job1.0 = "?job2"])
      qed
    qed
    show ?thesis
      using m
      by (auto simp: st False Let_def prog_simps provision_fail_def split: outcome.splits option.splits intro!: IH steps_post_fail False)
  qed
qed

text \<open>The configuration files found: those for which the logged answer was yes.\<close>

definition configs_found :: "string list \<Rightarrow> bool list \<Rightarrow> string list" where
  "configs_found ps exs = map fst (filter snd (zip ps exs))"

lemma changed_configs_wp:
  fixes s :: "('w, 'j) lstate"
  shows "wp (changed_configs h ps)
     (\<lambda>r s'. \<exists>exs. length exs = length ps \<and> r = Ret (configs_found ps exs) \<and>
        calls s' = calls s @ map2 CConfig ps exs \<and> store s' = store s) s"
proof (induction ps arbitrary: s)
  case Nil
  then show ?case by (simp add: prog_simps configs_found_def)
next
  case (Cons p ps)
  have step: "wp (changed_configs h ps)
      (\<lambda>r s'. case r of Panic p \<Rightarrow> False | Ret rest \<Rightarrow>
         \<exists>exs. length exs = Suc (length ps) \<and> (if ex then p # rest else rest) = configs_found (p # ps) exs \<and>
           calls s' = calls s @ map2 CConfig (p # ps) exs \<and> store s' = store s)
      (s\<lparr>world := w, calls := calls s @ [CConfig p ex]\<rparr>)" (is "wp _ ?Q ?s") for w ex
  proof (rule wp_mono [OF Cons.IH])
    fix r and s' :: "('w, 'j) lstate"
    assume "\<exists>exs. length exs = length ps \<and> r = Ret (configs_found ps exs) \<and>
        calls s' = calls ?s @ map2 CConfig ps exs \<and> store s' = store ?s"
    then obtain exs where "length exs = length ps" "r = Ret (configs_found ps exs)"
        "calls s' = calls s @ CConfig p ex # map2 CConfig ps exs" "store s' = store s" by auto
    then show "?Q r s'"
      by (auto simp: configs_found_def intro: exI [where x = "ex # exs"])
  qed
  show ?case
    by (auto simp: prog_simps split: prod.splits outcome.splits intro!: wp_mono [OF step])
qed

lemma host_effects_configs [simp]: "host_effects (map2 CConfig ps exs) = []"
  by (induction ps exs rule: list_induct2') auto

definition backup_post :: "provision_request \<Rightarrow> job \<Rightarrow> host_call list \<Rightarrow> job_result + job \<Rightarrow> bool" where
  "backup_post req job log x \<longleftrightarrow> (case x of
       Inr j \<Rightarrow> executes (if is_completed job ''backup'' then [] else [DoBackup protected_config_paths]) log \<and> all_ok log \<and>
                completed j \<noteq> None \<and> job_id j = job_id job \<and>
                (\<forall>k. is_completed j k \<longleftrightarrow> is_completed job k \<or> k = ''backup'')
     | Inl (jo, e) \<Rightarrow> e = None \<and> \<not> is_completed job ''backup'' \<and>
         (\<exists>j. jo = Some j \<and> job_id j = job_id job \<and> (\<forall>k. is_completed j k = is_completed job k) \<and>
            (job_state j = NeedsInput \<and> log = [] \<and> \<not> pr_confirm req \<and> changed_paths j \<noteq> [] \<or>
             job_state j = Failed \<and> executes [DoBackup protected_config_paths] log \<and> \<not> all_ok log)))"

lemma backup_block_post:
  assumes "completed job \<noteq> None"
  shows "wp (backup_block h js req job) (block_post (backup_post req job) s) s"
proof (cases "is_completed job ''backup''")
  case True
  with assms show ?thesis by (auto simp: backup_block_def prog_simps backup_post_def)
next
  case False
  obtain m where m: "completed job = Some m" using assms by auto
  show ?thesis
    unfolding backup_block_def using m False
    by (auto simp: prog_simps provision_fail_def Let_def backup_post_def is_completed_Some
          split: outcome.splits option.splits intro!: wp_mono [OF changed_configs_wp])
qed

lemma preflight_wp:
  "wp (preflight h)
     (\<lambda>r s'. (\<exists>e. r = Ret e) \<and> host_effects (calls s') = host_effects (calls s) \<and> store s' = store s) s"
  by (simp add: preflight_def prog_simps)

definition finish_post :: "job \<Rightarrow> host_call list \<Rightarrow> job_result \<Rightarrow> bool" where
  "finish_post job log x \<longleftrightarrow> executes [DoHealth] log \<and>
     (\<exists>j. x = (Some j, None) \<and> job_id j = job_id job \<and>
        (if all_ok log then job_state j = Succeeded
         else job_state j = Failed \<and> (\<forall>k. is_completed j k = is_completed job k)))"

lemma finish_provision_post:
  assumes "completed job \<noteq> None"
  shows "wp (finish_provision h js job) (block_post (finish_post job) s) s"
proof -
  obtain m where m: "completed job = Some m" using assms by auto
  show ?thesis
    unfolding finish_provision_def using m
    by (auto simp: prog_simps provision_fail_def Let_def finish_post_def
          split: outcome.splits option.splits)
qed

subsection \<open>A whole run\<close>

definition provision_post :: "provision_request \<Rightarrow> job \<Rightarrow> host_call list \<Rightarrow> job_result \<Rightarrow> bool" where
  "provision_post req job log x \<longleftrightarrow>
     (\<exists>j. x = (Some j, None) \<and> job_id j = job_id job \<and>
        (log = [] \<and> (job_state j = Failed \<or> job_state j = NeedsInput) \<or>
         executes (plan_of job) log \<and> job_state j = (if all_ok log then Succeeded else Failed)) \<and>
        (job_state j = NeedsInput \<longrightarrow> log = [] \<and> \<not> pr_confirm req \<and> \<not> is_completed job ''backup'' \<and> changed_paths j \<noteq> []) \<and>
        (job_state j \<noteq> Succeeded \<longrightarrow>
           (\<forall>k. is_completed job k \<longrightarrow> is_completed j k) \<and>
           plan_of j = drop (length log - 1) (plan_of job)))"

lemma plan_of_cong: "(\<And>k. is_completed j k = is_completed j' k) \<Longrightarrow> plan_of j = plan_of j'"
  by (simp add: plan_of_def todo_def)

lemma backup_not_step [simp]: "''backup'' \<notin> fst ` set provision_steps"
  by (simp add: provision_steps_def)

lemma provision_backup_stop:
  assumes "backup_post req job log (Inl r)"
  shows "provision_post req job log r"
proof -
  obtain j where r: "r = (Some j, None)" and nb: "\<not> is_completed job ''backup''"
    and j: "job_id j = job_id job" "\<And>k. is_completed j k = is_completed job k"
    and c: "job_state j = NeedsInput \<and> log = [] \<and> \<not> pr_confirm req \<and> changed_paths j \<noteq> [] \<or>
            job_state j = Failed \<and> executes [DoBackup protected_config_paths] log \<and> \<not> all_ok log"
    using assms by (cases r) (auto simp: backup_post_def)
  have p: "plan_of j = plan_of job" using j(2) by (rule plan_of_cong)
  from c show ?thesis
  proof
    assume "job_state j = NeedsInput \<and> log = [] \<and> \<not> pr_confirm req \<and> changed_paths j \<noteq> []"
    with r j nb p show ?thesis by (simp add: provision_post_def)
  next
    assume f: "job_state j = Failed \<and> executes [DoBackup protected_config_paths] log \<and> \<not> all_ok log"
    then have "executes (plan_of job) log"
      using nb executes_failed_append [of "[DoBackup protected_config_paths]" log "todo job provision_steps @ [DoHealth]"]
      by (simp add: plan_of_def)
    moreover have "length log = 1" using f executes_length [of "[DoBackup protected_config_paths]" log]
      by (cases log) auto
    ultimately show ?thesis using r j p f by (simp add: provision_post_def)
  qed
qed

lemma plan_split:
  assumes "backup_post req job l1 (Inr j1)"
  shows "plan_of job = (if is_completed job ''backup'' then [] else [DoBackup protected_config_paths]) @ todo j1 provision_steps @ [DoHealth]"
    and "length l1 = length (if is_completed job ''backup'' then [] else [DoBackup protected_config_paths])"
    and "is_completed j1 ''backup''" and "\<And>k. is_completed job k \<Longrightarrow> is_completed j1 k"
proof -
  have "todo j1 provision_steps = todo job provision_steps"
    using assms by (intro todo_cong) (auto simp: backup_post_def provision_steps_def)
  then show "plan_of job = (if is_completed job ''backup'' then [] else [DoBackup protected_config_paths]) @ todo j1 provision_steps @ [DoHealth]"
    by (simp add: plan_of_def)
  show "length l1 = length (if is_completed job ''backup'' then [] else [DoBackup protected_config_paths])"
    using assms by (auto simp: backup_post_def dest: executes_ok_length)
  show "is_completed j1 ''backup''" "\<And>k. is_completed job k \<Longrightarrow> is_completed j1 k"
    using assms by (auto simp: backup_post_def)
qed

lemma provision_steps_stop:
  assumes b: "backup_post req job l1 (Inr j1)" and st: "steps_post provision_steps j1 l2 (Inl r)"
  shows "provision_post req job (l1 @ l2) r"
proof -
  note ps = plan_split [OF b]
  let ?B = "if is_completed job ''backup'' then [] else [DoBackup protected_config_paths]"
  obtain j where r: "r = (Some j, None)" and e: "executes (todo j1 provision_steps) l2" "\<not> all_ok l2"
    and j: "job_state j = Failed" "job_id j = job_id job" "\<And>k. is_completed j1 k \<Longrightarrow> is_completed j k"
      "todo j provision_steps = drop (length l2 - 1) (todo j1 provision_steps)"
    using st b by (cases r) (auto simp: steps_post_def backup_post_def)
  have ex: "executes (plan_of job) (l1 @ l2)" "\<not> all_ok (l1 @ l2)"
    using b e executes_failed_append [OF e, of "[DoHealth]"]
    unfolding ps(1) by (auto simp: backup_post_def executes_ok_append)
  have len: "length (l1 @ l2) - 1 = length ?B + (length l2 - 1)"
    using ps(2) executes_failed_nonempty [OF e(2)] by (cases l2) auto
  have "length l2 - 1 \<le> length (todo j1 provision_steps)"
    using executes_length [OF e(1)] by simp
  then have "plan_of j = drop (length (l1 @ l2) - 1) (plan_of job)"
    unfolding len ps(1) using j(3,4) ps(3) by (simp add: plan_of_def)
  with r ex j ps(4) show ?thesis by (auto simp: provision_post_def)
qed

lemma provision_finish:
  assumes b: "backup_post req job l1 (Inr j1)" and st: "steps_post provision_steps j1 l2 (Inr j2)"
    and f: "finish_post j2 l3 r"
  shows "provision_post req job (l1 @ l2 @ l3) r"
proof -
  note ps = plan_split [OF b]
  let ?B = "if is_completed job ''backup'' then [] else [DoBackup protected_config_paths]"
  have s2: "executes (todo j1 provision_steps) l2" "all_ok l2" "job_id j2 = job_id job"
    "\<And>k. is_completed j2 k \<longleftrightarrow> is_completed j1 k \<or> k \<in> fst ` set provision_steps"
    using st b by (auto simp: steps_post_def backup_post_def)
  have e1: "executes ?B l1" "all_ok l1" using b by (simp_all add: backup_post_def)
  obtain j where r: "r = (Some j, None)" and e3: "executes [DoHealth] l3" and j: "job_id j = job_id j2"
      "job_state j = (if all_ok l3 then Succeeded else Failed)"
      "\<not> all_ok l3 \<Longrightarrow> (\<forall>k. is_completed j k = is_completed j2 k)"
    using f by (auto simp: finish_post_def split: if_splits)
  have ex: "executes (plan_of job) (l1 @ l2 @ l3)"
    unfolding ps(1) using e1 s2(1,2) e3 by (simp add: executes_ok_append)
  show ?thesis
  proof (cases "all_ok l3")
    case True
    with r ex j e1 s2 show ?thesis by (auto simp: provision_post_def)
  next
    case False
    have "length l3 = 1" using e3 executes_length [OF e3] False by (cases l3) auto
    then have len: "length (l1 @ l2 @ l3) - 1 = length ?B + length (todo j1 provision_steps)"
      using ps(2) executes_ok_length [OF s2(1,2)] by simp
    have jc: "\<And>k. is_completed j k \<longleftrightarrow> is_completed j1 k \<or> k \<in> fst ` set provision_steps"
      using j(3) False s2(4) by simp
    have "todo j provision_steps = []" using jc by (auto simp: todo_def filter_empty_conv)
    then have "plan_of j = drop (length (l1 @ l2 @ l3) - 1) (plan_of job)"
      unfolding len ps(1) using jc ps(3) by (simp add: plan_of_def)
    with r ex j s2(3) e1 False jc ps(4) show ?thesis by (auto simp: provision_post_def)
  qed
qed

lemma block_post_trans:
  assumes "host_effects (calls s1) = host_effects (calls s) @ l1"
    and "block_post P s1 r s'" and "\<And>x l2. P l2 x \<Longrightarrow> Q (l1 @ l2) x"
  shows "block_post Q s r s'"
  using assms by (cases r) auto

lemma provision_rest_post:
  assumes b: "backup_post req job l1 (Inr j1)" and s2: "host_effects (calls s2) = host_effects (calls s) @ l1"
  shows "wp (provision_rest h js j1) (block_post (provision_post req job) s) s2"
proof -
  have fin: "wp (finish_provision h js j2) (block_post (provision_post req job) s) s3"
    if "steps_post provision_steps j1 l2 (Inr j2)"
       "host_effects (calls s3) = host_effects (calls s) @ l1 @ l2" for s3 l2 j2
  proof -
    have "completed j2 \<noteq> None" using that by (auto simp: steps_post_def)
    from finish_provision_post [OF this] show ?thesis
    proof (rule wp_mono)
      fix r s'
      assume "block_post (finish_post j2) s3 r s'"
      with that(2) show "block_post (provision_post req job) s r s'"
        by (rule block_post_trans) (use provision_finish [OF b that(1)] in simp)
    qed
  qed
  have "completed j1 \<noteq> None" using b by (simp add: backup_post_def)
  then have "wp (run_steps h js provision_steps j1) (block_post (steps_post provision_steps j1) s2) s2"
    by (intro run_steps_post) (simp_all add: provision_steps_def)
  then show ?thesis
    unfolding provision_rest_def wp_bind
  proof (rule wp_mono)
    fix r s'
    assume "block_post (steps_post provision_steps j1) s2 r s'"
    with b s2 show "case r of Ret st \<Rightarrow> wp (case st of Inl r \<Rightarrow> retP r | Inr job \<Rightarrow> finish_provision h js job)
        (block_post (provision_post req job) s) s'
      | Panic p \<Rightarrow> block_post (provision_post req job) s (Panic p) s'"
      by (auto simp: wp_ret split: outcome.splits sum.splits intro: fin)
         (rule provision_steps_stop [OF b])
  qed
qed

lemma provision_work_post:
  assumes cm: "completed job \<noteq> None" and s1: "host_effects (calls s1) = host_effects (calls s)"
  shows "wp (provision_work h js req job) (block_post (provision_post req job) s) s1"
  unfolding provision_work_def wp_bind
proof (rule backup_block_post [OF cm, THEN wp_mono])
  fix r s'
  assume "block_post (backup_post req job) s1 r s'"
  with s1 show "case r of Ret b \<Rightarrow> wp (case b of Inl r \<Rightarrow> retP r | Inr job \<Rightarrow> provision_rest h js job)
      (block_post (provision_post req job) s) s'
    | Panic p \<Rightarrow> block_post (provision_post req job) s (Panic p) s'"
    by (auto simp: wp_ret split: outcome.splits sum.splits intro: provision_rest_post)
       (rule provision_backup_stop)
qed

lemma provision_job_post:
  assumes st: "job_state job \<noteq> Succeeded" and cm: "completed job \<noteq> None"
  shows "wp (provision_job h js req job) (block_post (provision_post req job) s) s"
proof -
  have "wp (provision_fail js job ''preflight'' e) (block_post (provision_post req job) s) s1"
    if "host_effects (calls s1) = host_effects (calls s)" for e s1
  proof -
    have "plan_of (job\<lparr>job_state := Failed, job_phase := ''preflight'', job_message := error_text e\<rparr>) = plan_of job"
      by (rule plan_of_cong) simp
    with that show ?thesis
      by (auto simp: provision_fail_def Let_def prog_simps provision_post_def split: outcome.splits)
  qed
  then show ?thesis
    using st by (auto simp: provision_job_def wp_bind split: option.splits
      intro!: preflight_wp [THEN wp_mono] provision_work_post [OF cm])
qed

lemma provisioner_run_post:
  assumes "pr_id req \<noteq> []" "start_job js (pr_id req) (store s) = job"
    and "job_state job \<noteq> Succeeded" "completed job \<noteq> None"
  shows "wp (provisioner_run h js req) (block_post (provision_post req job) s) s"
  using provision_job_post [OF assms(3,4)] assms(1,2)
  by (simp add: provisioner_run_def wp_bind wp_jobs_get start_job_def)

subsection \<open>What the store holds afterwards\<close>

text \<open>The store's job under an id is a given one, but for its time stamp.\<close>

definition stored_as :: "(string \<Rightarrow> 'j \<Rightarrow> job option) \<Rightarrow> string \<Rightarrow> job \<Rightarrow> 'j \<Rightarrow> bool" where
  "stored_as get i j st \<longleftrightarrow> (\<exists>t. get i st = Some (clone_job (j\<lparr>updated_at := t\<rparr>)))"

definition stored_result :: "(string \<Rightarrow> 'j \<Rightarrow> job option) \<Rightarrow> string \<Rightarrow> job_result \<Rightarrow> 'j \<Rightarrow> bool" where
  "stored_result get i x st \<longleftrightarrow> (\<exists>j. x = (Some j, None) \<and> stored_as get i j st)"

text \<open>What a block leaves: a sound store, and in it the job that the block returns.\<close>

definition stored_post ::
  "(string \<Rightarrow> 'j \<Rightarrow> job option) \<Rightarrow> ('j \<Rightarrow> bool) \<Rightarrow> string \<Rightarrow> job_result outcome \<Rightarrow> ('w, 'j) lstate \<Rightarrow> bool" where
  "stored_post get sound i r s \<longleftrightarrow> sound (store s) \<and>
     (case r of Ret x \<Rightarrow> stored_result get i x (store s) | Panic p \<Rightarrow> True)"

definition stored_mid ::
  "(string \<Rightarrow> 'j \<Rightarrow> job option) \<Rightarrow> ('j \<Rightarrow> bool) \<Rightarrow> string \<Rightarrow> (job_result + job) outcome \<Rightarrow> ('w, 'j) lstate \<Rightarrow> bool" where
  "stored_mid get sound i r s \<longleftrightarrow> sound (store s) \<and>
     (case r of Ret (Inl x) \<Rightarrow> stored_result get i x (store s) | Ret (Inr j) \<Rightarrow> job_id j = i | Panic p \<Rightarrow> True)"

lemma stored_post_simps [simp]:
  "stored_post get sound i (Ret x) s \<longleftrightarrow> sound (store s) \<and> stored_result get i x (store s)"
  "stored_post get sound i (Panic p) s \<longleftrightarrow> sound (store s)"
  "stored_mid get sound i (Ret (Inl x)) s \<longleftrightarrow> sound (store s) \<and> stored_result get i x (store s)"
  "stored_mid get sound i (Ret (Inr j)) s \<longleftrightarrow> sound (store s) \<and> job_id j = i"
  "stored_mid get sound i (Panic p) s \<longleftrightarrow> sound (store s)"
  by (simp_all add: stored_post_def stored_mid_def)

lemma clone_job_same: "completed j \<noteq> None \<Longrightarrow> clone_job j = j"
  by (cases j) (auto simp: clone_job_def nil_lookup_def)

context job_store
begin

lemma put_wp:
  assumes "inv (store s)"
  shows "wp (jobs_put \<lparr>jGet = get, jPut = put\<rparr> j)
    (\<lambda>r s'. inv (store s') \<and> (r = Ret () \<longrightarrow> stored_as get (job_id j) j (store s'))) s"
  using assms put_inv put_get_same by (auto simp: wp_jobs_put stored_as_def)

lemma fail_wp:
  assumes "inv (store s)"
  shows "wp (provision_fail \<lparr>jGet = get, jPut = put\<rparr> job ph e)
    (stored_post get inv (job_id job)) s"
  unfolding provision_fail_def Let_def wp_bind
  by (rule put_wp [OF assms, THEN wp_mono]) (auto simp: wp_ret stored_result_def split: outcome.splits)

lemma run_steps_stored:
  fixes s :: "('w, 'j) lstate"
  assumes "inv (store s)"
  shows "wp (run_steps h \<lparr>jGet = get, jPut = put\<rparr> steps job)
    (stored_mid get inv (job_id job)) s"
  using assms
proof (induction steps arbitrary: job s)
  case Nil
  then show ?case by (simp add: prog_simps)
next
  case (Cons st rest)
  obtain cp cmd where st: "st = (cp, cmd)" by fastforce
  let ?js = "\<lparr>jGet = get, jPut = put\<rparr>"
  let ?Q = "stored_mid get inv (job_id job)"
  let ?job1 = "job\<lparr>job_state := Running, job_phase := cp\<rparr>"
  have tail: "wp (case e of
        Some err \<Rightarrow> bindP (provision_fail ?js ?job1 cp err) (\<lambda>r. retP (Inl r))
      | None \<Rightarrow> bindP (mark_completed cp ?job1) (run_steps h ?js rest)) ?Q s2"
    if inv2: "inv (store s2)" for e s2
  proof (cases e)
    case None
    then show ?thesis
      using inv2 Cons.IH [OF inv2, of "?job1\<lparr>completed := c\<rparr>" for c]
      by (simp add: wp_bind wp_mark_completed split: option.splits)
  next
    case (Some err)
    have "wp (provision_fail ?js ?job1 cp err)
      (stored_post get inv (job_id job)) s2"
      using fail_wp [OF inv2, of ?job1] by simp
    then show ?thesis
      unfolding Some wp_bind option.case
      by (rule wp_mono) (auto simp: wp_ret split: outcome.splits)
  qed
  show ?case
  proof (cases "is_completed job cp")
    case True
    with Cons show ?thesis by (simp add: st)
  next
    case False
    have "wp (jobs_put ?js ?job1) (\<lambda>r s'. case r of
        Ret u \<Rightarrow> wp (bindP (host_op (hRun h cmd) (CRun cmd)) (\<lambda>e. case e of
            Some err \<Rightarrow> bindP (provision_fail ?js ?job1 cp err) (\<lambda>r. retP (Inl r))
          | None \<Rightarrow> bindP (mark_completed cp ?job1) (run_steps h ?js rest))) ?Q s'
      | Panic p \<Rightarrow> ?Q (Panic p) s') s"
    proof (rule put_wp [OF Cons.prems, THEN wp_mono])
      fix r and s' :: "('w, 'j) lstate"
      assume "inv (store s') \<and> (r = Ret () \<longrightarrow> stored_as get (job_id ?job1) ?job1 (store s'))"
      then show "case r of
        Ret u \<Rightarrow> wp (bindP (host_op (hRun h cmd) (CRun cmd)) (\<lambda>e. case e of
            Some err \<Rightarrow> bindP (provision_fail ?js ?job1 cp err) (\<lambda>r. retP (Inl r))
          | None \<Rightarrow> bindP (mark_completed cp ?job1) (run_steps h ?js rest))) ?Q s'
      | Panic p \<Rightarrow> ?Q (Panic p) s'"
        by (cases r) (auto simp: wp_bind [of "host_op _ _"] wp_host_op intro!: tail)
    qed
    then show ?thesis by (simp add: st False Let_def wp_bind [of "jobs_put _ _"])
  qed
qed

lemma backup_block_stored:
  assumes "inv (store s)"
  shows "wp (backup_block h \<lparr>jGet = get, jPut = put\<rparr> req job)
    (stored_mid get inv (job_id job)) s"
proof -
  let ?js = "\<lparr>jGet = get, jPut = put\<rparr>"
  let ?Q = "stored_mid get inv (job_id job)"
  have need: "wp (bindP (jobs_put ?js j) (\<lambda>_. retP (Inl (Some j, None)))) ?Q s1"
    if "inv (store s1)" "job_id j = job_id job" for s1 j
    unfolding wp_bind using that(2)
    by (intro put_wp [OF that(1), THEN wp_mono]) (auto simp: wp_ret stored_result_def split: outcome.splits)
  have failed: "wp (bindP (provision_fail ?js job ''backup'' e) (\<lambda>r. retP (Inl r))) ?Q s1"
    if "inv (store s1)" for s1 e
    unfolding wp_bind
    by (intro fail_wp [OF that, THEN wp_mono]) (auto simp: wp_ret split: outcome.splits)
  show ?thesis
    unfolding backup_block_def
    using assms
    by (auto simp: wp_ret wp_bind [of "changed_configs _ _"] wp_bind [of "host_op _ _"] wp_host_op Let_def
          wp_bind [of "mark_completed _ _"] wp_mark_completed
        split: outcome.splits option.splits intro!: changed_configs_wp [THEN wp_mono] need failed)
qed

lemma finish_stored:
  assumes "inv (store s)"
  shows "wp (finish_provision h \<lparr>jGet = get, jPut = put\<rparr> job)
    (stored_post get inv (job_id job)) s"
proof -
  let ?js = "\<lparr>jGet = get, jPut = put\<rparr>"
  have ok: "wp (bindP (jobs_put ?js j) (\<lambda>_. retP (Some j, None)))
      (stored_post get inv (job_id job)) s1"
    if "inv (store s1)" "job_id j = job_id job" for s1 j
    unfolding wp_bind using that(2)
    by (intro put_wp [OF that(1), THEN wp_mono]) (auto simp: wp_ret stored_result_def split: outcome.splits)
  show ?thesis
    using assms
    by (auto simp: finish_provision_def wp_bind [of "host_op _ _"] wp_host_op Let_def
          wp_bind [of "mark_completed _ _"] wp_mark_completed
        split: outcome.splits option.splits intro!: ok fail_wp)
qed

lemma provisioner_run_stored:
  assumes inv: "inv (store s)" and req: "pr_id req \<noteq> []"
  shows "wp (provisioner_run h \<lparr>jGet = get, jPut = put\<rparr> req)
    (stored_post get inv (pr_id req)) s"
proof -
  let ?js = "\<lparr>jGet = get, jPut = put\<rparr>"
  define job where
    "job = (case get (pr_id req) (store s) of Some j \<Rightarrow> j | None \<Rightarrow> new_provision_job (pr_id req))"
  let ?Q = "stored_post get inv (pr_id req)"
  have jid: "job_id job = pr_id req"
    using get_id [OF inv] by (auto simp: job_def new_provision_job_def split: option.splits)
  have rest: "wp (provision_rest h ?js j) ?Q s1" if "inv (store s1)" "job_id j = pr_id req" for s1 j
    unfolding provision_rest_def wp_bind
    using that(2) finish_stored
    by (intro run_steps_stored [OF that(1), THEN wp_mono])
       (auto simp: wp_ret split: outcome.splits sum.splits intro!: finish_stored [THEN wp_mono])
  have work: "wp (provision_work h ?js req job) ?Q s1" if "inv (store s1)" for s1
    unfolding provision_work_def wp_bind
    by (intro backup_block_stored [OF that, THEN wp_mono])
       (auto simp: wp_ret jid split: outcome.splits sum.splits intro!: rest)
  have already: "stored_result get (pr_id req) (Some job, None) (store s)" if succ: "job_state job = Succeeded"
  proof -
    obtain j where g: "get (pr_id req) (store s) = Some j"
      using succ by (auto simp: job_def new_provision_job_def split: option.splits)
    then have "clone_job (j\<lparr>updated_at := updated_at j\<rparr>) = j"
      using get_clone [OF inv g] by (simp add: clone_job_same)
    with g show ?thesis by (auto simp: job_def stored_result_def stored_as_def intro: exI [of _ "updated_at j"])
  qed
  have "wp (provision_job h ?js req job) ?Q s"
    using inv already
    by (auto simp: provision_job_def wp_ret wp_bind [of "preflight _"] split: outcome.splits option.splits
        intro!: preflight_wp [THEN wp_mono] work fail_wp [of _ job, unfolded jid])
  then show ?thesis using req by (simp add: provisioner_run_def wp_bind wp_jobs_get job_def)
qed

end

subsection \<open>Runs return\<close>

text \<open>
  A run panics only with a message the store's \<open>Put\<close> panics with; with a store whose \<open>Put\<close> never
  panics (\<open>P = (\<lambda>_. False)\<close>) every run returns.
\<close>

definition put_panics :: "(string \<Rightarrow> bool) \<Rightarrow> 'j jobs \<Rightarrow> bool" where
  "put_panics P js \<longleftrightarrow> (\<forall>j st m. fst (jPut js j st) = Panic m \<longrightarrow> P m)"

lemma put_panicsD: "put_panics P js \<Longrightarrow> jPut js j st = (Panic m, st') \<Longrightarrow> P m"
  unfolding put_panics_def by (metis fst_conv)

definition returns_job :: "(string \<Rightarrow> bool) \<Rightarrow> (job_result + job) outcome \<Rightarrow> bool" where
  "returns_job P r \<longleftrightarrow> (case r of Panic p \<Rightarrow> P p | Ret (Inl x) \<Rightarrow> True | Ret (Inr j) \<Rightarrow> completed j \<noteq> None)"

definition returns :: "(string \<Rightarrow> bool) \<Rightarrow> 'a outcome \<Rightarrow> bool" where
  "returns P r \<longleftrightarrow> (case r of Panic p \<Rightarrow> P p | Ret x \<Rightarrow> True)"

lemma returns_simps [simp]:
  "returns P (Ret x)" "returns P (Panic p) \<longleftrightarrow> P p"
  "returns_job P (Ret (Inl y))" "returns_job P (Ret (Inr j)) \<longleftrightarrow> completed j \<noteq> None" "returns_job P (Panic p) \<longleftrightarrow> P p"
  by (simp_all add: returns_def returns_job_def)

text \<open>An invariant \<open>I\<close> of the store that every \<open>Put\<close> keeps, and under which it panics only in \<open>P\<close>.\<close>

definition put_safe :: "('j \<Rightarrow> bool) \<Rightarrow> (string \<Rightarrow> bool) \<Rightarrow> 'j jobs \<Rightarrow> bool" where
  "put_safe I P js \<longleftrightarrow> (\<forall>j st. I st \<longrightarrow> returns P (fst (jPut js j st)) \<and> I (snd (jPut js j st)))"

lemma put_safeD: "put_safe I P js \<Longrightarrow> jPut js j st = (r, st') \<Longrightarrow> I st \<Longrightarrow> returns P r \<and> I st'"
  unfolding put_safe_def by (metis fst_conv snd_conv)

lemma put_safe_panics: "put_panics P js \<Longrightarrow> put_safe (\<lambda>_. True) P js"
  by (auto simp: put_panics_def put_safe_def returns_def split: outcome.split)

lemma fail_returns:
  "put_safe I P js \<Longrightarrow> I (store s) \<Longrightarrow> wp (provision_fail js job ph e) (\<lambda>r s'. returns P r \<and> I (store s')) s"
  by (auto simp: provision_fail_def Let_def prog_simps dest: put_safeD split: outcome.splits)

lemma run_steps_returns:
  assumes put: "put_safe I P js" and "completed job \<noteq> None" and "I (store s)"
  shows "wp (run_steps h js steps job) (\<lambda>r s'. returns_job P r \<and> I (store s')) s"
  using assms(2,3)
proof (induction steps arbitrary: job s)
  case Nil
  then show ?case by (simp add: prog_simps)
next
  case (Cons st rest)
  obtain cp cmd where st: "st = (cp, cmd)" by fastforce
  show ?case
    using Cons
    by (auto simp: st Let_def wp_bind wp_jobs_put wp_host_op wp_mark_completed wp_ret
        split: outcome.splits option.splits dest: put_safeD [OF put]
        intro!: fail_returns [OF put, THEN wp_mono])
qed

lemma backup_block_returns:
  assumes put: "put_safe I P js" and cm: "completed job \<noteq> None" and st: "I (store s)"
  shows "wp (backup_block h js req job) (\<lambda>r s'. returns_job P r \<and> I (store s')) s"
  using cm st
  by (auto simp: backup_block_def wp_bind wp_jobs_put wp_host_op wp_mark_completed wp_ret Let_def
      split: outcome.splits option.splits dest: put_safeD [OF put]
      intro!: changed_configs_wp [THEN wp_mono] fail_returns [OF put, THEN wp_mono])

lemma finish_returns:
  assumes put: "put_safe I P js" and cm: "completed job \<noteq> None" and st: "I (store s)"
  shows "wp (finish_provision h js job) (\<lambda>r s'. returns P r \<and> I (store s')) s"
  using cm st
  by (auto simp: finish_provision_def wp_bind wp_jobs_put wp_host_op wp_mark_completed wp_ret Let_def
      split: outcome.splits option.splits dest: put_safeD [OF put] intro!: fail_returns [OF put])

lemma provision_work_returns:
  assumes put: "put_safe I P js" and cm: "completed job \<noteq> None" and st: "I (store s)"
  shows "wp (provision_work h js req job) (\<lambda>r s'. returns P r \<and> I (store s')) s"
proof -
  have rest: "wp (provision_rest h js j) (\<lambda>r s'. returns P r \<and> I (store s')) s1"
    if "completed j \<noteq> None" "I (store s1)" for j s1
    unfolding provision_rest_def wp_bind
    by (rule run_steps_returns [OF put that, THEN wp_mono])
       (auto simp: wp_ret split: outcome.splits sum.splits intro!: finish_returns [OF put])
  show ?thesis
    unfolding provision_work_def wp_bind
    by (rule backup_block_returns [OF put cm st, THEN wp_mono])
       (auto simp: wp_ret split: outcome.splits sum.splits intro!: rest)
qed

lemma provisioner_run_safe:
  assumes put: "put_safe I P js" and cm: "completed (start_job js (pr_id req) (store s)) \<noteq> None" and st: "I (store s)"
  shows "wp (provisioner_run h js req) (\<lambda>r s'. returns P r \<and> I (store s')) s"
proof -
  have "wp (provision_job h js req (start_job js (pr_id req) (store s))) (\<lambda>r s'. returns P r \<and> I (store s')) s"
    using st
    by (auto simp: provision_job_def wp_ret wp_bind [of "preflight h"] split: outcome.splits option.splits
        intro!: preflight_wp [THEN wp_mono] provision_work_returns [OF put cm] fail_returns [OF put])
  then show ?thesis using st by (simp add: provisioner_run_def wp_bind wp_jobs_get wp_ret start_job_def)
qed

lemma provisioner_run_returns:
  assumes put: "put_panics P js" and cm: "completed (start_job js (pr_id req) (store s)) \<noteq> None"
  shows "wp (provisioner_run h js req) (\<lambda>r s'. returns P r) s"
  by (rule provisioner_run_safe [OF put_safe_panics [OF put] cm, THEN wp_mono]) simp_all

subsection \<open>Phases written to the store\<close>

definition put_phases_ok :: "host_call list \<Rightarrow> bool" where
  "put_phases_ok cs \<longleftrightarrow> (\<forall>j. CPut j \<in> set cs \<and> job_state j \<noteq> Failed \<longrightarrow>
     job_phase j \<in> {''confirm_config'', ''packages'', ''configure'', ''services'', ''complete''})"

lemma put_phases_ok_snoc:
  "put_phases_ok (cs @ [c]) \<longleftrightarrow> put_phases_ok cs \<and> (\<forall>j. c = CPut j \<and> job_state j \<noteq> Failed \<longrightarrow>
     job_phase j \<in> {''confirm_config'', ''packages'', ''configure'', ''services'', ''complete''})"
  unfolding put_phases_ok_def by auto

lemma put_phases_ok_configs [simp]: "put_phases_ok (cs @ map2 CConfig ps exs) = put_phases_ok cs"
  unfolding put_phases_ok_def by auto

lemma run_steps_phases:
  assumes "put_phases_ok (calls s)" "set (map fst steps) \<subseteq> {''packages'', ''configure'', ''services''}"
  shows "wp (run_steps h js steps job) (\<lambda>r s'. put_phases_ok (calls s')) s"
  using assms
proof (induction steps arbitrary: job s)
  case Nil
  then show ?case by (simp add: prog_simps)
next
  case (Cons st rest)
  obtain cp cmd where st: "st = (cp, cmd)" by fastforce
  show ?case
    using Cons
    by (auto simp: st Let_def wp_bind wp_jobs_put wp_host_op wp_mark_completed wp_ret provision_fail_def
        put_phases_ok_snoc simp del: append_assoc split: outcome.splits option.splits)
qed

lemma provisioner_run_phases:
  assumes "put_phases_ok (calls s)"
  shows "wp (provisioner_run h js req) (\<lambda>r s'. put_phases_ok (calls s')) s"
proof -
  have fail: "wp (provision_fail js j ph e) (\<lambda>r s'. put_phases_ok (calls s')) s1"
    if "put_phases_ok (calls s1)" for s1 j ph e
    using that by (simp add: provision_fail_def Let_def prog_simps put_phases_ok_snoc split: outcome.splits)
  have finish: "wp (finish_provision h js j) (\<lambda>r s'. put_phases_ok (calls s')) s1"
    if "put_phases_ok (calls s1)" for s1 j
    using that
    by (auto simp: finish_provision_def Let_def prog_simps put_phases_ok_snoc simp del: append_assoc
        split: outcome.splits option.splits intro!: fail)
  have rest: "wp (provision_rest h js j) (\<lambda>r s'. put_phases_ok (calls s')) s1"
    if "put_phases_ok (calls s1)" for s1 j
    unfolding provision_rest_def wp_bind
    by (rule run_steps_phases [OF that, THEN wp_mono])
       (auto simp: provision_steps_def wp_ret split: outcome.splits sum.splits intro!: finish)
  have work: "wp (provision_work h js req j) (\<lambda>r s'. put_phases_ok (calls s')) s1"
    if "put_phases_ok (calls s1)" for s1 j
    using that
    by (auto simp: provision_work_def backup_block_def Let_def wp_bind wp_host_op wp_jobs_put wp_ret
          wp_mark_completed put_phases_ok_snoc simp del: append_assoc
        split: outcome.splits option.splits intro!: changed_configs_wp [THEN wp_mono] fail [THEN wp_mono] rest)
  have pre: "wp (preflight h) (\<lambda>r s'. (\<exists>e. r = Ret e) \<and> put_phases_ok (calls s')) s"
    using assms by (simp add: preflight_def prog_simps put_phases_ok_snoc del: append_assoc)
  show ?thesis
    unfolding provisioner_run_def
    by (auto simp: assms wp_ret wp_bind wp_jobs_get provision_job_def split: outcome.splits option.splits
        intro!: pre [THEN wp_mono] work fail)
qed

subsection \<open>Unconfirmed runs\<close>

lemma changed_configs_found:
  assumes "p \<in> set ps" "\<And>w. snd (fst (hConfig h p w))"
  shows "wp (changed_configs h ps) (\<lambda>r s'. \<exists>xs. r = Ret xs \<and> p \<in> set xs) s"
  using assms(1)
proof (induction ps arbitrary: s)
  case Nil
  then show ?case by simp
next
  case (Cons q ps)
  have all: "wp (changed_configs h ps) (\<lambda>r s'. \<exists>xs. r = Ret xs) s1" for s1
    by (rule changed_configs_wp [THEN wp_mono]) auto
  show ?case
  proof (cases "q = p")
    case True
    have "ex" if "hConfig h p w = ((c, ex), w')" for w c ex w'
      using assms(2) [of w] that by simp
    then show ?thesis
      by (auto simp: prog_simps True split: prod.splits outcome.splits intro!: all [THEN wp_mono])
  next
    case False
    with Cons show ?thesis
      by (auto simp: prog_simps split: prod.splits outcome.splits intro!: Cons.IH [THEN wp_mono])
  qed
qed

lemma backup_block_unconfirmed:
  assumes nb: "\<not> is_completed job ''backup''" and nc: "\<not> pr_confirm req"
    and p: "p \<in> set protected_config_paths" "\<And>w. snd (fst (hConfig h p w))"
  shows "wp (backup_block h js req job)
    (\<lambda>r s'. host_effects (calls s') = host_effects (calls s) \<and>
       (\<forall>x. r = Ret x \<longrightarrow> (\<exists>j. x = Inl (Some j, None) \<and> job_state j = NeedsInput \<and> p \<in> set (changed_paths j)))) s"
  unfolding backup_block_def
  using nb nc
  by (auto simp: wp_bind [of "changed_configs _ _"]
      intro!: wp_conj [OF changed_configs_wp changed_configs_found [OF p], THEN wp_mono])
     (auto simp: Let_def prog_simps split: outcome.splits)

end
