(* ===== verification/Updater.thy ===== *)
theory Updater
  imports Provisioner
begin

section \<open>The update workflow\<close>

text \<open>
  \<open>Updater.Run\<close> of \<open>lifecycle.go\<close>. The manifest verifier may be nil (\<open>None\<close>); \<open>sha\<close> is the hex
  SHA-256 digest. What the updater needs from the host to keep its promise (a failed health check
  restores the prior release) is the locale \<open>release_host\<close>.
\<close>

record release_manifest =
  rm_version :: string
  rm_url :: string
  rm_sha256 :: string

record update_request =
  ur_id :: string
  ur_manifest :: release_manifest

definition err_digest_mismatch :: go_error where
  "err_digest_mismatch = ErrSentinel ''ErrDigestMismatch'' ''release digest mismatch''"

definition err_update_rolled_back :: go_error where
  "err_update_rolled_back = ErrSentinel ''ErrUpdateRolledBack'' ''update rolled back after failed health check''"

definition preserved_paths :: "string list" where
  "preserved_paths = [''/var/lib/bottle-agent'', ''/var/lib/bottle-agent/exports'',
     ''/var/log/bottle-agent'', ''/etc/bottle-agent/config.yaml'']"

definition update_fail :: "'j jobs \<Rightarrow> job \<Rightarrow> string \<Rightarrow> go_error \<Rightarrow> (('w, 'j) lstate, job_result) prog" where
  "update_fail js job phase err =
     (let job = job\<lparr>job_state := Failed, job_phase := phase, job_message := error_text err\<rparr> in
      bindP (jobs_put js job) (\<lambda>_. retP (Some job, Some err)))"

definition new_update_job :: "string \<Rightarrow> job" where
  "new_update_job i = \<lparr>job_id = i, job_kind = ''update'', job_state = Running, job_phase = [],
     job_message = [], changed_paths = [], completed = Some Map.empty, updated_at = 0\<rparr>"

definition rolled_back_message :: string where
  "rolled_back_message = ''UPDATE_ROLLED_BACK: staged release failed health checks; prior release restored''"

text \<open>After activation: the health check, and on failure the rollback to \<open>previous\<close>.\<close>

definition update_health :: "'w host \<Rightarrow> 'j jobs \<Rightarrow> string \<Rightarrow> job \<Rightarrow> (('w, 'j) lstate, job_result) prog" where
  "update_health h js previous job =
     bindP (host_op (hHealthCheck h) CHealth) (\<lambda>e.
     case e of
       Some err \<Rightarrow>
         bindP (host_op (hRollback h previous) (CRollback previous)) (\<lambda>re.
         case re of
           Some rollbackErr \<Rightarrow>
             update_fail js job ''rollback''
               (ErrWrap ''health check failed: '' err (''; rollback failed: '' @ error_text rollbackErr))
         | None \<Rightarrow>
             (let job = job\<lparr>job_state := Failed, job_phase := ''rolled_back'', job_message := rolled_back_message\<rparr> in
              bindP (jobs_put js job) (\<lambda>_. retP (Some job, Some err_update_rolled_back))))
     | None \<Rightarrow>
         (let job = job\<lparr>job_state := Succeeded, job_phase := ''complete'',
                        job_message := ''update activated after signed-manifest, digest, and health checks''\<rparr> in
          bindP (jobs_put js job) (\<lambda>_. retP (Some job, None))))"

text \<open>From the verified payload on: backup, the release that is active now, staging, activation.\<close>

definition update_install ::
  "'w host \<Rightarrow> 'j jobs \<Rightarrow> string \<Rightarrow> string \<Rightarrow> job \<Rightarrow> (('w, 'j) lstate, job_result) prog" where
  "update_install h js version payload job =
     bindP (host_op (hBackup h preserved_paths) (CBackup preserved_paths)) (\<lambda>e.
     case e of
       Some err \<Rightarrow> update_fail js job ''backup'' err
     | None \<Rightarrow>
     bindP (host_op (hActiveRelease h) CActiveRelease) (\<lambda>previous.
     bindP (host_op (hStage h version payload) (CStage version payload)) (\<lambda>e.
     case e of
       Some err \<Rightarrow> update_fail js job ''stage'' err
     | None \<Rightarrow>
     bindP (host_op (hActivate h version) (CActivate version)) (\<lambda>e.
     case e of
       Some err \<Rightarrow> update_fail js job ''activate'' err
     | None \<Rightarrow> update_health h js previous job))))"

definition update_job ::
  "'w host \<Rightarrow> 'j jobs \<Rightarrow> (release_manifest \<Rightarrow> go_error option) option \<Rightarrow> (string \<Rightarrow> string) \<Rightarrow>
     release_manifest \<Rightarrow> job \<Rightarrow> (('w, 'j) lstate, job_result) prog" where
  "update_job h js verify sha m job =
     (case verify of
        None \<Rightarrow> update_fail js job ''verify_manifest'' (ErrText ''no signed manifest verifier configured'')
      | Some v \<Rightarrow>
     (case v m of
        Some err \<Rightarrow> update_fail js job ''verify_manifest'' err
      | None \<Rightarrow>
     bindP (host_op (hFetch h (rm_url m)) (CFetch (rm_url m))) (\<lambda>f.
     case f of
       Inl err \<Rightarrow> update_fail js job ''download'' err
     | Inr payload \<Rightarrow>
         if sha payload \<noteq> rm_sha256 m then update_fail js job ''verify_digest'' err_digest_mismatch
         else update_install h js (rm_version m) payload job)))"

definition updater_run ::
  "'w host \<Rightarrow> 'j jobs \<Rightarrow> (release_manifest \<Rightarrow> go_error option) option \<Rightarrow> (string \<Rightarrow> string) \<Rightarrow>
     update_request \<Rightarrow> (('w, 'j) lstate, job_result) prog" where
  "updater_run h js verify sha req =
     (let m = ur_manifest req in
      if ur_id req = [] \<or> rm_version m = [] \<or> rm_url m = [] \<or> rm_sha256 m = [] then
        retP (None, Some (ErrText ''update request requires id and complete manifest''))
      else
      bindP (jobs_get js (ur_id req)) (\<lambda>got.
      case got of
        Some prior \<Rightarrow>
          if job_state prior = Succeeded then retP (Some prior, None)
          else bindP (jobs_put js (new_update_job (ur_id req))) (\<lambda>_.
               update_job h js verify sha m (new_update_job (ur_id req)))
      | None \<Rightarrow> bindP (jobs_put js (new_update_job (ur_id req))) (\<lambda>_.
               update_job h js verify sha m (new_update_job (ur_id req)))))"

subsection \<open>What a run does\<close>

text \<open>
  The plan of an update, and the rollback that is not in the plan: it follows a failed health
  check, and nothing else.
\<close>

definition update_plan :: "string \<Rightarrow> string \<Rightarrow> action list" where
  "update_plan version payload =
     [DoBackup preserved_paths, DoStage version payload, DoActivate version, DoHealth]"

fun is_rollback :: "host_call \<Rightarrow> bool" where
  "is_rollback (CRollback v e) = True"
| "is_rollback _ = False"

fun health_failed :: "host_call \<Rightarrow> bool" where
  "health_failed (CHealth e) = (e \<noteq> None)"
| "health_failed _ = False"

definition planned :: "host_call list \<Rightarrow> host_call list" where
  "planned log = filter (\<lambda>c. \<not> is_rollback c) log"

definition rollbacks :: "host_call list \<Rightarrow> host_call list" where
  "rollbacks log = filter is_rollback log"

definition accepted ::
  "(release_manifest \<Rightarrow> go_error option) option \<Rightarrow> (string \<Rightarrow> string) \<Rightarrow> release_manifest \<Rightarrow> string \<Rightarrow> bool" where
  "accepted verify sha m payload \<longleftrightarrow> (\<exists>v. verify = Some v \<and> v m = None) \<and> sha payload = rm_sha256 m"

definition update_post ::
  "(release_manifest \<Rightarrow> go_error option) option \<Rightarrow> (string \<Rightarrow> string) \<Rightarrow> release_manifest \<Rightarrow>
     host_call list \<Rightarrow> job_result \<Rightarrow> bool" where
  "update_post verify sha m log x \<longleftrightarrow>
     (\<exists>j. fst x = Some j \<and> job_state j = (if snd x = None then Succeeded else Failed)) \<and>
     (log = [] \<and> snd x \<noteq> None \<or>
      (\<exists>payload. accepted verify sha m payload \<and>
         executes (update_plan (rm_version m) payload) (planned log) \<and>
         (snd x = None \<longleftrightarrow> all_ok (planned log)) \<and>
         length (rollbacks log) = length (filter health_failed log) \<and>
         (rollbacks log \<noteq> [] \<and> all_ok (rollbacks log) \<longrightarrow> snd x = Some err_update_rolled_back)))"

lemma update_fail_wp:
  "wp (update_fail js job ph e) Q s \<longleftrightarrow>
     (let j = job\<lparr>job_state := Failed, job_phase := ph, job_message := error_text e\<rparr> in
      \<forall>r st. jPut js j (store s) = (r, st) \<longrightarrow>
        (case r of Ret u \<Rightarrow> Q (Ret (Some j, Some e)) (s\<lparr>store := st, calls := calls s @ [CPut j]\<rparr>)
         | Panic p \<Rightarrow> Q (Panic p) (s\<lparr>store := st, calls := calls s @ [CPut j]\<rparr>)))"
  by (auto simp: update_fail_def Let_def prog_simps split: outcome.splits)

lemmas update_exec_defs = update_health_def update_install_def update_job_def Let_def
lemmas update_exec_wps = wp_bind wp_ret wp_host_op wp_jobs_put wp_jobs_get update_fail_wp

lemma update_health_post:
  assumes "accepted verify sha m payload"
  shows "wp (update_health h js prev job)
    (block_post (\<lambda>log. update_post verify sha m
       ([CBackup preserved_paths None, CStage (rm_version m) payload None, CActivate (rm_version m) None] @ log)) s) s"
  using assms
  by (auto simp: update_exec_defs update_exec_wps update_post_def planned_def rollbacks_def update_plan_def
      split: outcome.splits option.splits)


lemma update_install_post:
  assumes "accepted verify sha m payload"
  shows "wp (update_install h js (rm_version m) payload job) (block_post (update_post verify sha m) s) s"
proof -
  note health = update_health_post [OF assms, THEN wp_mono]
  show ?thesis
    unfolding update_install_def
    using assms
    by (auto simp: update_exec_wps Let_def update_post_def [of _ _ _ "[_]"] update_post_def [of _ _ _ "[_, _]"]
          update_post_def [of _ _ _ "[_, _, _]"] planned_def rollbacks_def update_plan_def block_post_def
        split: outcome.splits option.splits intro!: health)
qed

lemma update_post_early: "job_state j = Failed \<Longrightarrow> update_post verify sha m [] (Some j, Some e)"
  by (simp add: update_post_def)

lemma update_job_post:
  shows "wp (update_job h js verify sha m job) (block_post (update_post verify sha m) s) s"
proof -
  have rest: "wp (update_install h js (rm_version m) payload job) (block_post (update_post ver sha m) s) s1"
    if "accepted ver sha m payload" "host_effects (calls s1) = host_effects (calls s)" for ver payload s1
    by (rule update_install_post [OF that(1), THEN wp_mono]) (rule block_post_cong [OF that(2)])
  show ?thesis
    unfolding update_job_def
    by (auto simp: update_exec_wps Let_def update_post_early accepted_def split: outcome.splits option.splits sum.splits intro!: rest)
qed


definition update_request_complete :: "update_request \<Rightarrow> bool" where
  "update_request_complete req \<longleftrightarrow> ur_id req \<noteq> [] \<and> rm_version (ur_manifest req) \<noteq> [] \<and>
     rm_url (ur_manifest req) \<noteq> [] \<and> rm_sha256 (ur_manifest req) \<noteq> []"

definition update_done :: "'j jobs \<Rightarrow> string \<Rightarrow> 'j \<Rightarrow> bool" where
  "update_done js i st \<longleftrightarrow> (case jGet js i st of Some j \<Rightarrow> job_state j = Succeeded | None \<Rightarrow> False)"

text \<open>A run that is not answered from the store: the job is recorded as running, then worked on.\<close>

lemma updater_run_fresh:
  assumes "update_request_complete req" "\<not> update_done js (ur_id req) (store s)"
  shows "updater_run h js verify sha req s =
    bindP (jobs_put js (new_update_job (ur_id req)))
      (\<lambda>_. update_job h js verify sha (ur_manifest req) (new_update_job (ur_id req))) s"
  using assms
  by (auto simp: updater_run_def update_request_complete_def update_done_def bindP_def jobs_get_def Let_def
      split: option.splits if_splits)

lemma updater_run_post:
  assumes "update_request_complete req" "\<not> update_done js (ur_id req) (store s)"
  shows "wp (updater_run h js verify sha req) (block_post (update_post verify sha (ur_manifest req)) s) s"
proof -
  have job: "wp (update_job h js verify sha m job) (block_post (update_post verify sha m) s) s1"
    if "host_effects (calls s1) = host_effects (calls s)" for m job s1
    by (rule update_job_post [THEN wp_mono]) (rule block_post_cong [OF that])
  have "wp (bindP (jobs_put js (new_update_job (ur_id req)))
      (\<lambda>_. update_job h js verify sha (ur_manifest req) (new_update_job (ur_id req))))
      (block_post (update_post verify sha (ur_manifest req)) s) s"
    by (auto simp: wp_bind wp_jobs_put split: outcome.splits intro!: job)
  then show ?thesis by (simp add: wp_def updater_run_fresh [OF assms])
qed

subsection \<open>The release that is active afterwards\<close>

text \<open>
  What the updater relies on: \<open>active w\<close> is the release the host runs. Only \<open>Activate\<close> and
  \<open>Rollback\<close> change it; when they succeed it is the requested one, when they fail it is the
  requested one or the one before. \<open>ActiveRelease\<close> answers it, or the empty string when it cannot
  be read. \<open>valid\<close> is which version names the host can handle.
\<close>

locale release_host =
  fixes h :: "'w host"
    and active :: "'w \<Rightarrow> string"
    and valid :: "string \<Rightarrow> bool"
  assumes fetch_keeps: "hFetch h u w = (f, w') \<Longrightarrow> active w' = active w"
    and backup_keeps: "hBackup h ps w = (e, w') \<Longrightarrow> active w' = active w"
    and stage_keeps: "valid v \<Longrightarrow> hStage h v d w = (e, w') \<Longrightarrow> active w' = active w"
    and health_keeps: "hHealthCheck h w = (e, w') \<Longrightarrow> active w' = active w"
    and active_keeps: "hActiveRelease h w = (a, w') \<Longrightarrow> active w' = active w"
    and active_answer: "hActiveRelease h w = (a, w') \<Longrightarrow> a \<noteq> [] \<Longrightarrow> a = active w"
    and activate_ok: "valid v \<Longrightarrow> hActivate h v w = (None, w') \<Longrightarrow> active w' = v"
    and activate_failed: "valid v \<Longrightarrow> hActivate h v w = (Some err, w') \<Longrightarrow> active w' = active w \<or> active w' = v"
    and rollback_ok: "valid v \<Longrightarrow> hRollback h v w = (None, w') \<Longrightarrow> active w' = v"
    and rollback_failed: "valid v \<Longrightarrow> hRollback h v w = (Some err, w') \<Longrightarrow> active w' = active w \<or> active w' = v"

definition unchanged_phases :: "string list" where
  "unchanged_phases = [''verify_manifest'', ''download'', ''verify_digest'', ''backup'', ''stage'', ''rolled_back'']"

definition release_post :: "('w \<Rightarrow> string) \<Rightarrow> string \<Rightarrow> string \<Rightarrow> job_result outcome \<Rightarrow> ('w, 'j) lstate \<Rightarrow> bool" where
  "release_post active prior v r s' \<longleftrightarrow>
     (\<forall>j e. r = Ret (Some j, e) \<longrightarrow> CActiveRelease [] \<notin> set (calls s') \<longrightarrow>
        (job_state j = Succeeded \<longrightarrow> active (world s') = v) \<and>
        (job_phase j \<in> set unchanged_phases \<longrightarrow> active (world s') = prior) \<and>
        (active (world s') = prior \<or> active (world s') = v))"

lemma release_post_Panic [simp]: "release_post active prior v (Panic p) s'"
  by (simp add: release_post_def)

context release_host begin

lemma update_health_release:
  assumes "valid v" "valid prior" "active (world s) = v"
    "previous = prior \<or> CActiveRelease [] \<in> set (calls s)"
  shows "wp (update_health h js previous job) (release_post active prior v) s"
proof -
  have rb: "active w2 = prior" if "hRollback h prior w = (None, w2)" for w w2
    using rollback_ok [OF assms(2) that] .
  have rf: "active w2 = prior \<or> active w2 = v"
    if "hHealthCheck h (world s) = (e, w)" "hRollback h prior w = (Some e2, w2)" for e e2 w w2
    using rollback_failed [OF assms(2) that(2)] health_keeps [OF that(1)] assms(3) by auto
  have "wp (update_health h js previous job) (\<lambda>r s2. CActiveRelease [] \<in> set (calls s2)) s"
    if "CActiveRelease [] \<in> set (calls s)"
    using that by (auto simp: update_health_def Let_def update_exec_wps split: outcome.splits option.splits)
  then show ?thesis
    using assms(3,4)
    by (auto simp: update_health_def Let_def update_exec_wps release_post_def unchanged_phases_def
        split: outcome.splits option.splits dest: health_keeps rb rf)
qed

lemma update_install_release:
  assumes "valid v" "valid prior" "active (world s) = prior"
  shows "wp (update_install h js v payload job) (release_post active prior v) s"
proof -
  obtain e1 w1 where b: "hBackup h preserved_paths (world s) = (e1, w1)" by fastforce
  obtain a w2 where a: "hActiveRelease h w1 = (a, w2)" by fastforce
  obtain e3 w3 where st: "hStage h v payload w2 = (e3, w3)" by fastforce
  obtain e4 w4 where ac: "hActivate h v w3 = (e4, w4)" by fastforce
  have w: "active w1 = prior" "active w3 = prior" "a \<noteq> [] \<Longrightarrow> a = prior"
    using backup_keeps [OF b] active_keeps [OF a] stage_keeps [OF assms(1) st] active_answer [OF a] assms(3) by simp_all
  have early: "wp (update_fail js job ph err) (release_post active prior v) s1"
    if "active (world s1) = prior \<or> active (world s1) = v \<and> ph \<notin> set unchanged_phases" for s1 ph err
    using that by (auto simp: update_fail_wp Let_def release_post_def split: outcome.splits)
  have act: "active w4 = prior \<or> active w4 = v" "e4 = None \<Longrightarrow> active w4 = v"
    using activate_ok [OF assms(1), of w3 w4] activate_failed [OF assms(1), of w3 _ w4] w(2) ac
    by (cases e4; auto)+
  have health: "wp (update_health h js a job) (release_post active prior v) s1"
    if "e4 = None" "world s1 = w4" "CActiveRelease a \<in> set (calls s1)" for s1
    using that w(3) by (intro update_health_release [OF assms(1,2)]) (auto simp: act)
  show ?thesis
    unfolding update_install_def
    by (auto simp: wp_bind wp_host_op b a st ac w act intro!: early health split: option.splits)
       (use act(1) in \<open>auto simp: unchanged_phases_def\<close>)
qed

lemma updater_run_release:
  assumes "update_request_complete req" "\<not> update_done js (ur_id req) (store s)"
    and "valid (rm_version (ur_manifest req))" "valid prior" "active (world s) = prior"
  shows "wp (updater_run h js verify sha req) (release_post active prior (rm_version (ur_manifest req))) s"
proof -
  let ?m = "ur_manifest req"
  let ?Q = "release_post active prior (rm_version ?m)"
  have early: "wp (update_fail js job ph err) ?Q s1" if "active (world s1) = prior" for s1 job ph err
    using that by (auto simp: update_fail_wp Let_def release_post_def split: outcome.splits)
  have inst: "wp (update_install h js (rm_version ?m) payload job) ?Q s1"
    if "hFetch h u (world s) = (f, world s1)" for s1 payload job u f
    using update_install_release [OF assms(3,4)] fetch_keeps [OF that] assms(5) by simp
  have fetched: "active w = prior" if "hFetch h u (world s) = (f, w)" for u f w
    using fetch_keeps [OF that] assms(5) by simp
  note keep = assms(5)
  have job: "wp (update_job h js verify sha ?m job) ?Q s1" if "world s1 = world s" for job s1
    by (auto simp: update_job_def wp_bind wp_host_op that keep fetched intro!: early inst
        split: option.splits sum.splits)
  have "wp (bindP (jobs_put js (new_update_job (ur_id req)))
      (\<lambda>_. update_job h js verify sha ?m (new_update_job (ur_id req)))) ?Q s"
    by (auto simp: wp_bind wp_jobs_put split: outcome.splits intro!: job)
  then show ?thesis by (simp add: wp_def updater_run_fresh [OF assms(1,2)])
qed

end

subsection \<open>The store afterwards\<close>

definition update_stored ::
  "(string \<Rightarrow> 'j \<Rightarrow> job option) \<Rightarrow> ('j \<Rightarrow> bool) \<Rightarrow> string \<Rightarrow> job_result outcome \<Rightarrow> ('w, 'j) lstate \<Rightarrow> bool" where
  "update_stored get sound i r s \<longleftrightarrow> sound (store s) \<and>
     (\<forall>x. r = Ret x \<longrightarrow> (\<exists>j e. x = (Some j, e) \<and> stored_as get i j (store s)))"

context job_store begin

lemma update_put_stored:
  assumes "inv (store s)" "job_id job = i"
  shows "wp (bindP (jobs_put \<lparr>jGet = get, jPut = put\<rparr> job) (\<lambda>_. retP (Some job, e))) (update_stored get inv i) s"
  unfolding wp_bind
  by (rule put_wp [OF assms(1), THEN wp_mono])
     (use assms(2) in \<open>auto simp: wp_ret update_stored_def split: outcome.splits\<close>)

lemma update_fail_stored:
  assumes "inv (store s)" "job_id job = i"
  shows "wp (update_fail \<lparr>jGet = get, jPut = put\<rparr> job ph e) (update_stored get inv i) s"
  unfolding update_fail_def Let_def by (rule update_put_stored) (simp_all add: assms)

lemma updater_run_stored:
  assumes "inv (store s)" "update_request_complete req" "\<not> update_done \<lparr>jGet = get, jPut = put\<rparr> (ur_id req) (store s)"
  shows "wp (updater_run h \<lparr>jGet = get, jPut = put\<rparr> verify sha req) (update_stored get inv (ur_id req)) s"
proof -
  let ?js = "\<lparr>jGet = get, jPut = put\<rparr>" and ?i = "ur_id req"
  have id: "job_id (new_update_job ?i) = ?i" by (simp add: new_update_job_def)
  have health: "wp (update_health h ?js prev (new_update_job ?i)) (update_stored get inv ?i) s1" if "inv (store s1)" for prev s1
    unfolding update_health_def Let_def
    by (auto simp: wp_bind [of "host_op _ _"] wp_host_op that id split: option.splits
        intro!: update_fail_stored update_put_stored)
  have install: "wp (update_install h ?js v payload (new_update_job ?i)) (update_stored get inv ?i) s1"
    if "inv (store s1)" for v payload s1
    unfolding update_install_def
    by (auto simp: wp_bind [of "host_op _ _"] wp_host_op that id split: option.splits
        intro!: update_fail_stored health)
  have job: "wp (update_job h ?js verify sha m (new_update_job ?i)) (update_stored get inv ?i) s1"
    if "inv (store s1)" for m s1
    unfolding update_job_def
    by (auto simp: wp_bind [of "host_op _ _"] wp_host_op that id split: option.splits sum.splits
        intro!: update_fail_stored install)
  have "wp (bindP (jobs_put ?js (new_update_job ?i)) (\<lambda>_. update_job h ?js verify sha (ur_manifest req) (new_update_job ?i)))
      (update_stored get inv ?i) s"
    unfolding wp_bind
    by (rule put_wp [OF assms(1), THEN wp_mono]) (auto simp: update_stored_def split: outcome.splits intro!: job)
  then show ?thesis by (simp add: wp_def updater_run_fresh [OF assms(2,3)])
qed

end

lemma updater_run_returns:
  assumes put: "put_panics P js"
  shows "wp (updater_run h js verify sha req) (\<lambda>r s'. returns P r) s"
proof -
  have fail: "wp (update_fail js job ph e) (\<lambda>r s'. returns P r) s1" for job ph e s1
    by (auto simp: update_fail_wp Let_def split: outcome.splits dest: put_panicsD [OF put])
  have health: "wp (update_health h js prev job) (\<lambda>r s'. returns P r) s1" for prev job s1
    unfolding update_health_def Let_def
    by (auto simp: wp_bind wp_host_op wp_jobs_put wp_ret split: option.splits outcome.splits
        intro!: fail dest: put_panicsD [OF put])
  have install: "wp (update_install h js v payload job) (\<lambda>r s'. returns P r) s1" for v payload job s1
    unfolding update_install_def by (auto simp: wp_bind wp_host_op split: option.splits intro!: fail health)
  have job: "wp (update_job h js verify sha m job) (\<lambda>r s'. returns P r) s1" for m job s1
    unfolding update_job_def by (auto simp: wp_bind wp_host_op split: option.splits sum.splits intro!: fail install)
  show ?thesis
    unfolding updater_run_def Let_def
    by (auto simp: wp_ret wp_bind wp_jobs_get wp_jobs_put split: option.splits outcome.splits
        intro!: job dest: put_panicsD [OF put])
qed

end
