(* ===== verification/Host.thy ===== *)
theory Host
  imports Updater
begin

section \<open>The host of the Raspberry Pi\<close>

text \<open>
  \<open>bottle-agent/internal/host/host.go\<close>. What lies outside the agent's files is the record
  \<open>machine\<close>: the shell, the network, the clock, the tar and gzip writers; each is a function of an
  outside state \<open>'x\<close>, so an answer may depend on what was done before. A shell command may
  change any file except the ones the agent owns (its release directory and its link), which no
  command the agent runs writes. The agent's own file operations are those of \<open>Go_OS\<close>.
\<close>

subsection \<open>Configuration and outside world\<close>

record host_cfg =
  os_release_path :: path
  net_class_root :: path
  statfs_path :: path
  gpsd_addr :: string
  kismet_addr :: string
  fetch_max_bytes :: nat
  backup_dir :: path
  releases_dir :: path
  current_link :: path
  service_names :: "string list"

definition production_cfg :: host_cfg where
  "production_cfg = \<lparr>
     os_release_path = ''/etc/os-release'',
     net_class_root = ''/sys/class/net'',
     statfs_path = ''/'',
     gpsd_addr = ''127.0.0.1:2947'',
     kismet_addr = ''127.0.0.1:2501'',
     fetch_max_bytes = 536870912,
     backup_dir = ''/var/lib/bottle-agent/backups'',
     releases_dir = ''/opt/bottle-agent/releases'',
     current_link = ''/opt/bottle-agent/current'',
     service_names = [''bottle-agent'', ''kismet'']\<rparr>"

text \<open>A tar entry: the name, whether it is a directory, the size in its header and the bytes copied.\<close>

record tar_entry =
  te_name :: path
  te_dir :: bool
  te_size :: nat
  te_body :: string

type_synonym file_map = "path \<Rightarrow> node option"

record 'x machine =
  goarch :: string
  io_of :: io_env
  statfs :: "path \<Rightarrow> 'x \<Rightarrow> (64 word \<times> 64 word) option"
  interface_exists :: "string \<Rightarrow> 'x \<Rightarrow> bool"
  glob :: "path \<Rightarrow> 'x \<Rightarrow> go_error + path list"
  dial :: "string \<Rightarrow> 'x \<Rightarrow> go_error option \<times> 'x"
  close_conn :: "'x \<Rightarrow> go_error option \<times> 'x"
  shell :: "string \<Rightarrow> file_map \<Rightarrow> 'x \<Rightarrow> (string \<times> go_error option) \<times> file_map \<times> 'x"
  http_get :: "string \<Rightarrow> 'x \<Rightarrow> (go_error + int \<times> string \<times> go_error option) \<times> 'x"
  utc_now :: "'x \<Rightarrow> nat \<times> nat \<times> nat \<times> nat \<times> nat \<times> nat"
  dir_names :: "file_map \<Rightarrow> path \<Rightarrow> string list"
  archive :: "tar_entry list \<Rightarrow> string"
  flushed :: "tar_entry list \<Rightarrow> string \<times> string"

record 'x mworld =
  w_os :: os
  w_ext :: 'x

definition on_os :: "(os \<Rightarrow> 'a \<times> os) \<Rightarrow> 'x mworld \<Rightarrow> 'a \<times> 'x mworld" where
  "on_os f w = (case f (w_os w) of (a, s) \<Rightarrow> (a, w\<lparr>w_os := s\<rparr>))"

definition on_ext :: "('x \<Rightarrow> 'a \<times> 'x) \<Rightarrow> 'x mworld \<Rightarrow> 'a \<times> 'x mworld" where
  "on_ext f w = (case f (w_ext w) of (a, x) \<Rightarrow> (a, w\<lparr>w_ext := x\<rparr>))"

definition link_tmp :: "host_cfg \<Rightarrow> path" where
  "link_tmp c = current_link c @ ''.tmp''"

definition owned :: "host_cfg \<Rightarrow> path \<Rightarrow> bool" where
  "owned c p \<longleftrightarrow> p = current_link c \<or> p = link_tmp c \<or> has_prefix p (releases_dir c @ ''/'')"

text \<open>\<open>runner.Run\<close>: the combined output and the exit error.\<close>

definition run_command :: "host_cfg \<Rightarrow> 'x machine \<Rightarrow> string \<Rightarrow> 'x mworld \<Rightarrow> (string \<times> go_error option) \<times> 'x mworld" where
  "run_command c m cmd w =
     (case shell m cmd (fs (w_os w)) (w_ext w) of
        (r, files, x) \<Rightarrow>
          (r, w\<lparr>w_os := (w_os w)\<lparr>fs := (\<lambda>p. if owned c p then fs (w_os w) p else files p)\<rparr>, w_ext := x\<rparr>))"

subsection \<open>What the host reports\<close>

definition trim_quotes :: "string \<Rightarrow> string" where
  "trim_quotes s = (let q = (\<lambda>c. c = CHR 0x22) in rev (dropWhile q (rev (dropWhile q s))))"

fun codename_is_bookworm :: "string list \<Rightarrow> bool" where
  "codename_is_bookworm [] = False"
| "codename_is_bookworm (line # lines) =
     (case cut_prefix line ''VERSION_CODENAME='' of
        Some v \<Rightarrow> trim_quotes (trim_space v) = ''bookworm''
      | None \<Rightarrow> codename_is_bookworm lines)"

definition host_is_bookworm :: "host_cfg \<Rightarrow> 'x machine \<Rightarrow> 'x mworld \<Rightarrow> bool \<times> 'x mworld" where
  "host_is_bookworm c m w =
     (case on_os (os_read_file (io_of m) (os_release_path c)) w of
        (Inl e, w) \<Rightarrow> (False, w)
      | (Inr d, w) \<Rightarrow> (codename_is_bookworm (split_on (CHR 0x0A) d), w))"

text \<open>The product of two \<open>int64\<close> values wraps; Go's division truncates toward zero.\<close>

definition free_mb :: "64 word \<Rightarrow> 64 word \<Rightarrow> int" where
  "free_mb bavail bsize =
     (let bytes = sint (bavail * bsize) in
      if bytes < 0 then - ((- bytes) div 1048576) else bytes div 1048576)"

definition host_free_storage :: "host_cfg \<Rightarrow> 'x machine \<Rightarrow> 'x mworld \<Rightarrow> int \<times> 'x mworld" where
  "host_free_storage c m w =
     (case statfs m (statfs_path c) (w_ext w) of None \<Rightarrow> (0, w) | Some (a, b) \<Rightarrow> (free_mb a b, w))"

definition host_radio_count :: "host_cfg \<Rightarrow> 'x machine \<Rightarrow> 'x mworld \<Rightarrow> int \<times> 'x mworld" where
  "host_radio_count c m w =
     (case glob m (path_join [net_class_root c, ''*'', ''wireless'']) (w_ext w) of
        Inl e \<Rightarrow> (0, w) | Inr matches \<Rightarrow> (int (length matches), w))"

definition host_gps_visible :: "host_cfg \<Rightarrow> 'x machine \<Rightarrow> 'x mworld \<Rightarrow> bool \<times> 'x mworld" where
  "host_gps_visible c m w =
     (case on_ext (dial m (gpsd_addr c)) w of
        (Some e, w) \<Rightarrow> (False, w)
      | (None, w) \<Rightarrow> (case on_ext (close_conn m) w of (e, w) \<Rightarrow> (True, w)))"

definition host_config :: "'x machine \<Rightarrow> path \<Rightarrow> 'x mworld \<Rightarrow> (string \<times> bool) \<times> 'x mworld" where
  "host_config m p w =
     (case on_os (os_read_file (io_of m) p) w of
        (Inl e, w) \<Rightarrow> (([], False), w)
      | (Inr d, w) \<Rightarrow> ((d, True), w))"

subsection \<open>Backups\<close>

text \<open>
  \<open>filepath.Walk\<close> visits a path before the names inside it, in lexical order, and does not
  follow links. A path on Linux has at most 4096 bytes, so 2048 levels are enough.
\<close>

fun walk :: "(file_map \<Rightarrow> path \<Rightarrow> string list) \<Rightarrow> file_map \<Rightarrow> nat \<Rightarrow> path \<Rightarrow> path list" where
  "walk names f 0 p = [p]"
| "walk names f (Suc n) p =
     p # (if is_dir f p then concat (map (\<lambda>x. walk names f n (path_join [p, x])) (names f p)) else [])"

definition max_depth :: nat where
  "max_depth = 2048"

definition err_write_too_long :: go_error where
  "err_write_too_long = ErrSentinel ''tar.ErrWriteTooLong'' ''archive/tar: write too long''"

text \<open>
  One visited path. A file that is the archive under construction grows while it is read:
  \<open>flushed m es\<close> are its bytes at the header and its bytes when the copy reaches the end. Writing
  more than the header announced fails.
\<close>

definition tar_file :: "path \<Rightarrow> string \<Rightarrow> string \<Rightarrow> tar_entry list \<Rightarrow> go_error option \<times> tar_entry list" where
  "tar_file p at_header read es =
     (let e = \<lparr>te_name = p, te_dir = False, te_size = length at_header, te_body = take (length at_header) read\<rparr> in
      (if length at_header < length read then Some err_write_too_long else None, es @ [e]))"

definition tar_visit :: "'x machine \<Rightarrow> path \<Rightarrow> path \<Rightarrow> os \<Rightarrow> tar_entry list \<Rightarrow> (go_error option \<times> tar_entry list) \<times> os" where
  "tar_visit m dest p s es =
     (if is_dir (fs s) p then
        ((None, es @ [\<lparr>te_name = p, te_dir = True, te_size = 0, te_body = []\<rparr>]), s)
      else
        (case os_read_file (io_of m) p s of
           (Inl e, s) \<Rightarrow> ((Some e, es), s)
         | (Inr d, s) \<Rightarrow>
             (if p = dest then (tar_file p (fst (flushed m es)) (snd (flushed m es)) es, s)
              else (tar_file p d d es, s))))"

fun tar_paths :: "'x machine \<Rightarrow> path \<Rightarrow> path list \<Rightarrow> os \<Rightarrow> tar_entry list \<Rightarrow> (go_error option \<times> tar_entry list) \<times> os" where
  "tar_paths m dest [] s es = ((None, es), s)"
| "tar_paths m dest (p # ps) s es =
     (case tar_visit m dest p s es of
        ((Some e, es), s) \<Rightarrow> ((Some e, es), s)
      | ((None, es), s) \<Rightarrow> tar_paths m dest ps s es)"

definition add_to_tar :: "'x machine \<Rightarrow> path \<Rightarrow> path \<Rightarrow> os \<Rightarrow> tar_entry list \<Rightarrow> (go_error option \<times> tar_entry list) \<times> os" where
  "add_to_tar m dest root s es =
     (case os_stat (io_of m) root s of
        (Some e, s) \<Rightarrow> if is_not_exist e then ((None, es), s) else ((Some e, es), s)
      | (None, s) \<Rightarrow> tar_paths m dest (walk (dir_names m) (fs s) max_depth root) s es)"

fun backup_paths :: "'x machine \<Rightarrow> path \<Rightarrow> path list \<Rightarrow> os \<Rightarrow> tar_entry list \<Rightarrow> (go_error option \<times> tar_entry list) \<times> os" where
  "backup_paths m dest [] s es = ((None, es), s)"
| "backup_paths m dest (p # ps) s es =
     (case add_to_tar m dest p s es of
        ((Some e, es), s) \<Rightarrow> ((Some (ErrWrap (''backup '' @ p @ '': '') e []), es), s)
      | ((None, es), s) \<Rightarrow> backup_paths m dest ps s es)"

text \<open>The archive's name holds the time in the layout \<open>20060102T150405Z\<close>. The whole archive is in the file once the writers are closed; then the file is synced.\<close>

fun pad_zero :: "nat \<Rightarrow> string \<Rightarrow> string" where
  "pad_zero n s = replicate (n - length s) (CHR ''0'') @ s"

fun utc_stamp :: "nat \<times> nat \<times> nat \<times> nat \<times> nat \<times> nat \<Rightarrow> string" where
  "utc_stamp (y, mo, d, h, mi, sec) =
     pad_zero 4 (nat_digits y) @ pad_zero 2 (nat_digits mo) @ pad_zero 2 (nat_digits d) @ ''T'' @
     pad_zero 2 (nat_digits h) @ pad_zero 2 (nat_digits mi) @ pad_zero 2 (nat_digits sec) @ ''Z''"

definition backup_dest :: "host_cfg \<Rightarrow> 'x machine \<Rightarrow> 'x \<Rightarrow> path" where
  "backup_dest c m x = path_join [backup_dir c, ''backup-'' @ utc_stamp (utc_now m x) @ ''.tar.gz'']"

definition write_archive :: "'x machine \<Rightarrow> path \<Rightarrow> path list \<Rightarrow> os \<Rightarrow> go_error option \<times> os" where
  "write_archive m dest paths s =
     (case os_write_file (io_of m) dest [] 384 s of
        (Some e, s) \<Rightarrow> (Some (ErrWrap ''create backup archive: '' e []), s)
      | (None, s) \<Rightarrow>
     (case backup_paths m dest paths s [] of
        ((Some e, es), s) \<Rightarrow> (Some e, snd (file_close (io_of m) s))
      | ((None, es), s) \<Rightarrow>
     (case file_write (io_of m) dest (archive m es) s of
        (Some e, s) \<Rightarrow> (Some e, snd (file_close (io_of m) s))
      | (None, s) \<Rightarrow>
     (case file_sync (io_of m) s of (e, s) \<Rightarrow> (e, snd (file_close (io_of m) s))))))"

definition host_backup :: "host_cfg \<Rightarrow> 'x machine \<Rightarrow> path list \<Rightarrow> 'x mworld \<Rightarrow> go_error option \<times> 'x mworld" where
  "host_backup c m paths w =
     (case on_os (os_mkdir_all (io_of m) (backup_dir c)) w of
        (Some e, w) \<Rightarrow> (Some (ErrWrap ''create backup dir: '' e []), w)
      | (None, w) \<Rightarrow> on_os (write_archive m (backup_dest c m (w_ext w)) paths) w)"

subsection \<open>Commands, health, download\<close>

definition host_run :: "host_cfg \<Rightarrow> 'x machine \<Rightarrow> string \<Rightarrow> 'x mworld \<Rightarrow> go_error option \<times> 'x mworld" where
  "host_run c m cmd w =
     (case run_command c m cmd w of
        ((output, Some e), w) \<Rightarrow>
          (Some (ErrWrap (''run '' @ go_quote cmd @ '': '') e ('': '' @ trim_space output)), w)
      | ((output, None), w) \<Rightarrow> (None, w))"

fun services_active :: "host_cfg \<Rightarrow> 'x machine \<Rightarrow> string list \<Rightarrow> 'x mworld \<Rightarrow> go_error option \<times> 'x mworld" where
  "services_active c m [] w = (None, w)"
| "services_active c m (s # ss) w =
     (case run_command c m (''systemctl is-active '' @ s) w of
        ((output, err), w) \<Rightarrow>
          if err \<noteq> None \<or> trim_space output \<noteq> ''active'' then
            (Some (ErrText (''service '' @ s @ '' is not active: '' @ trim_space output)), w)
          else services_active c m ss w)"

definition host_health_check :: "host_cfg \<Rightarrow> 'x machine \<Rightarrow> 'x mworld \<Rightarrow> go_error option \<times> 'x mworld" where
  "host_health_check c m w =
     (case services_active c m (service_names c) w of
        (Some e, w) \<Rightarrow> (Some e, w)
      | (None, w) \<Rightarrow>
     (case on_ext (dial m (kismet_addr c)) w of
        (Some e, w) \<Rightarrow> (Some (ErrWrap (''kismet not reachable at '' @ kismet_addr c @ '': '') e []), w)
      | (None, w) \<Rightarrow> on_ext (close_conn m) w))"

text \<open>
  \<open>http_get\<close> answers with the request's error or with the status, the bytes of the body and the
  error that ends it early; \<open>io.LimitReader\<close> stops after \<open>fetchMaxBytes\<close> bytes.
\<close>

definition host_fetch :: "host_cfg \<Rightarrow> 'x machine \<Rightarrow> string \<Rightarrow> 'x mworld \<Rightarrow> (go_error + string) \<times> 'x mworld" where
  "host_fetch c m url w =
     (case on_ext (http_get m url) w of
        (Inl e, w) \<Rightarrow> (Inl e, w)
      | (Inr (status, body, err), w) \<Rightarrow>
          if status < 200 \<or> status \<ge> 300 then (Inl (ErrText (''fetch '' @ url @ '': HTTP '' @ itoa status)), w)
          else if length body < fetch_max_bytes c then
            (case err of Some e \<Rightarrow> (Inl e, w) | None \<Rightarrow> (Inr body, w))
          else (Inr (take (fetch_max_bytes c) body), w))"

subsection \<open>Releases\<close>

definition stage_body :: "host_cfg \<Rightarrow> io_env \<Rightarrow> string \<Rightarrow> string \<Rightarrow> os \<Rightarrow> go_error option \<times> os" where
  "stage_body c io version payload s =
     (let dir = path_join [releases_dir c, version] in
      case os_mkdir_all io dir s of
        (Some e, s) \<Rightarrow> (Some (ErrWrap ''create release dir: '' e []), s)
      | (None, s) \<Rightarrow>
     (case os_write_file io (path_join [dir, ''release.bin'']) payload 384 s of
        (Some e, s) \<Rightarrow> (Some (ErrWrap ''write staged release: '' e []), s)
      | (None, s) \<Rightarrow> (None, s)))"

definition host_stage :: "host_cfg \<Rightarrow> 'x machine \<Rightarrow> string \<Rightarrow> string \<Rightarrow> 'x mworld \<Rightarrow> go_error option \<times> 'x mworld" where
  "host_stage c m version payload w = on_os (stage_body c (io_of m) version payload) w"

definition host_active_release :: "host_cfg \<Rightarrow> 'x machine \<Rightarrow> 'x mworld \<Rightarrow> string \<times> 'x mworld" where
  "host_active_release c m w =
     (case on_os (os_readlink (io_of m) (current_link c)) w of
        (Inl e, w) \<Rightarrow> ([], w)
      | (Inr target, w) \<Rightarrow> (path_base target, w))"

text \<open>\<open>switchTo\<close>: the link is replaced by renaming a temporary link over it.\<close>

definition switch_link :: "host_cfg \<Rightarrow> io_env \<Rightarrow> string \<Rightarrow> os \<Rightarrow> go_error option \<times> os" where
  "switch_link c io version s =
     (let target = path_join [releases_dir c, version]; tmp = link_tmp c in
      case os_stat io target s of
        (Some e, s) \<Rightarrow> (Some (ErrWrap (''release '' @ version @ '' is not staged: '') e []), s)
      | (None, s) \<Rightarrow>
     (case os_remove io tmp s of (e, s) \<Rightarrow>
     (case os_symlink io target tmp s of
        (Some e, s) \<Rightarrow> (Some (ErrWrap ''stage current symlink: '' e []), s)
      | (None, s) \<Rightarrow>
     (case os_rename io tmp (current_link c) s of
        (Some e, s) \<Rightarrow> (Some (ErrWrap ''activate current symlink: '' e []), s)
      | (None, s) \<Rightarrow> (None, s)))))"

definition switch_to :: "host_cfg \<Rightarrow> 'x machine \<Rightarrow> string \<Rightarrow> 'x mworld \<Rightarrow> go_error option \<times> 'x mworld" where
  "switch_to c m version w =
     (case on_os (switch_link c (io_of m) version) w of
        (Some e, w) \<Rightarrow> (Some e, w)
      | (None, w) \<Rightarrow>
     (case run_command c m ''systemctl restart bottle-agent'' w of
        ((output, Some e), w) \<Rightarrow> (Some (ErrWrap ''restart bottle-agent: '' e []), w)
      | ((output, None), w) \<Rightarrow> (None, w)))"

definition agent_host :: "host_cfg \<Rightarrow> 'x machine \<Rightarrow> 'x mworld host" where
  "agent_host c m = \<lparr>
     hArchitecture = (\<lambda>w. (goarch m, w)),
     hIsBookworm = host_is_bookworm c m,
     hFreeStorageMB = host_free_storage c m,
     hHasEthernet = (\<lambda>name w. (interface_exists m name (w_ext w), w)),
     hRadioCount = host_radio_count c m,
     hGPSVisible = host_gps_visible c m,
     hConfig = host_config m,
     hBackup = host_backup c m,
     hRun = host_run c m,
     hHealthCheck = host_health_check c m,
     hFetch = host_fetch c m,
     hStage = host_stage c m,
     hActiveRelease = host_active_release c m,
     hActivate = switch_to c m,
     hRollback = switch_to c m\<rparr>"

subsection \<open>Paths of releases\<close>

text \<open>A version the host can handle is one path component.\<close>

definition plain_version :: "string \<Rightarrow> bool" where
  "plain_version v \<longleftrightarrow> v \<noteq> [] \<and> v \<noteq> ''.'' \<and> v \<noteq> ''..'' \<and> CHR ''/'' \<notin> set v"

lemma split_on_plain: "d \<notin> set v \<Longrightarrow> split_on d v = [v]"
  by (induction v) auto

lemma split_on_append: "split_on d (p @ d # v) = split_on d p @ split_on d v"
  by (induction p) (auto split: list.splits simp: split_on_nonempty)

lemma clean_parts_plain:
  "clean_parts r acc (ps @ [v]) = clean_parts r acc ps @ [v]" if "v \<noteq> []" "v \<noteq> ''.''" "v \<noteq> ''..''"
  using that by (induction r acc ps rule: clean_parts.induct) auto

lemma join_with_snoc: "ps \<noteq> [] \<Longrightarrow> join_with d (ps @ [v]) = join_with d ps @ d @ v"
  by (induction d ps rule: join_with.induct) (auto simp: neq_Nil_conv split: list.splits)

lemma path_base_plain: "plain_version v \<Longrightarrow> path_base (d @ ''/'' @ v) = v"
proof -
  assume v: "plain_version v"
  then obtain c r where r: "rev v = c # r" "c \<noteq> CHR ''/''"
    by (cases "rev v") (auto simp: plain_version_def)
  have "takeWhile (\<lambda>c. c \<noteq> CHR ''/'') (rev v @ CHR ''/'' # rev d) = rev v"
    using v by (subst takeWhile_append2) (auto simp: plain_version_def)
  with r show ?thesis by (simp add: path_base_def Let_def)
qed

lemma join_plain:
  assumes v: "plain_version v" and d: "clean_parts True [] (split_on (CHR ''/'') d) = ps" "ps \<noteq> []"
    and eq: "d = ''/'' @ join_with ''/'' ps"
  shows "path_join [d, v] = d @ ''/'' @ v"
proof -
  have "clean_parts True [] (split_on (CHR ''/'') (d @ CHR ''/'' # v)) = ps @ [v]"
    unfolding split_on_append using v d(1)
    by (simp add: split_on_plain plain_version_def clean_parts_plain)
  moreover have "is_rooted (d @ CHR ''/'' # v)" "d \<noteq> []" by (simp_all add: eq is_rooted_def)
  ultimately show ?thesis
    using v d(2) eq
    by (simp add: path_join_def path_clean_def path_parts_def of_parts_def plain_version_def join_with_snoc)
qed

lemma clean_plain:
  assumes "plain_version v" "clean_parts True [] (split_on (CHR ''/'') d) = ps" "ps \<noteq> []"
    and eq: "d = ''/'' @ join_with ''/'' ps"
  shows "path_clean (d @ ''/'' @ v) = d @ ''/'' @ v"
proof -
  have "d \<noteq> []" by (simp add: eq)
  with join_plain [OF assms] assms(1) show ?thesis by (simp add: path_join_def plain_version_def)
qed

lemma release_path:
  "plain_version v \<Longrightarrow> path_join [''/opt/bottle-agent/releases'', v] = ''/opt/bottle-agent/releases/'' @ v"
  by (subst join_plain [where ps = "[''opt'', ''bottle-agent'', ''releases'']"]) simp_all

lemma set_nat_digits: "c \<in> set (nat_digits n) \<Longrightarrow> 48 \<le> (of_char c :: nat) \<and> (of_char c :: nat) < 58"
proof (induction n rule: nat_digits.induct)
  case (1 n)
  have digit: "(of_char (char_of (48 + k) :: char) :: nat) = 48 + k" if "k < 10" for k :: nat
    using that by (simp add: of_char_of)
  have "c = char_of (48 + n mod 10) \<or> c \<in> set (nat_digits (n div 10)) \<and> \<not> n < 10"
    using 1(2) by (subst (asm) nat_digits.simps) (auto split: if_splits)
  then show ?case
    using 1(1) digit [of "n mod 10"] by auto
qed

lemma no_slash_digits [simp]: "CHR ''/'' \<notin> set (nat_digits n)"
  using set_nat_digits [of "CHR ''/''" n] by auto

lemma backup_name_plain: "plain_version (''backup-'' @ utc_stamp t @ ''.tar.gz'')"
  by (cases t) (auto simp: plain_version_def)

lemma backup_dest_path:
  "backup_dest production_cfg m x = ''/var/lib/bottle-agent/backups/'' @ ''backup-'' @ utc_stamp (utc_now m x) @ ''.tar.gz''"
  unfolding backup_dest_def
  by (subst join_plain [where ps = "[''var'', ''lib'', ''bottle-agent'', ''backups'']", OF backup_name_plain])
     (simp_all add: production_cfg_def)

subsection \<open>The link to the active release\<close>

definition release_of :: "host_cfg \<Rightarrow> 'x mworld \<Rightarrow> string" where
  "release_of c w = (case fs (w_os w) (current_link c) of Some (LinkNode t) \<Rightarrow> path_base t | _ \<Rightarrow> [])"

lemma production_simps [simp]:
  "current_link production_cfg = ''/opt/bottle-agent/current''"
  "releases_dir production_cfg = ''/opt/bottle-agent/releases''"
  "backup_dir production_cfg = ''/var/lib/bottle-agent/backups''"
  "link_tmp production_cfg = ''/opt/bottle-agent/current.tmp''"
  by (simp_all add: production_cfg_def link_tmp_def)

lemma link_paths [simp]:
  "path_clean ''/opt/bottle-agent/current'' = ''/opt/bottle-agent/current''"
  "path_clean ''/opt/bottle-agent/current.tmp'' = ''/opt/bottle-agent/current.tmp''"
  by (simp_all add: path_clean_def path_parts_def is_rooted_def of_parts_def)

lemma release_of_cong:
  "fs (w_os w') (current_link c) = fs (w_os w) (current_link c) \<Longrightarrow> release_of c w' = release_of c w"
  by (simp add: release_of_def)

lemma run_command_link: "run_command c m cmd w = (r, w') \<Longrightarrow> fs (w_os w') (current_link c) = fs (w_os w) (current_link c)"
  by (auto simp: run_command_def owned_def split: prod.splits)

lemma run_command_release: "run_command c m cmd w = (r, w') \<Longrightarrow> release_of c w' = release_of c w"
  by (rule release_of_cong) (rule run_command_link)

lemma on_ext_os: "on_ext f w = (a, w') \<Longrightarrow> w_os w' = w_os w"
  by (auto simp: on_ext_def split: prod.splits)

lemma on_ext_release: "on_ext f w = (a, w') \<Longrightarrow> release_of c w' = release_of c w"
  by (rule release_of_cong) (simp add: on_ext_os)

lemma services_release: "services_active c m ss w = (e, w') \<Longrightarrow> release_of c w' = release_of c w"
proof (induction ss arbitrary: w)
  case Nil
  then show ?case by simp
next
  case (Cons s ss)
  then show ?case by (auto split: prod.splits if_splits dest!: run_command_release)
qed

lemma health_release: "host_health_check c m w = (e, w') \<Longrightarrow> release_of c w' = release_of c w"
  by (auto simp: host_health_check_def split: prod.splits option.splits
      dest!: services_release [where c = c] on_ext_release [where c = c])

lemma fetch_release: "host_fetch c m u w = (f, w') \<Longrightarrow> release_of c w' = release_of c w"
  by (auto simp: host_fetch_def split: prod.splits sum.splits option.splits if_splits dest!: on_ext_release [where c = c])

text \<open>A backup writes below the backup directory only.\<close>

lemma tar_visit_fs: "tar_visit m dest p s es = (r, s') \<Longrightarrow> fs s' = fs s"
  by (auto simp: tar_visit_def split: prod.splits sum.splits if_splits dest: os_keptD)

lemma tar_paths_fs: "tar_paths m dest ps s es = (r, s') \<Longrightarrow> fs s' = fs s"
proof (induction ps arbitrary: s es)
  case Nil
  then show ?case by simp
next
  case (Cons p ps)
  then show ?case by (auto split: prod.splits option.splits dest!: tar_visit_fs)
qed

lemma add_to_tar_fs: "add_to_tar m dest p s es = (r, s') \<Longrightarrow> fs s' = fs s"
  by (auto simp: add_to_tar_def split: prod.splits option.splits if_splits dest: tar_paths_fs dest!: os_keptD)

lemma backup_paths_fs: "backup_paths m dest ps s es = (r, s') \<Longrightarrow> fs s' = fs s"
proof (induction ps arbitrary: s es)
  case Nil
  then show ?case by simp
next
  case (Cons p ps)
  then show ?case by (auto split: prod.splits option.splits dest!: add_to_tar_fs)
qed

lemma write_archive_other:
  assumes "q \<noteq> path_clean dest" "q \<noteq> dest" "write_archive m dest ps s = (e, s')"
  shows "fs s' q = fs s q"
proof -
  obtain e1 s1 where o: "os_write_file (io_of m) dest [] 384 s = (e1, s1)" by fastforce
  obtain e2 es s2 where b: "backup_paths m dest ps s1 [] = ((e2, es), s2)" by (metis prod.exhaust)
  obtain e3 s3 where w: "file_write (io_of m) dest (archive m es) s2 = (e3, s3)" by fastforce
  have "fs s3 q = fs s q" "fs s2 q = fs s q" "fs s1 q = fs s q"
    using os_otherD(1) [OF o assms(1)] backup_paths_fs [OF b] os_otherD(2) [OF w assms(2)] by simp_all
  then show ?thesis
    using assms(3) by (auto simp: write_archive_def o b w split: option.splits prod.splits dest!: os_keptD)
qed

lemma backup_dest_clean: "path_clean (backup_dest production_cfg m x) = backup_dest production_cfg m x"
proof -
  have cut: "''/var/lib/bottle-agent/backups/'' @ v = ''/var/lib/bottle-agent/backups'' @ ''/'' @ v" for v
    by simp
  show ?thesis
    unfolding backup_dest_path cut
    by (rule clean_plain [where ps = "[''var'', ''lib'', ''bottle-agent'', ''backups'']", OF backup_name_plain]) simp_all
qed

lemma production_ancestors [simp]:
  "''/opt/bottle-agent/current'' \<notin> set (ancestors ''/var/lib/bottle-agent/backups'')"
  by (simp add: ancestors_def path_parts_def is_rooted_def of_parts_def Let_def upt_rec)

lemma backup_release:
  assumes "host_backup production_cfg m ps w = (e, w')"
  shows "release_of production_cfg w' = release_of production_cfg w"
proof (rule release_of_cong)
  obtain e1 s1 where mk: "os_mkdir_all (io_of m) ''/var/lib/bottle-agent/backups'' (w_os w) = (e1, s1)" by fastforce
  have dest: "''/opt/bottle-agent/current'' \<noteq> path_clean (backup_dest production_cfg m x)"
    "''/opt/bottle-agent/current'' \<noteq> backup_dest production_cfg m x" for x
    unfolding backup_dest_clean by (simp_all add: backup_dest_path)
  define q where "q = current_link production_cfg"
  obtain e2 s2 where wr: "write_archive m (backup_dest production_cfg m (w_ext w)) ps s1 = (e2, s2)" by fastforce
  have "fs s1 q = fs (w_os w) q"
    using os_otherD(5) [OF mk] by (simp add: q_def)
  moreover have "fs s2 q = fs s1 q"
    using dest by (intro write_archive_other [OF _ _ wr]) (simp_all add: q_def)
  ultimately have "fs (w_os w') q = fs (w_os w) q"
    using assms wr by (auto simp: host_backup_def on_os_def mk split: option.splits)
  then show "fs (w_os w') (current_link production_cfg) = fs (w_os w) (current_link production_cfg)"
    by (simp only: q_def)
qed

text \<open>Staging writes below the release's own directory.\<close>

lemma of_parts_rooted: "of_parts True ps = ''/'' @ join_with ''/'' ps"
  by (simp add: of_parts_def)

lemma release_clean: "plain_version v \<Longrightarrow>
    path_clean (''/opt/bottle-agent/releases/'' @ v) = ''/opt/bottle-agent/releases/'' @ v"
proof -
  assume v: "plain_version v"
  have cut: "''/opt/bottle-agent/releases/'' @ v = ''/opt/bottle-agent/releases'' @ ''/'' @ v" by simp
  show ?thesis
    unfolding cut by (rule clean_plain [OF v, where ps = "[''opt'', ''bottle-agent'', ''releases'']"]) simp_all
qed

lemma release_parts:
  "plain_version v \<Longrightarrow> path_parts (''/opt/bottle-agent/releases/'' @ v) = [''opt'', ''bottle-agent'', ''releases'', v]"
proof -
  assume v: "plain_version v"
  have "split_on (CHR ''/'') (''/opt/bottle-agent/releases'' @ CHR ''/'' # v) =
      ['''', ''opt'', ''bottle-agent'', ''releases''] @ [v]"
    unfolding split_on_append using v by (simp add: split_on_plain plain_version_def)
  then show ?thesis
    using v by (simp add: path_parts_def is_rooted_def plain_version_def)
qed

lemma release_ancestors:
  assumes "plain_version v"
  shows "ancestors (''/opt/bottle-agent/releases/'' @ v) =
     [''/opt'', ''/opt/bottle-agent'', ''/opt/bottle-agent/releases'', ''/opt/bottle-agent/releases/'' @ v]"
  unfolding ancestors_def release_parts [OF assms]
  by (simp add: is_rooted_def of_parts_def Let_def upt_rec)

lemma release_bin:
  assumes "plain_version v"
  shows "path_join [''/opt/bottle-agent/releases/'' @ v, ''release.bin''] = ''/opt/bottle-agent/releases/'' @ v @ ''/release.bin''"
    "path_clean (''/opt/bottle-agent/releases/'' @ v @ ''/release.bin'') = ''/opt/bottle-agent/releases/'' @ v @ ''/release.bin''"
proof -
  have parts: "clean_parts True [] (split_on (CHR ''/'') (''/opt/bottle-agent/releases/'' @ v)) = [''opt'', ''bottle-agent'', ''releases'', v]"
    using release_parts [OF assms] by (simp add: path_parts_def is_rooted_def)
  have plain: "plain_version ''release.bin''" by (simp add: plain_version_def)
  show "path_join [''/opt/bottle-agent/releases/'' @ v, ''release.bin''] = ''/opt/bottle-agent/releases/'' @ v @ ''/release.bin''"
    using join_plain [OF plain parts] by simp
  show "path_clean (''/opt/bottle-agent/releases/'' @ v @ ''/release.bin'') = ''/opt/bottle-agent/releases/'' @ v @ ''/release.bin''"
    using clean_plain [OF plain parts] by simp
qed

lemma stage_release:
  assumes v: "plain_version v" and st: "host_stage production_cfg m v d w = (e, w')"
  shows "release_of production_cfg w' = release_of production_cfg w"
proof (rule release_of_cong)
  let ?dir = "''/opt/bottle-agent/releases/'' @ v"
  let ?q = "''/opt/bottle-agent/current''"
  obtain e1 s1 where mk: "os_mkdir_all (io_of m) ?dir (w_os w) = (e1, s1)" by fastforce
  obtain e2 s2 where wr: "os_write_file (io_of m) (?dir @ ''/release.bin'') d 384 s1 = (e2, s2)" by fastforce
  have "fs s1 ?q = fs (w_os w) ?q"
    using os_otherD(5) [OF mk, unfolded release_ancestors [OF v]] by simp
  moreover have "fs s2 ?q = fs s1 ?q"
    using os_otherD(1) [OF wr [unfolded append_assoc], unfolded release_bin(2) [OF v]] by simp
  moreover have "w_os w' = s1 \<or> w_os w' = s2"
    using st mk wr [unfolded append_assoc]
    by (simp only: host_stage_def stage_body_def on_os_def Let_def production_simps release_path [OF v] release_bin(1) [OF v])
       (auto split: option.splits)
  ultimately show "fs (w_os w') (current_link production_cfg) = fs (w_os w) (current_link production_cfg)"
    by auto
qed

lemma active_release:
  assumes "host_active_release production_cfg m w = (a, w')"
  shows "release_of production_cfg w' = release_of production_cfg w" "a \<noteq> [] \<Longrightarrow> a = release_of production_cfg w"
proof -
  obtain t s where rl: "os_readlink (io_of m) ''/opt/bottle-agent/current'' (w_os w) = (t, s)" by fastforce
  have "fs s = fs (w_os w)" by (rule os_keptD(3) [OF rl])
  then show "release_of production_cfg w' = release_of production_cfg w"
    using assms by (auto simp: host_active_release_def on_os_def rl intro!: release_of_cong split: sum.splits)
  show "a = release_of production_cfg w" if "a \<noteq> []"
    using assms that rl
    by (auto simp: host_active_release_def on_os_def release_of_def os_readlink_def
        split: sum.splits option.splits node.splits if_splits)
qed

text \<open>\<open>switchTo\<close> either leaves the link alone or points it at the release.\<close>

definition link_at :: "os \<Rightarrow> path \<Rightarrow> bool" where
  "link_at s t \<longleftrightarrow> fs s ''/opt/bottle-agent/current'' = Some (LinkNode t)"

lemma switch_link_result:
  assumes "switch_link production_cfg io v s = (e, s')"
  shows "e = None \<Longrightarrow> link_at s' (path_join [''/opt/bottle-agent/releases'', v])"
    "e \<noteq> None \<Longrightarrow> fs s' ''/opt/bottle-agent/current'' = fs s ''/opt/bottle-agent/current''"
proof -
  let ?q = "''/opt/bottle-agent/current''" and ?tmp = "''/opt/bottle-agent/current.tmp''"
  let ?target = "path_join [''/opt/bottle-agent/releases'', v]"
  obtain e1 s1 where st: "os_stat io ?target s = (e1, s1)" by fastforce
  obtain e2 s2 where rm: "os_remove io ?tmp s1 = (e2, s2)" by fastforce
  obtain e3 s3 where sy: "os_symlink io ?target ?tmp s2 = (e3, s3)" by fastforce
  obtain e4 s4 where rn: "os_rename io ?tmp ?q s3 = (e4, s4)" by fastforce
  have keep: "fs s1 = fs s" "fs s2 ?q = fs s1 ?q" "fs s3 ?q = fs s2 ?q"
    using os_keptD(2) [OF st] os_otherD(4) [OF rm] os_otherD(6) [OF sy] by simp_all
  have tmp: "e3 = None \<Longrightarrow> fs s3 ?tmp = Some (LinkNode ?target)"
    using sy by (auto simp: os_symlink_def tick_def Let_def split: option.splits if_splits)
  show "link_at s' ?target" if "e = None"
    using assms that st rm sy rn tmp rename_ok
    by (auto simp: switch_link_def Let_def link_at_def split: option.splits)
  show "fs s' ?q = fs s ?q" if "e \<noteq> None"
    using assms that st rm sy rn keep rename_fail
    by (auto simp: switch_link_def Let_def split: option.splits)
qed

lemma switch_release:
  assumes v: "plain_version v" and sw: "switch_to production_cfg m v w = (e, w')"
  shows "e = None \<Longrightarrow> release_of production_cfg w' = v"
    "e \<noteq> None \<Longrightarrow> release_of production_cfg w' = release_of production_cfg w \<or> release_of production_cfg w' = v"
proof -
  obtain e1 s1 where lk: "switch_link production_cfg (io_of m) v (w_os w) = (e1, s1)" by fastforce
  let ?w1 = "w\<lparr>w_os := s1\<rparr>"
  obtain o2 e2 w2 where cmd: "run_command production_cfg m ''systemctl restart bottle-agent'' ?w1 = ((o2, e2), w2)"
    by (metis prod.exhaust)
  have base: "path_base (''/opt/bottle-agent/releases/'' @ v) = v"
    using path_base_plain [OF v, of "''/opt/bottle-agent/releases''"] by simp
  have "e1 = None \<Longrightarrow> release_of production_cfg ?w1 = v"
    using switch_link_result(1) [OF lk] v base by (simp add: link_at_def release_of_def release_path)
  moreover have "e1 \<noteq> None \<Longrightarrow> release_of production_cfg ?w1 = release_of production_cfg w"
    using switch_link_result(2) [OF lk] by (intro release_of_cong) simp
  ultimately show "e = None \<Longrightarrow> release_of production_cfg w' = v"
    "e \<noteq> None \<Longrightarrow> release_of production_cfg w' = release_of production_cfg w \<or> release_of production_cfg w' = v"
    using sw run_command_release [OF cmd]
    by (auto simp: switch_to_def on_os_def lk cmd split: option.splits)
qed

interpretation pi: release_host "agent_host production_cfg m" "release_of production_cfg" plain_version for m
  by unfold_locales
     (auto simp: agent_host_def fetch_release backup_release health_release stage_release active_release
       dest: switch_release)

end
