(* ===== verification/Host_Properties.thy ===== *)
theory Host_Properties
  imports Host
begin

section \<open>Correctness of the Raspberry Pi host\<close>

text \<open>
  Properties of \<open>host.go\<close> on the production configuration: the link to the active release, the
  storage figure, the health check, and what a backup holds.
\<close>

subsection \<open>The active release\<close>

text \<open>
  Switching releases is atomic: whatever fails, and whatever the shell does, after
  \<open>Activate\<close> or \<open>Rollback\<close> the link to the active release is the one there was before or points
  at the requested release; it points there when the call succeeded.
\<close>

theorem switch_atomic:
  assumes "switch_to production_cfg m v w = (e, w')"
  shows "link_at (w_os w') (path_join [releases_dir production_cfg, v]) \<or>
    e \<noteq> None \<and> fs (w_os w') (current_link production_cfg) = fs (w_os w) (current_link production_cfg)"
proof -
  obtain e1 s1 where lk: "switch_link production_cfg (io_of m) v (w_os w) = (e1, s1)" by fastforce
  obtain o2 e2 w2 where cmd: "run_command production_cfg m ''systemctl restart bottle-agent'' (w\<lparr>w_os := s1\<rparr>) = ((o2, e2), w2)"
    by (metis prod.exhaust)
  show ?thesis
    using assms switch_link_result [OF lk] run_command_link [OF cmd]
    by (cases e1) (auto simp: switch_to_def on_os_def lk cmd link_at_def split: option.splits)
qed

text \<open>The directories of the releases, where they exist, are directories.\<close>

definition release_dirs_ok :: "os \<Rightarrow> bool" where
  "release_dirs_ok s \<longleftrightarrow>
     (\<forall>p \<in> {''/opt'', ''/opt/bottle-agent'', ''/opt/bottle-agent/releases''}. fs s p = None \<or> fs s p = Some DirNode)"

lemma path_dir_release:
  assumes "plain_version v"
  shows "path_dir (''/opt/bottle-agent/releases/'' @ v @ ''/release.bin'') = ''/opt/bottle-agent/releases/'' @ v"
proof -
  have parts: "split_on (CHR ''/'') (''/opt/bottle-agent/releases'' @ CHR ''/'' # (v @ CHR ''/'' # [])) =
      ['''', ''opt'', ''bottle-agent'', ''releases'', v, '''']"
    unfolding split_on_append using assms by (simp add: split_on_plain plain_version_def)
  have "path_clean (''/opt/bottle-agent/releases'' @ CHR ''/'' # (v @ CHR ''/'' # [])) = ''/opt/bottle-agent/releases/'' @ v"
    unfolding path_clean_def path_parts_def parts
    using assms by (simp add: is_rooted_def of_parts_def plain_version_def)
  then show ?thesis by (simp add: path_dir_def)
qed

text \<open>What staging leaves, when nothing is in its way.\<close>

definition stageable :: "os \<Rightarrow> string \<Rightarrow> bool" where
  "stageable s v \<longleftrightarrow>
     (let dir = ''/opt/bottle-agent/releases/'' @ v; bin = ''/opt/bottle-agent/releases/'' @ v @ ''/release.bin'' in
      release_dirs_ok s \<and> (fs s dir = None \<or> fs s dir = Some DirNode) \<and>
      (fs s bin = None \<or> (\<exists>d m. fs s bin = Some (FileNode d m))))"

lemma stage_result:
  assumes v: "plain_version v" and ok: "stageable s v"
  shows "\<exists>s'. stage_body production_cfg no_faults v d s = (None, s') \<and>
    fs s' (''/opt/bottle-agent/releases/'' @ v) = Some DirNode \<and>
    (\<exists>mode. fs s' (''/opt/bottle-agent/releases/'' @ v @ ''/release.bin'') = Some (FileNode d mode)) \<and>
    (\<forall>q \<in> {''/opt/bottle-agent/current'', ''/opt/bottle-agent/current.tmp''}. fs s' q = fs s q) \<and>
    (\<forall>q. fs s q = Some DirNode \<longrightarrow> fs s' q = Some DirNode)"
proof -
  define dir where "dir = ''/opt/bottle-agent/releases/'' @ v"
  define bin where "bin = ''/opt/bottle-agent/releases/'' @ v @ ''/release.bin''"
  note facts = release_ancestors [OF v] release_bin [OF v] path_dir_release [OF v] release_path [OF v]
  have f: "ancestors dir = [''/opt'', ''/opt/bottle-agent'', ''/opt/bottle-agent/releases'', dir]"
    "path_join [dir, ''release.bin''] = bin" "path_clean bin = bin" "path_dir bin = dir"
    "path_join [''/opt/bottle-agent/releases'', v] = dir"
    unfolding dir_def bin_def by (rule facts)+
  have d: "dir \<noteq> bin" "bin \<noteq> ''/''" "bin \<noteq> ''.''" "dir \<noteq> ''/opt/bottle-agent/current''" "bin \<noteq> ''/opt/bottle-agent/current''"
    "dir \<noteq> ''/opt/bottle-agent/current.tmp''" "bin \<noteq> ''/opt/bottle-agent/current.tmp''"
    "bin \<noteq> ''/opt''" "bin \<noteq> ''/opt/bottle-agent''" "bin \<noteq> ''/opt/bottle-agent/releases''"
    by (simp_all add: dir_def bin_def)
  have ok': "release_dirs_ok s" "fs s dir = None \<or> fs s dir = Some DirNode"
    "fs s bin = None \<or> (\<exists>d m. fs s bin = Some (FileNode d m))"
    using ok by (simp_all add: stageable_def Let_def dir_def bin_def)
  have p: "\<not> (\<exists>q \<in> set (ancestors dir). fs s q \<noteq> None \<and> fs s q \<noteq> Some DirNode)"
    using ok'(1,2) unfolding release_dirs_ok_def f by auto
  define s1 where "s1 = tick (s\<lparr>fs := (\<lambda>q. if q \<in> set (ancestors dir) then Some DirNode else fs s q)\<rparr>)"
  have mk: "os_mkdir_all no_faults dir s = (None, s1)"
    using p unfolding os_mkdir_all_def s1_def no_faults_def by simp
  have s1: "fs s1 dir = Some DirNode" "fs s1 bin = fs s bin"
    "fs s1 ''/opt/bottle-agent/current'' = fs s ''/opt/bottle-agent/current''"
    "fs s1 ''/opt/bottle-agent/current.tmp'' = fs s ''/opt/bottle-agent/current.tmp''"
    using d d [symmetric] by (simp_all add: s1_def tick_def f)
  have wr: "os_write_file no_faults bin d 384 s1 = (None, tick (put_file bin d 384 s1))"
    using s1(1,2) ok'(3) d(2,3) by (auto simp: os_write_file_def Let_def f is_dir_def no_faults_def)
  have run: "stage_body production_cfg no_faults v d s = (None, tick (put_file bin d 384 s1))"
    by (simp add: stage_body_def Let_def f mk wr)
  have bin: "\<exists>mode. fs (tick (put_file bin d 384 s1)) bin = Some (FileNode d mode)"
    by (simp add: put_file_def tick_def)
  have others: "fs (tick (put_file bin d 384 s1)) q = fs s1 q" if "q \<noteq> bin" for q
    using that by (simp add: put_file_def tick_def)
  have dirs: "fs (tick (put_file bin d 384 s1)) q = Some DirNode" if "fs s q = Some DirNode" for q
    using that others [of q] ok'(3) by (cases "q = bin") (auto simp: s1_def tick_def)
  show ?thesis
    unfolding dir_def [symmetric] bin_def [symmetric]
    by (intro exI [of _ "tick (put_file bin d 384 s1)"] conjI run bin)
       (use s1 d dirs in \<open>simp_all add: others del: insert_iff\<close>)
qed

lemma switch_link_ok:
  assumes "fs s (path_clean (path_join [''/opt/bottle-agent/releases'', v])) = Some DirNode"
    and "fs s ''/opt/bottle-agent/current'' \<noteq> Some DirNode"
  shows "\<exists>s'. switch_link production_cfg no_faults v s = (None, s')"
proof -
  let ?q = "''/opt/bottle-agent/current''" and ?tmp = "''/opt/bottle-agent/current.tmp''"
  define target where "target = path_join [''/opt/bottle-agent/releases'', v]"
  obtain s1 where st: "os_stat no_faults target s = (None, s1)" and s1: "fs s1 = fs s"
    using assms(1) by (simp add: os_stat_def no_faults_def target_def tick_def)
  obtain e2 s2 where rm: "os_remove no_faults ?tmp s1 = (e2, s2)" by fastforce
  have s2: "fs s2 ?tmp = None" "fs s2 ?q = fs s ?q"
    using rm s1 by (auto simp: os_remove_def no_faults_def tick_def split: option.splits)
  then obtain s3 where sy: "os_symlink no_faults target ?tmp s2 = (None, s3)"
    and s3: "fs s3 ?tmp = Some (LinkNode target)" "fs s3 ?q = fs s ?q"
    by (simp add: os_symlink_def no_faults_def is_dir_def Let_def tick_def)
  obtain s4 where "os_rename no_faults ?tmp ?q s3 = (None, s4)"
    using s3 assms(2) by (simp add: os_rename_def no_faults_def is_dir_def Let_def)
  with st rm sy show ?thesis
    by (simp add: switch_link_def target_def Let_def)
qed

lemma switch_link_other:
  assumes "switch_link production_cfg io v s = (e, s')"
    and "q \<noteq> ''/opt/bottle-agent/current''" "q \<noteq> ''/opt/bottle-agent/current.tmp''"
  shows "fs s' q = fs s q"
proof -
  let ?q = "''/opt/bottle-agent/current''" and ?tmp = "''/opt/bottle-agent/current.tmp''"
  let ?target = "path_join [''/opt/bottle-agent/releases'', v]"
  obtain e1 s1 where st: "os_stat io ?target s = (e1, s1)" by fastforce
  obtain e2 s2 where rm: "os_remove io ?tmp s1 = (e2, s2)" by fastforce
  obtain e3 s3 where sy: "os_symlink io ?target ?tmp s2 = (e3, s3)" by fastforce
  obtain e4 s4 where rn: "os_rename io ?tmp ?q s3 = (e4, s4)" by fastforce
  have "fs s1 q = fs s q" "fs s2 q = fs s1 q" "fs s3 q = fs s2 q"
    using os_keptD(2) [OF st] os_otherD(4) [OF rm] os_otherD(6) [OF sy] assms(2,3) by simp_all
  moreover have "fs s4 q = fs s3 q"
    using rename_fail [of io ?tmp ?q s3 _ s4] rename_ok [of io ?tmp ?q s3 s4] rn assms(2,3)
    by (cases e4) auto
  ultimately show ?thesis
    using assms(1) st rm sy rn by (auto simp: switch_link_def Let_def split: option.splits)
qed

text \<open>
  With no fault a staged release can be activated: after \<open>Stage\<close> and \<open>Activate\<close> of a version
  the file \<open>release.bin\<close> of that version holds the payload and \<open>ActiveRelease\<close> answers the version.
\<close>

theorem stage_then_activate:
  assumes "plain_version v" and "io_of m = no_faults" and "stageable (w_os w) v"
    and "fs (w_os w) (current_link production_cfg) \<noteq> Some DirNode"
    and "\<And>f x. snd (fst (shell m ''systemctl restart bottle-agent'' f x)) = None"
  shows "\<exists>w1 w2 mode. host_stage production_cfg m v d w = (None, w1) \<and>
    switch_to production_cfg m v w1 = (None, w2) \<and>
    fst (host_active_release production_cfg m w2) = v \<and>
    fs (w_os w2) (''/opt/bottle-agent/releases/'' @ v @ ''/release.bin'') = Some (FileNode d mode)"
proof -
  define bin where "bin = ''/opt/bottle-agent/releases/'' @ v @ ''/release.bin''"
  obtain s1 mode where st: "stage_body production_cfg no_faults v d (w_os w) = (None, s1)"
    and dir: "fs s1 (''/opt/bottle-agent/releases/'' @ v) = Some DirNode"
    and b: "fs s1 bin = Some (FileNode d mode)"
    and q: "fs s1 ''/opt/bottle-agent/current'' = fs (w_os w) ''/opt/bottle-agent/current''"
    using stage_result [OF assms(1,3)] unfolding bin_def by blast
  let ?w1 = "w\<lparr>w_os := s1\<rparr>"
  have stage: "host_stage production_cfg m v d w = (None, ?w1)"
    by (simp add: host_stage_def on_os_def assms(2) st)
  have "fs s1 (path_clean (path_join [''/opt/bottle-agent/releases'', v])) = Some DirNode"
    unfolding release_path [OF assms(1)] release_clean [OF assms(1)] by (rule dir)
  then obtain s2 where lk: "switch_link production_cfg no_faults v s1 = (None, s2)"
    using switch_link_ok q assms(4) by (metis production_simps(1))
  obtain o2 e2 w2 where cmd: "run_command production_cfg m ''systemctl restart bottle-agent'' (w\<lparr>w_os := s2\<rparr>) = ((o2, e2), w2)"
    by (metis prod.exhaust)
  have "e2 = None"
    using cmd assms(5) [of "fs s2" "w_ext w"] by (auto simp: run_command_def split: prod.splits)
  then have sw: "switch_to production_cfg m v ?w1 = (None, w2)"
    by (simp add: switch_to_def on_os_def assms(2) lk cmd)
  have "release_of production_cfg w2 = v" by (rule switch_release(1) [OF assms(1) sw refl])
  then have "fst (host_active_release production_cfg m w2) = v"
    using assms(1,2)
    by (auto simp: host_active_release_def on_os_def os_readlink_def no_faults_def release_of_def plain_version_def
        split: option.splits node.splits)
  moreover have "fs (w_os w2) bin = fs s2 bin"
  proof -
    have "owned production_cfg bin" by (simp add: owned_def bin_def has_prefix_append)
    then show ?thesis using cmd by (auto simp: run_command_def split: prod.splits)
  qed
  moreover have "fs s2 bin = fs s1 bin"
    by (rule switch_link_other [OF lk]) (simp_all add: bin_def)
  ultimately show ?thesis using stage sw b unfolding bin_def by auto
qed

subsection \<open>Storage\<close>

lemma threshold: "2048 \<le> x div 1048576 \<longleftrightarrow> 2147483648 \<le> x" for x :: int
  by linarith

text \<open>
  The free-storage figure is exact for every file system of less than 8 EiB: if blocks times
  block size is below 2^63 the figure is the number of whole MiB, and the provisioning
  threshold of 2048 is met exactly from 2 GiB on; from 2^63 bytes on the product wraps.
\<close>

theorem free_storage_exact:
  assumes "uint bavail * uint bsize < 2 ^ 63"
  shows "free_mb bavail bsize = uint bavail * uint bsize div 1048576 \<and>
    (\<not> free_mb bavail bsize < 2048 \<longleftrightarrow> 2 ^ 31 \<le> uint bavail * uint bsize)"
proof -
  have u: "uint (bavail * bsize) = uint bavail * uint bsize"
    using assms by (simp add: uint_word_ariths)
  have nn: "0 \<le> uint bavail * uint bsize" by simp
  have s: "sint (bavail * bsize) = uint bavail * uint bsize"
    unfolding sint_uint u using assms nn
    by (intro signed_take_bit_int_eq_self) (simp_all add: order_trans [OF _ nn])
  have exact: "free_mb bavail bsize = uint bavail * uint bsize div 1048576"
    using nn by (simp only: free_mb_def Let_def s not_less [THEN iffD2] if_False)
  have "\<not> free_mb bavail bsize < 2048 \<longleftrightarrow> 2 ^ 31 \<le> uint bavail * uint bsize"
    unfolding exact by (simp add: not_less threshold)
  with exact show ?thesis ..
qed

subsection \<open>Health\<close>

lemma services_active_all:
  "services_active c m ss w = (None, w') \<Longrightarrow> s \<in> set ss \<Longrightarrow>
     \<exists>w1 w2 out. run_command c m (''systemctl is-active '' @ s) w1 = ((out, None), w2) \<and> trim_space out = ''active''"
proof (induction ss arbitrary: w)
  case Nil
  then show ?case by simp
next
  case (Cons t ss)
  then show ?case by (auto split: prod.splits if_splits)
qed

text \<open>
  The health check passes only when every service answered "active" without an error and the
  Kismet port accepted a connection.
\<close>

theorem health_check_sound:
  assumes "host_health_check c m w = (None, w')"
  shows "(\<forall>s \<in> set (service_names c). \<exists>w1 w2 out.
      run_command c m (''systemctl is-active '' @ s) w1 = ((out, None), w2) \<and> trim_space out = ''active'') \<and>
    (\<exists>x x'. dial m (kismet_addr c) x = (None, x'))"
proof -
  obtain e1 w1 where sv: "services_active c m (service_names c) w = (e1, w1)" by fastforce
  have "e1 = None" "\<exists>x x'. dial m (kismet_addr c) x = (None, x')"
    using assms by (auto simp: host_health_check_def sv on_ext_def split: option.splits prod.splits)
  with services_active_all sv show ?thesis by blast
qed

subsection \<open>Backups\<close>

lemma tar_paths_entries:
  "tar_paths m dest ps s es = ((None, es'), s') \<Longrightarrow> set ps \<union> te_name ` set es \<subseteq> te_name ` set es'"
proof (induction ps arbitrary: s es)
  case Nil
  then show ?case by simp
next
  case (Cons p ps)
  obtain e es1 s1 where v: "tar_visit m dest p s es = ((e, es1), s1)" by (metis prod.exhaust)
  have n: "e = None" "tar_paths m dest ps s1 es1 = ((None, es'), s')"
    using Cons.prems v by (simp_all split: option.splits)
  have "insert p (te_name ` set es) \<subseteq> te_name ` set es1"
    using v n(1) by (auto simp: tar_visit_def tar_file_def Let_def split: if_splits prod.splits sum.splits)
  with Cons.IH [OF n(2)] show ?case by (simp add: subset_iff)
qed

lemma add_to_tar_entries:
  assumes "add_to_tar m dest root s es = ((None, es'), s')"
  shows "te_name ` set es \<subseteq> te_name ` set es'"
proof -
  obtain e1 s1 where st: "os_stat (io_of m) root s = (e1, s1)" by fastforce
  show ?thesis
  proof (cases e1)
    case None
    with assms st have "tar_paths m dest (walk (dir_names m) (fs s1) max_depth root) s1 es = ((None, es'), s')"
      by (simp add: add_to_tar_def)
    from tar_paths_entries [OF this] show ?thesis by blast
  next
    case (Some e)
    with assms st show ?thesis by (auto simp: add_to_tar_def split: if_splits)
  qed
qed

lemma backup_paths_entries:
  "backup_paths m dest ps s es = ((None, es'), s') \<Longrightarrow> te_name ` set es \<subseteq> te_name ` set es'"
proof (induction ps arbitrary: s es)
  case Nil
  then show ?case by simp
next
  case (Cons p ps)
  obtain e es1 s1 where a: "add_to_tar m dest p s es = ((e, es1), s1)" by (metis prod.exhaust)
  with Cons.prems have n: "e = None" "backup_paths m dest ps s1 es1 = ((None, es'), s')"
    by (simp_all split: option.splits)
  from add_to_tar_entries [OF a [unfolded n(1)]] Cons.IH [OF n(2)] show ?case by (rule order_trans)
qed

lemma walk_root: "p \<in> set (walk names f n p)"
  by (cases n) auto

lemma walk_child:
  assumes "is_dir f p" "x \<in> set (names f p)" "q \<in> set (walk names f n (path_join [p, x]))"
  shows "q \<in> set (walk names f (Suc n) p)"
  using assms by auto

lemma walk_backup_dest:
  assumes "f ''/var/lib/bottle-agent'' = Some DirNode" "f ''/var/lib/bottle-agent/backups'' = Some DirNode"
    and "f (backup_dest production_cfg m x) \<noteq> None"
    and "f ''/var/lib/bottle-agent/backups'' \<noteq> None \<Longrightarrow> ''backups'' \<in> set (names f ''/var/lib/bottle-agent'')"
    and "f (backup_dest production_cfg m x) \<noteq> None \<Longrightarrow>
      ''backup-'' @ utc_stamp (utc_now m x) @ ''.tar.gz'' \<in> set (names f ''/var/lib/bottle-agent/backups'')"
  shows "backup_dest production_cfg m x \<in> set (walk names f max_depth ''/var/lib/bottle-agent'')"
proof -
  let ?name = "''backup-'' @ utc_stamp (utc_now m x) @ ''.tar.gz''"
  have d: "backup_dest production_cfg m x = path_join [''/var/lib/bottle-agent/backups'', ?name]"
    by (simp add: backup_dest_def)
  have j: "path_join [''/var/lib/bottle-agent'', ''backups''] = ''/var/lib/bottle-agent/backups''"
    by (simp add: path_join_def path_clean_def path_parts_def is_rooted_def of_parts_def)
  have "?name \<in> set (names f ''/var/lib/bottle-agent/backups'')"
    using assms(3) by (rule assms(5))
  then have "backup_dest production_cfg m x \<in> set (walk names f (Suc 2046) ''/var/lib/bottle-agent/backups'')"
    using assms(2) unfolding d by (intro walk_child [where x = ?name and n = 2046, OF _ _ walk_root]) (simp_all add: is_dir_def)
  moreover have "''backups'' \<in> set (names f ''/var/lib/bottle-agent'')"
    using assms(2) by (intro assms(4)) simp
  ultimately have "backup_dest production_cfg m x \<in> set (walk names f (Suc (Suc 2046)) ''/var/lib/bottle-agent'')"
    using assms(1) by (intro walk_child [where x = "''backups''" and n = "Suc 2046"]) (simp_all only: is_dir_def j simp_thms)
  moreover have "max_depth = Suc (Suc 2046)" by (simp add: max_depth_def)
  ultimately show ?thesis by (simp only:)
qed


lemma backup_paths_first:
  assumes "backup_paths m dest (p # ps) s es = ((None, es'), s')"
  shows "\<exists>es1 s1. add_to_tar m dest p s es = ((None, es1), s1) \<and> backup_paths m dest ps s1 es1 = ((None, es'), s')"
proof -
  obtain e es1 s1 where a: "add_to_tar m dest p s es = ((e, es1), s1)" by (metis prod.exhaust)
  with assms show ?thesis by (cases e) auto
qed

text \<open>
  A backup of the updater's preserved paths archives itself: the backup directory lies below
  the first preserved path, so with a directory listing that shows the two names and no fault, a
  successful backup has an entry with its own name, and that entry was read completely only
  because the archive did not grow while it was copied.
\<close>

theorem backup_archives_itself:
  assumes "host_backup production_cfg m preserved_paths w = (None, w')" and "io_of m = no_faults"
    and "\<And>f. f ''/var/lib/bottle-agent/backups'' \<noteq> None \<Longrightarrow>
      ''backups'' \<in> set (dir_names m f ''/var/lib/bottle-agent'')"
    and "\<And>f. f (backup_dest production_cfg m (w_ext w)) \<noteq> None \<Longrightarrow>
      ''backup-'' @ utc_stamp (utc_now m (w_ext w)) @ ''.tar.gz'' \<in> set (dir_names m f ''/var/lib/bottle-agent/backups'')"
  shows "\<exists>es mode. fs (w_os w') (backup_dest production_cfg m (w_ext w)) = Some (FileNode (archive m es) mode) \<and>
    backup_dest production_cfg m (w_ext w) \<in> te_name ` set es"
proof -
  define dest where "dest = backup_dest production_cfg m (w_ext w)"
  have clean: "path_clean dest = dest"
    unfolding dest_def by (rule backup_dest_clean)
  obtain s1 where mk: "os_mkdir_all no_faults ''/var/lib/bottle-agent/backups'' (w_os w) = (None, s1)"
    and wr: "write_archive m dest preserved_paths s1 = (None, w_os w')"
    using assms(1,2) by (auto simp: host_backup_def on_os_def dest_def split: prod.splits option.splits)
  have dirs: "fs s1 ''/var/lib/bottle-agent'' = Some DirNode" "fs s1 ''/var/lib/bottle-agent/backups'' = Some DirNode"
    using mk
    by (auto simp: os_mkdir_all_def no_faults_def tick_def ancestors_def path_parts_def is_rooted_def of_parts_def
        Let_def upt_rec split: if_splits)
  obtain s2 where opened: "os_write_file no_faults dest [] 384 s1 = (None, s2)"
    using wr assms(2) by (auto simp: write_archive_def split: prod.splits option.splits)
  obtain mode where s2: "fs s2 dest = Some (FileNode [] mode)"
    using opened by (auto simp: os_write_file_def clean no_faults_def put_file_def tick_def Let_def split: if_splits)
  have other: "fs s2 q = fs s1 q" if "q \<noteq> dest" for q
    using os_otherD(1) [OF opened] that by (simp add: clean)
  obtain es s3 where bp: "backup_paths m dest preserved_paths s2 [] = ((None, es), s3)"
    using wr opened assms(2) by (auto simp: write_archive_def split: prod.splits option.splits)
  have s3: "fs s3 dest = Some (FileNode [] mode)"
    using s2 backup_paths_fs [OF bp] by simp
  have s4: "fs (w_os w') dest = Some (FileNode (archive m es) mode)"
    using wr [symmetric] opened assms(2) bp s3
    by (auto simp: write_archive_def file_write_def file_sync_def file_close_def no_faults_def tick_def Let_def)
  obtain s0 es0 where first: "add_to_tar m dest ''/var/lib/bottle-agent'' s2 [] = ((None, es0), s0)"
    and "te_name ` set es0 \<subseteq> te_name ` set es"
    using backup_paths_first [OF bp [unfolded preserved_paths_def]] backup_paths_entries by blast
  moreover have "dest \<in> te_name ` set es0"
  proof -
    obtain s5 where st: "os_stat no_faults ''/var/lib/bottle-agent'' s2 = (None, s5)" "fs s5 = fs s2"
      using dirs(1) other [of "''/var/lib/bottle-agent''"]
      by (simp add: os_stat_def no_faults_def tick_def path_clean_def path_parts_def is_rooted_def of_parts_def
          dest_def backup_dest_path)
    have "dest \<in> set (walk (dir_names m) (fs s2) max_depth ''/var/lib/bottle-agent'')"
      unfolding dest_def
      using dirs other [of "''/var/lib/bottle-agent''"] other [of "''/var/lib/bottle-agent/backups''"] s2
      by (intro walk_backup_dest assms(3,4)) (simp_all add: dest_def backup_dest_path)
    moreover have "set (walk (dir_names m) (fs s2) max_depth ''/var/lib/bottle-agent'') \<subseteq> te_name ` set es0"
      using first st assms(2) tar_paths_entries [of m dest _ s5 "[]" es0 s0] by (simp add: add_to_tar_def)
    ultimately show ?thesis by blast
  qed
  ultimately show ?thesis using s4 unfolding dest_def by blast
qed


subsection \<open>Witnesses\<close>

text \<open>
  A Pi on which every service is active, Kismet listens and nothing fails; its backup directory
  lists the archive of the test's second.
\<close>

definition test_machine :: "unit machine" where
  "test_machine = \<lparr>
     goarch = ''arm64'', io_of = no_faults, statfs = (\<lambda>p x. Some (1000000, 4096)),
     interface_exists = (\<lambda>n x. n = ''eth0''), glob = (\<lambda>p x. Inr [''/sys/class/net/wlan0/wireless'']),
     dial = (\<lambda>a x. (None, x)), close_conn = (\<lambda>x. (None, x)),
     shell = (\<lambda>c f x. ((''active'' @ [CHR 0x0A], None), f, x)),
     http_get = (\<lambda>u x. (Inr (200, ''payload'', None), x)),
     utc_now = (\<lambda>x. (2025, 1, 2, 3, 4, 5)),
     dir_names = (\<lambda>f p. filter (\<lambda>n. f (path_join [p, n]) \<noteq> None)
        [''backup-20250102T030405Z.tar.gz'', ''backups'']),
     archive = (\<lambda>es. concat (map te_name es)), flushed = (\<lambda>es. ([], []))\<rparr>"

text \<open>A Pi whose releases directory exists and which runs no release, or the release v1.\<close>

definition test_files :: "string \<Rightarrow> path \<Rightarrow> node option" where
  "test_files v p =
     (if p \<in> {''/opt'', ''/opt/bottle-agent'', ''/opt/bottle-agent/releases'', ''/opt/bottle-agent/releases/v1'',
              ''/var'', ''/var/lib'', ''/var/lib/bottle-agent''}
      then Some DirNode
      else if p = ''/opt/bottle-agent/current'' \<and> v \<noteq> [] then Some (LinkNode (''/opt/bottle-agent/releases/'' @ v))
      else None)"

definition test_world :: "string \<Rightarrow> unit mworld" where
  "test_world v = \<lparr>w_os = \<lparr>fs = test_files v, ios = 0\<rparr>, w_ext = ()\<rparr>"

theorem switch_atomic_witness:
  "\<exists>e w'. switch_to production_cfg test_machine ''v2'' (test_world ''v1'') = (Some e, w') \<and>
     fs (w_os w') (current_link production_cfg) = Some (LinkNode ''/opt/bottle-agent/releases/v1'')"
proof -
  obtain e w' where sw: "switch_to production_cfg test_machine ''v2'' (test_world ''v1'') = (e, w')" by fastforce
  have "\<not> link_at (w_os w') (path_join [releases_dir production_cfg, ''v2''])"
    using sw
    by (auto simp: switch_to_def switch_link_def on_os_def test_machine_def os_stat_def no_faults_def test_world_def
        test_files_def tick_def is_dir_def release_path plain_version_def path_clean_def path_parts_def is_rooted_def
        of_parts_def link_at_def Let_def)
  with switch_atomic [OF sw] sw show ?thesis by (auto simp: test_world_def test_files_def)
qed

theorem stage_then_activate_witness:
  "\<exists>w1 w2. host_stage production_cfg test_machine ''v2'' ''bits'' (test_world ''v1'') = (None, w1) \<and>
     switch_to production_cfg test_machine ''v2'' w1 = (None, w2) \<and>
     fst (host_active_release production_cfg test_machine w2) = ''v2''"
proof -
  have "stageable (w_os (test_world ''v1'')) ''v2''"
    by (simp add: stageable_def release_dirs_ok_def test_world_def test_files_def)
  moreover have "fs (w_os (test_world ''v1'')) (current_link production_cfg) \<noteq> Some DirNode"
    by (simp add: test_world_def test_files_def)
  moreover have "io_of test_machine = no_faults"
    "snd (fst (shell test_machine ''systemctl restart bottle-agent'' f x)) = None" for f x
    by (simp_all add: test_machine_def)
  ultimately show ?thesis
    using stage_then_activate [of "''v2''" test_machine "test_world ''v1''" "''bits''"]
    by (auto simp: plain_version_def)
qed

theorem free_storage_exact_witness: "free_mb 1000000 4096 = 3906"
proof -
  have "uint (1000000 :: 64 word) * uint (4096 :: 64 word) < 2 ^ 63" by simp
  from free_storage_exact [OF this] show ?thesis by simp
qed

theorem health_check_sound_witness:
  "\<exists>w'. host_health_check production_cfg test_machine (test_world ''v1'') = (None, w') \<and>
     (\<exists>w1 w2 out. run_command production_cfg test_machine ''systemctl is-active kismet'' w1 = ((out, None), w2) \<and>
        trim_space out = ''active'')"
proof -
  obtain w' where h: "host_health_check production_cfg test_machine (test_world ''v1'') = (None, w')"
    by (simp add: host_health_check_def production_cfg_def test_machine_def run_command_def on_ext_def trim_space_def is_space_def)
  have "''kismet'' \<in> set (service_names production_cfg)" by (simp add: production_cfg_def)
  with health_check_sound [OF h] h show ?thesis by fastforce
qed

lemma test_backup:
  "\<exists>s. host_backup production_cfg (test_machine\<lparr>shell := sh\<rparr>) preserved_paths (test_world v) = (None, \<lparr>w_os = s, w_ext = ()\<rparr>) \<and>
     (\<forall>q. has_prefix q ''/opt'' \<longrightarrow> fs s q = test_files v q)"
proof -
  let ?m = "test_machine\<lparr>shell := sh\<rparr>"
  have "max_depth = Suc (Suc (Suc 2045))" by (simp add: max_depth_def)
  then obtain k where depth: "max_depth = Suc (Suc (Suc k))" by blast
  have dest: "backup_dest production_cfg ?m () = ''/var/lib/bottle-agent/backups/backup-20250102T030405Z.tar.gz''"
    by (simp add: backup_dest_path test_machine_def nat_digits.simps digit_chars)
  note path_defs = path_join_def path_clean_def path_parts_def path_dir_def is_rooted_def of_parts_def
  define f1 where "f1 = (\<lambda>q. if q \<in> set (ancestors ''/var/lib/bottle-agent/backups'') then Some DirNode else test_files v q)"
  have anc: "ancestors ''/var/lib/bottle-agent/backups'' = [''/var'', ''/var/lib'', ''/var/lib/bottle-agent'', ''/var/lib/bottle-agent/backups'']"
    by (simp add: ancestors_def path_parts_def is_rooted_def of_parts_def Let_def upt_rec)
  have mk: "os_mkdir_all no_faults ''/var/lib/bottle-agent/backups'' \<lparr>fs = test_files v, ios = 0\<rparr> = (None, \<lparr>fs = f1, ios = Suc 0\<rparr>)"
    by (simp add: os_mkdir_all_def anc f1_def no_faults_def tick_def test_files_def cong: if_cong)
  let ?dest = "''/var/lib/bottle-agent/backups/backup-20250102T030405Z.tar.gz''"
  have clean: "path_clean ?dest = ?dest" "path_dir ?dest = ''/var/lib/bottle-agent/backups''"
    by (simp_all add: path_defs)
  define f2 where "f2 = f1(?dest \<mapsto> FileNode [] 384)"
  have op: "os_write_file no_faults ?dest [] 384 \<lparr>fs = f1, ios = Suc 0\<rparr> = (None, \<lparr>fs = f2, ios = 2\<rparr>)"
    by (simp add: os_write_file_def clean f1_def f2_def anc no_faults_def tick_def put_file_def is_dir_def test_files_def Let_def)
  have wk: "walk (dir_names test_machine) f2 max_depth ''/var/lib/bottle-agent'' =
      [''/var/lib/bottle-agent'', ''/var/lib/bottle-agent/backups'', ?dest]"
    by (simp add: depth test_machine_def f2_def f1_def anc is_dir_def path_defs test_files_def)
  have f2: "f2 ''/var/lib/bottle-agent'' = Some DirNode" "f2 ''/var/lib/bottle-agent/backups'' = Some DirNode"
    "f2 ?dest = Some (FileNode [] 384)" "f2 ''/var/lib/bottle-agent/exports'' = None" "f2 ''/var/log/bottle-agent'' = None"
    "f2 ''/etc/bottle-agent/config.yaml'' = None"
    by (simp_all add: f2_def f1_def anc test_files_def)
  have cl: "path_clean ''/var/lib/bottle-agent'' = ''/var/lib/bottle-agent''"
    "path_clean ''/var/lib/bottle-agent/exports'' = ''/var/lib/bottle-agent/exports''"
    "path_clean ''/var/log/bottle-agent'' = ''/var/log/bottle-agent''"
    "path_clean ''/etc/bottle-agent/config.yaml'' = ''/etc/bottle-agent/config.yaml''"
    by (simp_all add: path_defs)
  have io: "io_of test_machine = no_faults" "flushed test_machine es = ([], [])" for es
    by (simp_all add: test_machine_def)
  have st: "os_stat no_faults p \<lparr>fs = f2, ios = n\<rparr> =
      (case f2 (path_clean p) of None \<Rightarrow> if is_dir f2 (path_clean p) then None else Some err_not_exist
        | Some (LinkNode t) \<Rightarrow> if is_dir f2 (path_clean t) \<or> f2 (path_clean t) \<noteq> None then None else Some err_not_exist
        | Some _ \<Rightarrow> None, \<lparr>fs = f2, ios = Suc n\<rparr>)" for p n
    by (simp add: os_stat_def no_faults_def tick_def split: option.splits node.splits)
  have rd: "os_read_file no_faults ?dest \<lparr>fs = f2, ios = n\<rparr> = (Inr [], \<lparr>fs = f2, ios = Suc n\<rparr>)" for n
    by (simp add: os_read_file_def no_faults_def tick_def clean f2)
  have "\<exists>es n. backup_paths ?m ?dest preserved_paths \<lparr>fs = f2, ios = 2\<rparr> [] = ((None, es), \<lparr>fs = f2, ios = n\<rparr>)"
    by (simp add: preserved_paths_def add_to_tar_def io st cl f2 wk tar_visit_def tar_file_def is_dir_def
        rd clean is_not_exist_def Let_def del: walk.simps)
  then obtain es n where bp: "backup_paths ?m ?dest preserved_paths \<lparr>fs = f2, ios = 2\<rparr> [] = ((None, es), \<lparr>fs = f2, ios = n\<rparr>)"
    by blast
  define f3 where "f3 = f2(?dest \<mapsto> FileNode (archive ?m es) 384)"
  have "\<exists>k. write_archive ?m ?dest preserved_paths \<lparr>fs = f1, ios = Suc 0\<rparr> = (None, \<lparr>fs = f3, ios = k\<rparr>)"
    by (auto simp: write_archive_def io op bp f2 f3_def file_write_def file_sync_def file_close_def tick_def Let_def
        no_faults_def [THEN arg_cong, of io_fault])
  moreover have "f3 q = test_files v q" if "has_prefix q ''/opt''" for q
    using that by (auto simp: f3_def f2_def f1_def anc)
  ultimately show ?thesis
    by (auto simp: host_backup_def on_os_def test_world_def io mk dest)
qed

theorem backup_archives_itself_witness:
  "\<exists>w' es mode. host_backup production_cfg test_machine preserved_paths (test_world ''v1'') = (None, w') \<and>
     fs (w_os w') ''/var/lib/bottle-agent/backups/backup-20250102T030405Z.tar.gz'' =
       Some (FileNode (archive test_machine es) mode) \<and>
     ''/var/lib/bottle-agent/backups/backup-20250102T030405Z.tar.gz'' \<in> te_name ` set es"
proof -
  obtain w' where run: "host_backup production_cfg test_machine preserved_paths (test_world ''v1'') = (None, w')"
    using test_backup [of "shell test_machine" "''v1''"] by auto
  have dest: "backup_dest production_cfg test_machine (w_ext (test_world ''v1'')) =
      ''/var/lib/bottle-agent/backups/backup-20250102T030405Z.tar.gz''"
    by (simp add: backup_dest_path test_machine_def nat_digits.simps digit_chars)
  have names: "''backups'' \<in> set (dir_names test_machine f ''/var/lib/bottle-agent'')"
    if "f ''/var/lib/bottle-agent/backups'' \<noteq> None" for f
    using that by (simp add: test_machine_def path_join_def path_clean_def path_parts_def is_rooted_def of_parts_def)
  have name: "''backup-'' @ utc_stamp (utc_now test_machine (w_ext (test_world ''v1''))) @ ''.tar.gz''
      \<in> set (dir_names test_machine f ''/var/lib/bottle-agent/backups'')"
    if "f (backup_dest production_cfg test_machine (w_ext (test_world ''v1''))) \<noteq> None" for f
    using that unfolding dest
    by (simp add: test_machine_def path_join_def path_clean_def path_parts_def is_rooted_def of_parts_def nat_digits.simps digit_chars)
  have "io_of test_machine = no_faults" by (simp add: test_machine_def)
  from backup_archives_itself [OF run this names name] run show ?thesis unfolding dest by blast
qed

end
