(* ===== verification/Provisioner_Properties.thy ===== *)
theory Provisioner_Properties
  imports Provisioner
begin

section \<open>Correctness of provisioning\<close>

text \<open>
  The properties of \<open>Provisioner.Run\<close>, each with a run on the test double of \<open>lifecycle_test.go\<close>
  at which it applies.
\<close>

text \<open>
  The properties hold for every store that keeps the \<open>Jobs\<close> contract, \<open>is_job_store js sound\<close>; both
  \<open>MemoryJobs\<close> and \<open>FileJobs\<close> do.
\<close>

definition is_job_store :: "'j jobs \<Rightarrow> ('j \<Rightarrow> bool) \<Rightarrow> bool" where
  "is_job_store js sound \<longleftrightarrow> job_store (jGet js) (jPut js) sound"

lemma is_job_store_memory: "is_job_store (memory_store now) memory_inv"
  by (simp add: is_job_store_def memory_store_def mem.job_store_axioms)

lemma is_job_store_file: "is_job_store (file_store io cd now) file_inv"
  by (simp add: is_job_store_def file_store_def filej.job_store_axioms)

lemma start_job_completed:
  assumes "is_job_store js sound" "sound st"
  shows "completed (start_job js i st) \<noteq> None"
  using job_store.get_clone [OF assms(1) [unfolded is_job_store_def] assms(2)]
  by (auto simp: start_job_def new_provision_job_def split: option.splits)

lemma stored_start_job:
  assumes "stored_as (jGet js) i j st"
  shows "job_state (start_job js i st) = job_state j" "plan_of (start_job js i st) = plan_of j"
    "jGet js i st \<noteq> None"
  using assms by (auto simp: stored_as_def start_job_def intro!: plan_of_cong)

lemma run_stored:
  assumes js: "is_job_store js sound" and st: "sound (store s)" and req: "pr_id req \<noteq> []"
    and run: "provisioner_run h js req s = (Ret (Some j, None), s')"
  shows "stored_as (jGet js) (pr_id req) j (store s')"
proof -
  have js_eq: "\<lparr>jGet = jGet js, jPut = jPut js\<rparr> = js" by (cases js) simp
  show ?thesis
    using wpD [OF job_store.provisioner_run_stored
        [OF js [unfolded is_job_store_def] st req, of h, unfolded js_eq] run]
    by (simp add: stored_result_def)
qed

subsection \<open>Properties of provisioning\<close>

text \<open>
  C2. Provisioning implements its plan, with any job store that keeps its contract: the effects of a run on the host
  are the actions the job still needs (backup, the missing package, configuration and service
  steps, the health check), in that order, up to the first failure and none after it; the job
  returned is succeeded exactly when all of them succeeded. A run with no effect ends failed (in
  the preflight) or waiting for input.
\<close>

theorem provision_refines_plan:
  assumes "is_job_store js sound" and "sound (store s)" and "pr_id req \<noteq> []"
    and "job_state (start_job js (pr_id req) (store s)) \<noteq> Succeeded"
    and "provisioner_run h js req s = (Ret x, s')"
  shows "\<exists>j log. x = (Some j, None) \<and> host_effects (calls s') = host_effects (calls s) @ log \<and>
    (log = [] \<and> (job_state j = Failed \<or> job_state j = NeedsInput) \<or>
     executes (plan_of (start_job js (pr_id req) (store s))) log \<and>
     job_state j = (if all_ok log then Succeeded else Failed))"
proof -
  let ?job = "start_job js (pr_id req) (store s)"
  obtain log where "host_effects (calls s') = host_effects (calls s) @ log" "provision_post req ?job log x"
    using wpD [OF provisioner_run_post [OF assms(3) refl assms(4) start_job_completed [OF assms(1,2)]] assms(5)]
    by auto
  then show ?thesis unfolding provision_post_def by blast
qed

text \<open>
  C5. A failed run resumes: the plan of the next run with the same id is what the failed run left,
  from the action that failed, so no completed checkpoint is done again and none is skipped.
\<close>

theorem provision_resumes:
  assumes "is_job_store js sound" and "sound (store s)" and "pr_id req \<noteq> []"
    and "job_state (start_job js (pr_id req) (store s)) \<noteq> Succeeded"
    and "provisioner_run h js req s = (Ret (Some j, None), s')"
    and "job_state j \<noteq> Succeeded"
    and "host_effects (calls s') = host_effects (calls s) @ log"
  shows "plan_of (start_job js (pr_id req) (store s')) =
         drop (length log - 1) (plan_of (start_job js (pr_id req) (store s)))"
  using wpD [OF provisioner_run_post [OF assms(3) refl assms(4) start_job_completed [OF assms(1,2)]] assms(5)]
    assms(6,7) stored_start_job(2) [OF run_stored [OF assms(1,2,3,5)]]
  by (auto simp: provision_post_def)

text \<open>
  C6. A finished request is answered from the store: after a run that returned a succeeded job,
  any further run with the same id returns that job, asks nothing of the host, runs nothing and
  writes nothing, whatever the host and the confirmation flag then are.
\<close>

theorem provision_idempotent:
  assumes "is_job_store js sound" and "sound (store s)" and "pr_id req \<noteq> []"
    and "provisioner_run h js req s = (Ret (Some j, None), s')"
    and "job_state j = Succeeded"
    and "store s2 = store s'" and "pr_id req2 = pr_id req"
  shows "\<exists>t. provisioner_run h2 js req2 s2 = (Ret (Some (clone_job (j\<lparr>updated_at := t\<rparr>)), None), s2)"
proof -
  obtain t where g: "jGet js (pr_id req) (store s') = Some (clone_job (j\<lparr>updated_at := t\<rparr>))"
    using run_stored [OF assms(1-4)] by (auto simp: stored_as_def)
  have "provisioner_run h2 js req2 s2 = (Ret (Some (clone_job (j\<lparr>updated_at := t\<rparr>)), None), s2)"
    using assms(3,5,6,7) g
    by (simp add: provisioner_run_def provision_job_def bindP_def jobs_get_def retP_def)
  then show ?thesis ..
qed

text \<open>
  C7. Without confirmation nothing happens to an already configured Pi, as long as the request has not been
  confirmed before: if a protected configuration file exists, the job has not succeeded and its
  \<open>backup\<close> checkpoint is not completed, an unconfirmed run has no effect on the host and ends
  waiting for input with that file listed, or failed in the preflight. Once a confirmed run has completed
  the backup, the question is not asked again, and an unconfirmed retry goes on with the job.
\<close>

theorem provision_needs_confirmation:
  assumes "pr_id req \<noteq> []" and "\<not> pr_confirm req"
    and "p \<in> set protected_config_paths" and "\<And>w. snd (fst (hConfig h p w))"
    and "job_state (start_job js (pr_id req) (store s)) \<noteq> Succeeded"
    and "\<not> is_completed (start_job js (pr_id req) (store s)) ''backup''"
    and "provisioner_run h js req s = (Ret x, s')"
  shows "host_effects (calls s') = host_effects (calls s) \<and>
    (\<exists>j. x = (Some j, None) \<and>
       (job_state j = NeedsInput \<and> p \<in> set (changed_paths j) \<or>
        job_state j = Failed \<and> job_phase j = ''preflight''))"
proof -
  let ?job = "start_job js (pr_id req) (store s)"
  define post where "post r s' \<longleftrightarrow> host_effects (calls s') = host_effects (calls s) \<and>
    (\<forall>x. r = Ret x \<longrightarrow> (\<exists>j. x = (Some j, None) \<and>
       (job_state j = NeedsInput \<and> p \<in> set (changed_paths j) \<or>
        job_state j = Failed \<and> job_phase j = ''preflight'')))" for r :: "job_result outcome" and s' :: "('a, 'b) lstate"
  have work: "wp (provision_work h js req ?job) post s1" if "host_effects (calls s1) = host_effects (calls s)" for s1
    unfolding provision_work_def wp_bind
    by (rule backup_block_unconfirmed [OF assms(6,2,3,4), THEN wp_mono])
       (auto simp: that post_def wp_ret split: outcome.splits)
  have fail: "wp (provision_fail js ?job ''preflight'' e) post s1" if "host_effects (calls s1) = host_effects (calls s)" for e s1
    by (auto simp: provision_fail_def Let_def prog_simps that post_def split: outcome.splits)
  have "wp (provision_job h js req ?job) post s"
    using assms(5)
    by (auto simp: provision_job_def wp_bind split: option.splits intro!: preflight_wp [THEN wp_mono] work fail)
  then have "wp (provisioner_run h js req) post s"
    using assms(1) by (simp add: provisioner_run_def wp_bind wp_jobs_get start_job_def)
  from wpD [OF this assms(7)] show ?thesis by (simp add: post_def)
qed

text \<open>
  C8. Provisioning always returns: with the in-memory store no run panics, whatever the host
  answers and whatever the store holds.
\<close>

theorem provision_returns: "\<exists>x s'. provisioner_run h (memory_store now) req s = (Ret x, s')"
proof -
  have "put_panics (\<lambda>_. False) (memory_store now)"
    by (simp add: put_panics_def memory_store_def memory_put_def Let_def)
  moreover have "completed (start_job (memory_store now) (pr_id req) (store s)) \<noteq> None"
    by (auto simp: start_job_def memory_store_def memory_get_def new_provision_job_def split: option.splits)
  ultimately have "wp (provisioner_run h (memory_store now) req) (\<lambda>r s'. returns (\<lambda>_. False) r) s"
    by (rule provisioner_run_returns)
  then show ?thesis
    by (cases "provisioner_run h (memory_store now) req s") (auto simp: wp_def returns_def split: outcome.splits)
qed

text \<open>
  The phases a job records while it has not failed are the confirmation request, the three
  steps and completion: a run that is under way never records the phases preflight, backup or
  health.
\<close>

theorem provision_phases:
  assumes "provisioner_run h js req s = (r, s')" and "calls s = []"
    and "CPut j \<in> set (calls s')" and "job_state j \<noteq> Failed"
  shows "job_phase j \<in> {''confirm_config'', ''packages'', ''configure'', ''services'', ''complete''}"
  using wpD [OF provisioner_run_phases assms(1)] assms(2,3,4) by (auto simp: put_phases_ok_def)

subsection \<open>Witnesses\<close>

text \<open>
  The test double of \<open>lifecycle_test.go\<close>: a Raspberry Pi that passes the preflight; its world is
  the command that fails, if any.
\<close>

definition test_host :: "string host" where
  "test_host = \<lparr>
     hArchitecture = (\<lambda>w. (''arm64'', w)), hIsBookworm = (\<lambda>w. (True, w)),
     hFreeStorageMB = (\<lambda>w. (4096, w)), hHasEthernet = (\<lambda>n w. (n = ''eth0'', w)),
     hRadioCount = (\<lambda>w. (1, w)), hGPSVisible = (\<lambda>w. (True, w)),
     hConfig = (\<lambda>p w. ((''user-managed'', True), w)), hBackup = (\<lambda>ps w. (None, w)),
     hRun = (\<lambda>c w. (if c = w then Some (ErrText ''exit status 1'') else None, w)),
     hHealthCheck = (\<lambda>w. (None, w)), hFetch = (\<lambda>u w. (Inr ''payload'', w)),
     hStage = (\<lambda>v d w. (None, w)), hActiveRelease = (\<lambda>w. (''v1'', w)),
     hActivate = (\<lambda>v w. (None, w)), hRollback = (\<lambda>v w. (None, w))\<rparr>"

definition test_state :: "string \<Rightarrow> (string, memory_jobs) lstate" where
  "test_state w = \<lparr>world = w, store = new_memory_jobs, calls = []\<rparr>"

lemmas run_eval = provisioner_run_def provision_job_def provision_work_def provision_rest_def preflight_def
  backup_block_def finish_provision_def provision_steps_def protected_config_paths_def bindP_def retP_def
  host_op_def jobs_get_def jobs_put_def mark_completed_def provision_fail_def new_provision_job_def
  is_completed_def nil_lookup_def memory_store_def memory_get_def memory_put_def complete_message_def clone_job_def
  new_memory_jobs_def


definition test_req :: "bool \<Rightarrow> provision_request" where
  "test_req c = \<lparr>pr_id = ''p1'', pr_confirm = c\<rparr>"

lemma test_sound: "is_job_store (memory_store int) memory_inv" "memory_inv (store (test_state w))"
  by (simp_all add: is_job_store_memory test_state_def memory_inv_new)

lemma test_fresh: "jGet (memory_store now) i (store (test_state w)) = None"
  by (simp add: memory_store_def memory_get_def test_state_def new_memory_jobs_def)

lemma test_start: "start_job (memory_store now) i (store (test_state w)) = new_provision_job i"
  by (simp add: start_job_def test_fresh)

lemma test_start_simps:
  "job_state (new_provision_job i) = Queued" "is_completed (new_provision_job i) k = False"
  "pr_id (test_req c) = ''p1''" "pr_confirm (test_req c) = c" "calls (test_state w) = []"
  by (simp_all add: new_provision_job_def is_completed_def nil_lookup_def test_req_def test_state_def)

text \<open>A run on a Pi that answers as the test double does, and one whose configure step fails.\<close>

lemma test_run_ok:
  "\<exists>j s'. provisioner_run test_host (memory_store int) (test_req True) (test_state '''') = (Ret (Some j, None), s') \<and>
     job_state j = Succeeded \<and> job_phase j = ''complete'' \<and> CPut j \<in> set (calls s')"
  by (simp add: test_req_def test_host_def test_state_def run_eval Let_def)

lemma test_run_fails:
  "\<exists>j s' log. provisioner_run test_host (memory_store int) (test_req True)
       (test_state (snd (provision_steps ! 1))) = (Ret (Some j, None), s') \<and>
     job_state j = Failed \<and> host_effects (calls s') = log \<and> length log = 3"
  by (simp add: test_req_def test_host_def test_state_def run_eval Let_def)

lemma test_run_unconfirmed:
  "\<exists>x s'. provisioner_run test_host (memory_store int) (test_req False) (test_state '''') = (Ret x, s')"
  by (simp add: test_req_def test_host_def test_state_def run_eval Let_def)

theorem provision_refines_plan_witness:
  "\<exists>j s'. provisioner_run test_host (memory_store int) (test_req True) (test_state '''') = (Ret (Some j, None), s') \<and>
     executes (plan_of (new_provision_job ''p1'')) (host_effects (calls s')) \<and> all_ok (host_effects (calls s'))"
proof -
  obtain j s' where run: "provisioner_run test_host (memory_store int) (test_req True) (test_state '''') = (Ret (Some j, None), s')"
    and j: "job_state j = Succeeded"
    using test_run_ok by blast
  show ?thesis
    using provision_refines_plan [OF test_sound(1) test_sound(2) _ _ run] run j
    by (auto simp: test_start test_start_simps split: if_splits)
qed

theorem provision_resumes_witness:
  "\<exists>j s'. provisioner_run test_host (memory_store int) (test_req True)
       (test_state (snd (provision_steps ! 1))) = (Ret (Some j, None), s') \<and>
     plan_of (start_job (memory_store int) ''p1'' (store s')) = drop 2 (plan_of (new_provision_job ''p1''))"
proof -
  obtain j s' log where run: "provisioner_run test_host (memory_store int) (test_req True)
       (test_state (snd (provision_steps ! 1))) = (Ret (Some j, None), s')"
    and j: "job_state j = Failed" and log: "host_effects (calls s') = log" "length log = 3"
    using test_run_fails by blast
  have "host_effects (calls s') = host_effects (calls (test_state (snd (provision_steps ! 1)))) @ log"
    by (simp add: log(1) test_state_def)
  from provision_resumes [OF test_sound(1) test_sound(2) _ _ run _ this] run j log(2)
  show ?thesis by (auto simp: test_start test_start_simps)
qed

theorem provision_idempotent_witness:
  "\<exists>j s' t. provisioner_run test_host (memory_store int) (test_req True) (test_state '''') = (Ret (Some j, None), s') \<and>
     provisioner_run test_host (memory_store int) (test_req False) s' =
       (Ret (Some (clone_job (j\<lparr>updated_at := t\<rparr>)), None), s')"
proof -
  obtain j s' where run: "provisioner_run test_host (memory_store int) (test_req True) (test_state '''') = (Ret (Some j, None), s')"
    and j: "job_state j = Succeeded"
    using test_run_ok by blast
  from provision_idempotent [OF test_sound(1) test_sound(2) _ run j refl, of "test_req False" test_host] run
  show ?thesis by (auto simp: test_start_simps)
qed

theorem provision_needs_confirmation_witness:
  "\<exists>x s'. provisioner_run test_host (memory_store int) (test_req False) (test_state '''') = (Ret x, s') \<and>
     host_effects (calls s') = []"
proof -
  obtain x s' where run: "provisioner_run test_host (memory_store int) (test_req False) (test_state '''') = (Ret x, s')"
    using test_run_unconfirmed by blast
  have "''/etc/kismet/kismet.conf'' \<in> set protected_config_paths" by (simp add: protected_config_paths_def)
  moreover have "\<And>w. snd (fst (hConfig test_host ''/etc/kismet/kismet.conf'' w))" by (simp add: test_host_def)
  ultimately show ?thesis
    using provision_needs_confirmation [OF _ _ _ _ _ _ run] run
    by (simp add: test_start test_start_simps)
qed

theorem provision_phases_witness:
  "\<exists>j s'. CPut j \<in> set (calls s') \<and> job_state j \<noteq> Failed \<and>
     provisioner_run test_host (memory_store int) (test_req True) (test_state '''') = (Ret (Some j, None), s') \<and>
     job_phase j \<in> {''confirm_config'', ''packages'', ''configure'', ''services'', ''complete''}"
proof -
  obtain j s' where run: "provisioner_run test_host (memory_store int) (test_req True) (test_state '''') = (Ret (Some j, None), s')"
    and j: "job_state j = Succeeded" "CPut j \<in> set (calls s')"
    using test_run_ok by blast
  have "job_phase j \<in> {''confirm_config'', ''packages'', ''configure'', ''services'', ''complete''}"
    using provision_phases [OF run _ j(2)] j(1) by (simp add: test_state_def)
  with run j show ?thesis by auto
qed

end
