(* ===== verification/Updater_Properties.thy ===== *)
theory Updater_Properties
  imports Host_Properties Provisioner_Properties
begin

section \<open>Correctness of updates\<close>

text \<open>
  The properties of \<open>Updater.Run\<close>: what it does on any host, and which release the Raspberry Pi
  host runs afterwards.
\<close>

lemma update_run_stored:
  assumes js: "is_job_store js sound" and st: "sound (store s)" and req: "update_request_complete req"
    and fresh: "\<not> update_done js (ur_id req) (store s)"
    and run: "updater_run h js verify sha req s = (Ret (Some j, e), s')"
  shows "stored_as (jGet js) (ur_id req) j (store s')"
proof -
  have js_eq: "\<lparr>jGet = jGet js, jPut = jPut js\<rparr> = js" by (cases js) simp
  show ?thesis
    using wpD [OF job_store.updater_run_stored
        [OF js [unfolded is_job_store_def] st req, unfolded js_eq, OF fresh] run]
    by (auto simp: update_stored_def)
qed

text \<open>
  C1. An update implements its plan, on any host and with any job store: nothing is changed on
  the host unless the manifest verifier accepted the manifest and the payload has its digest;
  then the effects are backup, staging, activation and health check, in that order, up to the
  first failure; a rollback follows exactly a failed health check; the job is succeeded exactly
  when all of them succeeded, and a rollback that succeeded is reported as such.
\<close>

theorem update_refines_plan:
  assumes "update_request_complete req" and "\<not> update_done js (ur_id req) (store s)"
    and "updater_run h js verify sha req s = (Ret x, s')"
  shows "\<exists>log. host_effects (calls s') = host_effects (calls s) @ log \<and>
    (\<exists>j. fst x = Some j \<and> job_state j = (if snd x = None then Succeeded else Failed)) \<and>
    (log = [] \<and> snd x \<noteq> None \<or>
     (\<exists>payload. accepted verify sha (ur_manifest req) payload \<and>
        executes (update_plan (rm_version (ur_manifest req)) payload) (planned log) \<and>
        (snd x = None \<longleftrightarrow> all_ok (planned log)) \<and>
        length (rollbacks log) = length (filter health_failed log) \<and>
        (rollbacks log \<noteq> [] \<and> all_ok (rollbacks log) \<longrightarrow> snd x = Some err_update_rolled_back)))"
  using wpD [OF updater_run_post [OF assms(1,2)] assms(3)] by (auto simp: update_post_def)

text \<open>
  A finished update is answered from the store: after a run that succeeded, any further run
  with the same id returns that job, does not consult the verifier, asks nothing of the host and
  writes nothing.
\<close>

theorem update_idempotent:
  assumes "is_job_store js sound" and "sound (store s)" and "update_request_complete req"
    and "\<not> update_done js (ur_id req) (store s)"
    and "updater_run h js verify sha req s = (Ret (Some j, None), s')"
    and "store s2 = store s'" and "update_request_complete req2" and "ur_id req2 = ur_id req"
  shows "\<exists>t. updater_run h2 js verify2 sha2 req2 s2 = (Ret (Some (clone_job (j\<lparr>updated_at := t\<rparr>)), None), s2)"
proof -
  obtain t where g: "jGet js (ur_id req) (store s') = Some (clone_job (j\<lparr>updated_at := t\<rparr>))"
    using update_run_stored [OF assms(1-5)] by (auto simp: stored_as_def)
  have "job_state j = Succeeded"
    using wpD [OF updater_run_post [OF assms(3,4)] assms(5)] by (auto simp: update_post_def)
  then have "updater_run h2 js verify2 sha2 req2 s2 = (Ret (Some (clone_job (j\<lparr>updated_at := t\<rparr>)), None), s2)"
    using assms(6-8) g
    by (simp add: updater_run_def update_request_complete_def bindP_def jobs_get_def retP_def Let_def)
  then show ?thesis ..
qed

text \<open>
  C3. What an update leaves active: on the Raspberry Pi host, with plain release names and a prior release
  that the run could read from the link, the active release after a run is the new one when the
  update succeeded, the prior one when it failed before the activation or was rolled back after a
  failed health check, and in every case one of the two. A failed activation (phase \<open>activate\<close>) and a
  failed rollback (phase \<open>rollback\<close>) are the cases in which a failed update may leave the new one active.
\<close>

theorem update_restores_release:
  assumes "update_request_complete req" and "\<not> update_done js (ur_id req) (store s)"
    and "plain_version (rm_version (ur_manifest req))" and "plain_version prior"
    and "release_of production_cfg (world s) = prior"
    and "updater_run (agent_host production_cfg m) js verify sha req s = (Ret (Some j, e), s')"
    and "CActiveRelease [] \<notin> set (calls s')"
  shows "(job_state j = Succeeded \<longrightarrow> release_of production_cfg (world s') = rm_version (ur_manifest req)) \<and>
    (job_phase j \<in> {''verify_manifest'', ''download'', ''verify_digest'', ''backup'', ''stage'', ''rolled_back''} \<longrightarrow>
       release_of production_cfg (world s') = prior) \<and>
    release_of production_cfg (world s') \<in> {prior, rm_version (ur_manifest req)}"
  using wpD [OF pi.updater_run_release [OF assms(1-5)] assms(6)] assms(7)
  by (auto simp: release_post_def unchanged_phases_def)

subsection \<open>The first update\<close>

definition first_update_post :: "job_result outcome \<Rightarrow> ('x mworld, 'j) lstate \<Rightarrow> bool" where
  "first_update_post r s' \<longleftrightarrow> (\<forall>j e. r = Ret (Some j, e) \<longrightarrow> job_phase j = ''rolled_back'' \<longrightarrow>
     job_message j = rolled_back_message \<and> link_at (w_os (world s')) ''/opt/bottle-agent/releases'')"

lemma first_update_post_simps [simp]:
  "first_update_post (Panic p) s'"
  "first_update_post (Ret (Some j, e)) s' \<longleftrightarrow> (job_phase j = ''rolled_back'' \<longrightarrow>
     job_message j = rolled_back_message \<and> link_at (w_os (world s')) ''/opt/bottle-agent/releases'')"
  by (simp_all add: first_update_post_def)

lemma first_update_fail:
  "ph \<noteq> ''rolled_back'' \<Longrightarrow> wp (update_fail js job ph err) first_update_post s"
  by (auto simp: update_fail_wp Let_def split: outcome.splits)

lemma rollback_to_nothing:
  assumes "hRollback (agent_host production_cfg m) [] w = (None, w')"
  shows "link_at (w_os w') ''/opt/bottle-agent/releases''"
proof -
  obtain e1 s1 where lk: "switch_link production_cfg (io_of m) [] (w_os w) = (e1, s1)" by fastforce
  obtain o2 e2 w2 where cmd: "run_command production_cfg m ''systemctl restart bottle-agent'' (w\<lparr>w_os := s1\<rparr>) = ((o2, e2), w2)"
    by (metis prod.exhaust)
  have dir: "path_join [''/opt/bottle-agent/releases'', []] = ''/opt/bottle-agent/releases''"
    by (simp add: path_join_def path_clean_def path_parts_def is_rooted_def of_parts_def)
  have e: "e1 = None" "w' = w2"
    using assms by (auto simp: agent_host_def switch_to_def on_os_def lk cmd split: option.splits)
  have "link_at s1 ''/opt/bottle-agent/releases''"
    using switch_link_result(1) [OF lk e(1)] by (simp add: dir)
  then show ?thesis
    using run_command_link [OF cmd] by (simp add: link_at_def e(2))
qed

lemma first_update_health:
  "wp (update_health (agent_host production_cfg m) js [] job) first_update_post s"
  by (auto simp: update_health_def Let_def wp_bind wp_host_op wp_jobs_put wp_ret rollback_to_nothing
      split: option.splits outcome.splits intro!: first_update_fail)

lemma first_update_install:
  assumes "plain_version v" "release_of production_cfg (world s) = []"
  shows "wp (update_install (agent_host production_cfg m) js v payload job) first_update_post s"
proof -
  have none: "a = []" if "hBackup (agent_host production_cfg m) preserved_paths (world s) = (None, w1)"
    "hActiveRelease (agent_host production_cfg m) w1 = (a, w2)" for w1 a w2
    using pi.backup_keeps [OF that(1)] pi.active_answer [OF that(2)] assms(2) by auto
  have tail: "wp (bindP (host_op (hStage (agent_host production_cfg m) v payload) (CStage v payload)) (\<lambda>e.
      case e of Some err \<Rightarrow> update_fail js job ''stage'' err
      | None \<Rightarrow> bindP (host_op (hActivate (agent_host production_cfg m) v) (CActivate v)) (\<lambda>e.
          case e of Some err \<Rightarrow> update_fail js job ''activate'' err
          | None \<Rightarrow> update_health (agent_host production_cfg m) js [] job))) first_update_post s1" for s1
    by (auto simp: wp_bind wp_host_op split: option.splits intro!: first_update_fail first_update_health)
  show ?thesis
    unfolding update_install_def
    by (auto simp: wp_bind [of "host_op (hBackup _ _) _"] wp_bind [of "host_op (hActiveRelease _) _"] wp_host_op
        split: option.splits intro!: first_update_fail tail dest!: none)
qed

text \<open>
  The first update of a Pi that runs no release cannot be undone: if its health check fails,
  the job reports that the prior release was restored, but the link then points at the directory
  that holds the releases, which is none.
\<close>

theorem first_update_rollback:
  assumes "update_request_complete req" and "\<not> update_done js (ur_id req) (store s)"
    and "plain_version (rm_version (ur_manifest req))"
    and "release_of production_cfg (world s) = []"
    and "updater_run (agent_host production_cfg m) js verify sha req s = (Ret (Some j, e), s')"
    and "job_phase j = ''rolled_back''"
  shows "job_message j = ''UPDATE_ROLLED_BACK: staged release failed health checks; prior release restored'' \<and>
    fs (w_os (world s')) (current_link production_cfg) = Some (LinkNode (releases_dir production_cfg))"
proof -
  let ?m = "ur_manifest req"
  have job: "wp (update_job (agent_host production_cfg m) js verify sha ?m job) first_update_post s1"
    if "world s1 = world s" for job s1
    unfolding update_job_def
    using that assms(4)
    by (auto simp: wp_bind wp_host_op intro!: first_update_fail first_update_install [OF assms(3)]
        dest: pi.fetch_keeps split: option.splits sum.splits)
  have "wp (bindP (jobs_put js (new_update_job (ur_id req)))
      (\<lambda>_. update_job (agent_host production_cfg m) js verify sha ?m (new_update_job (ur_id req)))) first_update_post s"
    by (auto simp: wp_bind wp_jobs_put split: outcome.splits intro!: job)
  then have "wp (updater_run (agent_host production_cfg m) js verify sha req) first_update_post s"
    by (simp add: wp_def updater_run_fresh [OF assms(1,2)])
  from wpD [OF this assms(5)] assms(6) show ?thesis
    by (simp add: first_update_post_def rolled_back_message_def link_at_def)
qed

subsection \<open>Witnesses\<close>

definition test_manifest :: release_manifest where
  "test_manifest = \<lparr>rm_version = ''v2'', rm_url = ''https://releases/v2'', rm_sha256 = ''payload''\<rparr>"

definition test_update :: update_request where
  "test_update = \<lparr>ur_id = ''u1'', ur_manifest = test_manifest\<rparr>"

definition test_verify :: "(release_manifest \<Rightarrow> go_error option) option" where
  "test_verify = Some (\<lambda>m. None)"

definition update_state :: "'w \<Rightarrow> ('w, memory_jobs) lstate" where
  "update_state w = \<lparr>world = w, store = new_memory_jobs, calls = []\<rparr>"

lemmas update_eval = updater_run_def update_job_def update_install_def update_health_def update_fail_def
  new_update_job_def bindP_def retP_def host_op_def jobs_get_def jobs_put_def memory_store_def memory_get_def
  memory_put_def new_memory_jobs_def clone_job_def test_update_def test_manifest_def test_verify_def
  update_state_def Let_def

lemma test_update_simps:
  "update_request_complete test_update" "ur_manifest test_update = test_manifest" "ur_id test_update = ''u1''"
  "rm_version test_manifest = ''v2''" "plain_version ''v2''" "plain_version ''v1''"
  "\<not> update_done (memory_store now) i (store (update_state w))" "calls (update_state w) = []"
  "world (update_state w) = w" "memory_inv (store (update_state w))"
  by (simp_all add: update_request_complete_def test_update_def test_manifest_def plain_version_def update_done_def
      memory_store_def memory_get_def update_state_def new_memory_jobs_def memory_inv_def)

lemma test_update_ok:
  "\<exists>j s'. updater_run test_host (memory_store int) test_verify id test_update (update_state '''') = (Ret (Some j, None), s') \<and>
     length (host_effects (calls s')) = 4"
  by (simp add: update_eval test_host_def)

theorem update_refines_plan_witness:
  "\<exists>j s' payload. updater_run test_host (memory_store int) test_verify id test_update (update_state '''') = (Ret (Some j, None), s') \<and>
     executes (update_plan ''v2'' payload) (planned (host_effects (calls s'))) \<and> all_ok (planned (host_effects (calls s')))"
proof -
  obtain j s' where run: "updater_run test_host (memory_store int) test_verify id test_update (update_state '''') = (Ret (Some j, None), s')"
    using test_update_ok by blast
  from update_refines_plan [OF test_update_simps(1,7) run] run show ?thesis
    by (auto simp: test_update_simps)
qed

theorem update_idempotent_witness:
  "\<exists>j s' t. updater_run test_host (memory_store int) test_verify id test_update (update_state '''') = (Ret (Some j, None), s') \<and>
     updater_run test_host (memory_store int) None id test_update s' = (Ret (Some (clone_job (j\<lparr>updated_at := t\<rparr>)), None), s')"
proof -
  obtain j s' where run: "updater_run test_host (memory_store int) test_verify id test_update (update_state '''') = (Ret (Some j, None), s')"
    using test_update_ok by blast
  from update_idempotent [OF is_job_store_memory test_update_simps(10,1,7) run refl test_update_simps(1) refl] run
  show ?thesis by blast
qed

text \<open>A run on any host whose health check fails after everything before it succeeded.\<close>

lemma run_rolls_back:
  assumes "hFetch h ''https://releases/v2'' w = (Inr ''payload'', w1)" "hBackup h preserved_paths w1 = (None, w2)"
    "hActiveRelease h w2 = (a, w3)" "hStage h ''v2'' ''payload'' w3 = (None, w4)" "hActivate h ''v2'' w4 = (None, w5)"
    "hHealthCheck h w5 = (Some e, w6)" "hRollback h a w6 = (None, w7)"
  shows "\<exists>j s'. updater_run h (memory_store int) test_verify id test_update (update_state w) = (Ret (Some j, Some err_update_rolled_back), s') \<and>
     job_phase j = ''rolled_back'' \<and> world s' = w7 \<and> (a \<noteq> [] \<longrightarrow> CActiveRelease [] \<notin> set (calls s'))"
  using assms by (simp add: update_eval)

text \<open>A Pi on which no service becomes active.\<close>

definition sick_machine :: "unit machine" where
  "sick_machine = test_machine\<lparr>shell := (\<lambda>c f x. ((if has_prefix c ''systemctl is-active'' then ''failed'' else [], None), f, x))\<rparr>"

lemma sick_run:
  assumes "v = [] \<or> v = ''v1''"
  shows "\<exists>j s'. updater_run (agent_host production_cfg sick_machine) (memory_store int) test_verify id test_update
      (update_state (test_world v)) = (Ret (Some j, Some err_update_rolled_back), s') \<and>
     job_phase j = ''rolled_back'' \<and> (v \<noteq> [] \<longrightarrow> CActiveRelease [] \<notin> set (calls s'))"
proof -
  let ?h = "agent_host production_cfg sick_machine" and ?m = sick_machine
  have io: "io_of ?m = no_faults" by (simp add: sick_machine_def test_machine_def)
  have fetch: "hFetch ?h ''https://releases/v2'' (test_world v) = (Inr ''payload'', test_world v)"
    by (simp add: agent_host_def host_fetch_def on_ext_def sick_machine_def test_machine_def test_world_def production_cfg_def)
  obtain s2 where backup: "hBackup ?h preserved_paths (test_world v) = (None, \<lparr>w_os = s2, w_ext = ()\<rparr>)"
    and s2: "\<And>q. has_prefix q ''/opt'' \<Longrightarrow> fs s2 q = test_files v q"
    using test_backup [of _ v] by (auto simp: agent_host_def sick_machine_def)
  let ?w2 = "\<lparr>w_os = s2, w_ext = ()\<rparr>"
  have restart: "run_command production_cfg ?m ''systemctl restart bottle-agent'' w = (([], None), w)" for w :: "unit mworld"
    by (simp add: run_command_def sick_machine_def)
  have prior: "fs s2 (current_link production_cfg) = (if v = [] then None else Some (LinkNode (''/opt/bottle-agent/releases/'' @ v)))"
    using s2 [of "current_link production_cfg"] by (simp add: test_files_def)
  have target: "path_clean (path_join [''/opt/bottle-agent/releases'', v]) = (if v = [] then ''/opt/bottle-agent/releases'' else ''/opt/bottle-agent/releases/v1'')"
    using assms by (auto simp: path_join_def path_clean_def path_parts_def is_rooted_def of_parts_def)
  obtain w3 where active: "hActiveRelease ?h ?w2 = (v, w3)" and w3: "fs (w_os w3) = fs s2"
    using assms prior
    by (auto simp: agent_host_def host_active_release_def on_os_def io os_readlink_def no_faults_def tick_def path_base_def)
  have "stageable (w_os w3) ''v2''"
    by (simp add: stageable_def release_dirs_ok_def w3 s2 test_files_def)
  from stage_result [OF test_update_simps(5) this]
  obtain s4 where st: "stage_body production_cfg no_faults ''v2'' ''payload'' (w_os w3) = (None, s4)"
    and s4: "fs s4 (''/opt/bottle-agent/releases/'' @ ''v2'') = Some DirNode" "fs s4 ''/opt/bottle-agent/current'' = fs s2 ''/opt/bottle-agent/current''"
      "\<And>q. fs s2 q = Some DirNode \<Longrightarrow> fs s4 q = Some DirNode"
    unfolding w3 by auto
  let ?w4 = "w3\<lparr>w_os := s4\<rparr>"
  have stage: "hStage ?h ''v2'' ''payload'' w3 = (None, ?w4)"
    by (simp add: agent_host_def host_stage_def on_os_def io st)
  have dir2: "fs s4 (path_clean (path_join [''/opt/bottle-agent/releases'', ''v2''])) = Some DirNode"
    unfolding release_path [OF test_update_simps(5)] release_clean [OF test_update_simps(5)] by (rule s4(1))
  have "fs s4 ''/opt/bottle-agent/current'' \<noteq> Some DirNode"
    using prior s4(2) by (simp split: if_splits)
  then obtain s5 where lk: "switch_link production_cfg no_faults ''v2'' s4 = (None, s5)"
    using switch_link_ok [OF dir2] by blast
  let ?w5 = "w3\<lparr>w_os := s5\<rparr>"
  have act: "hActivate ?h ''v2'' ?w4 = (None, ?w5)"
    by (simp add: agent_host_def switch_to_def on_os_def io lk restart)
  have run6: "run_command production_cfg ?m ''systemctl is-active bottle-agent'' ?w5 = ((''failed'', None), ?w5)"
    by (cases ?w5, cases s5) (simp add: run_command_def sick_machine_def cong: if_cong)
  have services: "service_names production_cfg = [''bottle-agent'', ''kismet'']" by (simp add: production_cfg_def)
  have "trim_space ''failed'' = ''failed''" by (simp add: trim_space_def is_space_def)
  then have "\<exists>e. services_active production_cfg ?m (service_names production_cfg) ?w5 = (Some e, ?w5)"
    unfolding services services_active.simps append.simps run6 by simp
  then obtain e where health: "hHealthCheck ?h ?w5 = (Some e, ?w5)"
    by (auto simp: agent_host_def host_health_check_def)
  have dirv: "fs s5 (path_clean (path_join [''/opt/bottle-agent/releases'', v])) = Some DirNode"
  proof -
    have "fs s2 (path_clean (path_join [''/opt/bottle-agent/releases'', v])) = Some DirNode"
      unfolding target using s2 [of "''/opt/bottle-agent/releases''"] s2 [of "''/opt/bottle-agent/releases/v1''"]
      by (simp add: test_files_def)
    from s4(3) [OF this] show ?thesis
      unfolding target
      using switch_link_other [OF lk, of "''/opt/bottle-agent/releases''"]
        switch_link_other [OF lk, of "''/opt/bottle-agent/releases/v1''"]
      by (cases "v = []") auto
  qed
  have "fs s5 ''/opt/bottle-agent/current'' \<noteq> Some DirNode"
    using switch_link_result(1) [OF lk] by (simp add: link_at_def)
  then obtain s7 where lk7: "switch_link production_cfg no_faults v s5 = (None, s7)"
    using switch_link_ok [OF dirv] by blast
  have rb: "hRollback ?h v ?w5 = (None, ?w5\<lparr>w_os := s7\<rparr>)"
    by (simp add: agent_host_def switch_to_def on_os_def io lk7 restart)
  show ?thesis using run_rolls_back [OF fetch backup active stage act health rb] by blast
qed


lemma sick_release: "release_of production_cfg (test_world v) = (if v = [] then [] else path_base (''/opt/bottle-agent/releases/'' @ v))"
  by (simp add: release_of_def test_world_def test_files_def)

theorem update_restores_release_witness:
  "\<exists>j e s'. updater_run (agent_host production_cfg sick_machine) (memory_store int) test_verify id test_update
      (update_state (test_world ''v1'')) = (Ret (Some j, e), s') \<and>
     job_phase j = ''rolled_back'' \<and> release_of production_cfg (world s') = ''v1''"
proof -
  obtain j s' where run: "updater_run (agent_host production_cfg sick_machine) (memory_store int) test_verify id test_update
      (update_state (test_world ''v1'')) = (Ret (Some j, Some err_update_rolled_back), s')"
    and j: "job_phase j = ''rolled_back''" "CActiveRelease [] \<notin> set (calls s')"
    using sick_run [of "''v1''"] by auto
  have "release_of production_cfg (world (update_state (test_world ''v1''))) = ''v1''"
    by (simp add: test_update_simps sick_release path_base_def)
  from update_restores_release [OF test_update_simps(1,7) _ test_update_simps(6) this run j(2)] run j(1)
  show ?thesis by (auto simp: test_update_simps)
qed

theorem first_update_rollback_witness:
  "\<exists>j e s'. updater_run (agent_host production_cfg sick_machine) (memory_store int) test_verify id test_update
      (update_state (test_world [])) = (Ret (Some j, e), s') \<and>
     fs (w_os (world s')) (current_link production_cfg) = Some (LinkNode ''/opt/bottle-agent/releases'')"
proof -
  obtain j s' where run: "updater_run (agent_host production_cfg sick_machine) (memory_store int) test_verify id test_update
      (update_state (test_world [])) = (Ret (Some j, Some err_update_rolled_back), s')"
    and j: "job_phase j = ''rolled_back''"
    using sick_run [of "[]"] by auto
  have "release_of production_cfg (world (update_state (test_world []))) = []"
    by (simp add: test_update_simps sick_release)
  from first_update_rollback [OF test_update_simps(1,7) _ this run j] run
  show ?thesis by (auto simp: test_update_simps)
qed

end
