(* ===== verification/Retention.thy ===== *)
theory Retention
  imports Bottle_Prelude "HOL-Library.Sublist"
begin

section \<open>Bounded retention\<close>

text \<open>
  The contract the event bus of the agent and the event buffer of the laptop share: a store that
  only ever forgets its oldest elements. What it holds is a suffix of everything that was added,
  so the order is kept, nothing is duplicated and nothing that was forgotten comes back.
\<close>

locale retention =
  fixes contents :: "'s \<Rightarrow> 'e list"
    and add :: "'e \<Rightarrow> 's \<Rightarrow> 's"
    and sound :: "'s \<Rightarrow> bool"
  assumes add_sound: "sound s \<Longrightarrow> sound (add e s)"
    and add_suffix: "sound s \<Longrightarrow> suffix (contents (add e s)) (contents s @ [e])"
begin

lemma adds_sound: "sound s \<Longrightarrow> sound (fold add es s)"
  by (induction es arbitrary: s) (auto simp: add_sound)

lemma adds_suffix: "sound s \<Longrightarrow> suffix (contents (fold add es s)) (contents s @ es)"
proof (induction es arbitrary: s)
  case Nil
  then show ?case by simp
next
  case (Cons e es)
  have "suffix (contents (fold add es (add e s))) (contents (add e s) @ es)"
    using Cons by (simp add: add_sound)
  also have "suffix (contents (add e s) @ es) ((contents s @ [e]) @ es)"
    using add_suffix [OF Cons.prems] by (auto simp: suffix_def)
  finally show ?case by simp
qed

lemma adds_set: "sound s \<Longrightarrow> set (contents (fold add es s)) \<subseteq> set (contents s) \<union> set es"
  using set_mono_suffix [OF adds_suffix, of s es] by simp

lemma adds_sorted_wrt:
  "sound s \<Longrightarrow> sorted_wrt P (contents s @ es) \<Longrightarrow> sorted_wrt P (contents (fold add es s))"
  by (metis adds_suffix suffix_def sorted_wrt_append)

lemma adds_distinct: "sound s \<Longrightarrow> distinct (contents s @ es) \<Longrightarrow> distinct (contents (fold add es s))"
  by (metis adds_suffix suffix_def distinct_append)

end

lemma keep_last_suffix: "suffix (keep_last n xs) xs"
  by (simp add: keep_last_def suffix_drop)

lemma keep_last_keep_last: "keep_last n (keep_last n xs @ [x]) = keep_last n (xs @ [x])"
  by (cases "n \<le> length xs") (auto simp: keep_last_def Suc_diff_le)

end
