(* ===== verification/Eventbus.thy ===== *)
theory Eventbus
  imports Retention "HOL-Library.AList"
begin

section \<open>The event bus of the agent\<close>

text \<open>
  \<open>bottle-agent/internal/eventbus/eventbus.go\<close>. A Go channel is a record of its queue, its capacity
  and whether it was closed; it has an address, its index in \<open>chans\<close>, which the subscriber and the
  map \<open>b.subs\<close> both hold. Sequence numbers and subscription ids are 64-bit words. Every operation
  runs under the bus's mutex, so it is one step.
\<close>

text \<open>
  A context is \<open>context.Background()\<close>, which is never done, or one that is cancelled when the
  connection of that number ends.
\<close>

datatype go_context = Background | ConnContext nat

record bus_event =
  be_sequence :: "64 word"
  be_occurred_at :: time
  be_severity :: string
  be_source :: string
  be_kind :: string
  be_payload :: "payload option"

record 'e chan =
  ch_items :: "'e list"
  ch_cap :: nat
  ch_closed :: bool

record bus =
  max_events :: int
  retained :: "bus_event list"
  next_sequence :: "64 word"
  subs :: "(64 word \<times> nat) list"
  next_sub_id :: "64 word"
  chans :: "bus_event chan list"
  waiters :: "(go_context \<times> 64 word) list"

definition default_max_events :: int where
  "default_max_events = 2000"

definition new_bus :: "int \<Rightarrow> bus" where
  "new_bus n = \<lparr>max_events = (if n \<le> 0 then default_max_events else n), retained = [], next_sequence = 0,
     subs = [], next_sub_id = 0, chans = [], waiters = []\<rparr>"

definition err_event_history_gap :: go_error where
  "err_event_history_gap = ErrSentinel ''ErrEventHistoryGap'' ''event history gap''"

subsection \<open>Publish\<close>

text \<open>The non-blocking send: a full channel misses the event; a closed one panics.\<close>

definition try_send :: "'e \<Rightarrow> 'e chan \<Rightarrow> 'e chan" where
  "try_send e c = (if length (ch_items c) < ch_cap c then c\<lparr>ch_items := ch_items c @ [e]\<rparr> else c)"

fun fan_out :: "'e \<Rightarrow> (64 word \<times> nat) list \<Rightarrow> 'e chan list \<Rightarrow> unit outcome \<times> 'e chan list" where
  "fan_out e [] cs = (Ret (), cs)"
| "fan_out e ((i, a) # rest) cs =
     (if ch_closed (cs ! a) then (Panic ''send on closed channel'', cs)
      else fan_out e rest (cs[a := try_send e (cs ! a)]))"

definition retain :: "bus_event \<Rightarrow> bus \<Rightarrow> bus" where
  "retain e b =
     (let r = retained b @ [e] in
      b\<lparr>retained := (if max_events b < int (length r) then drop (length r - nat (max_events b)) r else r)\<rparr>)"

definition publish ::
  "time \<Rightarrow> string \<Rightarrow> string \<Rightarrow> string \<Rightarrow> payload option \<Rightarrow> (bus, bus_event) prog" where
  "publish now severity src kind p b =
     (let b = b\<lparr>next_sequence := next_sequence b + 1\<rparr>;
          e = \<lparr>be_sequence = next_sequence b, be_occurred_at = now, be_severity = severity, be_source = src,
               be_kind = kind, be_payload = p\<rparr>;
          b = retain e b
      in case fan_out e (subs b) (chans b) of
           (Panic m, cs) \<Rightarrow> (Panic m, b\<lparr>chans := cs\<rparr>)
         | (Ret u, cs) \<Rightarrow> (Ret e, b\<lparr>chans := cs\<rparr>))"

subsection \<open>Subscribe\<close>

text \<open>
  The result is the address of the channel. The goroutine \<open>Subscribe\<close> starts waits for its context
  to be done and then unsubscribes; until then it is an entry of \<open>waiters\<close>.
\<close>

definition history_gap :: "64 word \<Rightarrow> bus \<Rightarrow> bool" where
  "history_gap after b \<longleftrightarrow> after > next_sequence b \<or>
     (case retained b of [] \<Rightarrow> False | oldest # _ \<Rightarrow> after + 1 < be_sequence oldest)"

definition subscribe :: "go_context \<Rightarrow> 64 word \<Rightarrow> bus \<Rightarrow> (go_error + nat) \<times> bus" where
  "subscribe ctx after b =
     (if history_gap after b then (Inl err_event_history_gap, b)
      else
        (let backlog = filter (\<lambda>e. be_sequence e > after) (retained b);
             c = \<lparr>ch_items = backlog, ch_cap = length backlog + 64, ch_closed = False\<rparr>;
             a = length (chans b)
         in (Inr a, b\<lparr>chans := chans b @ [c], subs := AList.update (next_sub_id b) a (subs b),
                      next_sub_id := next_sub_id b + 1,
                      waiters := waiters b @ [(ctx, next_sub_id b)]\<rparr>)))"

definition unsubscribe :: "64 word \<Rightarrow> bus \<Rightarrow> bus" where
  "unsubscribe i b =
     (case map_of (subs b) i of
        None \<Rightarrow> b
      | Some a \<Rightarrow> b\<lparr>subs := AList.delete i (subs b), chans := (chans b)[a := (chans b ! a)\<lparr>ch_closed := True\<rparr>]\<rparr>)"

text \<open>The context \<open>ctx\<close> is done: the \<open>k\<close>-th waiting goroutine, if it waits for \<open>ctx\<close>, goes on.\<close>

definition wake :: "go_context \<Rightarrow> nat \<Rightarrow> bus \<Rightarrow> bus" where
  "wake ctx k b =
     (if k < length (waiters b) \<and> fst (waiters b ! k) = ctx
      then unsubscribe (snd (waiters b ! k)) (b\<lparr>waiters := take k (waiters b) @ drop (Suc k) (waiters b)\<rparr>)
      else b)"

text \<open>The subscriber's side of the channel: the next element, or the end once it is closed and drained.\<close>

definition receive :: "nat \<Rightarrow> bus \<Rightarrow> bus_event option \<times> bus" where
  "receive a b =
     (case ch_items (chans b ! a) of
        [] \<Rightarrow> (None, b)
      | e # es \<Rightarrow> (Some e, b\<lparr>chans := (chans b)[a := (chans b ! a)\<lparr>ch_items := es\<rparr>]\<rparr>))"

subsection \<open>Runs\<close>

text \<open>
  A run of the bus with everything published so far (\<open>hist\<close>) and, per channel, where its cursor
  was (\<open>from\<close>), what was received from it (\<open>got\<close>), how much of the history it was offered
  (\<open>seen\<close>) and whether it missed an event (\<open>lost\<close>).
\<close>

record bus_run =
  r_bus :: bus
  hist :: "bus_event list"
  from_of :: "nat \<Rightarrow> nat"
  got :: "nat \<Rightarrow> bus_event list"
  seen :: "nat \<Rightarrow> nat"
  lost :: "nat \<Rightarrow> bool"

definition start_run :: "int \<Rightarrow> bus_run" where
  "start_run n = \<lparr>r_bus = new_bus n, hist = [], from_of = (\<lambda>_. 0), got = (\<lambda>_. []), seen = (\<lambda>_. 0), lost = (\<lambda>_. False)\<rparr>"

definition live :: "bus \<Rightarrow> nat \<Rightarrow> bool" where
  "live b a \<longleftrightarrow> a \<in> snd ` set (subs b)"

definition is_full :: "'e chan \<Rightarrow> bool" where
  "is_full c \<longleftrightarrow> ch_cap c \<le> length (ch_items c)"

inductive bus_step :: "bus_run \<Rightarrow> bus_run \<Rightarrow> bool" where
  step_publish: "publish now sev src kind p (r_bus s) = (Ret e, b) \<Longrightarrow>
    bus_step s (s\<lparr>r_bus := b, hist := hist s @ [e],
      seen := (\<lambda>a. if live (r_bus s) a then Suc (length (hist s)) else seen s a),
      lost := (\<lambda>a. lost s a \<or> live (r_bus s) a \<and> is_full (chans (r_bus s) ! a))\<rparr>)"
| step_subscribe: "subscribe ctx after (r_bus s) = (Inr a, b) \<Longrightarrow>
    bus_step s (s\<lparr>r_bus := b, from_of := (from_of s)(a := unat after), got := (got s)(a := []),
      seen := (seen s)(a := length (hist s)), lost := (lost s)(a := False)\<rparr>)"
| step_unsubscribe: "bus_step s (s\<lparr>r_bus := unsubscribe i (r_bus s)\<rparr>)"
| step_wake: "bus_step s (s\<lparr>r_bus := wake ctx k (r_bus s)\<rparr>)"
| step_receive: "receive a (r_bus s) = (Some e, b) \<Longrightarrow> a < length (chans (r_bus s)) \<Longrightarrow>
    bus_step s (s\<lparr>r_bus := b, got := (got s)(a := got s a @ [e])\<rparr>)"

inductive bus_reach :: "int \<Rightarrow> bus_run \<Rightarrow> bool" for n where
  reach_start: "bus_reach n (start_run n)"
| reach_step: "bus_reach n s \<Longrightarrow> bus_step s s' \<Longrightarrow> bus_reach n s'"

subsection \<open>The bus keeps the newest events\<close>

text \<open>The abstract bus: the list of everything published, numbered from 1.\<close>

definition numbered :: "bus_event list \<Rightarrow> bool" where
  "numbered h \<longleftrightarrow> (\<forall>i < length h. be_sequence (h ! i) = of_nat (Suc i))"

definition limit :: "bus \<Rightarrow> nat" where
  "limit b = nat (max_events b)"

definition represents :: "bus \<Rightarrow> bus_event list \<Rightarrow> bool" where
  "represents b h \<longleftrightarrow> 0 < max_events b \<and> numbered h \<and> next_sequence b = of_nat (length h) \<and>
     retained b = keep_last (limit b) h"

lemma represents_new: "represents (new_bus n) []"
  by (simp add: represents_def new_bus_def numbered_def keep_last_def default_max_events_def)

lemma retain_keep_last: "0 < max_events b \<Longrightarrow> retained (retain e b) = keep_last (limit b) (retained b @ [e])"
  by (auto simp: retain_def keep_last_def limit_def Let_def)

lemma retain_frame [simp]:
  "max_events (retain e b) = max_events b" "next_sequence (retain e b) = next_sequence b"
  "subs (retain e b) = subs b" "next_sub_id (retain e b) = next_sub_id b" "chans (retain e b) = chans b"
  by (simp_all add: retain_def Let_def)

lemma publish_represents:
  assumes "represents b h" and "publish now sev src kind p b = (r, b')"
  shows "\<exists>e. represents b' (h @ [e]) \<and> be_sequence e = of_nat (Suc (length h)) \<and> (\<forall>x. r = Ret x \<longrightarrow> x = e)"
proof -
  define e where "e = \<lparr>be_sequence = next_sequence b + 1, be_occurred_at = now, be_severity = sev,
    be_source = src, be_kind = kind, be_payload = p\<rparr>"
  have seq: "be_sequence e = of_nat (Suc (length h))"
    using assms(1) by (simp add: e_def represents_def)
  have res: "(\<forall>x. r = Ret x \<longrightarrow> x = e) \<and> max_events b' = max_events b \<and> next_sequence b' = next_sequence b + 1 \<and>
      retained b' = retained (retain e (b\<lparr>next_sequence := next_sequence b + 1\<rparr>))"
    using assms(2) by (auto simp: publish_def Let_def e_def split: prod.splits outcome.splits)
  have "retained b' = keep_last (limit b) (h @ [e])"
    using assms(1) res by (simp add: retain_keep_last represents_def limit_def keep_last_keep_last)
  moreover have "numbered (h @ [e])"
    using assms(1) seq by (auto simp: represents_def numbered_def nth_append less_Suc_eq)
  ultimately have "represents b' (h @ [e])"
    using assms(1) res by (simp add: represents_def limit_def)
  with seq res show ?thesis by blast
qed

interpretation busr: retention retained retain "\<lambda>b. 0 < max_events b"
  by unfold_locales (simp_all only: retain_keep_last retain_frame keep_last_suffix)

text \<open>With less than 2^64 events the numbers are the positions, and the backlog is what follows the cursor.\<close>

lemma numbered_unat:
  "numbered h \<Longrightarrow> length h < 2 ^ 64 \<Longrightarrow> i < length h \<Longrightarrow> unat (be_sequence (h ! i)) = Suc i"
  by (simp add: numbered_def unat_of_nat del: of_nat_Suc)

lemma filter_after:
  assumes "numbered h" "length h < 2 ^ 64" "d \<le> unat after"
  shows "filter (\<lambda>e. be_sequence e > after) (drop d h) = drop (unat after) h"
proof -
  let ?n = "unat after"
  have split: "drop d h = take (?n - d) (drop d h) @ drop ?n h"
    using assms(3) append_take_drop_id [of "?n - d" "drop d h"] by simp
  have "\<not> be_sequence e > after" if e: "e \<in> set (take (?n - d) (drop d h))" for e
  proof -
    obtain j where "j < length (take (?n - d) (drop d h))" "take (?n - d) (drop d h) ! j = e"
      using e unfolding in_set_conv_nth by blast
    then have "j < ?n - d" "d + j < length h" "e = h ! (d + j)" by auto
    then have i: "d + j < length h" "d + j < ?n" "e = h ! (d + j)"
      using assms(3) by simp_all
    then show ?thesis
      using numbered_unat [OF assms(1,2) i(1)] by (simp add: word_less_nat_alt)
  qed
  moreover have "be_sequence e > after" if e: "e \<in> set (drop ?n h)" for e
  proof -
    obtain j where "j < length (drop ?n h)" "drop ?n h ! j = e"
      using e unfolding in_set_conv_nth by blast
    then have i: "?n + j < length h" "e = h ! (?n + j)" by auto
    then show ?thesis
      using numbered_unat [OF assms(1,2) i(1)] by (simp add: word_less_nat_alt)
  qed
  ultimately have "filter (\<lambda>e. be_sequence e > after) (take (?n - d) (drop d h)) = []"
    "filter (\<lambda>e. be_sequence e > after) (drop ?n h) = drop ?n h"
    by (simp_all add: filter_empty_conv filter_id_conv)
  then show ?thesis by (subst split) simp
qed

lemma history_gap_iff:
  assumes "represents b h" "Suc (length h) < 2 ^ 64"
  shows "history_gap after b \<longleftrightarrow> length h < unat after \<or> unat after + limit b < length h"
proof (cases "h = []")
  case True
  then show ?thesis
    using assms by (auto simp: history_gap_def represents_def keep_last_def word_less_nat_alt)
next
  case False
  let ?d = "length h - limit b"
  have lim: "0 < limit b" using assms(1) by (simp add: represents_def limit_def)
  have d: "?d < length h" using False lim by simp
  have ret: "retained b = drop ?d h" using assms(1) by (simp add: represents_def keep_last_def)
  then obtain rest where hd: "retained b = h ! ?d # rest"
    using Cons_nth_drop_Suc [OF d] by metis
  have seq: "unat (be_sequence (h ! ?d)) = Suc ?d"
    using assms d by (intro numbered_unat) (auto simp: represents_def)
  have nx: "unat (next_sequence b) = length h"
    using assms by (simp add: represents_def unat_of_nat)
  show ?thesis
  proof (cases "length h < unat after")
    case True
    then show ?thesis using nx by (simp add: history_gap_def word_less_nat_alt)
  next
    case False
    then have "Suc (unat after) < 2 ^ 64" using assms(2) by linarith
    then have "unat (after + 1) = Suc (unat after)" by (simp add: unat_word_ariths)
    then show ?thesis
      using False nx seq hd by (auto simp: history_gap_def word_less_nat_alt)
  qed
qed


subsection \<open>The channels of a run\<close>

text \<open>
  The subscriptions refer to distinct open channels. The elements of a channel, with those
  already received from it, are a subsequence of what was published after its cursor; they are
  all of it when the channel never missed an event.
\<close>

definition subs_ok :: "bus \<Rightarrow> bool" where
  "subs_ok b \<longleftrightarrow> distinct (map snd (subs b)) \<and> distinct (map fst (subs b)) \<and>
     (\<forall>a. live b a \<longrightarrow> a < length (chans b) \<and> \<not> ch_closed (chans b ! a))"

definition stream_of :: "bus_run \<Rightarrow> nat \<Rightarrow> bus_event list" where
  "stream_of s a = got s a @ ch_items (chans (r_bus s) ! a)"

definition offered :: "bus_run \<Rightarrow> nat \<Rightarrow> bus_event list" where
  "offered s a = drop (from_of s a) (take (seen s a) (hist s))"

definition chan_ok :: "bus_run \<Rightarrow> nat \<Rightarrow> bool" where
  "chan_ok s a \<longleftrightarrow> from_of s a \<le> seen s a \<and> seen s a \<le> length (hist s) \<and>
     (live (r_bus s) a \<longrightarrow> seen s a = length (hist s)) \<and>
     subseq (stream_of s a) (offered s a) \<and>
     (\<not> lost s a \<longrightarrow> stream_of s a = offered s a)"

definition run_ok :: "bus_run \<Rightarrow> bool" where
  "run_ok s \<longleftrightarrow> represents (r_bus s) (hist s) \<and> subs_ok (r_bus s) \<and>
     (\<forall>a < length (chans (r_bus s)). chan_ok s a)"

lemma run_ok_start: "run_ok (start_run n)"
  by (simp add: run_ok_def start_run_def represents_new subs_ok_def live_def) (simp add: new_bus_def)

lemma fan_out_result:
  assumes "distinct (map snd ss)" "\<And>a. a \<in> snd ` set ss \<Longrightarrow> \<not> ch_closed (cs ! a)"
  shows "fan_out e ss cs = (Ret (), map (\<lambda>a. if a \<in> snd ` set ss then try_send e (cs ! a) else cs ! a) [0..<length cs])"
  using assms
proof (induction ss arbitrary: cs)
  case Nil
  then show ?case by (simp add: map_nth)
next
  case (Cons s ss)
  obtain i a where s: "s = (i, a)" by fastforce
  have fresh: "a \<notin> snd ` set ss" using Cons.prems(1) s by auto
  have open_a: "\<not> ch_closed (cs ! a)" using Cons.prems(2) s by simp
  have neq: "cs[a := v] ! x = cs ! x" if "x \<in> snd ` set ss" for v x
    using fresh that by (cases "x = a") auto
  have ih: "fan_out e ss (cs[a := try_send e (cs ! a)]) = (Ret (), map (\<lambda>x. if x \<in> snd ` set ss
      then try_send e (cs[a := try_send e (cs ! a)] ! x) else cs[a := try_send e (cs ! a)] ! x) [0..<length (cs[a := try_send e (cs ! a)])])"
  proof (rule Cons.IH)
    show "distinct (map snd ss)" using Cons.prems(1) by simp
    show "\<not> ch_closed (cs[a := try_send e (cs ! a)] ! x)" if "x \<in> snd ` set ss" for x
      using that fresh Cons.prems(2) [of x] by (cases "x = a") auto
  qed
  show ?case
    unfolding s fan_out.simps using open_a
    using fresh neq by (auto simp: ih nth_list_update)
qed

lemma publish_result:
  assumes "subs_ok b"
  shows "\<exists>e b'. publish now sev src kind p b = (Ret e, b') \<and> subs b' = subs b \<and> next_sub_id b' = next_sub_id b \<and>
    chans b' = map (\<lambda>a. if live b a then try_send e (chans b ! a) else chans b ! a) [0..<length (chans b)]"
proof -
  have "distinct (map snd (subs b))" "\<And>a. a \<in> snd ` set (subs b) \<Longrightarrow> \<not> ch_closed (chans b ! a)"
    using assms by (auto simp: subs_ok_def live_def)
  from fan_out_result [OF this] show ?thesis
    by (simp add: publish_def Let_def live_def)
qed

lemma try_send_simps [simp]:
  "ch_closed (try_send e c) = ch_closed c" "ch_cap (try_send e c) = ch_cap c"
  "ch_items (try_send e c) = (if is_full c then ch_items c else ch_items c @ [e])"
  by (auto simp: try_send_def is_full_def)


text \<open>Every step keeps the invariant, as long as the sequence numbers do not wrap.\<close>

lemma take_snoc_hist: "n \<le> length h \<Longrightarrow> take n (h @ [e]) = take n h"
  by simp

lemma publish_chan_ok:
  assumes ok: "chan_ok s a" and a: "a < length (chans (r_bus s))"
    and b: "chans b = map (\<lambda>a. if live (r_bus s) a then try_send e (chans (r_bus s) ! a) else chans (r_bus s) ! a) [0..<length (chans (r_bus s))]"
    and live: "live b a = live (r_bus s) a"
  shows "chan_ok (s\<lparr>r_bus := b, hist := hist s @ [e],
      seen := (\<lambda>a. if live (r_bus s) a then Suc (length (hist s)) else seen s a),
      lost := (\<lambda>a. lost s a \<or> live (r_bus s) a \<and> is_full (chans (r_bus s) ! a))\<rparr>) a"
proof (cases "live (r_bus s) a")
  case True
  have fr: "from_of s a \<le> length (hist s)" using ok True by (auto simp: chan_ok_def)
  have off: "drop (from_of s a) (hist s @ [e]) = offered s a @ [e]"
    using ok True fr by (simp add: chan_ok_def offered_def)
  show ?thesis
    using ok True off fr a b live subseq_append [of "stream_of s a" "[e]" "drop (from_of s a) (hist s)"]
      subseq_rev_drop_many [of "stream_of s a" "drop (from_of s a) (hist s)" "[e]"]
    by (auto simp: chan_ok_def stream_of_def offered_def simp del: subseq_append)
next
  case False
  then show ?thesis
    using ok a b live by (auto simp: chan_ok_def stream_of_def offered_def)
qed

lemma publish_run_ok:
  assumes ok: "run_ok s" and pub: "publish now sev src kind p (r_bus s) = (Ret e, b)"
  shows "run_ok (s\<lparr>r_bus := b, hist := hist s @ [e],
      seen := (\<lambda>a. if live (r_bus s) a then Suc (length (hist s)) else seen s a),
      lost := (\<lambda>a. lost s a \<or> live (r_bus s) a \<and> is_full (chans (r_bus s) ! a))\<rparr>)"
proof -
  have subs: "subs b = subs (r_bus s)"
    and chans: "chans b = map (\<lambda>a. if live (r_bus s) a then try_send e (chans (r_bus s) ! a) else chans (r_bus s) ! a) [0..<length (chans (r_bus s))]"
    using publish_result [of "r_bus s" now sev src kind p] ok pub by (auto simp: run_ok_def)
  have rep: "represents b (hist s @ [e])"
    using publish_represents [OF _ pub, of "hist s"] ok by (auto simp: run_ok_def)
  have live: "live b a = live (r_bus s) a" for a by (simp add: live_def subs)
  have "subs_ok b"
    using ok unfolding run_ok_def subs_ok_def live subs by (auto simp: chans)
  then show ?thesis
    using ok rep by (auto simp: run_ok_def chans live intro!: publish_chan_ok [OF _ _ chans live])
qed

lemma live_update:
  assumes "distinct (map fst ss)"
  shows "snd ` set (AList.update i a ss) \<subseteq> insert a (snd ` set ss)"
  using assms by (induction ss) auto

lemma AList_update_snd:
  assumes "distinct (map snd ss)" "a \<notin> snd ` set ss"
  shows "distinct (map snd (AList.update i a ss))"
  using assms
proof (induction ss)
  case (Cons s ss)
  obtain k v where s: "s = (k, v)" by fastforce
  have "snd ` set (AList.update i a ss) \<subseteq> insert a (snd ` set ss)"
    by (induction ss) auto
  with Cons s show ?case by (auto simp: image_iff)
qed simp

lemma unseen_represents:
  "represents b h \<Longrightarrow> retained b' = retained b \<Longrightarrow> next_sequence b' = next_sequence b \<Longrightarrow>
     max_events b' = max_events b \<Longrightarrow> represents b' h"
  by (simp add: represents_def limit_def)

lemma chan_ok_cong:
  assumes "chan_ok s a" "hist s' = hist s" "from_of s' a = from_of s a" "seen s' a = seen s a" "lost s' a = lost s a"
    "got s' a = got s a" "ch_items (chans (r_bus s') ! a) = ch_items (chans (r_bus s) ! a)"
    "live (r_bus s') a \<Longrightarrow> live (r_bus s) a"
  shows "chan_ok s' a"
  using assms by (auto simp: chan_ok_def stream_of_def offered_def)

lemma subscribe_result:
  assumes rep: "represents b h" and len: "Suc (length h) < 2 ^ 64" and sub: "subscribe ctx after b = (Inr a, b')"
  shows "a = length (chans b)" "unat after \<le> length h"
    "chans b' = chans b @ [\<lparr>ch_items = drop (unat after) h, ch_cap = length h - unat after + 64, ch_closed = False\<rparr>]"
    "subs b' = AList.update (next_sub_id b) a (subs b)" "represents b' h"
proof -
  have ng: "\<not> history_gap after b" using sub by (auto simp: subscribe_def Let_def split: if_splits)
  have no_gap: "unat after \<le> length h" "length h - limit b \<le> unat after"
    using ng history_gap_iff [OF rep len, of after] by linarith+
  have ret: "retained b = drop (length h - limit b) h" using rep by (simp add: represents_def keep_last_def)
  have num: "numbered h" using rep by (simp add: represents_def)
  have "filter (\<lambda>e. be_sequence e > after) (retained b) = drop (unat after) h"
    unfolding ret using len no_gap num by (intro filter_after) simp_all
  then show "chans b' = chans b @ [\<lparr>ch_items = drop (unat after) h, ch_cap = length h - unat after + 64, ch_closed = False\<rparr>]"
    "a = length (chans b)" "subs b' = AList.update (next_sub_id b) a (subs b)" "represents b' h"
    using sub ng rep by (auto simp: subscribe_def Let_def represents_def limit_def)
  show "unat after \<le> length h" by (rule no_gap(1))
qed

lemma subscribe_subs_ok:
  assumes so: "subs_ok b" and sub: "subscribe ctx after b = (r, b')"
  shows "subs_ok b'"
proof (cases "history_gap after b")
  case True
  then show ?thesis using so sub by (simp add: subscribe_def)
next
  case False
  let ?a = "length (chans b)" and ?i = "next_sub_id b"
  have b': "subs b' = AList.update ?i ?a (subs b)" and c: "\<exists>c. chans b' = chans b @ [c] \<and> \<not> ch_closed c"
    using False sub by (auto simp: subscribe_def Let_def)
  have fresh: "?a \<notin> snd ` set (subs b)" using so by (auto simp: subs_ok_def live_def)
  have "live b' x \<Longrightarrow> x = ?a \<or> live b x" for x
    using live_update [of "subs b" ?i ?a] so by (auto simp: live_def b' subs_ok_def)
  then show ?thesis
    using so c AList_update_snd [OF _ fresh] distinct_update [of "subs b" ?i ?a]
    by (fastforce simp: subs_ok_def b' nth_append)
qed

lemma receive_subs_ok:
  assumes "subs_ok b" "receive a b = (r, b')"
  shows "subs_ok b'"
proof -
  have "subs b' = subs b \<and> length (chans b') = length (chans b) \<and>
      (\<forall>x < length (chans b). ch_closed (chans b' ! x) = ch_closed (chans b ! x))"
    using assms(2)
    by (cases "a < length (chans b)") (auto simp: receive_def nth_list_update list_update_beyond split: list.splits if_splits)
  with assms(1) show ?thesis by (auto simp: subs_ok_def live_def)
qed

lemma publish_subs_ok:
  assumes "subs_ok b"
  shows "\<exists>e b'. publish now sev src kind p b = (Ret e, b') \<and> subs_ok b' \<and> (\<forall>a. live b' a = live b a)"
proof -
  obtain e b' where r: "publish now sev src kind p b = (Ret e, b')" "subs b' = subs b"
    "chans b' = map (\<lambda>a. if live b a then try_send e (chans b ! a) else chans b ! a) [0..<length (chans b)]"
    using publish_result [OF assms, of now sev src kind p] by blast
  have lv: "live b' x = live b x" for x by (simp add: live_def r(2))
  have "subs_ok b'"
    using assms unfolding subs_ok_def lv r(2) by (auto simp: r(3))
  with r(1) lv show ?thesis by blast
qed

lemma subscribe_run_ok:
  assumes ok: "run_ok s" and len: "Suc (length (hist s)) < 2 ^ 64" and sub: "subscribe ctx after (r_bus s) = (Inr a, b)"
  shows "run_ok (s\<lparr>r_bus := b, from_of := (from_of s)(a := unat after), got := (got s)(a := []),
      seen := (seen s)(a := length (hist s)), lost := (lost s)(a := False)\<rparr>)"
    (is "run_ok ?s")
proof -
  have so: "subs_ok (r_bus s)" and rep: "represents (r_bus s) (hist s)" using ok by (simp_all add: run_ok_def)
  note r = subscribe_result [OF rep len sub]
  have lv: "live b x \<Longrightarrow> x = a \<or> live (r_bus s) x" for x
    using live_update [of "subs (r_bus s)" "next_sub_id (r_bus s)" a] so by (auto simp: live_def r(4) subs_ok_def)
  have "subs_ok b" by (rule subscribe_subs_ok [OF so sub])
  moreover have "chan_ok ?s x" if "x < length (chans b)" for x
  proof (cases "x = a")
    case True
    then show ?thesis using r by (simp add: chan_ok_def stream_of_def offered_def)
  next
    case False
    with that r(1,3) have x: "x < length (chans (r_bus s))" by simp
    then have "chan_ok s x" using ok by (simp add: run_ok_def)
    then show ?thesis
      by (rule chan_ok_cong) (use False x r(3) lv in \<open>auto simp: nth_append\<close>)
  qed
  ultimately show ?thesis using r(5) by (simp add: run_ok_def)
qed

lemma unsubscribe_live:
  assumes so: "subs_ok b" and sub: "map_of (subs b) i = Some a" and lv: "live (unsubscribe i b) x"
  shows "x \<noteq> a \<and> live b x"
proof -
  have mem: "(i, a) \<in> set (subs b)" using sub by (rule map_of_SomeD)
  obtain k where k: "(k, x) \<in> set (subs b)" "k \<noteq> i"
    using lv sub by (auto simp: live_def unsubscribe_def AList.delete_eq)
  have "inj_on snd (set (subs b))" using so by (simp add: subs_ok_def distinct_map)
  from inj_onD [OF this _ k(1) mem] k(2) have "x \<noteq> a" by auto
  with k(1) show ?thesis by (force simp: live_def)
qed

lemma unsubscribe_subs_ok:
  assumes so: "subs_ok b"
  shows "subs_ok (unsubscribe i b)"
proof (cases "map_of (subs b) i")
  case None
  then show ?thesis using so by (simp add: unsubscribe_def)
next
  case (Some a)
  note lv = unsubscribe_live [OF so Some]
  have un: "unsubscribe i b = b\<lparr>subs := AList.delete i (subs b), chans := (chans b)[a := (chans b ! a)\<lparr>ch_closed := True\<rparr>]\<rparr>"
    by (simp add: unsubscribe_def Some)
  have ds: "distinct (map snd (AList.delete i (subs b)))" "distinct (map fst (AList.delete i (subs b)))"
    using so by (auto simp: subs_ok_def AList.delete_eq distinct_map intro: inj_on_subset)
  show ?thesis using so ds lv by (auto simp: subs_ok_def un nth_list_update_neq dest!: lv [unfolded un])
qed

lemma unsubscribe_run_ok:
  assumes ok: "run_ok s"
  shows "run_ok (s\<lparr>r_bus := unsubscribe i (r_bus s)\<rparr>)"
proof (cases "map_of (subs (r_bus s)) i")
  case None
  then show ?thesis using ok by (simp add: unsubscribe_def)
next
  case (Some a)
  let ?b = "r_bus s"
  have so: "subs_ok ?b" using ok by (simp add: run_ok_def)
  note lv = unsubscribe_live [OF so Some]
  have a: "a < length (chans ?b)" using so map_of_SomeD [OF Some] by (force simp: subs_ok_def live_def)
  have un: "unsubscribe i ?b = ?b\<lparr>subs := AList.delete i (subs ?b), chans := (chans ?b)[a := (chans ?b ! a)\<lparr>ch_closed := True\<rparr>]\<rparr>"
    by (simp add: unsubscribe_def Some)
  have "represents (unsubscribe i ?b) (hist s)"
    using ok by (auto simp: run_ok_def un intro: unseen_represents)
  moreover have "chan_ok (s\<lparr>r_bus := unsubscribe i ?b\<rparr>) x" if "x < length (chans (unsubscribe i ?b))" for x
  proof -
    have "chan_ok s x" using ok that by (simp add: run_ok_def un)
    then show ?thesis by (rule chan_ok_cong) (use lv that a in \<open>auto simp: un nth_list_update\<close>)
  qed
  ultimately show ?thesis using unsubscribe_subs_ok [OF so, of i] by (simp add: run_ok_def)
qed

lemma run_ok_waiters: "run_ok s \<Longrightarrow> run_ok (s\<lparr>r_bus := (r_bus s)\<lparr>waiters := ws\<rparr>\<rparr>)"
  by (simp add: run_ok_def represents_def limit_def subs_ok_def live_def chan_ok_def stream_of_def offered_def)

lemma wake_run_ok: "run_ok s \<Longrightarrow> run_ok (s\<lparr>r_bus := wake ctx k (r_bus s)\<rparr>)"
  using unsubscribe_run_ok [OF run_ok_waiters] by (auto simp: wake_def)

lemma receive_run_ok:
  assumes ok: "run_ok s" and rc: "receive a (r_bus s) = (Some e, b)" and a: "a < length (chans (r_bus s))"
  shows "run_ok (s\<lparr>r_bus := b, got := (got s)(a := got s a @ [e])\<rparr>)"
    (is "run_ok ?s")
proof -
  obtain es where it: "ch_items (chans (r_bus s) ! a) = e # es"
    and b: "b = (r_bus s)\<lparr>chans := (chans (r_bus s))[a := (chans (r_bus s) ! a)\<lparr>ch_items := es\<rparr>]\<rparr>"
    using rc by (auto simp: receive_def split: list.splits)
  have lv: "live b x = live (r_bus s) x" for x by (simp add: live_def b)
  have "subs_ok b" using ok receive_subs_ok [OF _ rc] by (simp add: run_ok_def)
  moreover have "represents b (hist s)" using ok by (auto simp: run_ok_def b intro: unseen_represents)
  moreover have "chan_ok ?s x" if "x < length (chans b)" for x
  proof -
    have s: "chan_ok s x" using ok that by (simp add: run_ok_def b)
    have "stream_of ?s x = stream_of s x" using a it by (auto simp: stream_of_def b nth_list_update)
    with s lv show ?thesis by (simp add: chan_ok_def offered_def)
  qed
  ultimately show ?thesis by (simp add: run_ok_def)
qed

inductive_cases bus_stepE: "bus_step s s'"

lemma bus_step_ok:
  assumes "bus_step s s'" "run_ok s" "Suc (length (hist s)) < 2 ^ 64"
  shows "run_ok s'"
  using assms(1)
  by (cases rule: bus_step.cases)
     (use assms(2,3) in \<open>auto intro: publish_run_ok subscribe_run_ok unsubscribe_run_ok wake_run_ok receive_run_ok\<close>)

lemma bus_step_hist: "bus_step s s' \<Longrightarrow> length (hist s) \<le> length (hist s')"
  by (auto elim: bus_stepE)

lemma bus_reach_ok: "bus_reach n s \<Longrightarrow> Suc (length (hist s)) < 2 ^ 64 \<Longrightarrow> run_ok s"
proof (induction rule: bus_reach.induct)
  case reach_start
  show ?case by (rule run_ok_start)
next
  case (reach_step s s')
  have "Suc (length (hist s)) < 2 ^ 64"
    using bus_step_hist [OF reach_step.hyps(2)] reach_step.prems by linarith
  with reach_step show ?case by (blast intro: bus_step_ok)
qed

lemma publish_max_events: "publish now sev src kind p b = (r, b') \<Longrightarrow> max_events b' = max_events b"
  by (auto simp: publish_def Let_def split: prod.splits outcome.splits)

lemma bus_step_limit: "bus_step s s' \<Longrightarrow> limit (r_bus s') = limit (r_bus s)"
  by (erule bus_stepE)
     (auto simp: limit_def subscribe_def unsubscribe_def wake_def receive_def Let_def dest!: publish_max_events
        split: if_splits option.splits list.splits)

text \<open>A cursor that fell behind the retained events stays behind.\<close>

lemma behind_stays:
  assumes "bus_step\<^sup>*\<^sup>* s s'" "unat k + limit (r_bus s) < length (hist s)"
  shows "unat k + limit (r_bus s') < length (hist s')"
  using assms
proof (induction rule: rtranclp_induct)
  case base
  then show ?case by simp
next
  case (step s1 s2)
  then show ?case using bus_step_limit [OF step.hyps(2)] bus_step_hist [OF step.hyps(2)] by simp
qed

lemma bus_reach_steps: "bus_step\<^sup>*\<^sup>* s s' \<Longrightarrow> bus_reach n s \<Longrightarrow> bus_reach n s'"
  by (induction rule: rtranclp_induct) (auto intro: reach_step)

subsection \<open>Properties\<close>

text \<open>
  C9. Delivery: what a subscriber received, with what waits in its channel, is a subsequence of
  the events published after its cursor, in their order, each at most once; it is all of them, up
  to the newest while the subscription is live, if the channel was never full at a publish.
\<close>

theorem bus_delivery:
  assumes "bus_reach n s" and "Suc (length (hist s)) < 2 ^ 64" and "a < length (chans (r_bus s))"
  shows "subseq (got s a @ ch_items (chans (r_bus s) ! a)) (drop (from_of s a) (hist s)) \<and>
    (\<not> lost s a \<longrightarrow> got s a @ ch_items (chans (r_bus s) ! a) = drop (from_of s a) (take (seen s a) (hist s))) \<and>
    (live (r_bus s) a \<longrightarrow> take (seen s a) (hist s) = hist s)"
proof -
  have ok: "chan_ok s a" using bus_reach_ok [OF assms(1,2)] assms(3) by (simp add: run_ok_def)
  have "prefix (drop (from_of s a) (take (seen s a) (hist s))) (drop (from_of s a) (hist s))"
    by (metis drop_take take_is_prefix)
  then have "subseq (drop (from_of s a) (take (seen s a) (hist s))) (drop (from_of s a) (hist s))"
    by (rule prefix_imp_subseq)
  with ok show ?thesis
    by (auto simp: chan_ok_def stream_of_def offered_def intro: subseq_order.trans)
qed

text \<open>
  A subscription is refused with the history gap exactly when the cursor is ahead of
  everything published or behind the oldest event still retained, and otherwise its channel
  starts with every event after the cursor and has room for 64 more.
\<close>

theorem subscribe_gap:
  assumes "bus_reach n s" and "Suc (length (hist s)) < 2 ^ 64"
  shows "(case subscribe ctx after (r_bus s) of
      (Inl e, b) \<Rightarrow> e = err_event_history_gap \<and> b = r_bus s \<and>
        (length (hist s) < unat after \<or> unat after + limit (r_bus s) < length (hist s))
    | (Inr a, b) \<Rightarrow> unat after \<le> length (hist s) \<and> length (hist s) \<le> unat after + limit (r_bus s) \<and>
        ch_items (chans b ! a) = drop (unat after) (hist s) \<and>
        ch_cap (chans b ! a) = length (ch_items (chans b ! a)) + 64)"
proof -
  have rep: "represents (r_bus s) (hist s)" using bus_reach_ok [OF assms] by (simp add: run_ok_def)
  note gap = history_gap_iff [OF rep assms(2), of after]
  show ?thesis
  proof (cases "subscribe ctx after (r_bus s)")
    case (Pair r b)
    show ?thesis
    proof (cases r)
      case (Inl e)
      with Pair gap show ?thesis by (auto simp: subscribe_def Let_def split: if_splits)
    next
      case (Inr a)
      have "\<not> history_gap after (r_bus s)"
        using Pair Inr by (auto simp: subscribe_def Let_def split: if_splits)
      with gap subscribe_result [OF rep assms(2) Pair [unfolded Inr]] Pair Inr show ?thesis by simp
    qed
  qed
qed

text \<open>
  Publishing never blocks and never panics: in every reachable state the event is numbered
  with the next sequence number and kept as the newest retained event, whatever the subscribers do.
\<close>

theorem publish_succeeds:
  assumes "bus_reach n s" and "Suc (length (hist s)) < 2 ^ 64"
  shows "\<exists>e b. publish now sev src kind p (r_bus s) = (Ret e, b) \<and>
    unat (be_sequence e) = Suc (length (hist s)) \<and> be_kind e = kind \<and>
    retained b \<noteq> [] \<and> last (retained b) = e \<and> length (retained b) \<le> limit b"
proof -
  have ok: "represents (r_bus s) (hist s)" "subs_ok (r_bus s)" using bus_reach_ok [OF assms] by (simp_all add: run_ok_def)
  obtain e b where pub: "publish now sev src kind p (r_bus s) = (Ret e, b)"
    using publish_result [OF ok(2)] by blast
  have rep: "represents b (hist s @ [e])" "be_sequence e = of_nat (Suc (length (hist s)))"
    using publish_represents [OF ok(1) pub] by auto
  have "be_kind e = kind" using pub by (auto simp: publish_def Let_def split: prod.splits outcome.splits)
  moreover have "unat (be_sequence e) = Suc (length (hist s))"
    using assms(2) by (simp add: rep(2) unat_of_nat del: of_nat_Suc)
  moreover have "retained b \<noteq> []" "last (retained b) = e" "length (retained b) \<le> limit b"
    using rep(1) last_keep_last [of "hist s @ [e]" "limit b"]
    by (auto simp: represents_def limit_def length_keep_last)
  ultimately show ?thesis using pub by blast
qed

text \<open>
  A subscriber that falls behind loses events silently: publishing to a full channel leaves
  the channel open and its elements unchanged, so after the subscriber takes one element the next
  event is queued behind a hole, and no error or end of stream tells it to subscribe again.
\<close>

theorem slow_subscriber_hole:
  assumes "bus_reach n s" and "Suc (Suc (length (hist s))) < 2 ^ 64"
    and "live (r_bus s) a" and "ch_items (chans (r_bus s) ! a) = e0 # es"
    and "ch_cap (chans (r_bus s) ! a) = length (e0 # es)"
    and "publish t1 v1 c1 k1 p1 (r_bus s) = (Ret e1, b1)"
    and "receive a b1 = (r, b2)"
    and "publish t2 v2 c2 k2 p2 b2 = (Ret e2, b3)"
  shows "r = Some e0 \<and> ch_items (chans b3 ! a) = es @ [e2] \<and> \<not> ch_closed (chans b3 ! a) \<and>
    unat (be_sequence e2) = unat (be_sequence e1) + 1"
proof -
  have ok: "run_ok s" by (rule bus_reach_ok [OF assms(1)]) (use assms(2) in simp)
  then have so: "subs_ok (r_bus s)" and rep: "represents (r_bus s) (hist s)" by (simp_all add: run_ok_def)
  have a: "a < length (chans (r_bus s))" and op: "\<not> ch_closed (chans (r_bus s) ! a)"
    using so assms(3) by (simp_all add: subs_ok_def)
  note ok1 = publish_run_ok [OF ok assms(6)]
  have c1: "chans b1 ! a = chans (r_bus s) ! a" "length (chans b1) = length (chans (r_bus s))" "live b1 a"
    using publish_result [OF so, of t1 v1 c1 k1 p1] assms(3-6) a
    by (auto simp: try_send_def live_def)
  have r: "r = Some e0" "b2 = b1\<lparr>chans := (chans b1)[a := (chans b1 ! a)\<lparr>ch_items := es\<rparr>]\<rparr>"
    using assms(4,7) c1(1) by (simp_all add: receive_def)
  from receive_run_ok [OF ok1, of a e0 b2] assms(7) r(1) a c1(2)
  have so2: "subs_ok b2" and rep2: "represents b2 (hist s @ [e1])" by (simp_all add: run_ok_def)
  have c2: "chans b2 ! a = (chans (r_bus s) ! a)\<lparr>ch_items := es\<rparr>" "length (chans b2) = length (chans (r_bus s))" "live b2 a"
    using r(2) a c1 by (simp_all add: live_def)
  have "chans b3 ! a = try_send e2 (chans b2 ! a)"
    using publish_result [OF so2, of t2 v2 c2 k2 p2] assms(8) a c2(2,3) by auto
  then have "ch_items (chans b3 ! a) = es @ [e2]" "\<not> ch_closed (chans b3 ! a)"
    using assms(5) op c2(1) by (simp_all add: is_full_def)
  moreover have "unat (be_sequence e2) = Suc (Suc (length (hist s)))" "unat (be_sequence e1) = Suc (length (hist s))"
    using publish_represents [OF rep2 assms(8)] publish_represents [OF rep assms(6)] assms(2)
    by (auto simp: unat_of_nat simp del: of_nat_Suc)
  ultimately show ?thesis using r(1) by simp
qed


subsection \<open>Witnesses\<close>

text \<open>A subscriber of a bus that keeps two events, after \<open>k\<close> events of which it took none.\<close>

lemma filled:
  "k \<le> 64 \<Longrightarrow> \<exists>s. bus_reach 2 s \<and> length (hist s) = k \<and> live (r_bus s) 0 \<and> 0 < length (chans (r_bus s)) \<and>
     length (ch_items (chans (r_bus s) ! 0)) = k \<and> ch_cap (chans (r_bus s) ! 0) = 64 \<and> max_events (r_bus s) = 2"
proof (induction k)
  case 0
  obtain b where sub: "subscribe Background 0 (r_bus (start_run 2)) = (Inr 0, b)"
    and b: "subs b = [(0, 0)]" "chans b = [\<lparr>ch_items = [], ch_cap = 64, ch_closed = False\<rparr>]" "max_events b = 2"
    by (simp add: subscribe_def history_gap_def start_run_def new_bus_def Let_def)
  show ?case
    by (rule exI, rule conjI, rule reach_step [OF reach_start step_subscribe [OF sub]])
       (simp add: b live_def start_run_def)
next
  case (Suc k)
  then obtain s where s: "bus_reach 2 s" "length (hist s) = k" "live (r_bus s) 0" "0 < length (chans (r_bus s))"
    "length (ch_items (chans (r_bus s) ! 0)) = k" "ch_cap (chans (r_bus s) ! 0) = 64" "max_events (r_bus s) = 2"
    by auto
  have "subs_ok (r_bus s)" using bus_reach_ok [OF s(1)] s(2) Suc.prems by (simp add: run_ok_def)
  then obtain e b where pub: "publish 7 [] [] [] None (r_bus s) = (Ret e, b)" and b: "subs b = subs (r_bus s)"
    "chans b = map (\<lambda>a. if live (r_bus s) a then try_send e (chans (r_bus s) ! a) else chans (r_bus s) ! a) [0..<length (chans (r_bus s))]"
    using publish_result by blast
  have "max_events b = 2" using pub s(7) by (auto simp: publish_def Let_def split: prod.splits outcome.splits)
  note mx = this
  have c: "chans b ! 0 = try_send e (chans (r_bus s) ! 0)" "length (chans b) = length (chans (r_bus s))" "live b 0"
    using s(3,4) b by (simp_all add: live_def)
  show ?case
    by (rule exI, rule conjI, rule reach_step [OF s(1) step_publish [OF pub]])
       (use s Suc.prems mx c in \<open>simp add: is_full_def\<close>)
qed

theorem bus_delivery_witness:
  "\<exists>s. bus_reach 2 s \<and> length (hist s) = 3 \<and>
     subseq (got s 0 @ ch_items (chans (r_bus s) ! 0)) (drop (from_of s 0) (hist s))"
proof -
  obtain s where s: "bus_reach 2 s" "length (hist s) = 3" "0 < length (chans (r_bus s))"
    using filled [of 3] by auto
  with bus_delivery [OF s(1) _ s(3)] show ?thesis by auto
qed

theorem subscribe_gap_witness:
  "\<exists>s. bus_reach 2 s \<and> length (hist s) = 3 \<and> fst (subscribe Background 0 (r_bus s)) = Inl err_event_history_gap \<and>
     (\<exists>a b. subscribe Background 1 (r_bus s) = (Inr a, b) \<and> ch_items (chans b ! a) = drop 1 (hist s))"
proof -
  obtain s where s: "bus_reach 2 s" "length (hist s) = 3" "max_events (r_bus s) = 2"
    using filled [of 3] by auto
  have len: "Suc (length (hist s)) < 2 ^ 64" by (simp add: s(2))
  have lim: "limit (r_bus s) = 2" by (simp add: limit_def s(3))
  from subscribe_gap [OF s(1) len, where after = 0 and ctx = Background] subscribe_gap [OF s(1) len, where after = 1 and ctx = Background] s lim show ?thesis
    by (auto split: prod.splits sum.splits)
qed

theorem publish_succeeds_witness:
  "\<exists>s e b. bus_reach 2 s \<and> publish 7 ''info'' ''survey'' ''survey_start'' None (r_bus s) = (Ret e, b) \<and>
     unat (be_sequence e) = 4"
proof -
  obtain s where s: "bus_reach 2 s" "length (hist s) = 3" using filled [of 3] by auto
  have len: "Suc (length (hist s)) < 2 ^ 64" by (simp add: s(2))
  from publish_succeeds [OF s(1) len, of 7 "''info''" "''survey''" "''survey_start''" None] s show ?thesis by auto
qed

theorem slow_subscriber_hole_witness:
  "\<exists>s e0 es e1 b1 b2 e2 b3. bus_reach 2 s \<and> publish 7 [] [] ''lost'' None (r_bus s) = (Ret e1, b1) \<and>
     receive 0 b1 = (Some e0, b2) \<and> publish 7 [] [] ''next'' None b2 = (Ret e2, b3) \<and>
     ch_items (chans b3 ! 0) = es @ [e2] \<and> length es = 63"
proof -
  obtain s where s: "bus_reach 2 s" "length (hist s) = 64" "live (r_bus s) 0"
    "length (ch_items (chans (r_bus s) ! 0)) = 64" "ch_cap (chans (r_bus s) ! 0) = 64"
    using filled [of 64] by auto
  obtain e0 es where it: "ch_items (chans (r_bus s) ! 0) = e0 # es" "length es = 63"
    using s(4) by (cases "ch_items (chans (r_bus s) ! 0)") auto
  have cap: "ch_cap (chans (r_bus s) ! 0) = length (e0 # es)" using s(5) it(2) by simp
  have len: "Suc (Suc (length (hist s))) < 2 ^ 64" by (simp add: s(2))
  have ok: "run_ok s" using bus_reach_ok [OF s(1)] s(2) by simp
  obtain e1 b1 where p1: "publish 7 [] [] ''lost'' None (r_bus s) = (Ret e1, b1)"
    and c1: "chans b1 ! 0 = chans (r_bus s) ! 0" "0 < length (chans b1)"
    using publish_result [of "r_bus s" 7 "[]" "[]" "''lost''" None] ok s(3) it(1) cap
    by (auto simp: run_ok_def subs_ok_def try_send_def)
  obtain b2 where rc: "receive 0 b1 = (Some e0, b2)"
    using c1 it(1) by (simp add: receive_def)
  have "subs_ok b2"
    using receive_run_ok [OF publish_run_ok [OF ok p1], of 0 e0 b2] rc c1(2) by (simp add: run_ok_def)
  then obtain e2 b3 where p2: "publish 7 [] [] ''next'' None b2 = (Ret e2, b3)"
    using publish_result by blast
  from slow_subscriber_hole [OF s(1) len s(3) it(1) cap p1 rc p2] s(1) it(2) p1 rc p2 show ?thesis by blast
qed

end
