(* ===== verification/Event_Buffer.thy ===== *)
theory Event_Buffer
  imports Retention Go_OS "HOL-Library.Char_ord" "HOL-Library.List_Lexorder"
begin

section \<open>The event buffer of the laptop\<close>

text \<open>
  \<open>bottle-tui/internal/model/events.go\<close>, the \<open>Buffer\<close>: validation and redaction of events, the
  bounded store with its overflow marker, filters, pausing, and saving. The JSON text of an event
  is the parameter \<open>enc\<close> (\<open>json.Marshal\<close>), \<open>uni\<close> the Unicode part of \<open>strings.ToLower\<close>. A
  payload is \<open>None\<close> for Go's nil map.
\<close>

subsection \<open>Events\<close>

record event =
  ev_sequence :: "64 word"
  ev_occurred_at :: time
  ev_severity :: string
  ev_source :: string
  ev_kind :: string
  ev_correlation_id :: string
  ev_payload :: "payload option"

type_synonym encoder = "event \<Rightarrow> go_error + string"

definition kind_status :: string where "kind_status = ''status''"
definition kind_client_buffer_overflow :: string where "kind_client_buffer_overflow = ''client_buffer_overflow''"
definition kind_malformed_event :: string where "kind_malformed_event = ''client_malformed_event''"
definition kind_history_gap :: string where "kind_history_gap = ''event_history_gap''"

definition severities :: "string list" where
  "severities = [''debug'', ''info'', ''warn'', ''error'']"

definition validate_event :: "event \<Rightarrow> go_error option" where
  "validate_event e =
     (if ev_occurred_at e = 0 \<or> ev_source e = [] \<or> ev_kind e = [] then
        Some (ErrText ''event requires timestamp, source, and kind'')
      else if ev_severity e \<in> set severities then None
      else Some (ErrText (''invalid severity '' @ go_quote (ev_severity e))))"

subsection \<open>Redaction\<close>

definition redacted_value :: string where
  "redacted_value = ''[REDACTED]''"

definition sensitive_keys :: "string list" where
  "sensitive_keys = [''authorization'', ''cookie'', ''password'', ''secret'', ''token'', ''private_key'', ''privatekey'']"

definition dashes_to_underscores :: "string \<Rightarrow> string" where
  "dashes_to_underscores = map (\<lambda>c. if c = CHR ''-'' then CHR ''_'' else c)"

definition is_sensitive :: "(string \<Rightarrow> string) \<Rightarrow> string \<Rightarrow> bool" where
  "is_sensitive uni key =
     (let k = to_lower uni (dashes_to_underscores key) in
      k \<in> set sensitive_keys \<or> contains k ''token'' \<or> contains k ''secret'' \<or> contains k ''password'')"

text \<open>\<open>redactMap\<close> and \<open>redactSlice\<close>; a slice redacts its maps, not the slices inside it.\<close>

fun redact_map :: "(string \<Rightarrow> string) \<Rightarrow> payload \<Rightarrow> payload"
  and redact_value :: "(string \<Rightarrow> string) \<Rightarrow> json \<Rightarrow> json"
  and redact_slice :: "(string \<Rightarrow> string) \<Rightarrow> json list \<Rightarrow> json list" where
  "redact_map uni [] = []"
| "redact_map uni ((k, v) # rest) =
     (k, if is_sensitive uni k then JStr redacted_value else redact_value uni v) # redact_map uni rest"
| "redact_value uni (JObj p) = JObj (redact_map uni p)"
| "redact_value uni (JArr vs) = JArr (redact_slice uni vs)"
| "redact_value uni v = v"
| "redact_slice uni [] = []"
| "redact_slice uni (JObj p # vs) = JObj (redact_map uni p) # redact_slice uni vs"
| "redact_slice uni (v # vs) = v # redact_slice uni vs"

subsection \<open>The buffer\<close>

record buffer_config =
  cfg_max_events :: int
  cfg_max_bytes :: int

text \<open>The sets of a filter are Go maps to booleans, as association lists.\<close>

record filter_spec =
  f_severities :: "(string \<times> bool) list"
  f_sources :: "(string \<times> bool) list"
  f_kinds :: "(string \<times> bool) list"

record buffer =
  b_config :: buffer_config
  b_events :: "event list"
  b_bytes :: int
  b_last_sequence :: "64 word"
  b_filter :: filter_spec
  b_paused :: bool
  b_paused_rendered :: "event list"
  b_overflowed :: bool

definition no_filter :: filter_spec where
  "no_filter = \<lparr>f_severities = [], f_sources = [], f_kinds = []\<rparr>"

definition new_buffer :: "buffer_config \<Rightarrow> buffer" where
  "new_buffer c =
     (let c = (if cfg_max_events c \<le> 0 then c\<lparr>cfg_max_events := 5000\<rparr> else c);
          c = (if cfg_max_bytes c \<le> 0 then c\<lparr>cfg_max_bytes := 8388608\<rparr> else c)
      in \<lparr>b_config = c, b_events = [], b_bytes = 0, b_last_sequence = 0, b_filter = no_filter,
          b_paused = False, b_paused_rendered = [], b_overflowed = False\<rparr>)"

definition set_has :: "(string \<times> bool) list \<Rightarrow> string \<Rightarrow> bool" where
  "set_has m k \<longleftrightarrow> m = [] \<or> map_of m k = Some True"

definition event_matches :: "filter_spec \<Rightarrow> event \<Rightarrow> bool" where
  "event_matches f e \<longleftrightarrow> set_has (f_severities f) (ev_severity e) \<and>
     set_has (f_sources f) (ev_source e) \<and> set_has (f_kinds f) (ev_kind e)"

definition event_size :: "encoder \<Rightarrow> event \<Rightarrow> int" where
  "event_size enc e = (case enc e of Inl _ \<Rightarrow> 0 | Inr s \<Rightarrow> int (length s))"

definition event_bytes :: "encoder \<Rightarrow> event list \<Rightarrow> int" where
  "event_bytes enc es = sum_list (map (event_size enc) es)"

definition fits :: "encoder \<Rightarrow> buffer_config \<Rightarrow> bool \<Rightarrow> event list \<Rightarrow> bool" where
  "fits enc c has_marker es \<longleftrightarrow>
     int (length es) - (if has_marker then 1 else 0) \<le> cfg_max_events c \<and> event_bytes enc es \<le> cfg_max_bytes c"

text \<open>
  \<open>trimToBoundsLocked\<close>. With a marker the second element is dropped, the marker stays; a marker
  alone is never dropped. Without one the oldest is dropped; the empty buffer fits, because
  \<open>NewBuffer\<close> makes both bounds positive.
\<close>

fun trim_rest :: "encoder \<Rightarrow> buffer_config \<Rightarrow> event \<Rightarrow> event list \<Rightarrow> event list \<times> bool" where
  "trim_rest enc c m [] = ([m], False)"
| "trim_rest enc c m (e # es) =
     (if fits enc c True (m # e # es) then (m # e # es, False) else (fst (trim_rest enc c m es), True))"

fun trim_oldest :: "encoder \<Rightarrow> buffer_config \<Rightarrow> event list \<Rightarrow> event list \<times> bool" where
  "trim_oldest enc c [] = ([], False)"
| "trim_oldest enc c (e # es) =
     (if fits enc c False (e # es) then (e # es, False) else (fst (trim_oldest enc c es), True))"

definition trim_to_bounds :: "encoder \<Rightarrow> bool \<Rightarrow> buffer \<Rightarrow> buffer \<times> bool" where
  "trim_to_bounds enc has_marker b =
     (if has_marker then
        (case b_events b of
           [] \<Rightarrow> (b, False)
         | m # es \<Rightarrow> (b\<lparr>b_events := fst (trim_rest enc (b_config b) m es)\<rparr>, snd (trim_rest enc (b_config b) m es)))
      else (b\<lparr>b_events := fst (trim_oldest enc (b_config b) (b_events b))\<rparr>, snd (trim_oldest enc (b_config b) (b_events b))))"

definition overflow_marker :: "time \<Rightarrow> event" where
  "overflow_marker now = \<lparr>ev_sequence = 0, ev_occurred_at = now, ev_severity = ''warn'', ev_source = ''client'',
     ev_kind = kind_client_buffer_overflow, ev_correlation_id = [],
     ev_payload = Some [(''message'', JStr ''oldest rendered events dropped'')]\<rparr>"

definition trim_locked :: "encoder \<Rightarrow> time \<Rightarrow> buffer \<Rightarrow> buffer" where
  "trim_locked enc now b =
     (if b_overflowed b then
        (case trim_to_bounds enc True b of (b, _) \<Rightarrow> b\<lparr>b_bytes := event_bytes enc (b_events b)\<rparr>)
      else
        (case trim_to_bounds enc False b of
           (b, dropped) \<Rightarrow>
             (let b = (if dropped then
                         fst (trim_to_bounds enc True (b\<lparr>b_overflowed := True, b_events := overflow_marker now # b_events b\<rparr>))
                       else b)
              in b\<lparr>b_bytes := event_bytes enc (b_events b)\<rparr>)))"

definition append_marker :: "encoder \<Rightarrow> time \<Rightarrow> string \<Rightarrow> string \<Rightarrow> string \<Rightarrow> payload \<Rightarrow> buffer \<Rightarrow> buffer" where
  "append_marker enc now kind severity src p b =
     trim_locked enc now (b\<lparr>b_events := b_events b @ [\<lparr>ev_sequence = 0, ev_occurred_at = now, ev_severity = severity,
       ev_source = src, ev_kind = kind, ev_correlation_id = [], ev_payload = Some p\<rparr>]\<rparr>)"

definition malformed :: "encoder \<Rightarrow> time \<Rightarrow> string \<Rightarrow> buffer \<Rightarrow> buffer" where
  "malformed enc now reason b =
     append_marker enc now kind_malformed_event ''warn'' ''client'' [(''reason'', JStr reason)] b"

definition redact_event :: "(string \<Rightarrow> string) \<Rightarrow> event \<Rightarrow> event" where
  "redact_event uni e = e\<lparr>ev_payload := map_option (redact_map uni) (ev_payload e)\<rparr>"

definition store_event :: "encoder \<Rightarrow> time \<Rightarrow> string \<Rightarrow> event \<Rightarrow> buffer \<Rightarrow> buffer" where
  "store_event enc now encoded e b =
     trim_locked enc now (b\<lparr>b_events := b_events b @ [e], b_bytes := b_bytes b + int (length encoded),
       b_last_sequence := (if ev_sequence e > b_last_sequence b then ev_sequence e else b_last_sequence b)\<rparr>)"

definition buffer_add :: "encoder \<Rightarrow> (string \<Rightarrow> string) \<Rightarrow> time \<Rightarrow> event \<Rightarrow> buffer \<Rightarrow> go_error option \<times> buffer" where
  "buffer_add enc uni now e b =
     (case validate_event e of
        Some err \<Rightarrow> (Some err, malformed enc now (error_text err) b)
      | None \<Rightarrow>
          (let e = redact_event uni e in
           case enc e of
             Inl err \<Rightarrow> (Some (ErrWrap ''encode event: '' err []), malformed enc now ''event cannot be encoded'' b)
           | Inr s \<Rightarrow> (None, store_event enc now s e b)))"

definition mark_history_gap :: "encoder \<Rightarrow> time \<Rightarrow> string \<Rightarrow> buffer \<Rightarrow> buffer" where
  "mark_history_gap enc now reason b =
     append_marker enc now kind_history_gap ''warn'' ''client'' [(''reason'', JStr reason)] b"

definition visible_locked :: "buffer \<Rightarrow> event list" where
  "visible_locked b = filter (event_matches (b_filter b)) (b_events b)"

definition set_filter :: "filter_spec \<Rightarrow> buffer \<Rightarrow> buffer" where
  "set_filter f b = b\<lparr>b_filter := f\<rparr>"

definition set_paused :: "bool \<Rightarrow> buffer \<Rightarrow> buffer" where
  "set_paused p b =
     (let b = (if p \<and> \<not> b_paused b then b\<lparr>b_paused_rendered := visible_locked b\<rparr> else b);
          b = (if \<not> p then b\<lparr>b_paused_rendered := []\<rparr> else b)
      in b\<lparr>b_paused := p\<rparr>)"

definition visible :: "buffer \<Rightarrow> event list" where
  "visible b = (if b_paused b then b_paused_rendered b else visible_locked b)"

definition last_sequence :: "buffer \<Rightarrow> 64 word" where
  "last_sequence b = b_last_sequence b"

definition sources :: "buffer \<Rightarrow> string list" where
  "sources b = sort (remdups (map ev_source (b_events b)))"

text \<open>\<open>SaveNDJSON\<close>: each event is one line, written as it is encoded.\<close>

fun write_lines :: "encoder \<Rightarrow> io_env \<Rightarrow> path \<Rightarrow> event list \<Rightarrow> os \<Rightarrow> go_error option \<times> os" where
  "write_lines enc io p [] s = (None, s)"
| "write_lines enc io p (e # es) s =
     (case enc e of
        Inl err \<Rightarrow> (Some (ErrWrap ''write event: '' err []), s)
      | Inr t \<Rightarrow>
          (case file_write io p (t @ [CHR 0x0A]) s of
             (Some err, s) \<Rightarrow> (Some (ErrWrap ''write event: '' err []), s)
           | (None, s) \<Rightarrow> write_lines enc io p es s))"

definition save_ndjson :: "encoder \<Rightarrow> io_env \<Rightarrow> path \<Rightarrow> buffer \<Rightarrow> os \<Rightarrow> go_error option \<times> os" where
  "save_ndjson enc io p b s =
     (case os_write_file io p [] 384 s of
        (Some err, s) \<Rightarrow> (Some err, s)
      | (None, s) \<Rightarrow>
     (case write_lines enc io (path_clean p) (b_events b) s of
        (Some err, s) \<Rightarrow> (Some err, snd (file_close io s))
      | (None, s) \<Rightarrow> (case file_sync io s of (r, s) \<Rightarrow> (r, snd (file_close io s)))))"

subsection \<open>Trimming\<close>

definition content :: "buffer \<Rightarrow> event list" where
  "content b = (if b_overflowed b then tl (b_events b) else b_events b)"

lemma trim_rest_suffix: "\<exists>es'. fst (trim_rest enc c m es) = m # es' \<and> suffix es' es"
proof (induction es)
  case Nil
  then show ?case by simp
next
  case (Cons e es)
  then show ?case by (auto intro: suffix_ConsI)
qed

lemma trim_rest_fits:
  "fst (trim_rest enc c m es) = [m] \<or> fits enc c True (fst (trim_rest enc c m es))"
  by (induction es) auto

lemma trim_oldest_suffix: "suffix (fst (trim_oldest enc c es)) es"
  by (induction es) (auto intro: suffix_ConsI)

lemma trim_oldest_fits: "0 \<le> cfg_max_events c \<Longrightarrow> 0 \<le> cfg_max_bytes c \<Longrightarrow> fits enc c False (fst (trim_oldest enc c es))"
  by (induction es) (auto simp: fits_def event_bytes_def)

lemma trim_oldest_same: "snd (trim_oldest enc c es) = False \<Longrightarrow> fst (trim_oldest enc c es) = es"
  by (cases es) (auto split: if_splits)

text \<open>
  The invariant: positive bounds; an overflowed buffer starts with its marker; the content is
  within the bounds and the byte count is right, except that a marker may stand alone.
\<close>

definition buffer_inv :: "encoder \<Rightarrow> buffer \<Rightarrow> bool" where
  "buffer_inv enc b \<longleftrightarrow>
     0 < cfg_max_events (b_config b) \<and> 0 < cfg_max_bytes (b_config b) \<and>
     (b_overflowed b \<longrightarrow> b_events b \<noteq> [] \<and> ev_kind (hd (b_events b)) = kind_client_buffer_overflow) \<and>
     (fits enc (b_config b) (b_overflowed b) (b_events b) \<or> b_overflowed b \<and> length (b_events b) = 1) \<and>
     b_bytes b = event_bytes enc (b_events b)"

definition marked :: "buffer \<Rightarrow> bool" where
  "marked b \<longleftrightarrow> 0 < cfg_max_events (b_config b) \<and> 0 < cfg_max_bytes (b_config b) \<and>
     (b_overflowed b \<longrightarrow> b_events b \<noteq> [] \<and> ev_kind (hd (b_events b)) = kind_client_buffer_overflow)"

lemma trim_locked_spec:
  assumes "marked b"
  shows "buffer_inv enc (trim_locked enc now b) \<and> suffix (content (trim_locked enc now b)) (content b) \<and>
    b_config (trim_locked enc now b) = b_config b \<and> b_last_sequence (trim_locked enc now b) = b_last_sequence b \<and>
    b_filter (trim_locked enc now b) = b_filter b \<and> b_paused (trim_locked enc now b) = b_paused b \<and>
    b_paused_rendered (trim_locked enc now b) = b_paused_rendered b"
proof (cases "b_overflowed b")
  case True
  then obtain m es where ev: "b_events b = m # es" "ev_kind m = kind_client_buffer_overflow"
    using assms by (auto simp: marked_def neq_Nil_conv)
  obtain es' where t: "fst (trim_rest enc (b_config b) m es) = m # es'" "suffix es' es"
    using trim_rest_suffix by blast
  show ?thesis
    using assms True ev t trim_rest_fits [of enc "b_config b" m es]
    by (auto simp: trim_locked_def trim_to_bounds_def buffer_inv_def content_def marked_def)
next
  case False
  let ?k = "fst (trim_oldest enc (b_config b) (b_events b))"
  have k: "suffix ?k (b_events b)" "fits enc (b_config b) False ?k"
    using assms trim_oldest_suffix trim_oldest_fits by (auto simp: marked_def)
  obtain es' where t: "fst (trim_rest enc (b_config b) (overflow_marker now) ?k) = overflow_marker now # es'" "suffix es' ?k"
    using trim_rest_suffix by blast
  have "suffix es' (b_events b)" using t(2) k(1) by (rule suffix_order.trans)
  then show ?thesis
    using assms False k t trim_rest_fits [of enc "b_config b" "overflow_marker now" ?k]
    by (auto simp: trim_locked_def trim_to_bounds_def buffer_inv_def content_def marked_def Let_def overflow_marker_def)
qed

subsection \<open>Operations keep the invariant\<close>

datatype buffer_op =
    OpAdd time event
  | OpGap time string
  | OpFilter filter_spec
  | OpPause bool

fun apply_op :: "encoder \<Rightarrow> (string \<Rightarrow> string) \<Rightarrow> buffer_op \<Rightarrow> buffer \<Rightarrow> buffer" where
  "apply_op enc uni (OpAdd now e) b = snd (buffer_add enc uni now e b)"
| "apply_op enc uni (OpGap now r) b = mark_history_gap enc now r b"
| "apply_op enc uni (OpFilter f) b = set_filter f b"
| "apply_op enc uni (OpPause p) b = set_paused p b"

text \<open>Appending one event or marker, the only way the content grows.\<close>

definition appended :: "encoder \<Rightarrow> time \<Rightarrow> event \<Rightarrow> buffer \<Rightarrow> buffer" where
  "appended enc now e b = trim_locked enc now (b\<lparr>b_events := b_events b @ [e]\<rparr>)"

lemma buffer_inv_marked: "buffer_inv enc b \<Longrightarrow> marked (b\<lparr>b_events := b_events b @ es\<rparr>)"
  by (auto simp: buffer_inv_def marked_def)

lemma buffer_inv_new: "buffer_inv enc (new_buffer c)"
  by (auto simp: buffer_inv_def new_buffer_def fits_def event_bytes_def Let_def)

lemma trim_locked_ignores [simp]:
  "trim_locked enc now (b\<lparr>b_bytes := n\<rparr>) = trim_locked enc now b"
  "trim_locked enc now (b\<lparr>b_last_sequence := q\<rparr>) = (trim_locked enc now b)\<lparr>b_last_sequence := q\<rparr>"
  by (auto simp: trim_locked_def trim_to_bounds_def Let_def split: list.splits prod.splits)

lemma store_event_appended:
  "store_event enc now s e b = (appended enc now e b)\<lparr>b_last_sequence :=
     (if ev_sequence e > b_last_sequence b then ev_sequence e else b_last_sequence b)\<rparr>"
proof -
  have "b\<lparr>b_events := es, b_bytes := n, b_last_sequence := q\<rparr> = b\<lparr>b_events := es\<rparr>\<lparr>b_bytes := n\<rparr>\<lparr>b_last_sequence := q\<rparr>" for es n q
    by simp
  then show ?thesis unfolding store_event_def appended_def by (metis trim_locked_ignores)
qed

lemma append_marker_appended:
  "append_marker enc now k sv src p b = appended enc now \<lparr>ev_sequence = 0, ev_occurred_at = now, ev_severity = sv,
     ev_source = src, ev_kind = k, ev_correlation_id = [], ev_payload = Some p\<rparr> b"
  by (simp add: append_marker_def appended_def)

lemma appended_spec:
  assumes "buffer_inv enc b"
  shows "buffer_inv enc (appended enc now e b) \<and> suffix (content (appended enc now e b)) (content b @ [e]) \<and>
    b_config (appended enc now e b) = b_config b \<and> b_last_sequence (appended enc now e b) = b_last_sequence b \<and>
    b_filter (appended enc now e b) = b_filter b \<and> b_paused (appended enc now e b) = b_paused b \<and>
    b_paused_rendered (appended enc now e b) = b_paused_rendered b"
proof -
  have "content (b\<lparr>b_events := b_events b @ [e]\<rparr>) = content b @ [e]"
    using assms by (auto simp: content_def buffer_inv_def)
  with trim_locked_spec [OF buffer_inv_marked [OF assms, of "[e]"], of enc now] show ?thesis
    by (simp add: appended_def)
qed

interpretation buf: retention content "appended enc now" "buffer_inv enc" for enc now
  by unfold_locales (simp_all only: appended_spec)

lemma buffer_inv_ignores [simp]:
  "buffer_inv enc (b\<lparr>b_last_sequence := q\<rparr>) = buffer_inv enc b"
  "buffer_inv enc (b\<lparr>b_filter := f\<rparr>) = buffer_inv enc b"
  "buffer_inv enc (b\<lparr>b_paused := p\<rparr>) = buffer_inv enc b"
  "buffer_inv enc (b\<lparr>b_paused_rendered := es\<rparr>) = buffer_inv enc b"
  by (simp_all add: buffer_inv_def)

lemma content_ignores [simp]:
  "content (b\<lparr>b_last_sequence := q\<rparr>) = content b"
  "content (b\<lparr>b_filter := f\<rparr>) = content b"
  "content (b\<lparr>b_paused := p\<rparr>) = content b"
  "content (b\<lparr>b_paused_rendered := es\<rparr>) = content b"
  by (simp_all add: content_def)

text \<open>What an operation adds to the content: an accepted event, a marker, or nothing.\<close>

fun op_entry :: "encoder \<Rightarrow> (string \<Rightarrow> string) \<Rightarrow> buffer_op \<Rightarrow> event list" where
  "op_entry enc uni (OpAdd now e) =
     (case validate_event e of
        Some err \<Rightarrow> [\<lparr>ev_sequence = 0, ev_occurred_at = now, ev_severity = ''warn'', ev_source = ''client'',
          ev_kind = kind_malformed_event, ev_correlation_id = [], ev_payload = Some [(''reason'', JStr (error_text err))]\<rparr>]
      | None \<Rightarrow>
          (case enc (redact_event uni e) of
             Inl err \<Rightarrow> [\<lparr>ev_sequence = 0, ev_occurred_at = now, ev_severity = ''warn'', ev_source = ''client'',
               ev_kind = kind_malformed_event, ev_correlation_id = [], ev_payload = Some [(''reason'', JStr ''event cannot be encoded'')]\<rparr>]
           | Inr s \<Rightarrow> [redact_event uni e]))"
| "op_entry enc uni (OpGap now r) = [\<lparr>ev_sequence = 0, ev_occurred_at = now, ev_severity = ''warn'', ev_source = ''client'',
     ev_kind = kind_history_gap, ev_correlation_id = [], ev_payload = Some [(''reason'', JStr r)]\<rparr>]"
| "op_entry enc uni _ = []"

lemma apply_op_spec:
  assumes "buffer_inv enc b"
  shows "buffer_inv enc (apply_op enc uni op b) \<and> suffix (content (apply_op enc uni op b)) (content b @ op_entry enc uni op) \<and>
    b_config (apply_op enc uni op b) = b_config b"
proof (cases op)
  case (OpAdd now e)
  then show ?thesis
    using appended_spec [OF assms, of now]
    by (simp add: buffer_add_def malformed_def append_marker_appended store_event_appended Let_def del: suffix_snoc
        split: option.splits sum.splits)
next
  case (OpGap now r)
  then show ?thesis
    using appended_spec [OF assms, of now] by (simp add: mark_history_gap_def append_marker_appended del: suffix_snoc)
next
  case (OpFilter f)
  then show ?thesis using assms by (simp add: set_filter_def)
next
  case (OpPause p)
  then show ?thesis using assms by (simp add: set_paused_def Let_def)
qed

definition run_ops :: "encoder \<Rightarrow> (string \<Rightarrow> string) \<Rightarrow> buffer_op list \<Rightarrow> buffer \<Rightarrow> buffer" where
  "run_ops enc uni ops b = fold (apply_op enc uni) ops b"

lemma run_ops_spec:
  assumes "buffer_inv enc b"
  shows "buffer_inv enc (run_ops enc uni ops b) \<and>
    suffix (content (run_ops enc uni ops b)) (content b @ concat (map (op_entry enc uni) ops)) \<and>
    b_config (run_ops enc uni ops b) = b_config b"
  using assms unfolding run_ops_def
proof (induction ops arbitrary: b)
  case Nil
  then show ?case by simp
next
  case (Cons op ops)
  let ?b = "apply_op enc uni op b"
  have 1: "buffer_inv enc ?b" "suffix (content ?b) (content b @ op_entry enc uni op)" "b_config ?b = b_config b"
    using apply_op_spec [OF Cons.prems] by auto
  have "suffix (content (fold (apply_op enc uni) ops ?b)) (content ?b @ concat (map (op_entry enc uni) ops))"
    using Cons.IH [OF 1(1)] by simp
  also have "suffix (content ?b @ concat (map (op_entry enc uni) ops)) ((content b @ op_entry enc uni op) @ concat (map (op_entry enc uni) ops))"
    using 1(2) by (auto simp: suffix_def)
  finally show ?case using Cons.IH [OF 1(1)] 1(3) by simp
qed

subsection \<open>Redaction is complete for maps, at any depth, and for the maps in slices\<close>

fun clean_map :: "(string \<Rightarrow> string) \<Rightarrow> payload \<Rightarrow> bool"
  and clean_value :: "(string \<Rightarrow> string) \<Rightarrow> json \<Rightarrow> bool"
  and clean_slice :: "(string \<Rightarrow> string) \<Rightarrow> json list \<Rightarrow> bool" where
  "clean_map uni [] = True"
| "clean_map uni ((k, v) # rest) =
     ((if is_sensitive uni k then v = JStr redacted_value else clean_value uni v) \<and> clean_map uni rest)"
| "clean_value uni (JObj p) = clean_map uni p"
| "clean_value uni (JArr vs) = clean_slice uni vs"
| "clean_value uni v = True"
| "clean_slice uni [] = True"
| "clean_slice uni (JObj p # vs) = (clean_map uni p \<and> clean_slice uni vs)"
| "clean_slice uni (v # vs) = clean_slice uni vs"

lemma redact_clean:
  "clean_map uni (redact_map uni p)"
  "clean_value uni (redact_value uni v)"
  "clean_slice uni (redact_slice uni vs)"
  by (induction uni p and uni v and uni vs rule: redact_map_redact_value_redact_slice.induct) auto

lemma redact_keys: "map fst (redact_map uni p) = map fst p"
  by (induction p) auto

lemma redact_idem:
  "clean_map uni p \<Longrightarrow> redact_map uni p = p"
  "clean_value uni v \<Longrightarrow> redact_value uni v = v"
  "clean_slice uni vs \<Longrightarrow> redact_slice uni vs = vs"
  by (induction uni p and uni v and uni vs rule: redact_map_redact_value_redact_slice.induct) (auto split: if_splits)

end
