(* ===== verification/Event_Buffer_Properties.thy ===== *)
theory Event_Buffer_Properties
  imports Event_Buffer
begin

section \<open>Correctness of the event buffer\<close>

text \<open>
  Properties of \<open>Buffer\<close> over every sequence of its operations, from a new buffer.
\<close>

text \<open>
  C12. The buffer is bounded: after any operations it holds at most the configured number of
  events and one overflow marker, its byte count is the size of what it holds, and that is within
  the configured bound unless the marker stands alone.
\<close>

theorem buffer_bounded:
  "let b = run_ops enc uni ops (new_buffer c) in
     int (length (b_events b)) \<le> cfg_max_events (b_config b) + 1 \<and>
     b_bytes b = event_bytes enc (b_events b) \<and>
     (b_bytes b \<le> cfg_max_bytes (b_config b) \<or> b_overflowed b \<and> length (b_events b) = 1) \<and>
     cfg_max_events (b_config b) = (if cfg_max_events c \<le> 0 then 5000 else cfg_max_events c)"
proof -
  let ?b = "run_ops enc uni ops (new_buffer c)"
  have "buffer_inv enc ?b" "b_config ?b = b_config (new_buffer c)"
    using run_ops_spec [OF buffer_inv_new [of enc c], of uni ops] by simp_all
  then show ?thesis
    by (auto simp: buffer_inv_def fits_def Let_def new_buffer_def split: if_splits)
qed

text \<open>
  C13. What the buffer holds besides its overflow marker is a suffix of everything added to it, the
  redacted events and the markers of malformed events and history gaps in their order: only the
  oldest are dropped, and the marker is there exactly from the first drop on.
\<close>

theorem buffer_keeps_newest:
  "suffix (content (run_ops enc uni ops (new_buffer c))) (concat (map (op_entry enc uni) ops))"
  using run_ops_spec [OF buffer_inv_new [of enc c], of uni ops]
  by (simp add: content_def [of "new_buffer c"]) (simp add: new_buffer_def Let_def)

lemma event_size_nonneg [simp]: "0 \<le> event_size enc e"
  by (simp add: event_size_def split: sum.splits)

lemma event_bytes_nonneg: "0 \<le> event_bytes enc es"
  by (induction es) (auto simp: event_bytes_def)

lemma event_bytes_append [simp]: "event_bytes enc (xs @ ys) = event_bytes enc xs + event_bytes enc ys"
  by (simp add: event_bytes_def)

lemma fits_prefix: "fits enc c False (xs @ ys) \<Longrightarrow> fits enc c False xs"
  using event_bytes_nonneg [of enc ys] by (simp add: fits_def)

lemma trim_locked_fits:
  "\<not> b_overflowed b \<Longrightarrow> fits enc (b_config b) False (b_events b) \<Longrightarrow>
     b_events (trim_locked enc now b) = b_events b \<and> \<not> b_overflowed (trim_locked enc now b)"
  by (cases "b_events b") (auto simp: trim_locked_def trim_to_bounds_def)

lemma appended_fits:
  "\<not> b_overflowed b \<Longrightarrow> fits enc (b_config b) False (b_events b @ [e]) \<Longrightarrow>
     b_events (appended enc now e b) = b_events b @ [e] \<and> \<not> b_overflowed (appended enc now e b)"
  using trim_locked_fits [of "b\<lparr>b_events := b_events b @ [e]\<rparr>" enc now] by (simp add: appended_def)

lemma apply_op_fits:
  assumes "\<not> b_overflowed b" "fits enc (b_config b) False (b_events b @ op_entry enc uni op)"
  shows "b_events (apply_op enc uni op b) = b_events b @ op_entry enc uni op \<and> \<not> b_overflowed (apply_op enc uni op b)"
  using assms appended_fits [OF assms(1)]
  by (cases op)
     (auto simp: buffer_add_def malformed_def append_marker_appended store_event_appended mark_history_gap_def
        set_filter_def set_paused_def Let_def split: option.splits sum.splits)

text \<open>
  Nothing is dropped before it must be: when everything added fits the bounds, the buffer
  holds all of it and no overflow marker.
\<close>

theorem buffer_lossless:
  assumes "fits enc (b_config (new_buffer c)) False (concat (map (op_entry enc uni) ops))"
  shows "b_events (run_ops enc uni ops (new_buffer c)) = concat (map (op_entry enc uni) ops) \<and>
    \<not> b_overflowed (run_ops enc uni ops (new_buffer c))"
proof -
  have "b_events (run_ops enc uni ops b) = b_events b @ concat (map (op_entry enc uni) ops) \<and> \<not> b_overflowed (run_ops enc uni ops b)"
    if "\<not> b_overflowed b" "buffer_inv enc b" "fits enc (b_config b) False (b_events b @ concat (map (op_entry enc uni) ops))" for b
    using that
  proof (induction ops arbitrary: b)
    case Nil
    then show ?case by (simp add: run_ops_def)
  next
    case (Cons op ops)
    have "fits enc (b_config b) False (b_events b @ op_entry enc uni op)"
      using fits_prefix [of enc "b_config b" "b_events b @ op_entry enc uni op"] Cons.prems(3) by simp
    note step = apply_op_fits [OF Cons.prems(1) this] and inv = apply_op_spec [OF Cons.prems(2), of uni op]
    show ?case
      using Cons.IH [of "apply_op enc uni op b"] step inv Cons.prems(3) by (simp add: run_ops_def)
  qed
  from this [of "new_buffer c"] assms buffer_inv_new [of enc c] show ?thesis
    by (simp add: new_buffer_def Let_def)
qed

text \<open>The sequence numbers an operation brings in.\<close>

fun accepted_seq :: "encoder \<Rightarrow> (string \<Rightarrow> string) \<Rightarrow> buffer_op \<Rightarrow> 64 word list" where
  "accepted_seq enc uni (OpAdd now e) =
     (if validate_event e = None then (case enc (redact_event uni e) of Inl _ \<Rightarrow> [] | Inr _ \<Rightarrow> [ev_sequence e]) else [])"
| "accepted_seq enc uni _ = []"

lemma appended_last [simp]: "b_last_sequence (appended enc now e b) = b_last_sequence b"
  by (auto simp: appended_def trim_locked_def trim_to_bounds_def Let_def split: list.splits prod.splits)

lemma apply_op_last:
  "b_last_sequence (apply_op enc uni op b) = foldl max (b_last_sequence b) (accepted_seq enc uni op)"
  by (cases op)
     (auto simp: buffer_add_def malformed_def append_marker_appended store_event_appended mark_history_gap_def
        set_filter_def set_paused_def Let_def redact_event_def max_def split: option.splits sum.splits)

text \<open>
  C0. The cursor for reconnecting is the largest sequence number accepted so far, whatever was
  trimmed; markers and rejected events do not move it.
\<close>

theorem cursor_is_max:
  "last_sequence (run_ops enc uni ops (new_buffer c)) = foldl max 0 (concat (map (accepted_seq enc uni) ops))"
proof -
  have "b_last_sequence (run_ops enc uni ops b) = foldl max (b_last_sequence b) (concat (map (accepted_seq enc uni) ops))" for b
    by (induction ops arbitrary: b) (simp_all add: run_ops_def apply_op_last)
  then show ?thesis by (simp add: last_sequence_def) (simp add: new_buffer_def Let_def)
qed

text \<open>
  Pausing freezes the view: while the buffer is paused no event, history gap, filter or
  repeated pause changes what is visible; resuming shows the current content under the current filter.
\<close>

theorem paused_view_frozen:
  assumes "b_paused b" and "\<forall>op \<in> set ops. op \<noteq> OpPause False"
  shows "visible (run_ops enc uni ops b) = visible b \<and>
    visible (apply_op enc uni (OpPause False) (run_ops enc uni ops b)) =
      filter (event_matches (b_filter (run_ops enc uni ops b))) (b_events (run_ops enc uni ops b))"
proof -
  have "b_paused (run_ops enc uni ops b) \<and> b_paused_rendered (run_ops enc uni ops b) = b_paused_rendered b"
    using assms
  proof (induction ops arbitrary: b)
    case Nil
    then show ?case by (simp add: run_ops_def)
  next
    case (Cons op ops)
    have frame: "b_paused (appended enc now e b) = b_paused b" "b_paused_rendered (appended enc now e b) = b_paused_rendered b" for now e b
      by (auto simp: appended_def trim_locked_def trim_to_bounds_def Let_def split: list.splits prod.splits)
    have "b_paused (apply_op enc uni op b) \<and> b_paused_rendered (apply_op enc uni op b) = b_paused_rendered b"
      using Cons.prems
      by (cases op)
         (auto simp: buffer_add_def malformed_def append_marker_appended store_event_appended mark_history_gap_def
            set_filter_def set_paused_def Let_def frame split: option.splits sum.splits)
    then show ?case using Cons.IH [of "apply_op enc uni op b"] Cons.prems by (simp add: run_ops_def)
  qed
  then show ?thesis
    using assms by (auto simp: visible_def visible_locked_def set_paused_def Let_def)
qed

subsection \<open>Redaction\<close>

text \<open>
  C14. Redaction leaves no sensitive value in maps at any depth nor in the maps of a list: under
  every sensitive key stands the placeholder, all keys are kept, and redacting again changes nothing.
\<close>

theorem redaction_complete:
  "clean_map uni (redact_map uni p) \<and> map fst (redact_map uni p) = map fst p \<and>
   redact_map uni (redact_map uni p) = redact_map uni p"
  by (simp add: redact_clean redact_keys redact_idem)

text \<open>
  C0. Redaction stops at lists of lists: whatever is in a list inside a list, sensitive keys
  included, is stored as it came.
\<close>

theorem redaction_misses_nested_lists:
  assumes "\<not> is_sensitive uni k"
  shows "redact_map uni [(k, JArr [JArr vs])] = [(k, JArr [JArr vs])]"
  using assms by simp

subsection \<open>Saving\<close>

definition ndjson :: "encoder \<Rightarrow> event list \<Rightarrow> string" where
  "ndjson enc es = concat (map (\<lambda>e. (case enc e of Inl _ \<Rightarrow> [] | Inr t \<Rightarrow> t @ [CHR 0x0A])) es)"

lemma write_lines_content:
  assumes "\<And>e. e \<in> set es \<Longrightarrow> \<exists>t. enc e = Inr t" and "fs s p = Some (FileNode old m)"
  shows "\<exists>s'. write_lines enc no_faults p es s = (None, s') \<and> fs s' p = Some (FileNode (old @ ndjson enc es) m)"
  using assms
proof (induction es arbitrary: s old)
  case Nil
  then show ?case by (simp add: ndjson_def)
next
  case (Cons e es)
  obtain t where t: "enc e = Inr t" using Cons.prems(1) by auto
  let ?s = "tick (s\<lparr>fs := (fs s)(p \<mapsto> FileNode (old @ t @ [CHR 0x0A]) m)\<rparr>)"
  have w: "file_write no_faults p (t @ [CHR 0x0A]) s = (None, ?s)"
    using Cons.prems(2) by (simp add: file_write_def no_faults_def Let_def)
  have "fs ?s p = Some (FileNode (old @ t @ [CHR 0x0A]) m)" by (simp add: tick_def)
  from Cons.IH [OF _ this] Cons.prems(1) show ?case by (simp add: t w ndjson_def)
qed

text \<open>
  Saving writes what the buffer holds: with no fault, a writable path and encodable events the
  file holds exactly one line per held event, oldest first, whatever filter or pause is set, and
  the previous content is gone.
\<close>

theorem save_writes_all:
  assumes "\<And>e. e \<in> set (b_events b) \<Longrightarrow> \<exists>t. enc e = Inr t"
    and "os_write_file no_faults p [] 384 s = (None, s1)"
  shows "\<exists>s2 m. save_ndjson enc no_faults p b s = (None, s2) \<and>
    fs s2 (path_clean p) = Some (FileNode (ndjson enc (b_events b)) m)"
proof -
  obtain m where "fs s1 (path_clean p) = Some (FileNode [] m)"
    using assms(2) by (auto simp: os_write_file_def no_faults_def put_file_def tick_def Let_def split: if_splits)
  from write_lines_content [of "b_events b" enc s1 "path_clean p" "[]" m, OF assms(1) this]
  obtain s2 where "write_lines enc no_faults (path_clean p) (b_events b) s1 = (None, s2)"
    "fs s2 (path_clean p) = Some (FileNode (ndjson enc (b_events b)) m)"
    by auto
  then show ?thesis
    by (simp add: save_ndjson_def assms(2) file_sync_def file_close_def tick_def) (simp add: no_faults_def)
qed

subsection \<open>Witnesses\<close>

definition test_event :: "64 word \<Rightarrow> string \<Rightarrow> event" where
  "test_event n kind = \<lparr>ev_sequence = n, ev_occurred_at = 5, ev_severity = ''info'', ev_source = ''survey'',
     ev_kind = kind, ev_correlation_id = [], ev_payload = Some [(''password'', JStr ''hunter2'')]\<rparr>"

definition test_enc :: encoder where
  "test_enc e = Inr (ev_kind e)"

definition small_config :: buffer_config where
  "small_config = \<lparr>cfg_max_events = 2, cfg_max_bytes = 100\<rparr>"

lemma test_valid: "validate_event (test_event n (c # k)) = None"
  by (simp add: validate_event_def test_event_def severities_def)

theorem buffer_lossless_witness:
  "map ev_kind (b_events (run_ops test_enc id [OpAdd 9 (test_event 1 ''a''), OpAdd 9 (test_event 2 ''b'')] (new_buffer small_config))) = [''a'', ''b'']"
proof -
  let ?ops = "[OpAdd 9 (test_event 1 ''a''), OpAdd 9 (test_event 2 ''b'')]"
  have entries: "concat (map (op_entry test_enc id) ?ops) = [redact_event id (test_event 1 ''a''), redact_event id (test_event 2 ''b'')]"
    by (simp add: test_valid test_enc_def)
  have "fits test_enc (b_config (new_buffer small_config)) False (concat (map (op_entry test_enc id) ?ops))"
    unfolding entries
    by (simp add: fits_def event_bytes_def event_size_def test_enc_def redact_event_def test_event_def new_buffer_def
        small_config_def Let_def)
  from buffer_lossless [OF this] show ?thesis
    unfolding entries by (simp add: redact_event_def test_event_def)
qed

theorem paused_view_frozen_witness:
  "visible (run_ops test_enc id [OpAdd 9 (test_event 3 ''c'')] (set_paused True (new_buffer small_config))) = []"
proof -
  have "b_paused (set_paused True (new_buffer small_config))" "visible (set_paused True (new_buffer small_config)) = []"
    by (simp_all add: set_paused_def visible_def visible_locked_def new_buffer_def Let_def)
  with paused_view_frozen [of "set_paused True (new_buffer small_config)" "[OpAdd 9 (test_event 3 ''c'')]" test_enc id]
  show ?thesis by simp
qed

theorem redaction_misses_nested_lists_witness:
  "redact_map id [(''samples'', JArr [JArr [JObj [(''password'', JStr ''hunter2'')]]])] =
     [(''samples'', JArr [JArr [JObj [(''password'', JStr ''hunter2'')]]])]"
proof -
  have "\<not> is_sensitive id ''samples''"
    by (simp add: is_sensitive_def dashes_to_underscores_def to_lower_def is_ascii_def lower_char_def sensitive_keys_def Let_def)
  then show ?thesis by (rule redaction_misses_nested_lists)
qed

theorem save_writes_all_witness:
  "\<exists>s2 m. save_ndjson test_enc no_faults ''log'' ((new_buffer small_config)\<lparr>b_events := [test_event 1 ''a'']\<rparr>)
       \<lparr>fs = (\<lambda>_. None), ios = 0\<rparr> = (None, s2) \<and> fs s2 ''log'' = Some (FileNode [CHR ''a'', CHR 0x0A] m)"
proof -
  let ?b = "(new_buffer small_config)\<lparr>b_events := [test_event 1 ''a'']\<rparr>"
  have clean: "path_clean ''log'' = ''log''"
    by (simp add: path_clean_def path_parts_def is_rooted_def of_parts_def)
  have dir: "path_dir ''log'' = ''.''"
    by (simp add: path_dir_def path_clean_def path_parts_def is_rooted_def of_parts_def)
  obtain s1 where w: "os_write_file no_faults ''log'' [] 384 \<lparr>fs = (\<lambda>_. None), ios = 0\<rparr> = (None, s1)"
    by (simp add: os_write_file_def clean dir no_faults_def is_dir_def Let_def)
  have "\<exists>t. test_enc e = Inr t" for e by (simp add: test_enc_def)
  from save_writes_all [of ?b test_enc, OF this w] show ?thesis
    by (simp add: clean ndjson_def test_enc_def test_event_def)
qed

end
