(* ===== verification/Event_Client.thy ===== *)
theory Event_Client
  imports Event_Buffer_Properties
begin

section \<open>The event consumer of the laptop\<close>

text \<open>
  \<open>Client\<close> of \<open>model/events.go\<close> and the adapters of \<open>controlplane/eventstream.go\<close>. \<open>Consume\<close> is a
  machine with two places where it waits for the outside: opening a stream, and receiving from
  it. One input answers one wait: the result of the call, whether the context is done when it is
  looked at, and whether the reconnect timer fires first.
\<close>

subsection \<open>Streams\<close>

definition err_resync_required :: go_error where
  "err_resync_required = ErrSentinel ''model.ErrResyncRequired'' ''event stream resync required''"

definition err_rpc_resync :: go_error where
  "err_rpc_resync = ErrSentinel ''controlplane.ErrResyncRequired'' ''event history gap requires resync''"

text \<open>
  The two channels of \<open>StreamEvents\<close>. A receive on a closed, drained channel is ready at once;
  \<open>select\<close> takes any ready case, here the one \<open>pick_events\<close> says when both are.
\<close>

record event_stream =
  es_events :: "event list"
  es_events_closed :: bool
  es_errs :: "go_error list"
  es_errs_closed :: bool

definition events_ready :: "event_stream \<Rightarrow> bool" where
  "events_ready s \<longleftrightarrow> es_events s \<noteq> [] \<or> es_events_closed s"

definition errs_ready :: "event_stream \<Rightarrow> bool" where
  "errs_ready s \<longleftrightarrow> es_errs s \<noteq> [] \<or> es_errs_closed s"

definition recv_events :: "event_stream \<Rightarrow> (go_error + event) \<times> event_stream" where
  "recv_events s = (case es_events s of [] \<Rightarrow> (Inl io_eof, s) | e # es \<Rightarrow> (Inr e, s\<lparr>es_events := es\<rparr>))"

definition recv_errs :: "event_stream \<Rightarrow> (go_error + event) \<times> event_stream" where
  "recv_errs s = (case es_errs s of
       [] \<Rightarrow> (Inl io_eof, s)
     | err # rest \<Rightarrow>
         (Inl (if errors_is err err_rpc_resync then err_resync_required else err), s\<lparr>es_errs := rest\<rparr>))"

definition stream_recv :: "bool \<Rightarrow> event_stream \<Rightarrow> ((go_error + event) \<times> event_stream) option" where
  "stream_recv pick_events s =
     (if events_ready s \<and> (pick_events \<or> \<not> errs_ready s) then Some (recv_events s)
      else if errs_ready s then Some (recv_errs s)
      else None)"

subsection \<open>The client\<close>

record status_snapshot =
  ss_survey :: string
  ss_observed_at :: time
  ss_stale :: bool

text \<open>\<open>FetchStatus\<close>: the status of the control plane, dated now.\<close>

definition fetch_status :: "time \<Rightarrow> go_error + string \<Rightarrow> go_error + status_snapshot" where
  "fetch_status now r = (case r of
       Inl e \<Rightarrow> Inl e
     | Inr survey \<Rightarrow> Inr \<lparr>ss_survey = survey, ss_observed_at = now, ss_stale = False\<rparr>)"

record event_client =
  c_buffer :: buffer
  c_reconnect_delay :: int
  c_has_fetch :: bool
  c_status :: status_snapshot

definition no_status :: status_snapshot where
  "no_status = \<lparr>ss_survey = [], ss_observed_at = 0, ss_stale = False\<rparr>"

definition new_client :: "buffer \<Rightarrow> bool \<Rightarrow> event_client" where
  "new_client b has_fetch = \<lparr>c_buffer = b, c_reconnect_delay = 1000000000, c_has_fetch = has_fetch, c_status = no_status\<rparr>"

definition set_reconnect_delay :: "int \<Rightarrow> event_client \<Rightarrow> event_client" where
  "set_reconnect_delay d c = c\<lparr>c_reconnect_delay := d\<rparr>"

definition apply_status :: "event \<Rightarrow> event_client \<Rightarrow> event_client" where
  "apply_status e c =
     (if ev_kind e \<noteq> kind_status then c
      else (case ev_payload e of
          None \<Rightarrow> c
        | Some p \<Rightarrow>
            (case map_of p ''scan_status'' of
               Some (JStr v) \<Rightarrow> c\<lparr>c_status := \<lparr>ss_survey = v, ss_observed_at = ev_occurred_at e, ss_stale = False\<rparr>\<rparr>
             | _ \<Rightarrow> c)))"

record wait_input =
  wi_ctx :: "go_error option"
  wi_timer_first :: bool

definition wait_reconnect :: "event_client \<Rightarrow> wait_input \<Rightarrow> go_error option" where
  "wait_reconnect c w =
     (if c_reconnect_delay c \<le> 0 then wi_ctx w
      else if wi_timer_first w then None else wi_ctx w)"

subsection \<open>Consume\<close>

datatype consume_loc = AtOpen | AtRecv | Returned go_error

datatype consume_input =
    OpenResult "go_error option" wait_input
  | RecvResult "go_error option" "go_error + event" time "go_error + status_snapshot" wait_input

text \<open>What follows a failed receive.\<close>

definition consume_error ::
  "encoder \<Rightarrow> time \<Rightarrow> go_error \<Rightarrow> go_error + status_snapshot \<Rightarrow> wait_input \<Rightarrow> event_client \<Rightarrow> event_client \<times> consume_loc" where
  "consume_error enc now err fetched w c =
     (if errors_is err err_resync_required then
        (let c = c\<lparr>c_buffer := mark_history_gap enc now ''server replay window expired; status refreshed'' (c_buffer c)\<rparr>;
             c = (if c_has_fetch c then (case fetched of Inl _ \<Rightarrow> c | Inr st \<Rightarrow> c\<lparr>c_status := st\<rparr>) else c)
         in (c, AtRecv))
      else if errors_is err ctx_canceled then (c, Returned err)
      else (case wait_reconnect c w of Some e \<Rightarrow> (c, Returned e) | None \<Rightarrow> (c, AtOpen)))"

fun consume_step ::
  "encoder \<Rightarrow> (string \<Rightarrow> string) \<Rightarrow> consume_input \<Rightarrow> event_client \<times> consume_loc \<Rightarrow> event_client \<times> consume_loc" where
  "consume_step enc uni (OpenResult None w) (c, AtOpen) = (c, AtRecv)"
| "consume_step enc uni (OpenResult (Some e) w) (c, AtOpen) =
     (case wait_reconnect c w of Some e \<Rightarrow> (c, Returned e) | None \<Rightarrow> (c, AtOpen))"
| "consume_step enc uni (RecvResult (Some e) r now fetched w) (c, AtRecv) = (c, Returned e)"
| "consume_step enc uni (RecvResult None (Inr ev) now fetched w) (c, AtRecv) =
     (apply_status ev (c\<lparr>c_buffer := snd (buffer_add enc uni now ev (c_buffer c))\<rparr>), AtRecv)"
| "consume_step enc uni (RecvResult None (Inl err) now fetched w) (c, AtRecv) = consume_error enc now err fetched w c"
| "consume_step enc uni i s = s"

text \<open>A run records the cursor of every stream it opens.\<close>

fun consume_cursor :: "consume_input \<Rightarrow> event_client \<times> consume_loc \<Rightarrow> 64 word list" where
  "consume_cursor (OpenResult e w) (c, AtOpen) = [last_sequence (c_buffer c)]"
| "consume_cursor i s = []"

fun consume_run ::
  "encoder \<Rightarrow> (string \<Rightarrow> string) \<Rightarrow> consume_input list \<Rightarrow> event_client \<times> consume_loc \<Rightarrow> (event_client \<times> consume_loc) \<times> 64 word list" where
  "consume_run enc uni [] s = (s, [])"
| "consume_run enc uni (i # is) s =
     (case consume_run enc uni is (consume_step enc uni i s) of (s', cs) \<Rightarrow> (s', consume_cursor i s @ cs))"

definition consume_start :: "go_error option \<Rightarrow> event_client \<Rightarrow> event_client \<times> consume_loc" where
  "consume_start ctx c = (case ctx of Some e \<Rightarrow> (c, Returned e) | None \<Rightarrow> (c, AtOpen))"

subsection \<open>The cursor\<close>

text \<open>The sequence numbers an input brings in, at a place that takes it.\<close>

fun input_seq :: "encoder \<Rightarrow> (string \<Rightarrow> string) \<Rightarrow> consume_input \<Rightarrow> event_client \<times> consume_loc \<Rightarrow> 64 word list" where
  "input_seq enc uni (RecvResult None (Inr ev) now f w) (c, AtRecv) = accepted_seq enc uni (OpAdd now ev)"
| "input_seq enc uni i s = []"

lemma apply_status_buffer [simp]: "c_buffer (apply_status e c) = c_buffer c"
  by (auto simp: apply_status_def split: option.splits json.splits)

lemma consume_error_last: "last_sequence (c_buffer (fst (consume_error enc now err f w c))) = last_sequence (c_buffer c)"
  by (auto simp: consume_error_def Let_def last_sequence_def mark_history_gap_def append_marker_appended
      split: option.splits sum.splits)

lemma buffer_add_last:
  "last_sequence (snd (buffer_add enc uni now e b)) = foldl max (last_sequence b) (accepted_seq enc uni (OpAdd now e))"
  using apply_op_last [of enc uni "OpAdd now e" b] by (simp add: last_sequence_def)

lemma consume_step_last:
  "last_sequence (c_buffer (fst (consume_step enc uni i s))) = foldl max (last_sequence (c_buffer (fst s))) (input_seq enc uni i s)"
  by (induction enc uni i s rule: consume_step.induct)
     (simp_all add: consume_error_last buffer_add_last del: accepted_seq.simps split: option.splits)

fun received_seq :: "encoder \<Rightarrow> (string \<Rightarrow> string) \<Rightarrow> consume_input list \<Rightarrow> event_client \<times> consume_loc \<Rightarrow> 64 word list" where
  "received_seq enc uni [] s = []"
| "received_seq enc uni (i # is) s = input_seq enc uni i s @ received_seq enc uni is (consume_step enc uni i s)"

lemma consume_run_last:
  "last_sequence (c_buffer (fst (fst (consume_run enc uni is s)))) =
     foldl max (last_sequence (c_buffer (fst s))) (received_seq enc uni is s)"
  by (induction "is" arbitrary: s) (simp_all add: consume_step_last split_def)

lemma consume_run_snoc:
  "consume_run enc uni (is @ [i]) s =
     (consume_step enc uni i (fst (consume_run enc uni is s)),
      snd (consume_run enc uni is s) @ consume_cursor i (fst (consume_run enc uni is s)))"
  by (induction "is" arbitrary: s) (simp_all add: split_def)

subsection \<open>Properties\<close>

text \<open>
  C11. The consumer resumes after the newest event it accepted: every stream is opened with the
  largest sequence number accepted on all streams before it, so a reconnect neither skips an event
  nor asks again for one it has.
\<close>

theorem consume_resumes:
  assumes "consume_run enc uni is s = ((c, AtOpen), cs)"
  shows "snd (consume_run enc uni (is @ [OpenResult e w]) s) =
    cs @ [foldl max (last_sequence (c_buffer (fst s))) (received_seq enc uni is s)]"
  using consume_run_last [of enc uni "is" s] assms by (simp add: consume_run_snoc)

fun input_ctx :: "consume_input \<Rightarrow> go_error option list" where
  "input_ctx (OpenResult e w) = [wi_ctx w]"
| "input_ctx (RecvResult ctx r now f w) = [ctx, wi_ctx w]"

fun input_canceled :: "consume_input \<Rightarrow> go_error list" where
  "input_canceled (RecvResult ctx (Inl err) now f w) = (if errors_is err ctx_canceled then [err] else [])"
| "input_canceled _ = []"

lemma wait_reconnect_ctx: "wait_reconnect c w = Some e \<Longrightarrow> wi_ctx w = Some e"
  by (simp add: wait_reconnect_def split: if_splits)

lemma consume_step_returned:
  "consume_step enc uni i (c, l) = (c', Returned e) \<Longrightarrow>
     l = Returned e \<or> Some e \<in> set (input_ctx i) \<or> e \<in> set (input_canceled i)"
  by (induction enc uni i "(c, l)" rule: consume_step.induct)
     (auto simp: consume_error_def Let_def dest: wait_reconnect_ctx split: option.splits if_splits sum.splits)

text \<open>
  Consuming ends only by cancellation: the error it returns is the context's or one that is a
  cancellation; no other failure to open a stream or to receive from it ends it.
\<close>

theorem consume_ends_canceled:
  assumes "consume_run enc uni is (c, AtOpen) = ((c', Returned e), cs)"
  shows "Some e \<in> set (concat (map input_ctx is)) \<or> e \<in> set (concat (map input_canceled is))"
  using assms
proof (induction "is" arbitrary: c' e cs rule: rev_induct)
  case Nil
  then show ?case by simp
next
  case (snoc i "is")
  obtain c1 l1 cs1 where r: "consume_run enc uni is (c, AtOpen) = ((c1, l1), cs1)" by (metis prod.exhaust)
  then have "consume_step enc uni i (c1, l1) = (c', Returned e)"
    using snoc.prems by (simp add: consume_run_snoc)
  from consume_step_returned [OF this] r snoc.IH show ?case by auto
qed

text \<open>
  A history gap may go unnoticed on its stream: when the stream has ended with the resync error
  still queued, the receive may report the end of the stream instead, and likewise may do so while
  events are still queued.
\<close>

theorem recv_may_hide_resync:
  "fst (the (stream_recv True \<lparr>es_events = [], es_events_closed = True, es_errs = [err_rpc_resync], es_errs_closed = True\<rparr>)) = Inl io_eof \<and>
   fst (the (stream_recv False \<lparr>es_events = [], es_events_closed = True, es_errs = [err_rpc_resync], es_errs_closed = True\<rparr>)) = Inl err_resync_required \<and>
   fst (the (stream_recv False \<lparr>es_events = [ev], es_events_closed = False, es_errs = [], es_errs_closed = True\<rparr>)) = Inl io_eof"
  by (simp add: stream_recv_def events_ready_def errs_ready_def recv_events_def recv_errs_def)

lemma no_event_cursor:
  assumes "\<forall>i \<in> set is. \<forall>ctx e now f w. i \<noteq> RecvResult ctx (Inr e) now f w"
  shows "received_seq enc uni is s = []"
  using assms
proof (induction "is" arbitrary: s)
  case Nil
  then show ?case by simp
next
  case (Cons i "is")
  have "input_seq enc uni i s = []"
    using Cons.prems by (induction enc uni i s rule: input_seq.induct) auto
  with Cons show ?case by simp
qed

lemma no_event_cursors:
  assumes "\<forall>i \<in> set is. \<forall>ctx e now f w. i \<noteq> RecvResult ctx (Inr e) now f w"
  shows "set (snd (consume_run enc uni is s)) \<subseteq> {last_sequence (c_buffer (fst s))}"
  using assms
proof (induction "is" arbitrary: s)
  case Nil
  then show ?case by simp
next
  case (Cons i "is")
  have "input_seq enc uni i s = []"
    using Cons.prems by (induction enc uni i s rule: input_seq.induct) auto
  then have "last_sequence (c_buffer (fst (consume_step enc uni i s))) = last_sequence (c_buffer (fst s))"
    by (simp add: consume_step_last)
  moreover have "set (consume_cursor i s) \<subseteq> {last_sequence (c_buffer (fst s))}"
    by (induction i s rule: consume_cursor.induct) auto
  ultimately show ?case
    using Cons.IH [of "consume_step enc uni i s"] Cons.prems by (auto split: prod.splits)
qed

subsection \<open>Witnesses\<close>

definition test_client :: event_client where
  "test_client = new_client (new_buffer small_config) True"

definition test_wait :: wait_input where
  "test_wait = \<lparr>wi_ctx = None, wi_timer_first = True\<rparr>"

definition test_inputs :: "consume_input list" where
  "test_inputs = [OpenResult None test_wait, RecvResult None (Inr (test_event 7 ''status'')) 9 (Inl io_eof) test_wait,
     RecvResult None (Inl io_eof) 9 (Inl io_eof) test_wait]"

lemma test_run: "\<exists>c. consume_run test_enc id test_inputs (test_client, AtOpen) = ((c, AtOpen), [0])"
  by (simp add: test_inputs_def test_client_def new_client_def consume_error_def errors_is.simps io_eof_def
      err_resync_required_def ctx_canceled_def wait_reconnect_def test_wait_def last_sequence_def)
     (simp add: new_buffer_def Let_def)

theorem consume_resumes_witness:
  "snd (consume_run test_enc id (test_inputs @ [OpenResult None test_wait]) (test_client, AtOpen)) = [0, 7]"
proof -
  obtain c where run: "consume_run test_enc id test_inputs (test_client, AtOpen) = ((c, AtOpen), [0])"
    using test_run by blast
  have "received_seq test_enc id test_inputs (test_client, AtOpen) = [7]"
    by (simp add: test_inputs_def test_valid test_enc_def test_event_def [of 7]) (simp add: test_event_def [symmetric] test_valid)
  moreover have "last_sequence (c_buffer test_client) = 0"
    by (simp add: test_client_def new_client_def last_sequence_def new_buffer_def Let_def)
  ultimately show ?thesis using consume_resumes [OF run, of None test_wait] by simp
qed

theorem consume_ends_canceled_witness:
  "\<exists>c cs. consume_run test_enc id [OpenResult None test_wait, RecvResult (Some ctx_canceled) (Inl io_eof) 9 (Inl io_eof) test_wait]
      (test_client, AtOpen) = ((c, Returned ctx_canceled), cs) \<and>
     Some ctx_canceled \<in> set (concat (map input_ctx [OpenResult None test_wait, RecvResult (Some ctx_canceled) (Inl io_eof) 9 (Inl io_eof) test_wait]))"
proof -
  let ?is = "[OpenResult None test_wait, RecvResult (Some ctx_canceled) (Inl io_eof) 9 (Inl io_eof) test_wait]"
  obtain c cs where run: "consume_run test_enc id ?is (test_client, AtOpen) = ((c, Returned ctx_canceled), cs)"
    by simp
  from consume_ends_canceled [OF run] run show ?thesis
    by (auto simp: io_eof_def ctx_canceled_def test_wait_def)
qed

end
