(* ===== verification/Agent_Pki.thy ===== *)
theory Agent_Pki
  imports Go_OS
begin

section \<open>The private certificate authority of the agent\<close>

text \<open>
  \<open>bottle-agent/internal/pki/pki.go\<close>. Cryptography is symbolic: a private key is a number, which is
  also its public key; a certificate records who signed it. What lies outside the program is the
  record \<open>crypto\<close>: key generation and serial numbers (by how often the generator was asked), the
  clock, the DER and PEM encodings and SHA-256.
\<close>

subsection \<open>Certificates\<close>

datatype ext_usage = ServerAuth | ClientAuth

datatype key_usage = CertSign | CRLSign | DigitalSignature | KeyEncipherment

record cert_body =
  cb_serial :: nat
  cb_subject :: string
  cb_issuer :: string
  cb_public :: nat
  cb_signer :: nat
  cb_not_before :: time
  cb_not_after :: time
  cb_key_usage :: "key_usage list"
  cb_ext_usage :: "ext_usage list"
  cb_ips :: "string list"
  cb_is_ca :: bool

text \<open>A parsed certificate keeps the bytes it was parsed from.\<close>

record x509 =
  xc_raw :: string
  xc_body :: cert_body

record crypto =
  gen_key :: "nat \<Rightarrow> go_error + nat"
  rand_serial :: "nat \<Rightarrow> go_error + nat"
  now_at :: "nat \<Rightarrow> time"
  encode_cert :: "cert_body \<Rightarrow> string"
  decode_cert :: "string \<Rightarrow> go_error + cert_body"
  encode_key :: "nat \<Rightarrow> go_error + string"
  decode_key :: "string \<Rightarrow> go_error + nat"
  pem_encode :: "string \<Rightarrow> string \<Rightarrow> string"
  pem_decode :: "string \<Rightarrow> string option"
  sha256_hex :: "string \<Rightarrow> string"

record setup_state =
  su_os :: os
  su_rand :: nat
  su_clock :: nat
  su_out :: string

definition parse_certificate :: "crypto \<Rightarrow> string \<Rightarrow> go_error + x509" where
  "parse_certificate cr der = (case decode_cert cr der of Inl e \<Rightarrow> Inl e | Inr b \<Rightarrow> Inr \<lparr>xc_raw = der, xc_body = b\<rparr>)"

text \<open>\<open>ecdsa.GenerateKey\<close> and \<open>rand.Int\<close> read the random source, \<open>time.Now\<close> the clock.\<close>

definition generate_key :: "crypto \<Rightarrow> (setup_state, go_error + nat) prog" where
  "generate_key cr s = (Ret (gen_key cr (su_rand s)), s\<lparr>su_rand := Suc (su_rand s)\<rparr>)"

definition random_serial :: "crypto \<Rightarrow> (setup_state, go_error + nat) prog" where
  "random_serial cr s = (Ret (rand_serial cr (su_rand s)), s\<lparr>su_rand := Suc (su_rand s)\<rparr>)"

definition read_clock :: "crypto \<Rightarrow> (setup_state, time) prog" where
  "read_clock cr s = (Ret (now_at cr (su_clock s)), s\<lparr>su_clock := Suc (su_clock s)\<rparr>)"

text \<open>\<open>x509.CreateCertificate\<close>: the signing key has to be the key of the parent, unless the
  certificate is its own parent, which carries no key yet.\<close>

definition create_certificate :: "crypto \<Rightarrow> cert_body \<Rightarrow> x509 option \<Rightarrow> nat \<Rightarrow> nat \<Rightarrow> go_error + string" where
  "create_certificate cr template parent pub priv =
     (case parent of
        None \<Rightarrow> Inr (encode_cert cr (template\<lparr>cb_issuer := cb_subject template, cb_public := pub, cb_signer := priv\<rparr>))
      | Some p \<Rightarrow>
          if cb_public (xc_body p) \<noteq> priv
          then Inl (ErrText (''x509: provided PrivateKey doesn'' @ [char_of (39::nat)] @ ''t match parent'' @ [char_of (39::nat)] @ ''s PublicKey''))
          else Inr (encode_cert cr (template\<lparr>cb_issuer := cb_subject (xc_body p), cb_public := pub, cb_signer := priv\<rparr>)))"

definition encode_cert_pem :: "crypto \<Rightarrow> string \<Rightarrow> string" where
  "encode_cert_pem cr der = pem_encode cr ''CERTIFICATE'' der"

definition encode_key_pem :: "crypto \<Rightarrow> nat \<Rightarrow> go_error + string" where
  "encode_key_pem cr key = (case encode_key cr key of Inl e \<Rightarrow> Inl e | Inr der \<Rightarrow> Inr (pem_encode cr ''EC PRIVATE KEY'' der))"

definition parse_cert_pem :: "crypto \<Rightarrow> string \<Rightarrow> go_error + x509" where
  "parse_cert_pem cr data =
     (case pem_decode cr data of None \<Rightarrow> Inl (ErrText ''no PEM certificate block found'') | Some der \<Rightarrow> parse_certificate cr der)"

definition parse_key_pem :: "crypto \<Rightarrow> string \<Rightarrow> go_error + nat" where
  "parse_key_pem cr data =
     (case pem_decode cr data of None \<Rightarrow> Inl (ErrText ''no PEM key block found'') | Some der \<Rightarrow> decode_key cr der)"

text \<open>\<open>AppendCertsFromPEM\<close> and \<open>tls.X509KeyPair\<close>.\<close>

definition pem_is_cert :: "crypto \<Rightarrow> string \<Rightarrow> bool" where
  "pem_is_cert cr pem = (case parse_cert_pem cr pem of Inl e \<Rightarrow> False | Inr x \<Rightarrow> True)"

definition x509_key_pair :: "crypto \<Rightarrow> string \<Rightarrow> string \<Rightarrow> go_error + x509 \<times> nat" where
  "x509_key_pair cr cert_pem key_pem =
     (case parse_cert_pem cr cert_pem of
        Inl err \<Rightarrow> Inl err
      | Inr x \<Rightarrow>
          (case parse_key_pem cr key_pem of
             Inl err \<Rightarrow> Inl err
           | Inr k \<Rightarrow>
               if cb_public (xc_body x) \<noteq> k then Inl (ErrText ''tls: private key does not match public key'')
               else Inr (x, k)))"

subsection \<open>The authority\<close>

record ca =
  ca_cert :: x509
  ca_key :: nat

definition hour :: time where
  "hour = 3600000000000"

definition new_ca :: "crypto \<Rightarrow> string \<Rightarrow> time \<Rightarrow> (setup_state, go_error + ca) prog" where
  "new_ca cr common_name validity =
     tryP (wrapped ''generate CA key: '') (generate_key cr) (\<lambda>key.
     tryP id (random_serial cr) (\<lambda>serial.
     bindP (read_clock cr) (\<lambda>t1.
     bindP (read_clock cr) (\<lambda>t2.
     let template = \<lparr>cb_serial = serial, cb_subject = common_name, cb_issuer = [], cb_public = 0, cb_signer = 0,
           cb_not_before = t1 - hour, cb_not_after = t2 + validity,
           cb_key_usage = [CertSign, CRLSign, DigitalSignature], cb_ext_usage = [], cb_ips = [], cb_is_ca = True\<rparr> in
     tryP (wrapped ''create CA certificate: '') (retP (create_certificate cr template None key key)) (\<lambda>der.
     tryP id (retP (parse_certificate cr der)) (\<lambda>cert. retP (Inr \<lparr>ca_cert = cert, ca_key = key\<rparr>)))))))"

definition load_ca :: "crypto \<Rightarrow> string \<Rightarrow> string \<Rightarrow> go_error + ca" where
  "load_ca cr cert_pem key_pem =
     (case parse_cert_pem cr cert_pem of
        Inl err \<Rightarrow> Inl (wrapped ''parse CA certificate: '' err)
      | Inr cert \<Rightarrow>
          (case parse_key_pem cr key_pem of
             Inl err \<Rightarrow> Inl (wrapped ''parse CA key: '' err)
           | Inr key \<Rightarrow> Inr \<lparr>ca_cert = cert, ca_key = key\<rparr>))"

definition encode_ca_pem :: "crypto \<Rightarrow> ca \<Rightarrow> go_error + string \<times> string" where
  "encode_ca_pem cr c =
     (case encode_key_pem cr (ca_key c) of
        Inl err \<Rightarrow> Inl err
      | Inr key_pem \<Rightarrow> Inr (encode_cert_pem cr (xc_raw (ca_cert c)), key_pem))"

definition issue ::
  "crypto \<Rightarrow> ca \<Rightarrow> string \<Rightarrow> string list \<Rightarrow> time \<Rightarrow> ext_usage \<Rightarrow> (setup_state, go_error + string \<times> string) prog" where
  "issue cr c common_name ips validity ext =
     tryP (wrapped ''generate key: '') (generate_key cr) (\<lambda>key.
     tryP id (random_serial cr) (\<lambda>serial.
     bindP (read_clock cr) (\<lambda>t1.
     bindP (read_clock cr) (\<lambda>t2.
     let template = \<lparr>cb_serial = serial, cb_subject = common_name, cb_issuer = [], cb_public = 0, cb_signer = 0,
           cb_not_before = t1 - hour, cb_not_after = t2 + validity,
           cb_key_usage = [DigitalSignature, KeyEncipherment], cb_ext_usage = [ext], cb_ips = ips, cb_is_ca = False\<rparr> in
     tryP (wrapped ''sign certificate: '') (retP (create_certificate cr template (Some (ca_cert c)) key (ca_key c))) (\<lambda>der.
     tryP id (retP (encode_key_pem cr key)) (\<lambda>key_pem. retP (Inr (encode_cert_pem cr der, key_pem))))))))"

definition issue_server_cert :: "crypto \<Rightarrow> ca \<Rightarrow> string \<Rightarrow> string list \<Rightarrow> time \<Rightarrow> (setup_state, go_error + string \<times> string) prog" where
  "issue_server_cert cr c common_name ips validity = issue cr c common_name ips validity ServerAuth"

definition issue_client_cert :: "crypto \<Rightarrow> ca \<Rightarrow> string \<Rightarrow> time \<Rightarrow> (setup_state, go_error + string \<times> string) prog" where
  "issue_client_cert cr c common_name validity = issue cr c common_name [] validity ClientAuth"

definition fingerprint :: "crypto \<Rightarrow> string \<Rightarrow> go_error + string" where
  "fingerprint cr cert_pem =
     (case parse_cert_pem cr cert_pem of Inl err \<Rightarrow> Inl err | Inr cert \<Rightarrow> Inr (sha256_hex cr (xc_raw cert)))"

subsection \<open>What the encodings promise\<close>

definition crypto_laws :: "crypto \<Rightarrow> bool" where
  "crypto_laws cr \<longleftrightarrow>
     (\<forall>b. decode_cert cr (encode_cert cr b) = Inr b) \<and>
     (\<forall>k d. encode_key cr k = Inr d \<longrightarrow> decode_key cr d = Inr k) \<and>
     (\<forall>t d. pem_decode cr (pem_encode cr t d) = Some d)"

lemma parse_encoded_cert:
  "crypto_laws cr \<Longrightarrow> parse_cert_pem cr (encode_cert_pem cr (encode_cert cr b)) = Inr \<lparr>xc_raw = encode_cert cr b, xc_body = b\<rparr>"
  by (simp add: crypto_laws_def parse_cert_pem_def encode_cert_pem_def parse_certificate_def)

lemma parse_encoded_key: "crypto_laws cr \<Longrightarrow> encode_key_pem cr k = Inr pem \<Longrightarrow> parse_key_pem cr pem = Inr k"
  by (auto simp: crypto_laws_def parse_key_pem_def encode_key_pem_def split: sum.splits)

text \<open>\<open>wf_ca\<close>: the key signs for the certificate; \<open>issued_by\<close>: a PEM pair issued under an authority.\<close>

definition wf_ca :: "crypto \<Rightarrow> ca \<Rightarrow> bool" where
  "wf_ca cr c \<longleftrightarrow> cb_public (xc_body (ca_cert c)) = ca_key c \<and> cb_is_ca (xc_body (ca_cert c)) \<and>
     parse_certificate cr (xc_raw (ca_cert c)) = Inr (ca_cert c)"

definition issued_by :: "crypto \<Rightarrow> ca \<Rightarrow> string \<Rightarrow> string list \<Rightarrow> ext_usage \<Rightarrow> string \<Rightarrow> string \<Rightarrow> bool" where
  "issued_by cr c common_name ips ext cert_pem key_pem \<longleftrightarrow>
     (\<exists>x k. parse_cert_pem cr cert_pem = Inr x \<and> parse_key_pem cr key_pem = Inr k \<and>
        cb_public (xc_body x) = k \<and> cb_signer (xc_body x) = ca_key c \<and> cb_public (xc_body (ca_cert c)) = ca_key c \<and>
        cb_issuer (xc_body x) = cb_subject (xc_body (ca_cert c)) \<and> cb_subject (xc_body x) = common_name \<and>
        cb_ips (xc_body x) = ips \<and> cb_ext_usage (xc_body x) = [ext] \<and> \<not> cb_is_ca (xc_body x))"

lemmas pki_simps = wp_ret wp_bind tryP_def checkP_def

lemma wp_reads [prog_simps]:
  "wp (generate_key cr) Q s \<longleftrightarrow> Q (Ret (gen_key cr (su_rand s))) (s\<lparr>su_rand := Suc (su_rand s)\<rparr>)"
  "wp (random_serial cr) Q s \<longleftrightarrow> Q (Ret (rand_serial cr (su_rand s))) (s\<lparr>su_rand := Suc (su_rand s)\<rparr>)"
  "wp (read_clock cr) R s \<longleftrightarrow> R (Ret (now_at cr (su_clock s))) (s\<lparr>su_clock := Suc (su_clock s)\<rparr>)"
  by (simp_all add: wp_def generate_key_def random_serial_def read_clock_def)

text \<open>Nothing here touches a file.\<close>

lemma new_ca_wp:
  assumes "crypto_laws cr"
  shows "wp (new_ca cr cn v) (\<lambda>r s'. su_os s' = su_os s \<and> su_out s' = su_out s \<and> su_rand s \<le> su_rand s' \<and>
     (\<exists>x. r = Ret x \<and> (\<forall>c. x = Inr c \<longrightarrow> wf_ca cr c \<and> gen_key cr (su_rand s) = Inr (ca_key c)))) s"
  using assms
  by (auto simp: new_ca_def tryP_def prog_simps Let_def create_certificate_def parse_certificate_def wf_ca_def crypto_laws_def
      split: sum.split)

lemma issue_wp:
  assumes "crypto_laws cr"
  shows "wp (issue cr c cn ips v ext) (\<lambda>r s'. su_os s' = su_os s \<and> su_out s' = su_out s \<and> su_rand s \<le> su_rand s' \<and>
     (\<exists>x. r = Ret x \<and> (\<forall>cp kp. x = Inr (cp, kp) \<longrightarrow> issued_by cr c cn ips ext cp kp))) s"
  using assms parse_encoded_key [OF assms]
  by (auto simp: issue_def tryP_def prog_simps Let_def create_certificate_def issued_by_def parse_encoded_cert split: sum.split)

lemma parsed_raw: "parse_cert_pem cr pem = Inr x \<Longrightarrow> parse_certificate cr (xc_raw x) = Inr x"
  by (auto simp: parse_cert_pem_def parse_certificate_def split: option.splits sum.splits)

lemma parse_raw_pem: "crypto_laws cr \<Longrightarrow> parse_certificate cr (xc_raw x) = Inr x \<Longrightarrow> parse_cert_pem cr (encode_cert_pem cr (xc_raw x)) = Inr x"
  by (simp add: crypto_laws_def parse_cert_pem_def encode_cert_pem_def)

lemma load_ca_wf:
  assumes "crypto_laws cr" "wf_ca cr c" "encode_ca_pem cr c = Inr (cp, kp)"
  shows "load_ca cr cp kp = Inr c"
  using assms parse_encoded_key [OF assms(1), of "ca_key c" kp]
  by (auto simp: load_ca_def encode_ca_pem_def parse_cert_pem_def encode_cert_pem_def wf_ca_def crypto_laws_def split: sum.splits)

end
