(* ===== verification/Agent_Pairing.thy ===== *)
theory Agent_Pairing
  imports Jobs
begin

section \<open>The pairing store of the agent\<close>

text \<open>
  \<open>bottle-agent/internal/controlplane/server.go\<close>, \<open>PairingStore\<close>: the allowlist of client
  certificates, the physical window in which a client may be added, and the file that makes the
  list survive a restart. The list is a Go map, nil (\<open>None\<close>) when the file held the JSON text
  \<open>null\<close>. \<open>pairing_codec\<close> is the JSON text of the map.
\<close>

type_synonym allowlist = "(string \<Rightarrow> bool option) option"

record pairing_codec =
  marshal_allowed :: "allowlist \<Rightarrow> string"
  unmarshal_allowed :: "string \<Rightarrow> go_error + allowlist"

record pairing_store =
  allowed :: allowlist
  physical_window :: bool
  ps_path :: path

definition new_pairing_store :: pairing_store where
  "new_pairing_store = \<lparr>allowed = Some Map.empty, physical_window = False, ps_path = []\<rparr>"

definition new_persistent_pairing_store ::
  "io_env \<Rightarrow> pairing_codec \<Rightarrow> path \<Rightarrow> os \<Rightarrow> (go_error + pairing_store) \<times> os" where
  "new_persistent_pairing_store io cd path s =
     (let p = \<lparr>allowed = Some Map.empty, physical_window = False, ps_path = path\<rparr> in
      case os_read_file io path s of
        (Inl err, s) \<Rightarrow>
          if is_not_exist err then (Inr p, s)
          else (Inl (ErrWrap ''read pairing allowlist: '' err []), s)
      | (Inr data, s) \<Rightarrow>
          (case unmarshal_allowed cd data of
             Inl err \<Rightarrow> (Inl (ErrWrap ''decode pairing allowlist: '' err []), s)
           | Inr m \<Rightarrow> (Inr (p\<lparr>allowed := m\<rparr>), s)))"

definition open_physical_window :: "pairing_store \<Rightarrow> pairing_store" where
  "open_physical_window p = p\<lparr>physical_window := True\<rparr>"

definition close_physical_window :: "pairing_store \<Rightarrow> pairing_store" where
  "close_physical_window p = p\<lparr>physical_window := False\<rparr>"

definition is_allowed :: "pairing_store \<Rightarrow> string \<Rightarrow> bool" where
  "is_allowed p i \<longleftrightarrow> (case allowed p of None \<Rightarrow> False | Some m \<Rightarrow> m i = Some True)"

definition persist_tmp :: "path \<Rightarrow> path" where
  "persist_tmp path = path @ ''.tmp''"

definition persist_locked :: "io_env \<Rightarrow> pairing_codec \<Rightarrow> pairing_store \<Rightarrow> os \<Rightarrow> go_error option \<times> os" where
  "persist_locked io cd p s =
     (if ps_path p = [] then (None, s)
      else (case os_mkdir_all io (path_dir (ps_path p)) s of
          (Some err, s) \<Rightarrow> (Some err, s)
        | (None, s) \<Rightarrow>
            let data = marshal_allowed cd (allowed p); tmp = persist_tmp (ps_path p) in
            (case os_write_file io tmp data 384 s of
               (Some err, s) \<Rightarrow> (Some err, s)
             | (None, s) \<Rightarrow> os_rename io tmp (ps_path p) s)))"

definition pair_client ::
  "io_env \<Rightarrow> pairing_codec \<Rightarrow> string \<Rightarrow> (pairing_store \<times> os, go_error option) prog" where
  "pair_client io cd i st =
     (case st of (p, s) \<Rightarrow>
        if \<not> physical_window p then (Ret (Some (ErrText ''physical pairing window is closed'')), (p, s))
        else if i = [] then (Ret (Some (ErrText ''client ID is required'')), (p, s))
        else (case allowed p of
            None \<Rightarrow> (Panic ''assignment to entry in nil map'', (p, s))
          | Some m \<Rightarrow>
              let p = p\<lparr>allowed := Some (m(i \<mapsto> True))\<rparr> in
              (case persist_locked io cd p s of (r, s) \<Rightarrow> (Ret r, (p, s)))))"

subsection \<open>What pairing changes\<close>

lemma pair_client_cases:
  assumes "pair_client io cd i (p, s) = (r, (p', s'))"
  obtains (refused) "p' = p" "s' = s" "r \<noteq> Ret None" "\<not> physical_window p \<or> i = [] \<or> allowed p = None"
  | (added) m e where "physical_window p" "i \<noteq> []" "allowed p = Some m" "p' = p\<lparr>allowed := Some (m(i \<mapsto> True))\<rparr>"
      "r = Ret e" "persist_locked io cd p' s = (e, s')"
  using assms by (auto simp: pair_client_def Let_def split: if_splits option.splits prod.splits)

lemma pair_client_allowed:
  assumes "pair_client io cd i (p, s) = (r, (p', s'))"
  shows "is_allowed p' j \<longleftrightarrow>
      is_allowed p j \<or> (j = i \<and> physical_window p \<and> i \<noteq> [] \<and> allowed p \<noteq> None)"
    and "physical_window p' = physical_window p" and "ps_path p' = ps_path p"
    and "allowed p' = None \<longleftrightarrow> allowed p = None"
  using assms by (cases rule: pair_client_cases; auto simp: is_allowed_def)+

lemma window_simps [simp]:
  "is_allowed (open_physical_window p) = is_allowed p" "is_allowed (close_physical_window p) = is_allowed p"
  "physical_window (open_physical_window p)" "\<not> physical_window (close_physical_window p)"
  "allowed (open_physical_window p) = allowed p" "allowed (close_physical_window p) = allowed p"
  "ps_path (open_physical_window p) = ps_path p" "ps_path (close_physical_window p) = ps_path p"
  by (simp_all add: open_physical_window_def close_physical_window_def is_allowed_def fun_eq_iff)

lemma new_store_allows_nobody [simp]: "\<not> is_allowed new_pairing_store i"
  by (simp add: new_pairing_store_def is_allowed_def)

subsection \<open>The file\<close>

lemma persist_ok:
  assumes "persist_locked io cd p s = (None, s')" "ps_path p \<noteq> []"
  shows "\<exists>m. fs s' (path_clean (ps_path p)) = Some (FileNode (marshal_allowed cd (allowed p)) m)"
proof -
  obtain s1 s2 where w: "os_write_file io (persist_tmp (ps_path p)) (marshal_allowed cd (allowed p)) 384 s1 = (None, s2)"
    and r: "os_rename io (persist_tmp (ps_path p)) (ps_path p) s2 = (None, s')"
    using assms by (auto simp: persist_locked_def Let_def split: prod.splits option.splits)
  have "\<exists>m. fs s2 (path_clean (persist_tmp (ps_path p))) = Some (FileNode (marshal_allowed cd (allowed p)) m)"
    using w by (auto simp: os_op_defs split: os_splits)
  with rename_ok [OF r] show ?thesis by auto
qed

lemma persist_touches: "persist_locked io cd p s = (e, s') \<Longrightarrow> touches {ps_path p, persist_tmp (ps_path p)} s s'"
  unfolding persist_locked_def Let_def
  by (auto split: prod.splits option.splits if_splits intro: touches_refl mkdir_all_touches
      touches_trans [OF mkdir_all_touches write_file_touches]
      touches_trans [OF mkdir_all_touches touches_trans [OF write_file_touches rename_touches]])

lemma pair_client_files:
  assumes "pair_client io cd i (p, s) = (r, (p', s'))"
  shows "touches {ps_path p, persist_tmp (ps_path p)} s s'"
    and "r = Ret None \<Longrightarrow> ps_path p \<noteq> [] \<Longrightarrow> file_at s' (ps_path p) = Some (marshal_allowed cd (allowed p'))"
proof -
  show "touches {ps_path p, persist_tmp (ps_path p)} s s'"
    using assms by (cases rule: pair_client_cases) (auto simp: touches_refl dest: persist_touches)
  show "file_at s' (ps_path p) = Some (marshal_allowed cd (allowed p'))" if "r = Ret None" "ps_path p \<noteq> []"
    using assms that by (cases rule: pair_client_cases) (auto simp: file_at_def dest!: persist_ok)
qed

definition honest :: "io_env \<Rightarrow> bool" where
  "honest io \<longleftrightarrow> (\<forall>n f. io_fault io n = Some f \<longrightarrow> fault_error f \<noteq> err_not_exist)"

text \<open>With honest faults, the opened store allows what the file lists.\<close>

definition listed :: "pairing_codec \<Rightarrow> os \<Rightarrow> path \<Rightarrow> string \<Rightarrow> bool" where
  "listed cd s path j \<longleftrightarrow> (\<exists>d m. file_at s path = Some d \<and> unmarshal_allowed cd d = Inr m \<and> nil_lookup m j = Some True)"

text \<open>What is used of \<open>encoding/json\<close>: a list with finitely many keys is decoded to itself, and only such lists are decoded.\<close>

definition codec_ok :: "pairing_codec \<Rightarrow> bool" where
  "codec_ok cd \<longleftrightarrow>
     (\<forall>m. finite (dom m) \<longrightarrow> unmarshal_allowed cd (marshal_allowed cd (Some m)) = Inr (Some m)) \<and>
     (\<forall>d m. unmarshal_allowed cd d = Inr (Some m) \<longrightarrow> finite (dom m))"

lemma opened_store_finite:
  "codec_ok cd \<Longrightarrow> new_persistent_pairing_store io cd path s = (Inr p, s') \<Longrightarrow> allowed p = Some m \<Longrightarrow> finite (dom m)"
  by (auto simp: new_persistent_pairing_store_def Let_def codec_ok_def split: prod.splits sum.splits if_splits)

lemma opened_store:
  assumes "honest io" "new_persistent_pairing_store io cd path s = (Inr p, s')"
  shows "touches {} s s'" "ps_path p = path" "\<not> physical_window p" "is_allowed p j \<longleftrightarrow> listed cd s path j"
proof -
  obtain r where rd: "os_read_file io path s = (r, s')"
    using assms(2) by (auto simp: new_persistent_pairing_store_def Let_def split: prod.splits sum.splits if_splits)
  show "touches {} s s'" by (rule read_file_touches [OF rd])
  show "ps_path p = path" "\<not> physical_window p"
    using assms(2) by (auto simp: new_persistent_pairing_store_def Let_def split: prod.splits sum.splits if_splits)
  show "is_allowed p j \<longleftrightarrow> listed cd s path j"
  proof (cases r)
    case (Inl e)
    have "file_at s path = None" "allowed p = Some Map.empty"
      using assms Inl rd
      by (auto simp: new_persistent_pairing_store_def Let_def is_not_exist_def os_read_file_def file_at_def honest_def
          split: if_splits os_splits)
    then show ?thesis by (simp add: is_allowed_def listed_def)
  next
    case (Inr d)
    then show ?thesis
      using assms(2) rd read_file_at [of io path s d s']
      by (auto simp: new_persistent_pairing_store_def Let_def is_allowed_def listed_def nil_lookup_def split: sum.splits option.splits)
  qed
qed

text \<open>The file of the list is only ever replaced as a whole.\<close>

lemma persist_atomic:
  assumes run: "persist_locked io cd p s = (e, s')"
    and tmp: "path_clean (persist_tmp (ps_path p)) \<noteq> path_clean (ps_path p)"
    and old: "fs s (path_clean (ps_path p)) = Some (FileNode d m)"
  shows "fs s' (path_clean (ps_path p)) = Some (FileNode d m) \<or>
         (e = None \<and> (\<exists>k. fs s' (path_clean (ps_path p)) = Some (FileNode (marshal_allowed cd (allowed p)) k)))"
proof (cases "ps_path p = []")
  case True
  then show ?thesis using run old by (simp add: persist_locked_def)
next
  case False
  let ?q = "path_clean (ps_path p)" and ?t = "persist_tmp (ps_path p)"
  show ?thesis
  proof (cases e)
    case None
    then show ?thesis using persist_ok False run by blast
  next
    case (Some err)
    obtain e1 s1 where mk: "os_mkdir_all io (path_dir (ps_path p)) s = (e1, s1)" by fastforce
    have k1: "fs s1 ?q = Some (FileNode d m)"
      using mkdir_all_file [of io "path_dir (ps_path p)" s ?q d m] mk old by simp
    obtain e2 s2 where wr: "os_write_file io ?t (marshal_allowed cd (allowed p)) 384 s1 = (e2, s2)" by fastforce
    have k2: "fs s2 ?q = Some (FileNode d m)"
      using os_otherD(1) [OF wr, of ?q] tmp k1 by simp
    obtain e3 s3 where rn: "os_rename io ?t (ps_path p) s2 = (e3, s3)" by fastforce
    have "s' = (if e1 \<noteq> None then s1 else if e2 \<noteq> None then s2 else s3)" and "e1 = None \<Longrightarrow> e2 = None \<Longrightarrow> e3 = Some err"
      using run Some False mk wr rn by (auto simp: persist_locked_def Let_def split: option.splits)
    then show ?thesis using k1 k2 rename_fail [of io ?t "ps_path p" s2 err s3] rn by auto
  qed
qed

text \<open>
  C20. A pairing survives a restart of the agent: when \<open>Pair\<close> succeeds on a persistent store, the
  store that is opened from the same files later allows exactly the clients the running store
  allows, the new one included, and its pairing window is closed. Used of \<open>encoding/json\<close>:
  decoding the text of the list gives the list back.
\<close>

theorem pairing_survives_restart:
  assumes pair: "pair_client io cd i (p, s) = (Ret None, (p', s'))"
    and persistent: "ps_path p \<noteq> []"
    and codec: "unmarshal_allowed cd (marshal_allowed cd (allowed p')) = Inr (allowed p')"
    and restart: "fs r = fs s'" "io_fault io' (ios r) = None"
  shows "\<exists>q. fst (new_persistent_pairing_store io' cd (ps_path p) r) = Inr q \<and>
      (\<forall>j. is_allowed q j \<longleftrightarrow> is_allowed p' j) \<and> is_allowed q i \<and> \<not> physical_window q"
proof -
  from pair obtain m where m: "allowed p' = Some m" "m i = Some True" "ps_path p' = ps_path p"
    "persist_locked io cd p' s = (None, s')"
    by (cases rule: pair_client_cases) auto
  then obtain k where "fs r (path_clean (ps_path p)) = Some (FileNode (marshal_allowed cd (allowed p')) k)"
    using persist_ok [of io cd p' s s'] persistent restart(1) by auto
  with restart(2) codec m(1,2) show ?thesis
    by (auto simp: new_persistent_pairing_store_def os_read_file_def is_allowed_def Let_def)
qed

text \<open>
  Whatever file operation of a \<open>Pair\<close> fails, the file of the list holds either what it held
  or the whole new list, and the new list only when \<open>Pair\<close> reported success; but the running
  store already allows the client when the file could not be written.
\<close>

theorem pair_atomic:
  assumes pair: "pair_client io cd i (p, s) = (Ret e, (p', s'))"
    and tmp: "path_clean (persist_tmp (ps_path p)) \<noteq> path_clean (ps_path p)"
    and old: "fs s (path_clean (ps_path p)) = Some (FileNode d k)"
  shows "(fs s' (path_clean (ps_path p)) = Some (FileNode d k) \<or>
          (e = None \<and> (\<exists>n. fs s' (path_clean (ps_path p)) = Some (FileNode (marshal_allowed cd (allowed p')) n)))) \<and>
         (physical_window p \<and> i \<noteq> [] \<longrightarrow> is_allowed p' i)"
  using pair
proof (cases rule: pair_client_cases)
  case refused
  have "\<not> (physical_window p \<and> i \<noteq> [])"
    using pair refused by (auto simp: pair_client_def split: option.splits if_splits)
  then show ?thesis using refused old by auto
next
  case (added m e')
  then show ?thesis
    using persist_atomic [OF added(6)] tmp old by (simp add: is_allowed_def)
qed

subsection \<open>Concrete inputs\<close>

definition test_pairing_codec :: pairing_codec where
  "test_pairing_codec = \<lparr>marshal_allowed = (\<lambda>_. ''{...}''), unmarshal_allowed = (\<lambda>_. Inr (Some [''a1'' \<mapsto> True]))\<rparr>"

definition test_pairings :: pairing_store where
  "test_pairings = \<lparr>allowed = Some Map.empty, physical_window = True, ps_path = ''/p''\<rparr>"

lemma test_paths: "path_clean ''/p'' = ''/p''" "path_clean ''/p.tmp'' = ''/p.tmp''" "path_dir ''/p'' = ''/''"
    "path_dir ''/p.tmp'' = ''/''" "ancestors ''/'' = []"
  by code_simp+

theorem pairing_survives_restart_witness:
  "\<exists>p' s'. pair_client no_faults test_pairing_codec ''a1'' (test_pairings, \<lparr>fs = Map.empty, ios = 0\<rparr>) = (Ret None, (p', s')) \<and>
     (\<exists>q. fst (new_persistent_pairing_store no_faults test_pairing_codec ''/p'' s') = Inr q \<and> is_allowed q ''a1'')"
proof -
  let ?s = "\<lparr>fs = [''/p'' \<mapsto> FileNode ''{...}'' 384], ios = 3\<rparr> :: os"
  let ?p = "test_pairings\<lparr>allowed := Some [''a1'' \<mapsto> True]\<rparr>"
  have run: "pair_client no_faults test_pairing_codec ''a1'' (test_pairings, \<lparr>fs = Map.empty, ios = 0\<rparr>) = (Ret None, (?p, ?s))"
    by (simp add: pair_client_def test_pairings_def persist_locked_def persist_tmp_def test_paths os_op_defs no_faults_def
          is_dir_def test_pairing_codec_def fun_eq_iff)
  show ?thesis
    using run pairing_survives_restart [OF run, of ?s no_faults]
    by (auto simp: test_pairings_def test_pairing_codec_def no_faults_def)
qed

definition full_rename :: io_env where
  "full_rename = no_faults\<lparr>io_fault := (\<lambda>n. if n < 2 then None else Some (FailClean (ErrText ''no space left on device'')))\<rparr>"

theorem pair_atomic_witness:
  "\<exists>p' s'. pair_client full_rename test_pairing_codec ''a1'' (test_pairings, \<lparr>fs = [''/p'' \<mapsto> FileNode ''{}'' 384], ios = 0\<rparr>) =
       (Ret (Some (ErrText ''no space left on device'')), (p', s')) \<and>
     fs s' ''/p'' = Some (FileNode ''{}'' 384) \<and> is_allowed p' ''a1''"
proof -
  let ?s = "\<lparr>fs = [''/p'' \<mapsto> FileNode ''{}'' 384], ios = 0\<rparr> :: os"
  obtain p' s' where run: "pair_client full_rename test_pairing_codec ''a1'' (test_pairings, ?s) =
      (Ret (Some (ErrText ''no space left on device'')), (p', s'))"
    by (simp add: pair_client_def test_pairings_def persist_locked_def persist_tmp_def test_paths os_op_defs full_rename_def
          no_faults_def is_dir_def test_pairing_codec_def fault_error_def)
  have "fs s' ''/p'' = Some (FileNode ''{}'' 384) \<and> is_allowed p' ''a1''"
    using pair_atomic [OF run, of "''{}''" 384]
    by (simp add: test_pairings_def persist_tmp_def test_paths)
  with run show ?thesis by blast
qed

end
