(* ===== verification/Agent_Controlplane.thy ===== *)
theory Agent_Controlplane
  imports Agent_Pairing Jobs Eventbus
begin

section \<open>The control plane of the agent\<close>

text \<open>
  \<open>bottle-agent/internal/controlplane/server.go\<close>: the messages on the wire, the handler interface,
  the checks of \<open>NewServer\<close>, and a connection. A connection is run one input at a time: the state
  is \<open>conn\<close>, an input is what \<open>dec.Decode\<close> returned together with whether the writes it causes
  succeed, and \<open>handle\<close> is the run over all inputs of a connection. Handler calls are programs
  over an arbitrary state \<open>'w\<close> and may panic. TLS, certificates' bytes and SHA-256 are parameters.
\<close>

subsection \<open>Messages\<close>

record wire_message =
  wm_type :: string
  wm_version :: string
  wm_id :: string
  wm_op :: string
  wm_confirm :: bool
  wm_last_sequence :: "64 word"
  wm_ok :: bool
  wm_error :: string
  wm_payload :: "json option"
  wm_sequence :: "64 word"
  wm_severity :: string
  wm_source :: string
  wm_kind :: string
  wm_occurred_at :: time

definition empty_message :: wire_message where
  "empty_message = \<lparr>wm_type = [], wm_version = [], wm_id = [], wm_op = [], wm_confirm = False, wm_last_sequence = 0,
     wm_ok = False, wm_error = [], wm_payload = None, wm_sequence = 0, wm_severity = [], wm_source = [], wm_kind = [],
     wm_occurred_at = 0\<rparr>"

record status =
  st_ready :: bool
  st_survey :: string
  st_message :: string

definition listen_address :: string where
  "listen_address = ''10.77.0.1:7443''"

definition protocol_version :: string where
  "protocol_version = ''bottle-control/1''"

text \<open>The JSON of the values a reply carries; the order of a Go map's keys does not matter here.\<close>

record json_text =
  time_text :: "time \<Rightarrow> string"
  map_keys :: "(string \<Rightarrow> bool option) \<Rightarrow> string list"

definition status_json :: "status \<Rightarrow> json" where
  "status_json s = JObj [(''ready'', JBool (st_ready s)), (''survey'', JStr (st_survey s)), (''message'', JStr (st_message s))]"

definition job_json :: "json_text \<Rightarrow> job option \<Rightarrow> json" where
  "job_json jt jo = (case jo of
       None \<Rightarrow> JObj [(''ID'', JStr []), (''Kind'', JStr []), (''State'', JStr []), (''Phase'', JStr []), (''Message'', JStr []),
                      (''ChangedPaths'', JNull), (''Completed'', JNull), (''UpdatedAt'', JStr (time_text jt 0))]
     | Some j \<Rightarrow> JObj [(''ID'', JStr (job_id j)), (''Kind'', JStr (job_kind j)), (''State'', JStr (state_string (job_state j))),
          (''Phase'', JStr (job_phase j)), (''Message'', JStr (job_message j)),
          (''ChangedPaths'', if changed_paths j = [] then JNull else JArr (map JStr (changed_paths j))),
          (''Completed'', case completed j of None \<Rightarrow> JNull
              | Some m \<Rightarrow> JObj (map (\<lambda>k. (k, JBool (m k = Some True))) (map_keys jt m))),
          (''UpdatedAt'', JStr (time_text jt (updated_at j)))])"

definition payload_json :: "payload option \<Rightarrow> json" where
  "payload_json p = (case p of None \<Rightarrow> JNull | Some p \<Rightarrow> JObj p)"

subsection \<open>The handler\<close>

text \<open>
  \<open>h_recv\<close> is a receive from the channel \<open>Events\<close> returned, which its address names, and \<open>h_done\<close>
  the step of the \<open>k\<close>-th goroutine that waits for a context, once that is done. Of the contexts the
  calls get only that of \<open>Events\<close> is an argument: it outlives the call.
\<close>

record 'w handler =
  h_status :: "('w, status \<times> go_error option) prog"
  h_provision :: "json option \<Rightarrow> bool \<Rightarrow> ('w, job option \<times> go_error option) prog"
  h_update :: "json option \<Rightarrow> bool \<Rightarrow> ('w, job option \<times> go_error option) prog"
  h_survey :: "bool \<Rightarrow> bool \<Rightarrow> ('w, go_error option) prog"
  h_events :: "go_context \<Rightarrow> 64 word \<Rightarrow> ('w, go_error + nat) prog"
  h_recv :: "nat \<Rightarrow> 'w \<Rightarrow> bus_event option \<times> 'w"
  h_done :: "go_context \<Rightarrow> nat \<Rightarrow> 'w \<Rightarrow> 'w"

subsection \<open>The server\<close>

datatype client_auth = NoClientCert | RequestClientCert | RequireAnyClientCert | VerifyClientCertIfGiven | RequireAndVerifyClientCert

record tls_config =
  min_version :: "16 word"
  client_auth :: client_auth
  client_cas :: "string option"

definition version_tls13 :: "16 word" where
  "version_tls13 = 0x0304"

text \<open>The tunnel of the server relays the rest of the byte stream of a connection.\<close>

record 'w server =
  sv_tls :: tls_config
  sv_handler :: "'w handler"
  sv_tunnel :: "(string \<Rightarrow> 'w \<Rightarrow> 'w) option"
  sv_json :: json_text

definition new_server ::
  "string \<Rightarrow> tls_config option \<Rightarrow> bool \<Rightarrow> 'w handler option \<Rightarrow> json_text \<Rightarrow> go_error + 'w server" where
  "new_server address config pairings h jt =
     (let address = (if address = [] then listen_address else address) in
      if address \<noteq> listen_address then Inl (ErrText (''control plane is fixed at '' @ listen_address))
      else (case config of
          None \<Rightarrow> Inl (ErrText ''Pi control plane requires TLS 1.3 mTLS and private client CA'')
        | Some c \<Rightarrow>
            if min_version c < version_tls13 \<or> client_auth c \<noteq> RequireAndVerifyClientCert \<or> client_cas c = None
            then Inl (ErrText ''Pi control plane requires TLS 1.3 mTLS and private client CA'')
            else if \<not> pairings then Inl (ErrText ''pairing store and handler are required'')
            else (case h of
                None \<Rightarrow> Inl (ErrText ''pairing store and handler are required'')
              | Some h \<Rightarrow> Inr \<lparr>sv_tls = c, sv_handler = h, sv_tunnel = None, sv_json = jt\<rparr>)))"

definition set_kismet_tunnel :: "(string \<Rightarrow> 'w \<Rightarrow> 'w) \<Rightarrow> 'w server \<Rightarrow> 'w server" where
  "set_kismet_tunnel relay s = s\<lparr>sv_tunnel := Some relay\<rparr>"

subsection \<open>A connection\<close>

record net_conn =
  nc_tls :: bool
  nc_handshake :: "go_error option"
  nc_peer_certs :: "string list"

datatype conn_phase = Greeting | Serving | Ended

record conn =
  cn_id :: nat
  cn_client :: string
  cn_phase :: conn_phase
  cn_pumps :: "nat list"
  cn_sent :: "wire_message list"

record conn_input =
  in_message :: "go_error + wire_message"
  in_write :: "go_error option"
  in_rest :: string

definition certificate_id :: "(string \<Rightarrow> string) \<Rightarrow> net_conn \<Rightarrow> string" where
  "certificate_id sha_hex c =
     (if \<not> nc_tls c then [] else (case nc_peer_certs c of [] \<Rightarrow> [] | raw # _ \<Rightarrow> sha_hex raw))"

text \<open>An \<open>Encode\<close> through the shared encoder: its error, if the connection does not take the message.\<close>

definition encode :: "go_error option \<Rightarrow> wire_message \<Rightarrow> conn \<Rightarrow> conn" where
  "encode werr m c = (if werr = None then c\<lparr>cn_sent := cn_sent c @ [m]\<rparr> else c)"

definition conn_open :: "(string \<Rightarrow> string) \<Rightarrow> pairing_store \<Rightarrow> net_conn \<Rightarrow> go_error option \<Rightarrow> conn" where
  "conn_open sha_hex pairings nc werr =
     (let c = \<lparr>cn_id = 0, cn_client = certificate_id sha_hex nc, cn_phase = Ended, cn_pumps = [], cn_sent = []\<rparr> in
      if \<not> nc_tls nc then c
      else if nc_handshake nc \<noteq> None then c
      else if \<not> is_allowed pairings (cn_client c)
        then encode werr (empty_message\<lparr>wm_type := ''response'', wm_ok := False, wm_error := ''not_paired''\<rparr>) c
      else c\<lparr>cn_phase := Greeting\<rparr>)"

definition conn_hello :: "conn_input \<Rightarrow> conn \<Rightarrow> conn" where
  "conn_hello i c =
     (case in_message i of
        Inr hello \<Rightarrow>
          if wm_type hello \<noteq> ''hello'' \<or> wm_version hello \<noteq> protocol_version
          then encode (in_write i) (empty_message\<lparr>wm_type := ''response'', wm_ok := False, wm_error := ''protocol_version''\<rparr>)
                 (c\<lparr>cn_phase := Ended\<rparr>)
          else (let c = encode (in_write i) (empty_message\<lparr>wm_type := ''hello_ack'', wm_ok := True, wm_version := protocol_version\<rparr>) c in
                if in_write i \<noteq> None then c\<lparr>cn_phase := Ended\<rparr> else c\<lparr>cn_phase := Serving\<rparr>)
      | Inl err \<Rightarrow>
          encode (in_write i) (empty_message\<lparr>wm_type := ''response'', wm_ok := False, wm_error := ''protocol_version''\<rparr>)
            (c\<lparr>cn_phase := Ended\<rparr>))"

definition reply :: "conn_input \<Rightarrow> wire_message \<Rightarrow> json \<Rightarrow> go_error option \<Rightarrow> conn \<Rightarrow> conn" where
  "reply i req payload err c =
     (let m = empty_message\<lparr>wm_type := ''response'', wm_id := wm_id req, wm_ok := (err = None)\<rparr>;
          m = (case err of Some e \<Rightarrow> m\<lparr>wm_error := error_text e\<rparr> | None \<Rightarrow> m\<lparr>wm_payload := Some payload\<rparr>)
      in encode (in_write i) m c)"

text \<open>
  \<open>dispatch\<close> always answers \<open>false\<close>; \<open>cn_pumps\<close> are the event goroutines it started. \<open>handle\<close> calls
  it with \<open>context.Background()\<close>; \<open>cn_id\<close> numbers the connections of a server.
\<close>

definition dispatch :: "go_context \<Rightarrow> 'w server \<Rightarrow> conn_input \<Rightarrow> wire_message \<Rightarrow> conn \<Rightarrow> ('w, bool \<times> conn) prog" where
  "dispatch ctx sv i req c =
     (let h = sv_handler sv; op = wm_op req in
      if op = ''status'' then
        bindP (h_status h) (\<lambda>(st, err). retP (False, reply i req (status_json st) err c))
      else if op = ''provision'' then
        (if \<not> wm_confirm req
         then retP (False, reply i req JNull (Some (ErrText ''explicit confirmation is required for provisioning'')) c)
         else bindP (h_provision h (wm_payload req) (wm_confirm req))
                (\<lambda>(job, err). retP (False, reply i req (job_json (sv_json sv) job) err c)))
      else if op = ''update'' then
        (if \<not> wm_confirm req
         then retP (False, reply i req JNull (Some (ErrText ''explicit confirmation is required for updates'')) c)
         else bindP (h_update h (wm_payload req) (wm_confirm req))
                (\<lambda>(job, err). retP (False, reply i req (job_json (sv_json sv) job) err c)))
      else if op = ''survey_start'' \<or> op = ''survey_stop'' then
        (if \<not> wm_confirm req
         then retP (False, reply i req JNull (Some (ErrText ''explicit confirmation is required for survey control'')) c)
         else bindP (h_survey h (op = ''survey_start'') (wm_confirm req))
                (\<lambda>err. retP (False, reply i req JNull err c)))
      else if op = ''events_subscribe'' then
        bindP (h_events h ctx (wm_last_sequence req)) (\<lambda>r.
          case r of
            Inl err \<Rightarrow>
              if errors_is err err_event_history_gap
              then retP (False, encode (in_write i) (empty_message\<lparr>wm_type := ''resync_required'', wm_id := wm_id req,
                     wm_error := error_text err_event_history_gap\<rparr>) c)
              else retP (False, reply i req JNull (Some err) c)
          | Inr events \<Rightarrow> retP (False, c\<lparr>cn_pumps := cn_pumps c @ [events]\<rparr>))
      else retP (False, reply i req JNull (Some (ErrText (''unsupported typed operation '' @ go_quote op))) c))"

definition event_message :: "bus_event \<Rightarrow> wire_message" where
  "event_message e = empty_message\<lparr>wm_type := ''event'', wm_sequence := be_sequence e, wm_occurred_at := be_occurred_at e,
     wm_severity := be_severity e, wm_source := be_source e, wm_kind := be_kind e,
     wm_payload := Some (payload_json (be_payload e))\<rparr>"

text \<open>One round of an event goroutine: it takes the next event of its channel and writes it.\<close>

definition pump_step :: "'w server \<Rightarrow> nat \<Rightarrow> go_error option \<Rightarrow> conn \<Rightarrow> 'w \<Rightarrow> conn \<times> 'w" where
  "pump_step sv a werr c w =
     (case h_recv (sv_handler sv) a w of
        (None, w) \<Rightarrow> (c, w)
      | (Some e, w) \<Rightarrow> (encode werr (event_message e) c, w))"

definition conn_request :: "'w server \<Rightarrow> conn_input \<Rightarrow> conn \<Rightarrow> ('w, conn) prog" where
  "conn_request sv i c =
     (case in_message i of
        Inl err \<Rightarrow> retP (c\<lparr>cn_phase := Ended\<rparr>)
      | Inr req \<Rightarrow>
          if wm_type req \<noteq> ''request'' then retP c
          else if wm_op req = ''tunnel'' then
            (case sv_tunnel sv of
               None \<Rightarrow> retP (encode (in_write i) (empty_message\<lparr>wm_type := ''response'', wm_id := wm_id req, wm_ok := False,
                          wm_error := ''Kismet tunnel is not configured''\<rparr>) (c\<lparr>cn_phase := Ended\<rparr>))
             | Some relay \<Rightarrow>
                 (let c = encode (in_write i) (empty_message\<lparr>wm_type := ''response'', wm_id := wm_id req, wm_ok := True\<rparr>)
                            (c\<lparr>cn_phase := Ended\<rparr>) in
                  if in_write i \<noteq> None then retP c
                  else (\<lambda>w. (Ret c, relay (in_rest i) w))))
          else bindP (dispatch Background sv i req c) (\<lambda>(stop, c). retP (if stop then c\<lparr>cn_phase := Ended\<rparr> else c)))"

definition conn_step :: "'w server \<Rightarrow> conn_input \<Rightarrow> conn \<Rightarrow> ('w, conn) prog" where
  "conn_step sv i c = (case cn_phase c of
       Greeting \<Rightarrow> retP (conn_hello i c)
     | Serving \<Rightarrow> conn_request sv i c
     | Ended \<Rightarrow> retP c)"

fun run_conn :: "'w server \<Rightarrow> conn_input list \<Rightarrow> conn \<Rightarrow> ('w, conn) prog" where
  "run_conn sv [] c = retP c"
| "run_conn sv (i # is) c = bindP (conn_step sv i c) (run_conn sv is)"

definition handle ::
  "(string \<Rightarrow> string) \<Rightarrow> 'w server \<Rightarrow> pairing_store \<Rightarrow> net_conn \<Rightarrow> go_error option \<Rightarrow> conn_input list \<Rightarrow> ('w, conn) prog" where
  "handle sha_hex sv pairings nc werr script = run_conn sv script (conn_open sha_hex pairings nc werr)"

definition pinned_client_ca :: "(string \<Rightarrow> bool) \<Rightarrow> string \<Rightarrow> go_error + string" where
  "pinned_client_ca append_certs pem =
     (if \<not> append_certs pem then Inl (ErrText ''invalid client CA PEM'') else Inr pem)"

end
