(* ===== verification/Agent_Handler.thy ===== *)
theory Agent_Handler
  imports Agent_Controlplane Provisioner
begin

section \<open>The handler of the agent\<close>

text \<open>
  \<open>bottle-agent/internal/agent/agent.go\<close>: the control plane's handler, composed of the provisioner,
  a runner for the survey's service and the event bus. Its state holds theirs and the survey state.
\<close>

subsection \<open>State\<close>

record ('w, 'j) agent_world =
  aw_life :: "('w, 'j) lstate"
  aw_bus :: bus
  aw_survey :: string
  aw_reads :: nat

text \<open>What the handler is built from: the host (also its runner), the job store and the clock;
  \<open>ag_fold\<close> is Unicode case folding of strings that are not ASCII.\<close>

record ('w, 'j) agent_cfg =
  ag_host :: "'w host"
  ag_jobs :: "'j jobs"
  ag_now :: "nat \<Rightarrow> time"
  ag_fold :: "string \<Rightarrow> string"

definition new_agent_world :: "'w \<Rightarrow> 'j \<Rightarrow> bus \<Rightarrow> ('w, 'j) agent_world" where
  "new_agent_world w st b = \<lparr>aw_life = \<lparr>world = w, store = st, calls = []\<rparr>, aw_bus = b, aw_survey = ''idle'', aw_reads = 0\<rparr>"

definition on_life :: "(('w, 'j) lstate, 'a) prog \<Rightarrow> (('w, 'j) agent_world, 'a) prog" where
  "on_life m s = (case m (aw_life s) of (r, l) \<Rightarrow> (r, s\<lparr>aw_life := l\<rparr>))"

definition bus_publish ::
  "('w, 'j) agent_cfg \<Rightarrow> string \<Rightarrow> string \<Rightarrow> string \<Rightarrow> payload \<Rightarrow> (('w, 'j) agent_world, unit) prog" where
  "bus_publish c sev src kind p s =
     (case publish (ag_now c (aw_reads s)) sev src kind (Some p) (aw_bus s) of
        (Panic m, b) \<Rightarrow> (Panic m, s\<lparr>aw_bus := b, aw_reads := Suc (aw_reads s)\<rparr>)
      | (Ret e, b) \<Rightarrow> (Ret (), s\<lparr>aw_bus := b, aw_reads := Suc (aw_reads s)\<rparr>))"

subsection \<open>Status\<close>

definition agent_status :: "(('w, 'j) agent_world, status \<times> go_error option) prog" where
  "agent_status s = (Ret (\<lparr>st_ready = True, st_survey = aw_survey s, st_message = ''bottle-agent running''\<rparr>, None), s)"

subsection \<open>Provision\<close>

text \<open>
  \<open>json.Unmarshal\<close> into a struct with the one field \<open>RequestID string\<close>: keys match exactly or
  up to case, the last match wins, \<open>null\<close> is ignored, and the first value of a wrong type is the
  error.
\<close>

fun json_kind :: "json \<Rightarrow> string" where
  "json_kind JNull = ''null''"
| "json_kind (JBool b) = ''bool''"
| "json_kind (JNum n) = ''number''"
| "json_kind (JStr s) = ''string''"
| "json_kind (JArr vs) = ''array''"
| "json_kind (JObj p) = ''object''"

definition request_id_key :: "(string \<Rightarrow> string) \<Rightarrow> string \<Rightarrow> bool" where
  "request_id_key uni k \<longleftrightarrow> k = ''RequestID'' \<or> to_lower uni k = ''requestid''"

fun decode_request_fields :: "(string \<Rightarrow> string) \<Rightarrow> payload \<Rightarrow> string \<Rightarrow> go_error option \<Rightarrow> string \<times> go_error option" where
  "decode_request_fields uni [] r e = (r, e)"
| "decode_request_fields uni ((k, v) # p) r e =
     (if \<not> request_id_key uni k then decode_request_fields uni p r e
      else (case v of
          JStr s \<Rightarrow> decode_request_fields uni p s e
        | JNull \<Rightarrow> decode_request_fields uni p r e
        | _ \<Rightarrow> decode_request_fields uni p r
             (case e of Some x \<Rightarrow> Some x
              | None \<Rightarrow> Some (ErrText (''json: cannot unmarshal '' @ json_kind v @
                   '' into Go struct field provisionPayload.RequestID of type string'')))))"

definition decode_provision_payload :: "(string \<Rightarrow> string) \<Rightarrow> json option \<Rightarrow> string \<times> go_error option" where
  "decode_provision_payload uni p =
     (case p of
        None \<Rightarrow> ([], Some (ErrText ''unexpected end of JSON input''))
      | Some JNull \<Rightarrow> ([], None)
      | Some (JObj entries) \<Rightarrow> decode_request_fields uni entries [] None
      | Some v \<Rightarrow> ([], Some (ErrText (''json: cannot unmarshal '' @ json_kind v @
                       '' into Go value of type agent.provisionPayload''))))"

definition publish_job ::
  "('w, 'j) agent_cfg \<Rightarrow> string \<Rightarrow> string \<Rightarrow> job option \<Rightarrow> go_error option \<Rightarrow> (('w, 'j) agent_world, unit) prog" where
  "publish_job c kind rid job err =
     (case err of
        Some e \<Rightarrow> bus_publish c ''error'' ''lifecycle'' (kind @ ''_error'')
                    [(''request_id'', JStr rid), (''error'', JStr (error_text e))]
      | None \<Rightarrow>
          (let state = (case job of None \<Rightarrow> [] | Some j \<Rightarrow> state_string (job_state j));
               severity = (if state = state_string Failed then ''error'' else ''info'')
           in bus_publish c severity ''lifecycle'' (kind @ ''_'' @ to_lower (ag_fold c) state)
                [(''request_id'', JStr (case job of None \<Rightarrow> [] | Some j \<Rightarrow> job_id j)),
                 (''state'', JStr state),
                 (''phase'', JStr (case job of None \<Rightarrow> [] | Some j \<Rightarrow> job_phase j)),
                 (''message'', JStr (case job of None \<Rightarrow> [] | Some j \<Rightarrow> job_message j))]))"

definition agent_provision ::
  "('w, 'j) agent_cfg \<Rightarrow> json option \<Rightarrow> bool \<Rightarrow> (('w, 'j) agent_world, job option \<times> go_error option) prog" where
  "agent_provision c p confirm =
     (case decode_provision_payload (ag_fold c) p of
        (rid, Some err) \<Rightarrow> retP (None, Some (ErrWrap ''decode provision request: '' err []))
      | (rid, None) \<Rightarrow>
          bindP (on_life (provisioner_run (ag_host c) (ag_jobs c) \<lparr>pr_id = rid, pr_confirm = confirm\<rparr>)) (\<lambda>(job, err).
          bindP (publish_job c ''provision'' rid job err) (\<lambda>_. retP (job, err))))"

subsection \<open>Update, survey and events\<close>

definition agent_update :: "json option \<Rightarrow> bool \<Rightarrow> (('w, 'j) agent_world, job option \<times> go_error option) prog" where
  "agent_update p confirm =
     (if \<not> confirm then retP (None, Some (ErrText ''explicit confirmation is required for updates''))
      else retP (None, Some (ErrText ''update channel resolution is not implemented yet'')))"

definition agent_survey :: "('w, 'j) agent_cfg \<Rightarrow> bool \<Rightarrow> bool \<Rightarrow> (('w, 'j) agent_world, go_error option) prog" where
  "agent_survey c start confirm =
     (if \<not> confirm then retP (Some (ErrText ''explicit confirmation is required for survey control''))
      else
        (let (action, command, new_state) =
               (if start then (''start'', ''systemctl start kismet'', ''running'')
                else (''stop'', ''systemctl stop kismet'', ''idle''))
         in bindP (on_life (host_op (hRun (ag_host c) command) (CRun command))) (\<lambda>e.
            case e of
              Some err \<Rightarrow>
                bindP (bus_publish c ''error'' ''survey'' (''survey_'' @ action @ ''_error'') [(''error'', JStr (error_text err))])
                  (\<lambda>_. retP (Some err))
            | None \<Rightarrow>
                bindP (\<lambda>s. (Ret (), s\<lparr>aw_survey := new_state\<rparr>)) (\<lambda>_.
                bindP (bus_publish c ''info'' ''survey'' (''survey_'' @ action) [(''state'', JStr new_state)])
                  (\<lambda>_. retP None)))))"

definition agent_events :: "go_context \<Rightarrow> 64 word \<Rightarrow> (('w, 'j) agent_world, go_error + nat) prog" where
  "agent_events ctx after s = (case subscribe ctx after (aw_bus s) of (r, b) \<Rightarrow> (Ret r, s\<lparr>aw_bus := b\<rparr>))"

definition agent_recv :: "nat \<Rightarrow> ('w, 'j) agent_world \<Rightarrow> bus_event option \<times> ('w, 'j) agent_world" where
  "agent_recv a s = (case receive a (aw_bus s) of (e, b) \<Rightarrow> (e, s\<lparr>aw_bus := b\<rparr>))"

definition agent_done :: "go_context \<Rightarrow> nat \<Rightarrow> ('w, 'j) agent_world \<Rightarrow> ('w, 'j) agent_world" where
  "agent_done ctx k s = s\<lparr>aw_bus := wake ctx k (aw_bus s)\<rparr>"

definition agent_handler :: "('w, 'j) agent_cfg \<Rightarrow> ('w, 'j) agent_world handler" where
  "agent_handler c = \<lparr>h_status = agent_status, h_provision = agent_provision c, h_update = agent_update,
     h_survey = agent_survey c, h_events = agent_events, h_recv = agent_recv, h_done = agent_done\<rparr>"

subsection \<open>The agent's handler keeps the contract\<close>

text \<open>
  The bus invariant: distinct open channels under ids that are their addresses. \<open>kept N\<close> adds, with
  \<open>N\<close>, that every channel ever subscribed still is and that the goroutines that would unsubscribe
  it wait for \<open>context.Background()\<close>, unless ids wrapped around.
\<close>

definition bus_ids_ok :: "bus \<Rightarrow> bool" where
  "bus_ids_ok b \<longleftrightarrow> subs_ok b \<and> next_sub_id b = of_nat (length (chans b)) \<and> (\<forall>(i, a) \<in> set (subs b). i = of_nat a)"

definition all_live :: "bus \<Rightarrow> bool" where
  "all_live b \<longleftrightarrow> (\<forall>a < length (chans b). live b a) \<and> (\<forall>g \<in> set (waiters b). fst g = Background)"

definition kept :: "bool \<Rightarrow> bus \<Rightarrow> bool" where
  "kept N b \<longleftrightarrow> bus_ids_ok b \<and> (N \<longrightarrow> all_live b \<or> 2 ^ 64 < length (chans b))"

lemma kept_new: "kept N (new_bus n)"
  by (simp add: kept_def bus_ids_ok_def all_live_def new_bus_def subs_ok_def live_def)

lemma publish_waiters: "publish now sev src kind p b = (r, b') \<Longrightarrow> waiters b' = waiters b"
  by (auto simp: publish_def retain_def Let_def split: prod.splits outcome.splits)

lemma kept_publish: "kept N b \<Longrightarrow> \<exists>e b'. publish now sev src kind p b = (Ret e, b') \<and> kept N b'"
proof -
  assume k: "kept N b"
  then have so: "subs_ok b" by (simp add: kept_def bus_ids_ok_def)
  from publish_result [OF so, of now sev src kind p] publish_subs_ok [OF so, of now sev src kind p]
  obtain e b' where r: "publish now sev src kind p b = (Ret e, b')" "subs b' = subs b" "next_sub_id b' = next_sub_id b"
    "length (chans b') = length (chans b)" "subs_ok b'"
    by fastforce
  with k publish_waiters [OF r(1)] show ?thesis by (auto simp: kept_def bus_ids_ok_def all_live_def live_def)
qed

lemma kept_receive: "kept N b \<Longrightarrow> kept N (snd (receive a b))"
proof -
  assume k: "kept N b"
  obtain r b' where r: "receive a b = (r, b')" by fastforce
  then have "subs b' = subs b \<and> next_sub_id b' = next_sub_id b \<and> length (chans b') = length (chans b) \<and> waiters b' = waiters b"
    by (auto simp: receive_def split: list.splits)
  with receive_subs_ok [OF _ r] k show ?thesis by (simp add: r kept_def bus_ids_ok_def all_live_def live_def)
qed

lemma kept_subscribe: "kept N b \<Longrightarrow> (N \<Longrightarrow> ctx = Background) \<Longrightarrow> kept N (snd (subscribe ctx n b))"
proof (cases "history_gap n b")
  case True
  then show "kept N b \<Longrightarrow> ?thesis" by (simp add: subscribe_def)
next
  case False
  assume k: "kept N b" and bg: "N \<Longrightarrow> ctx = Background"
  obtain r b' where r: "subscribe ctx n b = (r, b')" by fastforce
  let ?a = "length (chans b)"
  have ids: "next_sub_id b = of_nat ?a" "\<forall>(i, a) \<in> set (subs b). i = of_nat a" "subs_ok b"
    using k by (auto simp: kept_def bus_ids_ok_def)
  have b': "subs b' = AList.update (of_nat ?a) ?a (subs b)" "next_sub_id b' = of_nat (Suc ?a)" "length (chans b') = Suc ?a"
    "waiters b' = waiters b @ [(ctx, of_nat ?a)]"
    using False r ids(1) by (auto simp: subscribe_def Let_def)
  have sub: "set (AList.update k v ss) \<subseteq> insert (k, v) (set ss)" for k :: "64 word" and v :: nat and ss
    by (induction ss) auto
  have new: "(k, v) \<in> set (AList.update k v ss)" for k v and ss :: "(64 word \<times> nat) list"
    by (induction ss) auto
  have ok: "bus_ids_ok b'"
    using subscribe_subs_ok [OF ids(3) r] b' ids(2) sub [of "of_nat ?a" ?a "subs b"] by (auto simp: bus_ids_ok_def)
  have "live b' a" if a: "live b a" "\<not> 2 ^ 64 < Suc ?a" for a
  proof -
    obtain i where i: "(i, a) \<in> set (subs b)" using a(1) by (auto simp: live_def)
    have "a < ?a" using ids(3) a(1) by (simp add: subs_ok_def)
    then have "(of_nat a :: 64 word) \<noteq> of_nat ?a"
      using a(2) by (auto dest!: arg_cong [where f = unat] simp: unat_of_nat)
    moreover have "i = of_nat a" using i ids(2) by auto
    moreover have "(i, a) \<in> set ss \<Longrightarrow> i \<noteq> k \<Longrightarrow> (i, a) \<in> set (AList.update k v ss)" for k v and ss :: "(64 word \<times> nat) list"
      by (induction ss) auto
    ultimately have "(i, a) \<in> set (subs b')" using i by (simp add: b')
    then show ?thesis by (force simp: live_def)
  qed
  moreover have "live b' ?a" using new [of "of_nat ?a" ?a "subs b"] by (force simp: live_def b')
  ultimately show ?thesis using ok k bg by (auto simp: r kept_def all_live_def b' less_Suc_eq)
qed

lemma unsubscribe_subs:
  "set (subs (unsubscribe i b)) \<subseteq> set (subs b)" "next_sub_id (unsubscribe i b) = next_sub_id b"
  "length (chans (unsubscribe i b)) = length (chans b)"
  by (auto simp: unsubscribe_def AList.delete_eq split: option.split)

lemma wake_ids_ok: "bus_ids_ok b \<Longrightarrow> bus_ids_ok (wake ctx k b)"
proof -
  assume ok: "bus_ids_ok b"
  have "bus_ids_ok (b\<lparr>waiters := ws\<rparr>)" for ws using ok by (simp add: bus_ids_ok_def subs_ok_def live_def)
  moreover have "bus_ids_ok (unsubscribe i b1)" if "bus_ids_ok b1" for i b1
    using that unsubscribe_subs [of i b1] unsubscribe_subs_ok [of b1 i] by (fastforce simp: bus_ids_ok_def)
  ultimately show ?thesis using ok by (simp add: wake_def)
qed

lemma kept_wake: "kept N b \<Longrightarrow> ctx \<noteq> Background \<Longrightarrow> kept N (wake ctx k b)"
proof -
  assume k: "kept N b" and ctx: "ctx \<noteq> Background"
  have "length (chans (wake ctx k b)) = length (chans b)" by (simp add: wake_def unsubscribe_subs)
  moreover have "all_live b \<Longrightarrow> wake ctx k b = b"
    using ctx nth_mem [of k "waiters b"] by (auto simp: wake_def all_live_def)
  ultimately show ?thesis using k wake_ids_ok [of b ctx k] by (auto simp: kept_def)
qed

text \<open>\<open>I\<close> is an invariant of the job store.\<close>

definition agent_ok :: "bool \<Rightarrow> ('j \<Rightarrow> bool) \<Rightarrow> ('w, 'j) agent_world \<Rightarrow> bool" where
  "agent_ok N I w \<longleftrightarrow> kept N (aw_bus w) \<and> I (store (aw_life w))"

lemma bus_publish_ok:
  "agent_ok N I w \<Longrightarrow> wp (bus_publish c sev src kind p) (\<lambda>r w. r = Ret () \<and> agent_ok N I w) w"
  using kept_publish [of N "aw_bus w" "ag_now c (aw_reads w)" sev src kind "Some p"]
  by (auto simp: wp_def bus_publish_def agent_ok_def)

lemma publish_job_ok: "agent_ok N I w \<Longrightarrow> wp (publish_job c kind rid job err) (\<lambda>r w. r = Ret () \<and> agent_ok N I w) w"
  by (auto simp: publish_job_def Let_def intro!: bus_publish_ok split: option.split)

lemma on_life_ok:
  assumes "wp m (\<lambda>r l. P r \<and> I (store l)) (aw_life w)" "agent_ok N I w"
  shows "wp (on_life m) (\<lambda>r w. P r \<and> agent_ok N I w) w"
  using assms by (auto simp: wp_def on_life_def agent_ok_def split: prod.splits)

lemma agent_provision_ok:
  assumes ok: "agent_ok N I w"
    and run: "\<And>req. wp (provisioner_run (ag_host c) (ag_jobs c) req) (\<lambda>r s'. returns P r \<and> I (store s')) (aw_life w)"
  shows "wp (agent_provision c p b) (\<lambda>r w. returns P r \<and> agent_ok N I w) w"
proof -
  have "wp (bindP (on_life (provisioner_run (ag_host c) (ag_jobs c) req)) (\<lambda>(job, err).
      bindP (publish_job c kind rid job err) (\<lambda>_. retP (job, err)))) (\<lambda>r w. returns P r \<and> agent_ok N I w) w" for req kind rid
    unfolding wp_bind
    by (rule wp_mono [OF on_life_ok [OF run ok]])
       (auto simp: wp_bind wp_ret split: outcome.split intro!: publish_job_ok [THEN wp_mono])
  with ok show ?thesis
    by (auto simp: agent_provision_def wp_ret split: prod.split option.split)
qed

lemma agent_survey_ok:
  fixes w :: "('w, 'j) agent_world"
  assumes ok: "agent_ok N I w"
  shows "wp (agent_survey c st b) (\<lambda>r w. r \<in> range Ret \<and> agent_ok N I w) w"
proof -
  have op: "wp (on_life (host_op f ev)) (\<lambda>r w. r \<in> range Ret \<and> agent_ok N I w) w" for f :: "'w \<Rightarrow> 'c \<times> 'w" and ev
    by (rule on_life_ok [OF _ ok]) (use ok in \<open>auto simp: wp_host_op agent_ok_def\<close>)
  have st: "wp (\<lambda>s. (Ret (), s\<lparr>aw_survey := x\<rparr>)) Q w1 \<longleftrightarrow> Q (Ret ()) (w1\<lparr>aw_survey := x\<rparr>)" for x Q and w1 :: "('w, 'j) agent_world"
    by (simp add: wp_def)
  have upd: "agent_ok N I (w1\<lparr>aw_survey := x\<rparr>) \<longleftrightarrow> agent_ok N I w1" for x and w1 :: "('w, 'j) agent_world"
    by (simp add: agent_ok_def)
  show ?thesis
    unfolding agent_survey_def
    using ok
    by (auto simp: Let_def wp_ret wp_bind st upd split: outcome.split option.split
        intro!: op [THEN wp_mono] bus_publish_ok [THEN wp_mono])
qed

end
