(* ===== verification/Agent_Session.thy ===== *)
theory Agent_Session
  imports Agent_Handler
begin

section \<open>Sessions of the control plane\<close>

text \<open>
  What a connection may do, for any handler: the contract of the handler as a locale, the
  confirmation and pairing gates of a connection, and the server as a step relation in which
  connections, their event goroutines and the pairing store interleave.
\<close>

subsection \<open>The contract of a handler\<close>

text \<open>
  An invariant of the handler's state that every operation keeps; no operation but \<open>Provision\<close>
  panics, and that only with a message in \<open>P\<close>. \<open>Events\<close> is called with the background context, and
  a goroutine that waits for a context goes on only when that is done, so not for this one.
\<close>

locale handler_contract =
  fixes h :: "'w handler" and good :: "'w \<Rightarrow> bool" and P :: "string \<Rightarrow> bool"
  assumes status_ok: "good w \<Longrightarrow> wp (h_status h) (\<lambda>r w. r \<in> range Ret \<and> good w) w"
    and provision_ok: "good w \<Longrightarrow> wp (h_provision h p b) (\<lambda>r w. returns P r \<and> good w) w"
    and update_ok: "good w \<Longrightarrow> wp (h_update h p b) (\<lambda>r w. r \<in> range Ret \<and> good w) w"
    and survey_ok: "good w \<Longrightarrow> wp (h_survey h st b) (\<lambda>r w. r \<in> range Ret \<and> good w) w"
    and events_ok: "good w \<Longrightarrow> wp (h_events h Background n) (\<lambda>r w. r \<in> range Ret \<and> good w) w"
    and recv_ok: "good w \<Longrightarrow> good (snd (h_recv h a w))"
    and done_ok: "good w \<Longrightarrow> ctx \<noteq> Background \<Longrightarrow> good (h_done h ctx k w)"
begin

lemmas calls_ok = status_ok update_ok survey_ok events_ok

text \<open>\<open>safe\<close>: the handler is left in a good state, and the step panics only in a provision request.\<close>

definition safe :: "bool \<Rightarrow> 'a outcome \<Rightarrow> 'w \<Rightarrow> bool" where
  "safe p r w \<longleftrightarrow> good w \<and> returns P r \<and> (r \<in> range Ret \<or> p)"

lemma call_safe:
  assumes "wp m (\<lambda>r w. r \<in> range Ret \<and> good w) w" "\<And>x w. good w \<Longrightarrow> wp (f x) (safe p) w"
  shows "wp (bindP m f) (safe p) w"
  unfolding wp_bind by (rule wp_mono [OF assms(1)]) (auto simp: assms(2))

lemma ret_safe: "good w \<Longrightarrow> wp (retP x) (safe p) w"
  by (simp add: wp_ret safe_def)

lemma provision_safe:
  assumes "good w" "\<And>x w. good w \<Longrightarrow> wp (f x) (safe True) w"
  shows "wp (bindP (h_provision h q b) f) (safe True) w"
  unfolding wp_bind
  by (rule wp_mono [OF provision_ok [OF assms(1)]]) (auto simp: assms(2) safe_def split: outcome.split)

lemma safe_mono: "safe p r w \<Longrightarrow> (p \<Longrightarrow> q) \<Longrightarrow> safe q r w"
  by (auto simp: safe_def)

lemma dispatch_safe:
  assumes "sv_handler sv = h" "good w"
  shows "wp (dispatch Background sv i req c) (safe (wm_op req = ''provision'' \<and> wm_confirm req)) w"
  using assms(2)
  by (auto simp: dispatch_def Let_def assms(1) intro!: ret_safe call_safe provision_safe calls_ok split: sum.split)

definition relay_ok :: "'w server \<Rightarrow> bool" where
  "relay_ok sv \<longleftrightarrow> (\<forall>relay bs w. sv_tunnel sv = Some relay \<longrightarrow> good w \<longrightarrow> good (relay bs w))"

lemma conn_step_safe:
  assumes "sv_handler sv = h" "relay_ok sv" "good w"
  shows "wp (conn_step sv i c) (safe (\<exists>req. in_message i = Inr req \<and> wm_op req = ''provision'' \<and> wm_confirm req)) w"
proof -
  have tunnel: "wp (\<lambda>w. (Ret c', relay bs w)) (safe p) w" if "sv_tunnel sv = Some relay" for relay bs p c'
    using assms(2,3) that by (simp add: wp_def safe_def relay_ok_def)
  have dispatch: "wp (bindP (dispatch Background sv i req c) (\<lambda>(stop, c). retP (f stop c)))
      (safe (wm_op req = ''provision'' \<and> wm_confirm req)) w" for req f
    unfolding wp_bind
    by (rule wp_mono [OF dispatch_safe [OF assms(1,3)]]) (auto simp: wp_ret safe_def split: outcome.split)
  show ?thesis
    using assms(3)
    by (auto simp: conn_step_def conn_request_def Let_def intro!: ret_safe tunnel dispatch [THEN wp_mono]
        elim: safe_mono split: conn_phase.split sum.split option.split)
qed

lemma run_conn_safe:
  assumes "sv_handler sv = h" "relay_ok sv" "good w"
  shows "wp (run_conn sv is c)
      (safe (\<exists>i \<in> set is. \<exists>req. in_message i = Inr req \<and> wm_op req = ''provision'' \<and> wm_confirm req)) w"
  using assms(3)
proof (induction "is" arbitrary: c w)
  case Nil
  then show ?case by (simp add: ret_safe)
next
  case (Cons i "is")
  have "wp (run_conn sv is c) (safe (\<exists>i \<in> set (i # is). \<exists>req. in_message i = Inr req \<and> wm_op req = ''provision'' \<and> wm_confirm req)) w"
    if "good w" for c w
    by (rule wp_mono [OF Cons.IH [OF that]]) (auto elim: safe_mono)
  then show ?case
    unfolding run_conn.simps wp_bind
    by (intro wp_mono [OF conn_step_safe [OF assms(1,2) Cons.prems]]) (auto simp: safe_def split: outcome.split)
qed

lemma pump_good: "sv_handler sv = h \<Longrightarrow> good w \<Longrightarrow> good (snd (pump_step sv a e c w))"
  using recv_ok [of w a] by (auto simp: pump_step_def split: prod.split option.split)

end

subsection \<open>The gates of a connection\<close>

lemma conn_step_ended [simp]: "cn_phase c = Ended \<Longrightarrow> conn_step sv i c = retP c"
  by (simp add: conn_step_def)

lemma run_conn_ended [simp]: "cn_phase c = Ended \<Longrightarrow> run_conn sv is c = retP c"
  by (induction "is") simp_all

lemma encode_simps [simp]:
  "cn_client (encode e m c) = cn_client c" "cn_phase (encode e m c) = cn_phase c" "cn_pumps (encode e m c) = cn_pumps c"
  by (simp_all add: encode_def)

lemma reply_simps [simp]:
  "cn_client (reply i r p e c) = cn_client c" "cn_phase (reply i r p e c) = cn_phase c" "cn_pumps (reply i r p e c) = cn_pumps c"
  by (simp_all add: reply_def Let_def)

lemma conn_open_simps [simp]:
  "cn_client (conn_open sha pairings nc e) = certificate_id sha nc" "cn_pumps (conn_open sha pairings nc e) = []"
  by (simp_all add: conn_open_def Let_def)

lemma conn_open_phase: "cn_phase (conn_open sha pairings nc e) \<noteq> Ended \<Longrightarrow> is_allowed pairings (certificate_id sha nc)"
  by (auto simp: conn_open_def Let_def split: if_splits)

text \<open>The operations on the pairing store, and the clients a sequence of them pairs.\<close>

datatype pairing_op = OpenWindow | CloseWindow | PairClient string

fun apply_pairing :: "io_env \<Rightarrow> pairing_codec \<Rightarrow> pairing_op \<Rightarrow> pairing_store \<times> os \<Rightarrow> pairing_store \<times> os" where
  "apply_pairing io cd OpenWindow (p, s) = (open_physical_window p, s)"
| "apply_pairing io cd CloseWindow (p, s) = (close_physical_window p, s)"
| "apply_pairing io cd (PairClient i) st = snd (pair_client io cd i st)"

fun window_after :: "bool \<Rightarrow> pairing_op list \<Rightarrow> bool" where
  "window_after b [] = b"
| "window_after b (OpenWindow # ops) = window_after True ops"
| "window_after b (CloseWindow # ops) = window_after False ops"
| "window_after b (PairClient i # ops) = window_after b ops"

definition paired_in_window :: "bool \<Rightarrow> pairing_op list \<Rightarrow> string \<Rightarrow> bool" where
  "paired_in_window b ops i \<longleftrightarrow> (\<exists>pre post. ops = pre @ PairClient i # post \<and> window_after b pre)"

lemma split_Cons:
  "(\<exists>pre post. x # xs = pre @ y # post \<and> W pre) \<longleftrightarrow>
     (x = y \<and> W []) \<or> (\<exists>pre post. xs = pre @ y # post \<and> W (x # pre))"
  unfolding Cons_eq_append_conv by blast

lemma paired_in_window_simps [simp]:
  "\<not> paired_in_window b [] i"
  "paired_in_window b (OpenWindow # ops) i = paired_in_window True ops i"
  "paired_in_window b (CloseWindow # ops) i = paired_in_window False ops i"
  "paired_in_window b (PairClient j # ops) i \<longleftrightarrow> (i = j \<and> b) \<or> paired_in_window b ops i"
  unfolding paired_in_window_def split_Cons by auto

lemma pairing_ops_allowed:
  assumes "fold (apply_pairing io cd) ops (p, s) = (p', s')" "is_allowed p' i"
  shows "is_allowed p i \<or> paired_in_window (physical_window p) ops i"
  using assms
proof (induction ops arbitrary: p s)
  case Nil
  then show ?case by simp
next
  case (Cons opn ops)
  obtain p1 s1 where st: "apply_pairing io cd opn (p, s) = (p1, s1)" by fastforce
  have ih: "is_allowed p1 i \<or> paired_in_window (physical_window p1) ops i"
    using Cons st by simp
  show ?case
  proof (cases opn)
    case (PairClient j)
    obtain r where "pair_client io cd j (p, s) = (r, (p1, s1))"
      using st PairClient by (metis apply_pairing.simps(3) surjective_pairing)
    from pair_client_allowed(1,2) [OF this] ih show ?thesis by (auto simp: PairClient)
  qed (use ih st in auto)
qed

text \<open>
  C15. Only a client paired through the physical window is served: if a client's certificate
  was never paired while the window was open, then whatever it sends, the agent answers at most
  \<open>not_paired\<close> and the handler's state is untouched.
\<close>

theorem unpaired_never_served:
  assumes ops: "fold (apply_pairing io cd) ops (new_pairing_store, s) = (p, s')"
    and unpaired: "\<not> paired_in_window False ops (certificate_id sha nc)"
  shows "\<exists>c. handle sha sv p nc werr script w = (Ret c, w) \<and> cn_phase c = Ended \<and> cn_pumps c = [] \<and>
     cn_sent c \<in> {[], [empty_message\<lparr>wm_type := ''response'', wm_error := ''not_paired''\<rparr>]}"
proof -
  have "\<not> is_allowed p (certificate_id sha nc)"
    using pairing_ops_allowed [OF ops] unpaired by (auto simp: new_pairing_store_def is_allowed_def)
  then have "cn_phase (conn_open sha p nc werr) = Ended" using conn_open_phase by blast
  moreover have "cn_sent (conn_open sha p nc werr) \<in> {[], [empty_message\<lparr>wm_type := ''response'', wm_error := ''not_paired''\<rparr>]}"
    using \<open>\<not> is_allowed p (certificate_id sha nc)\<close>
    by (auto simp: conn_open_def Let_def encode_def empty_message_def)
  ultimately show ?thesis by (simp add: handle_def retP_def)
qed

text \<open>
  C16. Unconfirmed requests are inert: the run of a connection that sends no confirmed request
  is the same whatever the handler would do to provision, update or switch the survey.
\<close>

theorem unconfirmed_is_inert:
  assumes "\<forall>i \<in> set script. \<forall>req. in_message i = Inr req \<longrightarrow> \<not> wm_confirm req"
  shows "handle sha sv p nc werr script w =
     handle sha (sv\<lparr>sv_handler := (sv_handler sv)\<lparr>h_provision := pr, h_update := up, h_survey := su\<rparr>\<rparr>) p nc werr script w"
proof -
  let ?sv = "sv\<lparr>sv_handler := (sv_handler sv)\<lparr>h_provision := pr, h_update := up, h_survey := su\<rparr>\<rparr>"
  have step: "conn_step sv i c = conn_step ?sv i c" if "i \<in> set script" for i c
    using assms that by (auto simp: conn_step_def conn_request_def dispatch_def Let_def split: conn_phase.split sum.split option.split)
  have "set is \<subseteq> set script \<Longrightarrow> run_conn sv is c = run_conn ?sv is c" for "is" c
  proof (induction "is" arbitrary: c)
    case (Cons i "is")
    then have "run_conn sv is = run_conn ?sv is" by (intro ext fun_cong [OF Cons.IH]) simp
    with Cons.prems step show ?case by simp
  qed simp
  then show ?thesis by (simp add: handle_def)
qed

end
