(* ===== verification/Agent_Server.thy ===== *)
theory Agent_Server
  imports Agent_Session
begin

section \<open>The server of the agent\<close>

text \<open>
  \<open>bottle-agent/internal/controlplane/server.go\<close>, \<open>Listen\<close>, \<open>serve\<close>, \<open>handle\<close> and \<open>Close\<close>: the
  accept loop starts a goroutine per connection and per event subscription; a server state holds
  the listener, the pairing store, the handler's state and the connections, and a step is one
  accepted connection, one input of a connection, one event written by an event goroutine, one
  goroutine that waited for the end of a connection, or one operation of the pairing store. The handler's calls run under its own locks, so one call is one
  step. A panic ends the process: no step follows it.
\<close>

record 'w server_state =
  ss_listening :: bool
  ss_pairings :: pairing_store
  ss_os :: os
  ss_world :: 'w
  ss_conns :: "conn list"

text \<open>\<open>Listen\<close>: the checks of \<open>NewServer\<close>, then the socket; \<open>net_listen\<close> is the operating system's answer.\<close>

definition listen ::
  "(string \<Rightarrow> go_error option) \<Rightarrow> string \<Rightarrow> tls_config option \<Rightarrow> pairing_store option \<Rightarrow> 'w handler option \<Rightarrow> json_text \<Rightarrow>
     os \<Rightarrow> 'w \<Rightarrow> go_error + 'w server \<times> 'w server_state" where
  "listen net_listen address config pairings h jt s w =
     (case new_server address config (pairings \<noteq> None) h jt of
        Inl err \<Rightarrow> Inl err
      | Inr sv \<Rightarrow>
          (case net_listen address of
             Some err \<Rightarrow> Inl (ErrWrap ''listen control plane on eth0: '' err [])
           | None \<Rightarrow> Inr (sv, \<lparr>ss_listening = True, ss_pairings = the pairings, ss_os = s, ss_world = w, ss_conns = []\<rparr>)))"

text \<open>One round of the accept loop: an error ends the loop.\<close>

definition accept ::
  "(string \<Rightarrow> string) \<Rightarrow> go_error + net_conn \<Rightarrow> go_error option \<Rightarrow> 'w server_state \<Rightarrow> 'w server_state" where
  "accept sha_hex r werr s =
     (case r of
        Inl err \<Rightarrow> s\<lparr>ss_listening := False\<rparr>
      | Inr nc \<Rightarrow> s\<lparr>ss_conns := ss_conns s @ [(conn_open sha_hex (ss_pairings s) nc werr)\<lparr>cn_id := length (ss_conns s)\<rparr>]\<rparr>)"

definition server_close :: "'w server_state \<Rightarrow> 'w server_state" where
  "server_close s = s\<lparr>ss_listening := False\<rparr>"

inductive server_step ::
  "io_env \<Rightarrow> pairing_codec \<Rightarrow> (string \<Rightarrow> string) \<Rightarrow> 'w server \<Rightarrow> 'w server_state \<Rightarrow> 'w server_state \<Rightarrow> bool"
  for io cd sha sv where
  step_accept: "ss_listening s \<Longrightarrow> server_step io cd sha sv s (accept sha r werr s)"
| step_close: "server_step io cd sha sv s (server_close s)"
| step_input: "k < length (ss_conns s) \<Longrightarrow> conn_step sv i (ss_conns s ! k) (ss_world s) = (Ret c, w) \<Longrightarrow>
    server_step io cd sha sv s (s\<lparr>ss_conns := (ss_conns s)[k := c], ss_world := w\<rparr>)"
| step_pump: "k < length (ss_conns s) \<Longrightarrow> a \<in> set (cn_pumps (ss_conns s ! k)) \<Longrightarrow>
    pump_step sv a werr (ss_conns s ! k) (ss_world s) = (c, w) \<Longrightarrow>
    server_step io cd sha sv s (s\<lparr>ss_conns := (ss_conns s)[k := c], ss_world := w\<rparr>)"
| step_done: "k < length (ss_conns s) \<Longrightarrow> cn_phase (ss_conns s ! k) = Ended \<Longrightarrow>
    server_step io cd sha sv s (s\<lparr>ss_world := h_done (sv_handler sv) (ConnContext k) n (ss_world s)\<rparr>)"
| step_pairing: "apply_pairing io cd opn (ss_pairings s, ss_os s) = (p, t) \<Longrightarrow>
    server_step io cd sha sv s (s\<lparr>ss_pairings := p, ss_os := t\<rparr>)"

inductive_cases server_stepE: "server_step io cd sha sv s s'"

subsection \<open>Only paired clients are served\<close>

definition conn_ok :: "pairing_store \<Rightarrow> conn \<Rightarrow> bool" where
  "conn_ok p c \<longleftrightarrow> is_allowed p (cn_client c) \<or>
     (cn_phase c = Ended \<and> cn_pumps c = [] \<and>
      cn_sent c \<in> {[], [empty_message\<lparr>wm_type := ''response'', wm_error := ''not_paired''\<rparr>]})"

definition conns_ok :: "'w server_state \<Rightarrow> bool" where
  "conns_ok s \<longleftrightarrow> (\<forall>c \<in> set (ss_conns s). conn_ok (ss_pairings s) c)"

lemma conn_open_ok: "conn_ok p ((conn_open sha p nc werr)\<lparr>cn_id := n\<rparr>)"
  by (auto simp: conn_ok_def conn_open_def Let_def encode_def empty_message_def)

lemma dispatch_client:
  "wp (dispatch Background sv i req c) (\<lambda>r w. \<forall>b c'. r = Ret (b, c') \<longrightarrow> cn_client c' = cn_client c) w"
  by (auto simp: dispatch_def Let_def wp_ret wp_bind intro!: wpI split: outcome.split sum.split)

lemma conn_step_client: "conn_step sv i c w = (Ret c', w') \<Longrightarrow> cn_client c' = cn_client c"
proof -
  have hello: "cn_client (conn_hello i c) = cn_client c"
    by (auto simp: conn_hello_def Let_def split: sum.split)
  have "wp (conn_step sv i c) (\<lambda>r w. \<forall>c'. r = Ret c' \<longrightarrow> cn_client c' = cn_client c) w"
    by (auto simp: conn_step_def conn_request_def Let_def wp_ret wp_bind hello wp_def [of "\<lambda>w. (Ret _, _ w)"]
        intro!: dispatch_client [THEN wp_mono] split: conn_phase.split sum.split option.split outcome.split)
  then show "conn_step sv i c w = (Ret c', w') \<Longrightarrow> ?thesis" by (auto dest: wpD)
qed

lemma conn_step_ok: "conn_step sv i c w = (Ret c', w') \<Longrightarrow> conn_ok p c \<Longrightarrow> conn_ok p c'"
  using conn_step_client [of sv i c w c' w'] by (auto simp: conn_ok_def retP_def)

lemma pump_step_ok: "pump_step sv a e c w = (c', w') \<Longrightarrow> a \<in> set (cn_pumps c) \<Longrightarrow> conn_ok p c \<Longrightarrow> conn_ok p c'"
  by (auto simp: pump_step_def conn_ok_def split: prod.splits option.splits)

lemma pairing_mono: "apply_pairing io cd opn (p, s) = (p', s') \<Longrightarrow> is_allowed p i \<Longrightarrow> is_allowed p' i"
  by (cases opn) (auto dest: pair_client_allowed(1) [OF surjective_pairing [THEN trans]] simp: prod_eq_iff
      pair_client_allowed(1) [where r = "fst (pair_client io cd j (p, s))" for j])

lemma server_step_conns: "server_step io cd sha sv s s' \<Longrightarrow> conns_ok s \<Longrightarrow> conns_ok s'"
proof (induction rule: server_step.induct)
  case (step_accept s r werr)
  then show ?case by (auto simp: conns_ok_def accept_def conn_open_ok split: sum.split)
next
  case (step_close s)
  then show ?case by (simp add: conns_ok_def server_close_def)
next
  case (step_input k s i c w)
  then have "conn_ok (ss_pairings s) c" by (auto simp: conns_ok_def intro: conn_step_ok)
  with step_input.prems show ?case by (auto simp: conns_ok_def dest!: set_update_subset_insert [THEN subsetD])
next
  case (step_pump k s a werr c w)
  then have "conn_ok (ss_pairings s) c" by (auto simp: conns_ok_def intro: pump_step_ok)
  with step_pump.prems show ?case by (auto simp: conns_ok_def dest!: set_update_subset_insert [THEN subsetD])
next
  case (step_done k s n)
  then show ?case by (simp add: conns_ok_def)
next
  case (step_pairing opn s p t)
  then show ?case by (auto simp: conns_ok_def conn_ok_def dest: pairing_mono)
qed

text \<open>
  C17. In every interleaving of accepted connections, their inputs and events and pairing
  operations, a connection of a client that is not on the allowlist is over, has no event
  subscription and was sent nothing but \<open>not_paired\<close>; and pairings are never revoked.
\<close>

theorem server_serves_paired:
  assumes "(server_step io cd sha sv)\<^sup>*\<^sup>* s s'" and "ss_conns s = []" and "c \<in> set (ss_conns s')"
  shows "is_allowed (ss_pairings s') (cn_client c) \<or>
     (cn_phase c = Ended \<and> cn_pumps c = [] \<and>
      cn_sent c \<in> {[], [empty_message\<lparr>wm_type := ''response'', wm_error := ''not_paired''\<rparr>]})"
proof -
  have "conns_ok s'"
    using assms(1,2) by (induction rule: rtranclp_induct) (auto simp: conns_ok_def [of s] intro: server_step_conns)
  with assms(3) show ?thesis by (auto simp: conns_ok_def conn_ok_def)
qed

subsection \<open>The handler's invariant under interleaving\<close>

context handler_contract begin

lemma server_step_good:
  assumes "server_step io cd sha sv s s'" "sv_handler sv = h" "relay_ok sv" "good (ss_world s)"
  shows "good (ss_world s')"
  using assms(1)
proof (cases rule: server_step.cases)
  case (step_input k i c w)
  with conn_step_safe [OF assms(2-4), of i "ss_conns s ! k"] show ?thesis
    by (auto simp: safe_def dest: wpD)
next
  case (step_pump k a werr c w)
  with pump_good [OF assms(2,4), of a werr "ss_conns s ! k"] show ?thesis by simp
next
  case (step_done k n)
  with done_ok [OF assms(4), of "ConnContext k" n] assms(2) show ?thesis by simp
qed (use assms(4) in \<open>auto simp: accept_def server_close_def split: sum.splits\<close>)

lemma server_run_good:
  assumes "(server_step io cd sha sv)\<^sup>*\<^sup>* s s'" "sv_handler sv = h" "relay_ok sv" "good (ss_world s)"
  shows "good (ss_world s')"
  using assms(1,4)
  by (induction rule: rtranclp_induct) (auto intro: server_step_good [OF _ assms(2,3)])

end

subsection \<open>The agent's handler\<close>

text \<open>The agent keeps its bus sound and its subscriptions, with the in-memory store and with the
  durable store.\<close>

lemma memory_run_returns: "wp (provisioner_run h (memory_store now) req) (\<lambda>r s'. returns (\<lambda>_. False) r) s"
  by (rule provisioner_run_returns)
     (auto simp: put_panics_def start_job_def memory_store_def memory_get_def memory_put_def new_provision_job_def Let_def
       split: option.splits)

text \<open>
  The durable store's \<open>Put\<close> panics when the job cannot be persisted, or because its map is nil;
  \<open>file_panic True\<close> leaves only the first, and the map stays as it is, nil or not (\<open>has_map\<close>).
\<close>

definition persist_panic :: "string \<Rightarrow> bool" where
  "persist_panic m \<longleftrightarrow> has_prefix m ''persist lifecycle job: ''"

definition file_panic :: "bool \<Rightarrow> string \<Rightarrow> bool" where
  "file_panic M m \<longleftrightarrow> persist_panic m \<or> (\<not> M \<and> m = ''assignment to entry in nil map'')"

definition has_map :: "bool \<Rightarrow> file_jobs \<Rightarrow> bool" where
  "has_map M f \<longleftrightarrow> (M \<longrightarrow> fj_jobs f \<noteq> None)"

lemma file_put_safe: "put_safe (has_map M) (file_panic M) (file_store io cd now)"
  unfolding put_safe_def persist_panic_def file_panic_def has_map_def file_store_def file_put_def
  by (auto simp: Let_def has_prefix_append simp del: append.simps split: prod.splits option.splits)

lemma file_run_safe:
  assumes "has_map M (store s)"
  shows "wp (provisioner_run h (file_store io cd now) req) (\<lambda>r s'. returns (file_panic M) r \<and> has_map M (store s')) s"
  by (rule provisioner_run_safe [OF file_put_safe _ assms])
     (auto simp: start_job_def file_store_def file_get_def new_provision_job_def split: option.splits)

definition durable_agent :: "'w host \<Rightarrow> io_env \<Rightarrow> job_codec \<Rightarrow> (nat \<Rightarrow> time) \<Rightarrow> (string \<Rightarrow> string) \<Rightarrow> ('w, file_jobs) agent_cfg" where
  "durable_agent h io cd now uni = \<lparr>ag_host = h, ag_jobs = file_store io cd now, ag_now = now, ag_fold = uni\<rparr>"

interpretation agent: handler_contract "agent_handler (durable_agent h io cd now uni)" "agent_ok N (has_map M)" "file_panic M"
  for h :: "'w host" and io cd now uni and N M
proof
  fix w :: "('w, file_jobs) agent_world" and p b st n a ctx k
  let ?h = "agent_handler (durable_agent h io cd now uni)"
  assume ok: "agent_ok N (has_map M) w"
  show "wp (h_status ?h) (\<lambda>r w. r \<in> range Ret \<and> agent_ok N (has_map M) w) w"
    using ok by (simp add: agent_handler_def agent_status_def wp_def)
  have run: "wp (provisioner_run (ag_host (durable_agent h io cd now uni)) (ag_jobs (durable_agent h io cd now uni)) req)
      (\<lambda>r s'. returns (file_panic M) r \<and> has_map M (store s')) (aw_life w)" for req
    using ok unfolding durable_agent_def by (simp add: file_run_safe agent_ok_def)
  show "wp (h_provision ?h p b) (\<lambda>r w. returns (file_panic M) r \<and> agent_ok N (has_map M) w) w"
    using agent_provision_ok [OF ok run, of p b] by (simp add: agent_handler_def)
  show "wp (h_update ?h p b) (\<lambda>r w. r \<in> range Ret \<and> agent_ok N (has_map M) w) w"
    using ok by (auto simp: agent_handler_def agent_update_def wp_ret)
  show "wp (h_survey ?h st b) (\<lambda>r w. r \<in> range Ret \<and> agent_ok N (has_map M) w) w"
    using agent_survey_ok [OF ok] by (simp add: agent_handler_def)
  show "wp (h_events ?h Background n) (\<lambda>r w. r \<in> range Ret \<and> agent_ok N (has_map M) w) w"
    using ok kept_subscribe [of N "aw_bus w" Background n]
    by (auto simp: agent_handler_def agent_events_def wp_def agent_ok_def split: prod.split)
  show "agent_ok N (has_map M) (snd (h_recv ?h a w))"
    using ok kept_receive [of N "aw_bus w" a]
    by (auto simp: agent_handler_def agent_recv_def agent_ok_def split: prod.split)
  show "agent_ok N (has_map M) (h_done ?h ctx k w)" if "ctx \<noteq> Background"
    using ok kept_wake [of N "aw_bus w", OF _ that] by (simp add: agent_handler_def agent_done_def agent_ok_def)
qed

subsection \<open>What follows for the agent\<close>

definition no_relay_effect :: "'w server \<Rightarrow> bool" where
  "no_relay_effect sv \<longleftrightarrow> (\<forall>relay bs w. sv_tunnel sv = Some relay \<longrightarrow> relay bs w = w)"

text \<open>
  C18. The agent process is brought down by a connection only while a confirmed provisioning
  request is served, and only because the job store could not be written or holds no map (the job
  file held the JSON value null when the agent started): any other script of requests, whatever it
  contains, is served without a panic.
\<close>

theorem agent_panics_only_unpersisted:
  assumes sv: "sv_handler sv = agent_handler (durable_agent h io cd now uni)" "no_relay_effect sv"
    and bus: "bus_ids_ok (aw_bus w)"
    and run: "handle sha sv p nc werr script w = (Panic m, w')"
  shows "(has_prefix m ''persist lifecycle job: '' \<or>
      m = ''assignment to entry in nil map'' \<and> fj_jobs (store (aw_life w)) = None) \<and>
     (\<exists>i \<in> set script. \<exists>req. in_message i = Inr req \<and> wm_op req = ''provision'' \<and> wm_confirm req)"
proof -
  let ?M = "fj_jobs (store (aw_life w)) \<noteq> None"
  have "agent_ok False (has_map ?M) w" using bus by (simp add: agent_ok_def kept_def has_map_def)
  moreover have "agent.relay_ok False ?M sv" using sv(2) unfolding agent.relay_ok_def no_relay_effect_def by metis
  ultimately show ?thesis
    using agent.run_conn_safe [OF sv(1), of False ?M w script "conn_open sha p nc werr"] run
    by (auto simp: handle_def agent.safe_def file_panic_def persist_panic_def dest: wpD)
qed

text \<open>
  C19. A subscription outlives its connection: started with a fresh bus, in every interleaving of
  connections, inputs, their ends and the goroutines that wait for those, every channel that was
  ever subscribed is still subscribed (while at most 2^64 subscriptions were made): the goroutine
  that would release it waits for the background context, not for that of the connection.
\<close>

theorem subscription_outlives_connection:
  assumes run: "(server_step jo pc sha sv)\<^sup>*\<^sup>* s s'"
    and sv: "sv_handler sv = agent_handler (durable_agent h io cd now uni)" "no_relay_effect sv"
    and fresh: "aw_bus (ss_world s) = new_bus n"
    and sub: "a < length (chans (aw_bus (ss_world s')))" "length (chans (aw_bus (ss_world s'))) \<le> 2 ^ 64"
  shows "live (aw_bus (ss_world s')) a"
proof -
  have "agent_ok True (has_map False) (ss_world s)" using fresh by (simp add: agent_ok_def kept_new has_map_def)
  moreover have "agent.relay_ok True False sv" using sv(2) unfolding agent.relay_ok_def no_relay_effect_def by metis
  ultimately have "agent_ok True (has_map False) (ss_world s')" using agent.server_run_good [OF run sv(1)] by blast
  with sub show ?thesis by (simp add: agent_ok_def kept_def all_live_def)
qed

subsection \<open>Sessions answer every request\<close>

definition request_ids :: "conn_input list \<Rightarrow> string list" where
  "request_ids script = concat (map (\<lambda>i. case in_message i of
      Inl e \<Rightarrow> [] | Inr m \<Rightarrow> if wm_type m = ''request'' then [wm_id m] else []) script)"

definition plain_input :: "conn_input \<Rightarrow> bool" where
  "plain_input i \<longleftrightarrow> in_write i = None \<and>
     (case in_message i of Inl e \<Rightarrow> False | Inr m \<Rightarrow> wm_op m \<notin> {''tunnel'', ''events_subscribe''})"

definition answers :: "string list \<Rightarrow> conn \<Rightarrow> conn \<Rightarrow> bool" where
  "answers ids c c' \<longleftrightarrow> cn_phase c' = cn_phase c \<and> cn_pumps c' = cn_pumps c \<and>
     (\<exists>rs. cn_sent c' = cn_sent c @ rs \<and> map wm_id rs = ids \<and> (\<forall>m \<in> set rs. wm_type m = ''response''))"

lemma answers_refl: "answers [] c c"
  by (simp add: answers_def)

lemma answers_trans: "answers xs c c1 \<Longrightarrow> answers ys c1 c2 \<Longrightarrow> answers (xs @ ys) c c2"
  by (force simp: answers_def)

lemma answers_reply: "in_write i = None \<Longrightarrow> answers [wm_id req] c (reply i req p e c)"
  by (auto simp: answers_def reply_def encode_def empty_message_def Let_def split: option.split)

lemma dispatch_answers:
  assumes "in_write i = None" "wm_op req \<notin> {''tunnel'', ''events_subscribe''}"
  shows "wp (dispatch Background sv i req c) (\<lambda>r w. \<forall>b c'. r = Ret (b, c') \<longrightarrow> \<not> b \<and> answers [wm_id req] c c') w"
  using assms
  by (auto simp: dispatch_def Let_def wp_ret wp_bind answers_reply intro!: wpI split: outcome.split)

lemma conn_step_answers:
  assumes "plain_input i" "cn_phase c = Serving" "conn_step sv i c w = (Ret c', w')"
  shows "answers (request_ids [i]) c c'"
proof -
  obtain req where req: "in_message i = Inr req" "in_write i = None" "wm_op req \<notin> {''tunnel'', ''events_subscribe''}"
    using assms(1) by (auto simp: plain_input_def split: sum.splits)
  have "wp (conn_step sv i c) (\<lambda>r w. \<forall>c'. r = Ret c' \<longrightarrow> answers (request_ids [i]) c c') w"
    using assms(2) req
    by (auto simp: conn_step_def conn_request_def request_ids_def wp_ret wp_bind answers_refl
        intro!: dispatch_answers [OF req(2,3), THEN wp_mono] split: outcome.split)
  with assms(3) show ?thesis by (auto dest: wpD)
qed

text \<open>
  On a connection that has been greeted, and whose writes succeed, every request but the
  tunnel and the event subscription is answered by exactly one response with its id, in the
  order of the requests, and the connection keeps serving.
\<close>

theorem session_answers:
  assumes "\<forall>i \<in> set script. plain_input i" and "cn_phase c = Serving"
    and "run_conn sv script c w = (Ret c', w')"
  shows "\<exists>rs. cn_sent c' = cn_sent c @ rs \<and> map wm_id rs = request_ids script \<and>
     (\<forall>m \<in> set rs. wm_type m = ''response'') \<and> cn_phase c' = Serving"
proof -
  have "answers (request_ids script) c c'"
    using assms
  proof (induction script arbitrary: c w)
    case Nil
    then show ?case by (simp add: retP_def request_ids_def answers_refl)
  next
    case (Cons i script)
    obtain c1 w1 where st: "conn_step sv i c w = (Ret c1, w1)" "run_conn sv script c1 w1 = (Ret c', w')"
      using Cons.prems(3) by (auto simp: bindP_def split: prod.splits outcome.splits)
    have a: "answers (request_ids [i]) c c1"
      using conn_step_answers [OF _ _ st(1)] Cons.prems by simp
    then have "answers (request_ids script) c1 c'"
      using Cons.IH [OF _ _ st(2)] Cons.prems(1,2) by (simp add: answers_def)
    with a have "answers (request_ids [i] @ request_ids script) c c'" by (rule answers_trans)
    then show ?case by (simp add: request_ids_def)
  qed
  with assms(2) show ?thesis by (auto simp: answers_def)
qed

subsection \<open>Concrete inputs\<close>

text \<open>A handler that counts the provisioning requests it was given.\<close>

definition counting_handler :: "nat handler" where
  "counting_handler = \<lparr>h_status = retP (\<lparr>st_ready = True, st_survey = ''idle'', st_message = []\<rparr>, None),
     h_provision = (\<lambda>p b n. (Ret (None, None), Suc n)), h_update = (\<lambda>p b. retP (None, None)),
     h_survey = (\<lambda>st b. retP None), h_events = (\<lambda>ctx n. retP (Inl err_event_history_gap)), h_recv = (\<lambda>a n. (None, n)), h_done = (\<lambda>ctx k n. n)\<rparr>"

definition test_tls :: tls_config where
  "test_tls = \<lparr>min_version = version_tls13, client_auth = RequireAndVerifyClientCert, client_cas = Some ''ca''\<rparr>"

definition test_json :: json_text where
  "test_json = \<lparr>time_text = (\<lambda>_. ''t''), map_keys = (\<lambda>_. [])\<rparr>"

definition test_server :: "'w handler \<Rightarrow> 'w server" where
  "test_server h = \<lparr>sv_tls = test_tls, sv_handler = h, sv_tunnel = None, sv_json = test_json\<rparr>"

definition test_conn :: "string \<Rightarrow> net_conn" where
  "test_conn cert = \<lparr>nc_tls = True, nc_handshake = None, nc_peer_certs = [cert]\<rparr>"

definition message_in :: "wire_message \<Rightarrow> conn_input" where
  "message_in m = \<lparr>in_message = Inr m, in_write = None, in_rest = []\<rparr>"

definition hello_in :: conn_input where
  "hello_in = message_in (empty_message\<lparr>wm_type := ''hello'', wm_version := protocol_version\<rparr>)"

definition request_in :: "string \<Rightarrow> string \<Rightarrow> bool \<Rightarrow> conn_input" where
  "request_in i opn confirm =
     message_in (empty_message\<lparr>wm_type := ''request'', wm_id := i, wm_op := opn, wm_confirm := confirm\<rparr>)"

definition allows :: "string \<Rightarrow> pairing_store" where
  "allows i = new_pairing_store\<lparr>allowed := Some [i \<mapsto> True]\<rparr>"

lemmas test_defs = test_server_def test_conn_def message_in_def hello_in_def request_in_def counting_handler_def empty_message_def

theorem unpaired_never_served_witness:
  "\<exists>c. handle (\<lambda>x. x) (test_server counting_handler)
      (fst (fold (apply_pairing no_faults test_pairing_codec) [PairClient ''a1'', OpenWindow] (new_pairing_store, \<lparr>fs = Map.empty, ios = 0\<rparr>)))
      (test_conn ''a1'') None [hello_in, request_in ''r1'' ''provision'' True] 0 = (Ret c, 0) \<and> cn_phase c = Ended"
proof -
  let ?ops = "[PairClient ''a1'', OpenWindow]"
  let ?st = "fold (apply_pairing no_faults test_pairing_codec) ?ops (new_pairing_store, \<lparr>fs = Map.empty, ios = 0\<rparr>)"
  have "?st = (fst ?st, snd ?st)" by simp
  moreover have "\<not> paired_in_window False ?ops (certificate_id (\<lambda>x. x) (test_conn ''a1''))" by simp
  ultimately have "\<exists>c. handle (\<lambda>x. x) (test_server counting_handler) (fst ?st) (test_conn ''a1'') None
      [hello_in, request_in ''r1'' ''provision'' True] 0 = (Ret c, 0) \<and> cn_phase c = Ended \<and> cn_pumps c = [] \<and>
      cn_sent c \<in> {[], [empty_message\<lparr>wm_type := ''response'', wm_error := ''not_paired''\<rparr>]}"
    by (rule unpaired_never_served)
  then show ?thesis by blast
qed

theorem unconfirmed_is_inert_witness:
  "handle (\<lambda>x. x) (test_server counting_handler) (allows ''a1'') (test_conn ''a1'') None [hello_in, request_in ''r1'' ''provision'' False] 0 =
   handle (\<lambda>x. x) (test_server (counting_handler\<lparr>h_provision := (\<lambda>p b n. (Panic ''no'', n + 7)), h_update := h_update counting_handler,
       h_survey := h_survey counting_handler\<rparr>))
     (allows ''a1'') (test_conn ''a1'') None [hello_in, request_in ''r1'' ''provision'' False] 0"
proof -
  let ?h = "counting_handler\<lparr>h_provision := (\<lambda>p b n. (Panic ''no'', n + 7)), h_update := h_update counting_handler,
       h_survey := h_survey counting_handler\<rparr>"
  have sv: "(test_server counting_handler)\<lparr>sv_handler := ?h\<rparr> = test_server ?h" by (simp add: test_server_def)
  have h: "sv_handler (test_server counting_handler) = counting_handler" by (simp add: test_server_def)
  have "\<forall>i \<in> set [hello_in, request_in ''r1'' ''provision'' False]. \<forall>req. in_message i = Inr req \<longrightarrow> \<not> wm_confirm req"
    by (auto simp: hello_in_def request_in_def message_in_def empty_message_def)
  note inert = unconfirmed_is_inert [where sv = "test_server counting_handler" and
      script = "[hello_in, request_in ''r1'' ''provision'' False]" and pr = "\<lambda>p b n. (Panic ''no'', n + 7)" and
      up = "h_update counting_handler" and su = "h_survey counting_handler", OF this]
  show ?thesis by (rule inert [unfolded h sv])
qed

theorem session_answers_witness:
  "\<exists>c w rs. run_conn (test_server counting_handler) [request_in ''r1'' ''status'' False, request_in ''r2'' ''reboot'' True]
      \<lparr>cn_id = 0, cn_client = ''a1'', cn_phase = Serving, cn_pumps = [], cn_sent = []\<rparr> 0 = (Ret c, w) \<and>
    map wm_id (cn_sent c) = [''r1'', ''r2''] \<and> cn_phase c = Serving"
proof -
  let ?c = "\<lparr>cn_id = 0, cn_client = ''a1'', cn_phase = Serving, cn_pumps = [], cn_sent = []\<rparr>"
  let ?s = "[request_in ''r1'' ''status'' False, request_in ''r2'' ''reboot'' True]"
  obtain c w where run: "run_conn (test_server counting_handler) ?s ?c 0 = (Ret c, w)"
    by (simp add: conn_step_def conn_request_def dispatch_def retP_bind test_defs Let_def retP_def bindP_def reply_def encode_def)
  have "\<forall>i \<in> set ?s. plain_input i" by (simp add: plain_input_def request_in_def message_in_def empty_message_def)
  moreover have "request_ids ?s = [''r1'', ''r2'']" by (simp add: request_ids_def request_in_def message_in_def empty_message_def)
  ultimately show ?thesis using session_answers [of ?s ?c, OF _ _ run] run by auto
qed

theorem server_serves_paired_witness:
  "\<exists>s c. (server_step no_faults test_pairing_codec (\<lambda>x. x) (test_server counting_handler))\<^sup>*\<^sup>*
      \<lparr>ss_listening = True, ss_pairings = allows ''a1'', ss_os = \<lparr>fs = Map.empty, ios = 0\<rparr>, ss_world = 0, ss_conns = []\<rparr> s \<and>
    ss_conns s = [c] \<and> cn_client c = ''b2'' \<and> cn_phase c = Ended"
proof -
  let ?s = "\<lparr>ss_listening = True, ss_pairings = allows ''a1'', ss_os = \<lparr>fs = Map.empty, ios = 0\<rparr>, ss_world = 0, ss_conns = []\<rparr> :: nat server_state"
  let ?s' = "accept (\<lambda>x. x) (Inr (test_conn ''b2'')) None ?s"
  have run: "(server_step no_faults test_pairing_codec (\<lambda>x. x) (test_server counting_handler))\<^sup>*\<^sup>* ?s ?s'"
    by (intro r_into_rtranclp step_accept) simp
  have c: "ss_conns ?s' = [conn_open (\<lambda>x. x) (allows ''a1'') (test_conn ''b2'') None]" "ss_pairings ?s' = allows ''a1''"
    by (simp_all add: accept_def conn_open_def encode_def Let_def)
  have cl: "certificate_id (\<lambda>x. x) (test_conn ''b2'') = ''b2''" by (simp add: certificate_id_def test_conn_def)
  have "cn_phase (conn_open (\<lambda>x. x) (allows ''a1'') (test_conn ''b2'') None) = Ended"
    using server_serves_paired [OF run, of "conn_open (\<lambda>x. x) (allows ''a1'') (test_conn ''b2'') None"]
    by (simp add: c cl) (simp add: allows_def is_allowed_def)
  with run c cl show ?thesis by fastforce
qed

subsection \<open>A concrete agent\<close>

definition wrong_machine :: "unit host" where
  "wrong_machine = \<lparr>hArchitecture = (\<lambda>w. (''amd64'', w)), hIsBookworm = (\<lambda>w. (True, w)), hFreeStorageMB = (\<lambda>w. (0, w)),
     hHasEthernet = (\<lambda>n w. (True, w)), hRadioCount = (\<lambda>w. (0, w)), hGPSVisible = (\<lambda>w. (True, w)),
     hConfig = (\<lambda>p w. (([], False), w)), hBackup = (\<lambda>ps w. (None, w)), hRun = (\<lambda>c w. (None, w)), hHealthCheck = (\<lambda>w. (None, w)),
     hFetch = (\<lambda>u w. (Inr [], w)), hStage = (\<lambda>v p w. (None, w)), hActiveRelease = (\<lambda>w. ([], w)),
     hActivate = (\<lambda>v w. (None, w)), hRollback = (\<lambda>v w. (None, w))\<rparr>"

definition broken_disk :: io_env where
  "broken_disk = no_faults\<lparr>io_fault := (\<lambda>n. Some (FailClean (ErrText ''no space left on device'')))\<rparr>"

definition test_agent :: "io_env \<Rightarrow> (unit, file_jobs) agent_cfg" where
  "test_agent io = durable_agent wrong_machine io test_codec (\<lambda>_. 7) (\<lambda>s. s)"

definition test_agent_world :: "(unit, file_jobs) agent_world" where
  "test_agent_world = new_agent_world () \<lparr>fj_path = ''/jobs'', fj_jobs = Some Map.empty, fj_os = \<lparr>fs = Map.empty, ios = 0\<rparr>, fj_reads = 0\<rparr> (new_bus 0)"

lemma test_agent_bus: "bus_ids_ok (aw_bus test_agent_world)"
  using kept_new by (simp add: test_agent_world_def new_agent_world_def kept_def)

definition provision_in :: "string \<Rightarrow> string \<Rightarrow> conn_input" where
  "provision_in i rid = message_in (empty_message\<lparr>wm_type := ''request'', wm_id := i, wm_op := ''provision'', wm_confirm := True,
     wm_payload := Some (JObj [(''RequestID'', JStr rid)])\<rparr>)"

definition greeted :: "string \<Rightarrow> conn" where
  "greeted i = \<lparr>cn_id = 0, cn_client = i, cn_phase = Serving, cn_pumps = [],
     cn_sent = [empty_message\<lparr>wm_type := ''hello_ack'', wm_ok := True, wm_version := protocol_version\<rparr>]\<rparr>"

lemma greet: "handle (\<lambda>x. x) sv (allows i) (test_conn i) None (hello_in # script) = run_conn sv script (greeted i)"
  by (simp add: handle_def conn_open_def test_conn_def certificate_id_def allows_def is_allowed_def conn_step_def
      conn_hello_def hello_in_def message_in_def greeted_def encode_def empty_message_def Let_def)

lemma run_one_request:
  assumes "wm_type m = ''request''" "wm_op m \<noteq> ''tunnel''" "dispatch Background sv (message_in m) m (greeted i) w = (Panic p, w')"
  shows "run_conn sv [message_in m] (greeted i) w = (Panic p, w')"
  using assms by (simp add: conn_step_def conn_request_def greeted_def message_in_def bindP_def)

lemma flush_broken: "\<exists>s'. flush broken_disk cd p js s = (Some (ErrText ''no space left on device''), s')"
  by (simp add: flush_def os_mkdir_all_def broken_disk_def no_faults_def fault_error_def)

lemma broken_put: "file_put broken_disk cd now j f \<noteq> (Ret u, f')"
proof (cases "fj_jobs f")
  case (Some m)
  then show ?thesis
    using flush_broken [of cd "fj_path f" "Some (m(job_id j \<mapsto> clone_job (j\<lparr>updated_at := now (fj_reads f)\<rparr>)))" "fj_os f"]
    by (auto simp: file_put_def Let_def)
qed (simp add: file_put_def Let_def)

lemma broken_run:
  assumes "pr_id req \<noteq> []" "nil_lookup (fj_jobs (store s)) (pr_id req) = None"
  shows "wp (provisioner_run wrong_machine (file_store broken_disk test_codec (\<lambda>_. 7)) req) (\<lambda>r s. \<exists>m. r = Panic m) s"
  using assms
  by (simp add: provisioner_run_def provision_job_def preflight_def provision_fail_def wrong_machine_def new_provision_job_def
       Let_def prog_simps wp_jobs_get wp_jobs_put wp_host_op file_store_def file_get_def broken_put split: outcome.splits)

lemma broken_provision: "\<exists>m w. agent_provision (test_agent broken_disk) (Some (JObj [(''RequestID'', JStr ''p1'')])) True test_agent_world = (Panic m, w)"
proof -
  have dec: "decode_provision_payload uni (Some (JObj [(''RequestID'', JStr ''p1'')])) = (''p1'', None)" for uni
    by (simp add: decode_provision_payload_def request_id_key_def)
  have "wp (provisioner_run wrong_machine (file_store broken_disk test_codec (\<lambda>_. 7)) \<lparr>pr_id = ''p1'', pr_confirm = True\<rparr>)
      (\<lambda>r s. \<exists>m. r = Panic m) (aw_life test_agent_world)"
    by (rule broken_run) (simp_all add: test_agent_world_def new_agent_world_def)
  then show ?thesis
    by (auto simp: agent_provision_def dec bindP_def on_life_def test_agent_def durable_agent_def wp_def split: prod.split outcome.split)
qed

theorem agent_panics_only_unpersisted_witness:
  "\<exists>m w. handle (\<lambda>x. x) (test_server (agent_handler (test_agent broken_disk))) (allows ''a1'') (test_conn ''a1'') None
      [hello_in, provision_in ''r1'' ''p1''] test_agent_world = (Panic m, w) \<and> has_prefix m ''persist lifecycle job: ''"
proof -
  let ?sv = "test_server (agent_handler (test_agent broken_disk))"
  obtain m w where "agent_provision (test_agent broken_disk) (Some (JObj [(''RequestID'', JStr ''p1'')])) True test_agent_world = (Panic m, w)"
    using broken_provision by blast
  then have run: "handle (\<lambda>x. x) ?sv (allows ''a1'') (test_conn ''a1'') None [hello_in, provision_in ''r1'' ''p1''] test_agent_world = (Panic m, w)"
    unfolding greet provision_in_def
    by (intro run_one_request) (simp_all add: dispatch_def test_server_def agent_handler_def empty_message_def bindP_def Let_def)
  have "no_relay_effect ?sv" by (simp add: no_relay_effect_def test_server_def)
  with agent_panics_only_unpersisted [OF _ this test_agent_bus run, of wrong_machine broken_disk test_codec "\<lambda>_. 7" "\<lambda>s. s"] run
  show ?thesis by (auto simp: test_server_def test_agent_def test_agent_world_def new_agent_world_def)
qed

lemma subscribe_request:
  "conn_step (test_server (agent_handler (test_agent no_faults))) (request_in i ''events_subscribe'' b) (greeted x) test_agent_world =
     (Ret ((greeted x)\<lparr>cn_pumps := [0]\<rparr>), test_agent_world\<lparr>aw_bus := snd (subscribe Background 0 (new_bus 0))\<rparr>)"
  by (simp add: conn_step_def conn_request_def dispatch_def greeted_def request_in_def message_in_def test_server_def
      agent_handler_def agent_events_def test_agent_world_def new_agent_world_def subscribe_def history_gap_def new_bus_def
      empty_message_def bindP_def retP_def Let_def)

text \<open>A client subscribes and leaves; the goroutines waiting for the end of its connection then run.\<close>

theorem subscription_outlives_connection_witness:
  "\<exists>s s' c. (server_step no_faults test_pairing_codec (\<lambda>x. x) (test_server (agent_handler (test_agent no_faults))))\<^sup>*\<^sup>* s s' \<and>
     chans (aw_bus (ss_world s)) = [] \<and> ss_conns s' = [c] \<and> cn_phase c = Ended \<and> cn_pumps c = [0] \<and> live (aw_bus (ss_world s')) 0"
proof -
  let ?sv = "test_server (agent_handler (test_agent no_faults))"
  let ?step = "server_step no_faults test_pairing_codec (\<lambda>x. x) ?sv"
  let ?s = "\<lparr>ss_listening = True, ss_pairings = allows ''a1'', ss_os = \<lparr>fs = Map.empty, ios = 0\<rparr>, ss_world = test_agent_world,
     ss_conns = [greeted ''a1'']\<rparr>"
  let ?c = "(greeted ''a1'')\<lparr>cn_pumps := [0]\<rparr>"
  let ?w = "test_agent_world\<lparr>aw_bus := snd (subscribe Background 0 (new_bus 0))\<rparr>"
  let ?s1 = "?s\<lparr>ss_conns := [?c], ss_world := ?w\<rparr>"
  let ?s2 = "?s1\<lparr>ss_conns := [?c\<lparr>cn_phase := Ended\<rparr>]\<rparr>"
  let ?s3 = "?s2\<lparr>ss_world := h_done (sv_handler ?sv) (ConnContext 0) 0 ?w\<rparr>"
  have "?step ?s ?s1"
    using step_input [of 0 ?s ?sv "request_in ''r1'' ''events_subscribe'' False" ?c ?w] by (simp add: subscribe_request)
  moreover have "?step ?s1 ?s2"
    using step_input [of 0 ?s1 ?sv "\<lparr>in_message = Inl io_eof, in_write = None, in_rest = []\<rparr>" "?c\<lparr>cn_phase := Ended\<rparr>" ?w]
    by (simp add: conn_step_def conn_request_def greeted_def retP_def)
  moreover have "?step ?s2 ?s3" using step_done [of 0 ?s2 no_faults test_pairing_codec "\<lambda>x. x" ?sv 0] by simp
  ultimately have run: "?step\<^sup>*\<^sup>* ?s ?s3" by (meson converse_rtranclp_into_rtranclp rtranclp.rtrancl_refl)
  have w3: "aw_bus (ss_world ?s3) = snd (subscribe Background 0 (new_bus 0))"
    by (simp add: test_server_def agent_handler_def agent_done_def wake_def subscribe_def history_gap_def new_bus_def Let_def)
  have len: "length (chans (snd (subscribe Background 0 (new_bus 0)))) = 1"
    by (simp add: subscribe_def history_gap_def new_bus_def Let_def)
  have "no_relay_effect ?sv" by (simp add: no_relay_effect_def test_server_def)
  moreover have "sv_handler ?sv = agent_handler (durable_agent wrong_machine no_faults test_codec (\<lambda>_. 7) (\<lambda>s. s))"
    by (simp add: test_server_def test_agent_def)
  moreover have "aw_bus (ss_world ?s) = new_bus 0" by (simp add: test_agent_world_def new_agent_world_def)
  moreover have "0 < length (chans (aw_bus (ss_world ?s3)))" "length (chans (aw_bus (ss_world ?s3))) \<le> 2 ^ 64"
    unfolding w3 len by simp_all
  ultimately have "live (aw_bus (ss_world ?s3)) 0" by (intro subscription_outlives_connection [OF run])
  moreover have "chans (aw_bus (ss_world ?s)) = []" by (simp add: test_agent_world_def new_agent_world_def new_bus_def)
  moreover have "ss_conns ?s3 = [?c\<lparr>cn_phase := Ended\<rparr>]" "cn_phase (?c\<lparr>cn_phase := Ended\<rparr>) = Ended"
    "cn_pumps (?c\<lparr>cn_phase := Ended\<rparr>) = [0]" by simp_all
  ultimately show ?thesis using run by blast
qed

end
