(* ===== verification/Go_Lib.thy ===== *)
theory Go_Lib
  imports Bottle_Prelude
begin

section \<open>Go library functions on addresses, JSON structs and streams\<close>

text \<open>
  \<open>net.SplitHostPort\<close>, \<open>net.JoinHostPort\<close> and the loopback test of \<open>net.ParseIP\<close>; decoding a JSON
  object into a struct; and the byte relay made of two \<open>io.Copy\<close> calls that both ends of the
  Kismet tunnel run.
\<close>

subsection \<open>Addresses\<close>

definition addr_error :: "string \<Rightarrow> string \<Rightarrow> go_error" where
  "addr_error msg addr = ErrText (''address '' @ addr @ '': '' @ msg)"

definition last_index :: "char \<Rightarrow> string \<Rightarrow> nat option" where
  "last_index c s = (if c \<in> set s then Some (length s - 1 - length (takeWhile (\<lambda>x. x \<noteq> c) (rev s))) else None)"

definition first_index :: "char \<Rightarrow> string \<Rightarrow> nat option" where
  "first_index c s = (if c \<in> set s then Some (length (takeWhile (\<lambda>x. x \<noteq> c) s)) else None)"

definition split_host_port :: "string \<Rightarrow> go_error + string \<times> string" where
  "split_host_port a =
     (case last_index (CHR '':'') a of
        None \<Rightarrow> Inl (addr_error ''missing port in address'' a)
      | Some i \<Rightarrow>
          if hd a = CHR ''['' then
            (case first_index (CHR '']'') a of
               None \<Rightarrow> Inl (addr_error (''missing '' @ [char_of (39::nat)] @ '']'' @ [char_of (39::nat)] @ '' in address'') a)
             | Some j \<Rightarrow>
                 if Suc j = length a then Inl (addr_error ''missing port in address'' a)
                 else if Suc j \<noteq> i then
                   (if a ! Suc j = CHR '':'' then Inl (addr_error ''too many colons in address'' a)
                    else Inl (addr_error ''missing port in address'' a))
                 else if CHR ''['' \<in> set (drop 1 a) then Inl (addr_error (''unexpected '' @ [char_of (39::nat)] @ ''['' @ [char_of (39::nat)] @ '' in address'') a)
                 else if CHR '']'' \<in> set (drop (Suc j) a) then Inl (addr_error (''unexpected '' @ [char_of (39::nat)] @ '']'' @ [char_of (39::nat)] @ '' in address'') a)
                 else Inr (take (j - 1) (drop 1 a), drop (Suc i) a))
          else
            (let host = take i a in
             if CHR '':'' \<in> set host then Inl (addr_error ''too many colons in address'' a)
             else if CHR ''['' \<in> set a then Inl (addr_error (''unexpected '' @ [char_of (39::nat)] @ ''['' @ [char_of (39::nat)] @ '' in address'') a)
             else if CHR '']'' \<in> set a then Inl (addr_error (''unexpected '' @ [char_of (39::nat)] @ '']'' @ [char_of (39::nat)] @ '' in address'') a)
             else Inr (host, drop (Suc i) a)))"

definition join_host_port :: "string \<Rightarrow> string \<Rightarrow> string" where
  "join_host_port host port = (if CHR '':'' \<in> set host then ''['' @ host @ '']:'' @ port else host @ '':'' @ port)"

text \<open>
  A literal IPv4 address: four decimal numbers up to 255 without leading zeros. An IPv6 literal
  is left to the parameter \<open>ip6\<close>: \<open>None\<close> when it does not parse, else whether it is loopback.
\<close>

definition is_digit :: "char \<Rightarrow> bool" where
  "is_digit c \<longleftrightarrow> (let n = (of_char c :: nat) in 48 \<le> n \<and> n \<le> 57)"

definition octet :: "string \<Rightarrow> nat option" where
  "octet s = (if s = [] \<or> \<not> list_all is_digit s \<or> 3 < length s \<or> (1 < length s \<and> hd s = CHR ''0'') then None
     else (let n = foldl (\<lambda>n c. 10 * n + (of_char c - 48)) 0 s in if n \<le> 255 then Some n else None))"

definition ip_loopback :: "(string \<Rightarrow> bool option) \<Rightarrow> string \<Rightarrow> bool option" where
  "ip_loopback ip6 s =
     (if CHR '':'' \<in> set s then ip6 s
      else (case map octet (split_on (CHR ''.'') s) of
          [Some a, Some b, Some c, Some d] \<Rightarrow> Some (a = 127)
        | _ \<Rightarrow> None))"

subsection \<open>JSON into structs\<close>

text \<open>
  The fields of a struct, by JSON name and kind. Keys match exactly or up to case (\<open>uni\<close> folds
  non-ASCII keys), \<open>null\<close> leaves a field as it is (but a \<open>json.RawMessage\<close>, the kind \<open>KRaw\<close>, keeps it),
  a value of another kind is an error (the first one is reported, the other fields are still set).
  The result maps the names of set fields to values.
\<close>

datatype field_kind = KString | KBool | KInt | KUint | KRaw | KAny

text \<open>The literal of a \<open>uint64\<close>.\<close>

definition decimal :: "string \<Rightarrow> nat" where
  "decimal s = foldl (\<lambda>n c. 10 * n + (of_char c - 48)) 0 s"

definition read_uint :: "string \<Rightarrow> 64 word option" where
  "read_uint s =
     (if s = [] \<or> \<not> list_all is_digit s \<or> 2 ^ 64 \<le> decimal s then None else Some (of_nat (decimal s)))"

lemma decimal_digits: "decimal (nat_digits n) = n \<and> nat_digits n \<noteq> [] \<and> list_all is_digit (nat_digits n)"
proof (induction n rule: nat_digits.induct)
  case (1 n)
  have snoc: "decimal (s @ [c]) = 10 * decimal s + (of_char c - 48)" for s c by (simp add: decimal_def)
  have digit: "(of_char (char_of (48 + k) :: char) :: nat) = 48 + k" if "k < 10" for k :: nat
    using that by simp
  then have small: "decimal [char_of (48 + k)] = k" "is_digit (char_of (48 + k))" if "k < 10" for k :: nat
    using that by (simp_all add: decimal_def is_digit_def)
  show ?case
  proof (cases "n < 10")
    case True
    with small [OF True] show ?thesis by (simp add: nat_digits.simps [of n])
  next
    case False
    have "n mod 10 < 10" by simp
    with 1 False small(2) [of "n mod 10"] digit [of "n mod 10"] show ?thesis
      by (simp add: nat_digits.simps [of n] snoc del: of_char_of)
  qed
qed

lemma read_itoa [simp]: "read_uint (itoa (uint w)) = Some (w :: 64 word)"
  using decimal_digits [of "unat w"] unsigned_less [of w, where 'a = nat]
  by (simp add: read_uint_def itoa_def)

fun kind_matches :: "field_kind \<Rightarrow> json \<Rightarrow> bool" where
  "kind_matches KString (JStr s) = True"
| "kind_matches KBool (JBool b) = True"
| "kind_matches KInt (JNum n) = True"
| "kind_matches KUint (JNum n) = (read_uint n \<noteq> None)"
| "kind_matches KRaw v = True"
| "kind_matches KAny v = True"
| "kind_matches k v = False"

type_synonym struct_spec = "(string \<times> field_kind) list"

definition field_match :: "(string \<Rightarrow> string) \<Rightarrow> struct_spec \<Rightarrow> string \<Rightarrow> (string \<times> field_kind) option" where
  "field_match uni spec k =
     (case find (\<lambda>(n, _). n = k) spec of
        Some f \<Rightarrow> Some f
      | None \<Rightarrow> find (\<lambda>(n, _). to_lower uni n = to_lower uni k) spec)"

fun decode_fields ::
  "(string \<Rightarrow> string) \<Rightarrow> struct_spec \<Rightarrow> payload \<Rightarrow> (string \<Rightarrow> json option) \<times> go_error option \<Rightarrow> (string \<Rightarrow> json option) \<times> go_error option" where
  "decode_fields uni spec [] st = st"
| "decode_fields uni spec ((k, v) # p) (m, e) =
     decode_fields uni spec p
       (case field_match uni spec k of
          None \<Rightarrow> (m, e)
        | Some (n, kind) \<Rightarrow>
            if v = JNull \<and> kind \<noteq> KRaw then (m, e)
            else if kind_matches kind v then (m(n \<mapsto> v), e)
            else (m, case e of Some x \<Rightarrow> Some x | None \<Rightarrow> Some (ErrText (''json: cannot unmarshal into field '' @ n))))"

definition decode_struct ::
  "(string \<Rightarrow> string) \<Rightarrow> struct_spec \<Rightarrow> (string \<Rightarrow> json option) \<Rightarrow> json \<Rightarrow> (string \<Rightarrow> json option) \<times> go_error option" where
  "decode_struct uni spec m v =
     (case v of
        JNull \<Rightarrow> (m, None)
      | JObj p \<Rightarrow> decode_fields uni spec p (m, None)
      | _ \<Rightarrow> (m, Some (ErrText ''json: cannot unmarshal into struct'')))"

definition str_field :: "(string \<Rightarrow> json option) \<Rightarrow> string \<Rightarrow> string" where
  "str_field m n = (case m n of Some (JStr s) \<Rightarrow> s | _ \<Rightarrow> [])"

definition bool_field :: "(string \<Rightarrow> json option) \<Rightarrow> string \<Rightarrow> bool" where
  "bool_field m n = (case m n of Some (JBool b) \<Rightarrow> b | _ \<Rightarrow> False)"

subsection \<open>Relaying bytes\<close>

text \<open>
  Two goroutines that run \<open>io.Copy\<close> between the ends \<open>A\<close> and \<open>B\<close>, one for each direction, and the caller
  that waits for the first of them. A copy reads some bytes into its buffer when that is empty, and
  writes from it; it returns \<open>nil\<close> only at the end of its source with everything written, an error at
  any time. The caller's \<open>select\<close> takes the first copy that returned, or the context when that is done
  first (\<open>rl_first\<close>). From then on the other copy goes on until the deferred calls have closed the
  connections (\<open>rl_closed\<close>), and only then nothing is read or written. An event that is not enabled
  changes nothing.
\<close>

datatype direction = AtoB | BtoA

datatype relay_event =
    ReadSome direction nat | WriteSome direction nat
  | CopyEnds direction "go_error option" | CtxDone go_error | Closes

record relay =
  rl_src :: "direction \<Rightarrow> string"
  rl_buf :: "direction \<Rightarrow> string"
  rl_dst :: "direction \<Rightarrow> string"
  rl_done :: "direction \<Rightarrow> bool"
  rl_first :: "relay_event option"
  rl_closed :: bool

definition new_relay :: "string \<Rightarrow> string \<Rightarrow> relay" where
  "new_relay a b = \<lparr>rl_src = (\<lambda>d. case d of AtoB \<Rightarrow> a | BtoA \<Rightarrow> b), rl_buf = (\<lambda>_. []), rl_dst = (\<lambda>_. []),
     rl_done = (\<lambda>_. False), rl_first = None, rl_closed = False\<rparr>"

definition first_end :: "relay_event \<Rightarrow> relay \<Rightarrow> relay" where
  "first_end e r = (if rl_first r = None then r\<lparr>rl_first := Some e\<rparr> else r)"

fun relay_step :: "relay_event \<Rightarrow> relay \<Rightarrow> relay" where
  "relay_step (ReadSome d n) r =
     (if rl_done r d \<or> rl_closed r \<or> rl_buf r d \<noteq> [] then r
      else r\<lparr>rl_src := (rl_src r)(d := drop n (rl_src r d)), rl_buf := (rl_buf r)(d := take n (rl_src r d))\<rparr>)"
| "relay_step (WriteSome d n) r =
     (if rl_done r d \<or> rl_closed r then r
      else r\<lparr>rl_buf := (rl_buf r)(d := drop n (rl_buf r d)), rl_dst := (rl_dst r)(d := rl_dst r d @ take n (rl_buf r d))\<rparr>)"
| "relay_step (CopyEnds d err) r =
     (if rl_done r d \<or> (err = None \<and> (rl_src r d \<noteq> [] \<or> rl_buf r d \<noteq> [])) then r
      else first_end (CopyEnds d err) (r\<lparr>rl_done := (rl_done r)(d := True)\<rparr>))"
| "relay_step (CtxDone err) r = first_end (CtxDone err) r"
| "relay_step Closes r = (if rl_first r = None then r else r\<lparr>rl_closed := True\<rparr>)"

definition relay_run :: "relay_event list \<Rightarrow> relay \<Rightarrow> relay" where
  "relay_run es r = fold relay_step es r"

definition clean_end :: "go_error option \<Rightarrow> bool" where
  "clean_end err \<longleftrightarrow> (case err of None \<Rightarrow> True | Some e \<Rightarrow> errors_is e io_eof \<or> errors_is e net_err_closed)"

text \<open>Neither direction reorders, duplicates or invents bytes.\<close>

definition relay_bytes :: "relay \<Rightarrow> direction \<Rightarrow> string" where
  "relay_bytes r d = rl_dst r d @ rl_buf r d @ rl_src r d"

lemma relay_step_bytes: "relay_bytes (relay_step e r) d = relay_bytes r d"
  by (cases e) (auto simp: relay_bytes_def first_end_def)

lemma relay_run_bytes: "relay_bytes (relay_run es r) d = relay_bytes r d"
  by (induction es arbitrary: r) (simp_all add: relay_run_def relay_step_bytes)

lemma new_relay_bytes: "relay_bytes (new_relay a b) d = (case d of AtoB \<Rightarrow> a | BtoA \<Rightarrow> b)"
  by (simp add: relay_bytes_def new_relay_def)

text \<open>A copy that returned \<open>nil\<close> first has delivered everything, whatever happens later.\<close>

definition clean_ok :: "relay \<Rightarrow> bool" where
  "clean_ok r \<longleftrightarrow> (\<forall>d. rl_first r = Some (CopyEnds d None) \<longrightarrow> rl_done r d \<and> rl_src r d = [] \<and> rl_buf r d = [])"

lemma relay_step_clean: "clean_ok r \<Longrightarrow> clean_ok (relay_step e r)"
  by (cases e) (auto simp: clean_ok_def first_end_def)

lemma relay_run_clean: "clean_ok r \<Longrightarrow> clean_ok (relay_run es r)"
  by (induction es arbitrary: r) (simp_all add: relay_run_def relay_step_clean)

lemma relay_step_closed: "rl_closed r \<Longrightarrow> rl_first r \<noteq> None \<Longrightarrow>
    rl_dst (relay_step e r) = rl_dst r \<and> rl_first (relay_step e r) = rl_first r \<and> rl_closed (relay_step e r)"
  by (cases e) (auto simp: first_end_def)

lemma relay_run_closed: "rl_closed r \<Longrightarrow> rl_first r \<noteq> None \<Longrightarrow>
    rl_dst (relay_run es r) = rl_dst r \<and> rl_first (relay_run es r) = rl_first r \<and> rl_closed (relay_run es r)"
proof (induction es arbitrary: r)
  case (Cons e es)
  with relay_step_closed [OF Cons.prems, of e] Cons.IH [of "relay_step e r"] show ?case by (simp add: relay_run_def)
qed (simp add: relay_run_def)

lemma relay_step_first: "rl_first r \<noteq> None \<Longrightarrow> rl_first (relay_step e r) = rl_first r"
  by (cases e) (auto simp: first_end_def)

lemma relay_run_first: "rl_first r \<noteq> None \<Longrightarrow> rl_first (relay_run es r) = rl_first r"
  by (induction es arbitrary: r) (simp_all add: relay_run_def relay_step_first)

text \<open>The connections are closed only after an end.\<close>

lemma relay_step_closes: "(rl_closed r \<Longrightarrow> rl_first r \<noteq> None) \<Longrightarrow> rl_closed (relay_step e r) \<Longrightarrow> rl_first (relay_step e r) \<noteq> None"
  by (cases e) (auto simp: first_end_def split: if_splits)

lemma relay_run_closes: "rl_closed (relay_run es (new_relay a b)) \<Longrightarrow> rl_first (relay_run es (new_relay a b)) \<noteq> None"
proof (induction es rule: rev_induct)
  case (snoc e es)
  then show ?case using relay_step_closes [of "relay_run es (new_relay a b)" e] by (simp add: relay_run_def)
qed (simp add: relay_run_def new_relay_def)

lemma relay_run_append: "relay_run (es @ fs) r = relay_run fs (relay_run es r)"
  by (simp add: relay_run_def)

end
