(* ===== verification/Agent_Tunnel.thy ===== *)
theory Agent_Tunnel
  imports Go_Lib
begin

section \<open>The Kismet relay of the agent\<close>

text \<open>
  \<open>bottle-agent/internal/tunnel/server.go\<close>: the relay between an authenticated stream and the
  Kismet port on the loopback interface. End \<open>A\<close> of the relay is the laptop's stream, end \<open>B\<close> is
  Kismet. \<open>dial\<close> is the result of connecting to an address: an error or the bytes Kismet will send.
  The list of events is the interleaving of the two copies, the context and the deferred closes.
\<close>

record tunnel_server =
  ts_kismet_addr :: string

definition new_tunnel_server :: "(string \<Rightarrow> bool option) \<Rightarrow> string \<Rightarrow> bool \<Rightarrow> go_error + tunnel_server" where
  "new_tunnel_server ip6 kismet_addr has_dial =
     (if \<not> has_dial then Inl (ErrText ''tunnel dialer is required'')
      else (case split_host_port kismet_addr of
          Inl err \<Rightarrow> Inl (ErrWrap ''invalid Kismet endpoint: '' err [])
        | Inr (host, port) \<Rightarrow>
            if port = [] then Inl (ErrText ''Kismet endpoint requires a port'')
            else if ip_loopback ip6 host \<noteq> Some True
            then Inl (ErrText (''Kismet endpoint must use a literal loopback address, got '' @ go_quote host))
            else Inr \<lparr>ts_kismet_addr = kismet_addr\<rparr>))"

definition kismet_address :: "tunnel_server \<Rightarrow> string" where
  "kismet_address s = ts_kismet_addr s"

text \<open>What a call of \<open>Serve\<close> did: the address it dialled, what was relayed, and its error.\<close>

record serve_result =
  sr_dialed :: "string option"
  sr_relay :: relay
  sr_error :: "go_error option"

definition serve_end :: "relay_event option \<Rightarrow> go_error option" where
  "serve_end e = (case e of
       Some (CopyEnds d err) \<Rightarrow>
         if clean_end err then None
         else (case err of None \<Rightarrow> None | Some x \<Rightarrow> Some (ErrWrap ''relay stream: '' x []))
     | Some (CtxDone err) \<Rightarrow> Some err
     | _ \<Rightarrow> None)"

definition serve_stream ::
  "tunnel_server \<Rightarrow> (string \<Rightarrow> go_error + string) \<Rightarrow> string option \<Rightarrow> relay_event list \<Rightarrow> serve_result" where
  "serve_stream s dial stream events =
     (case stream of
        None \<Rightarrow> \<lparr>sr_dialed = None, sr_relay = new_relay [] [], sr_error = Some (ErrText ''authenticated tunnel stream is required'')\<rparr>
      | Some incoming \<Rightarrow>
          (case dial (ts_kismet_addr s) of
             Inl err \<Rightarrow> \<lparr>sr_dialed = Some (ts_kismet_addr s), sr_relay = new_relay incoming [],
                          sr_error = Some (ErrWrap ''connect Kismet loopback endpoint: '' err [])\<rparr>
           | Inr kismet \<Rightarrow>
               let r = relay_run events (new_relay incoming kismet) in
               \<lparr>sr_dialed = Some (ts_kismet_addr s), sr_relay = r, sr_error = serve_end (rl_first r)\<rparr>))"

text \<open>\<open>ServeTLSRequest\<close>: one line of JSON selects the stream; what follows it is relayed.\<close>

definition newline :: char where
  "newline = char_of (10 :: nat)"

definition read_line :: "string \<Rightarrow> (go_error + string) \<times> string" where
  "read_line input =
     (if newline \<in> set input
      then (Inr (takeWhile (\<lambda>c. c \<noteq> newline) input @ [newline]), drop 1 (dropWhile (\<lambda>c. c \<noteq> newline) input))
      else (Inl io_eof, []))"

definition selection_spec :: struct_spec where
  "selection_spec = [(''type'', KString), (''op'', KString)]"

definition serve_tls_request ::
  "(string \<Rightarrow> string) \<Rightarrow> (string \<Rightarrow> go_error + json) \<Rightarrow> tunnel_server \<Rightarrow> (string \<Rightarrow> go_error + string) \<Rightarrow> string \<Rightarrow>
     relay_event list \<Rightarrow> serve_result" where
  "serve_tls_request uni parse s dial input events =
     (let refused = (\<lambda>err. \<lparr>sr_dialed = None, sr_relay = new_relay [] [], sr_error = Some err\<rparr>) in
      case read_line input of
        (Inl err, _) \<Rightarrow> refused (ErrWrap ''decode tunnel selection: '' err [])
      | (Inr line, rest) \<Rightarrow>
          (case parse line of
             Inl err \<Rightarrow> refused (ErrWrap ''decode tunnel selection: '' err [])
           | Inr v \<Rightarrow>
               (case decode_struct uni selection_spec Map.empty v of
                  (m, Some err) \<Rightarrow> refused (ErrWrap ''decode tunnel selection: '' err [])
                | (m, None) \<Rightarrow>
                    if str_field m ''type'' \<noteq> ''request'' \<or> str_field m ''op'' \<noteq> ''kismet_stream''
                    then refused (ErrText (''unsupported stream selection '' @ go_quote (str_field m ''op'')))
                    else serve_stream s dial (Some rest) events)))"

subsection \<open>Properties\<close>

lemma new_tunnel_server_loopback:
  "new_tunnel_server ip6 addr b = Inr s \<Longrightarrow>
     \<exists>host port. split_host_port addr = Inr (host, port) \<and> ip_loopback ip6 host = Some True \<and> port \<noteq> [] \<and> ts_kismet_addr s = addr"
  by (auto simp: new_tunnel_server_def split: if_splits sum.splits)

lemma serve_stream_dialed: "sr_dialed (serve_stream s dial str es) \<in> {None, Some (ts_kismet_addr s)}"
  by (simp add: serve_stream_def Let_def split: option.split sum.split)

text \<open>
  The relay reaches no other destination than the loopback address it was built with,
  whatever a client sends: a server that could be built has a literal loopback address, and
  serving a stream or a selection request dials that address or nothing.
\<close>

theorem tunnel_only_loopback:
  assumes "new_tunnel_server ip6 addr True = Inr s"
  shows "\<exists>host port. split_host_port addr = Inr (host, port) \<and> ip_loopback ip6 host = Some True \<and>
      sr_dialed (serve_stream s dial str es) \<in> {None, Some addr} \<and>
      sr_dialed (serve_tls_request uni parse s dial input es) \<in> {None, Some addr}"
proof -
  obtain host port where h: "split_host_port addr = Inr (host, port)" "ip_loopback ip6 host = Some True" "ts_kismet_addr s = addr"
    using new_tunnel_server_loopback [OF assms] by blast
  moreover have "sr_dialed (serve_tls_request uni parse s dial input es) \<in> {None, Some addr}"
    using serve_stream_dialed [of s dial "Some (snd (read_line input))" es] h(3)
    by (auto simp: serve_tls_request_def Let_def split: prod.splits sum.splits option.splits)
  ultimately show ?thesis using serve_stream_dialed [of s dial str es] by auto
qed

theorem tunnel_only_loopback_witness:
  "\<exists>s. new_tunnel_server (\<lambda>_. None) ''127.0.0.1:2501'' True = Inr s \<and>
     sr_dialed (serve_stream s (\<lambda>a. Inr ''HTTP'') (Some ''GET /'') [ReadSome AtoB 5]) \<in> {None, Some ''127.0.0.1:2501''}"
proof -
  have "new_tunnel_server (\<lambda>_. None) ''127.0.0.1:2501'' True = Inr \<lparr>ts_kismet_addr = ''127.0.0.1:2501''\<rparr>" by code_simp
  from tunnel_only_loopback [OF this] this show ?thesis by blast
qed

text \<open>
  C23. The relay loses nothing of a direction that ended cleanly and invents nothing: whatever the
  interleaving of the two copies and the closes, what each side received is a prefix of what the other
  sent, and all of it when that direction's copy returned first and without an error. The first
  end decides the result of \<open>Serve\<close>, whatever follows; the other copy may still deliver until the
  connections are closed, and nothing moves after that.
\<close>

theorem relay_transparent:
  assumes dial: "dial (ts_kismet_addr s) = Inr kismet"
    and r: "r = serve_stream s dial (Some incoming) es"
    and r': "r' = serve_stream s dial (Some incoming) (es @ later)"
  shows "\<exists>restA restB. incoming = rl_dst (sr_relay r) AtoB @ restA \<and> kismet = rl_dst (sr_relay r) BtoA @ restB \<and>
      (rl_first (sr_relay r) = Some (CopyEnds AtoB None) \<longrightarrow> restA = [] \<and> sr_error r = None) \<and>
      (rl_first (sr_relay r) = Some (CopyEnds BtoA None) \<longrightarrow> restB = [] \<and> sr_error r = None) \<and>
      (rl_first (sr_relay r) \<noteq> None \<longrightarrow> sr_error r' = sr_error r) \<and>
      (rl_closed (sr_relay r) \<longrightarrow> rl_dst (sr_relay r') = rl_dst (sr_relay r) \<and> rl_first (sr_relay r) \<noteq> None)"
proof -
  let ?r = "relay_run es (new_relay incoming kismet)"
  have s: "sr_relay r = ?r" "sr_error r = serve_end (rl_first ?r)"
    "sr_relay r' = relay_run later ?r" "sr_error r' = serve_end (rl_first (relay_run later ?r))"
    using dial r r' by (simp_all add: serve_stream_def Let_def relay_run_append)
  have clean: "clean_ok ?r" by (rule relay_run_clean) (simp add: clean_ok_def new_relay_def)
  have bytes: "incoming = rl_dst ?r AtoB @ (rl_buf ?r AtoB @ rl_src ?r AtoB)" "kismet = rl_dst ?r BtoA @ (rl_buf ?r BtoA @ rl_src ?r BtoA)"
    using relay_run_bytes [of es "new_relay incoming kismet" AtoB] relay_run_bytes [of es "new_relay incoming kismet" BtoA]
    unfolding new_relay_bytes by (simp_all add: relay_bytes_def)
  have ends: "rl_buf ?r d @ rl_src ?r d = [] \<and> sr_error r = None" if "rl_first ?r = Some (CopyEnds d None)" for d
    using clean that by (simp add: clean_ok_def s serve_end_def clean_end_def)
  have first: "rl_first ?r \<noteq> None \<longrightarrow> sr_error r' = sr_error r" by (simp add: s relay_run_first)
  have closed: "rl_closed ?r \<longrightarrow> rl_dst (relay_run later ?r) = rl_dst ?r \<and> rl_first ?r \<noteq> None"
    using relay_run_closes [of es incoming kismet] relay_run_closed [of ?r later] by blast
  show ?thesis
    unfolding s(1,3)
    by (rule exI [of _ "rl_buf ?r AtoB @ rl_src ?r AtoB"], rule exI [of _ "rl_buf ?r BtoA @ rl_src ?r BtoA"])
       (use bytes ends first closed in blast)
qed

text \<open>A laptop that sends its whole request and closes its side: Kismet's answer is cut, without an error.\<close>

theorem relay_transparent_witness:
  "\<exists>r. r = serve_stream \<lparr>ts_kismet_addr = ''127.0.0.1:2501''\<rparr> (\<lambda>a. Inr ''200 OK'') (Some ''GET /'')
      [ReadSome AtoB 5, WriteSome AtoB 5, ReadSome BtoA 3, CopyEnds AtoB None, WriteSome BtoA 3, Closes] \<and>
    rl_dst (sr_relay r) AtoB = ''GET /'' \<and> rl_dst (sr_relay r) BtoA = ''200'' \<and> sr_error r = None"
proof -
  let ?s = "\<lparr>ts_kismet_addr = ''127.0.0.1:2501''\<rparr> :: tunnel_server" and ?dial = "\<lambda>a :: string. Inr ''200 OK'' :: go_error + string"
  let ?es = "[ReadSome AtoB 5, WriteSome AtoB 5, ReadSome BtoA 3, CopyEnds AtoB None, WriteSome BtoA 3, Closes]"
  have run: "rl_first (sr_relay (serve_stream ?s ?dial (Some ''GET /'') ?es)) = Some (CopyEnds AtoB None) \<and>
      rl_dst (sr_relay (serve_stream ?s ?dial (Some ''GET /'') ?es)) BtoA = ''200''"
    by (simp add: serve_stream_def relay_run_def new_relay_def first_end_def Let_def)
  show ?thesis
    using relay_transparent [OF _ refl refl, of ?dial ?s "''200 OK''" "''GET /''" ?es "[]"] run by auto
qed

end
