(* ===== verification/Go_Flag.thy ===== *)
theory Go_Flag
  imports Go_Lib
begin

section \<open>Go's flag package\<close>

text \<open>
  \<open>flag.FlagSet.Parse\<close> as both command lines use it: string, boolean and integer flags, with one
  or two dashes and \<open>=\<close> or the next argument as value. The result maps the names of given flags to
  their texts (\<open>true\<close> or \<open>false\<close> for a boolean), and keeps the remaining arguments. \<open>atoi\<close> is
  \<open>strconv.ParseInt(s, 0, 64)\<close>.
\<close>

datatype flag_kind = FString | FBool | FInt

definition err_help :: go_error where
  "err_help = ErrSentinel ''flag.ErrHelp'' ''flag: help requested''"

definition parse_bool :: "string \<Rightarrow> bool option" where
  "parse_bool s =
     (if s \<in> {''1'', ''t'', ''T'', ''TRUE'', ''true'', ''True''} then Some True
      else if s \<in> {''0'', ''f'', ''F'', ''FALSE'', ''false'', ''False''} then Some False
      else None)"

text \<open>A flag without its dashes, split at the first \<open>=\<close> after its first character.\<close>

definition flag_split :: "string \<Rightarrow> string \<times> string option" where
  "flag_split n =
     (if n = [] then ([], None)
      else (let t = dropWhile (\<lambda>c. c \<noteq> CHR ''='') (tl n) in
        (hd n # takeWhile (\<lambda>c. c \<noteq> CHR ''='') (tl n), if t = [] then None else Some (tl t))))"

definition set_flag :: "(string \<Rightarrow> go_error + int) \<Rightarrow> string \<Rightarrow> flag_kind \<Rightarrow> string \<Rightarrow> go_error + string" where
  "set_flag atoi name kind v =
     (case kind of
        FString \<Rightarrow> Inr v
      | FBool \<Rightarrow> (case parse_bool v of
            None \<Rightarrow> Inl (ErrText (''invalid boolean value '' @ go_quote v @ '' for -'' @ name @ '': parse error''))
          | Some b \<Rightarrow> Inr (if b then ''true'' else ''false''))
      | FInt \<Rightarrow> (case atoi v of
            Inl e \<Rightarrow> Inl (ErrText (''invalid value '' @ go_quote v @ '' for flag -'' @ name @ '': parse error''))
          | Inr i \<Rightarrow> Inr (itoa i)))"

text \<open>\<open>strip_dashes\<close>: \<open>None\<close> for an argument that is no flag, else what follows its dashes.\<close>

definition strip_dashes :: "string \<Rightarrow> string option" where
  "strip_dashes a =
     (if length a < 2 \<or> hd a \<noteq> CHR ''-'' then None
      else if a ! 1 = CHR ''-'' then Some (drop 2 a) else Some (drop 1 a))"

type_synonym flag_values = "string \<Rightarrow> string option"

fun parse_flags ::
  "(string \<times> flag_kind) list \<Rightarrow> (string \<Rightarrow> go_error + int) \<Rightarrow> flag_values \<Rightarrow> string list \<Rightarrow> go_error + flag_values \<times> string list" where
  "parse_flags spec atoi vs [] = Inr (vs, [])"
| "parse_flags spec atoi vs (a # args) =
     (case strip_dashes a of
        None \<Rightarrow> Inr (vs, a # args)
      | Some n \<Rightarrow>
          if n = [] \<and> length a = 2 then Inr (vs, args)
          else if n = [] \<or> hd n = CHR ''-'' \<or> hd n = CHR ''='' then Inl (ErrText (''bad flag syntax: '' @ a))
          else (case flag_split n of (name, value) \<Rightarrow>
            (case map_of spec name of
               None \<Rightarrow> if name = ''help'' \<or> name = ''h'' then Inl err_help
                       else Inl (ErrText (''flag provided but not defined: -'' @ name))
             | Some FBool \<Rightarrow>
                 (case set_flag atoi name FBool (case value of Some v \<Rightarrow> v | None \<Rightarrow> ''true'') of
                    Inl e \<Rightarrow> Inl e
                  | Inr v \<Rightarrow> parse_flags spec atoi (vs(name \<mapsto> v)) args)
             | Some kind \<Rightarrow>
                 (case value of
                    Some v \<Rightarrow> (case set_flag atoi name kind v of
                        Inl e \<Rightarrow> Inl e
                      | Inr v \<Rightarrow> parse_flags spec atoi (vs(name \<mapsto> v)) args)
                  | None \<Rightarrow> (case args of
                        [] \<Rightarrow> Inl (ErrText (''flag needs an argument: -'' @ name))
                      | v # rest \<Rightarrow> (case set_flag atoi name kind v of
                          Inl e \<Rightarrow> Inl e
                        | Inr v \<Rightarrow> parse_flags spec atoi (vs(name \<mapsto> v)) rest))))))"

definition flag_string :: "flag_values \<Rightarrow> string \<Rightarrow> string \<Rightarrow> string" where
  "flag_string vs name dflt = (case vs name of Some v \<Rightarrow> v | None \<Rightarrow> dflt)"

definition flag_bool :: "flag_values \<Rightarrow> string \<Rightarrow> bool" where
  "flag_bool vs name = (vs name = Some ''true'')"

text \<open>A boolean flag is set only by an argument that names it.\<close>

lemma set_flag_bool: "set_flag atoi n FBool v = Inr x \<Longrightarrow> x = ''true'' \<or> x = ''false''"
  by (auto simp: set_flag_def split: option.splits if_splits)

lemma parse_flags_given:
  assumes "parse_flags spec atoi vs args = Inr (vs', rest)" "vs' f \<noteq> vs f"
  shows "\<exists>a \<in> set args. \<exists>n. strip_dashes a = Some n \<and> fst (flag_split n) = f"
  using assms
proof (induction spec atoi vs args rule: parse_flags.induct)
  case (1 spec atoi vs)
  then show ?case by simp
next
  case (2 spec atoi vs a args)
  show ?case
  proof (cases "strip_dashes a")
    case None
    then show ?thesis using 2 by simp
  next
    case (Some n)
    obtain name val where nv: "flag_split n = (name, val)" by fastforce
    show ?thesis
    proof (cases "name = f")
      case True
      then show ?thesis using Some nv by fastforce
    next
      case False
      show ?thesis
        using 2 Some nv False
        by (fastforce split: if_splits option.splits flag_kind.splits sum.splits list.splits)
    qed
  qed
qed

end
