(* ===== verification/Agent_Main.thy ===== *)
theory Agent_Main
  imports Agent_Pki Agent_Server Agent_Tunnel Go_Flag
begin

section \<open>The agent's program: setup and service\<close>

text \<open>
  \<open>bottle-agent/main.go\<close>: where the files are, the one-time setup that creates the authority, the
  server's certificate and a paired laptop profile, and the wiring of the running service. The
  profile's files are written in the order of a Go map, which is the parameter \<open>order\<close>.
\<close>

subsection \<open>Paths\<close>

definition kismet_endpoint :: string where
  "kismet_endpoint = ''127.0.0.1:2501''"

definition ca_validity :: time where
  "ca_validity = 10 * 365 * 24 * hour"

definition server_validity :: time where
  "server_validity = 10 * 365 * 24 * hour"

definition client_validity :: time where
  "client_validity = 5 * 365 * 24 * hour"

record paths =
  pki_dir :: path
  state_dir :: path

definition env_or :: "(string \<Rightarrow> string option) \<Rightarrow> string \<Rightarrow> string \<Rightarrow> string" where
  "env_or env key fallback = (case env key of Some v \<Rightarrow> if v \<noteq> [] then v else fallback | None \<Rightarrow> fallback)"

definition default_paths :: "(string \<Rightarrow> string option) \<Rightarrow> paths" where
  "default_paths env = \<lparr>pki_dir = env_or env ''BOTTLE_AGENT_PKI_DIR'' ''/etc/bottle-agent/pki'',
     state_dir = env_or env ''BOTTLE_AGENT_STATE_DIR'' ''/var/lib/bottle-agent''\<rparr>"

definition ca_cert_path :: "paths \<Rightarrow> path" where "ca_cert_path p = path_join [pki_dir p, ''ca.pem'']"
definition ca_key_path :: "paths \<Rightarrow> path" where "ca_key_path p = path_join [pki_dir p, ''ca-key.pem'']"
definition server_cert_path :: "paths \<Rightarrow> path" where "server_cert_path p = path_join [pki_dir p, ''server-cert.pem'']"
definition server_key_path :: "paths \<Rightarrow> path" where "server_key_path p = path_join [pki_dir p, ''server-key.pem'']"
definition pairings_path :: "paths \<Rightarrow> path" where "pairings_path p = path_join [state_dir p, ''pairings.json'']"
definition jobs_path :: "paths \<Rightarrow> path" where "jobs_path p = path_join [state_dir p, ''jobs.json'']"

subsection \<open>File operations of the setup\<close>

definition on_os :: "(os \<Rightarrow> 'a \<times> os) \<Rightarrow> (setup_state, 'a) prog" where
  "on_os f s = (case f (su_os s) of (a, t) \<Rightarrow> (Ret a, s\<lparr>su_os := t\<rparr>))"

definition print_out :: "string \<Rightarrow> (setup_state, unit) prog" where
  "print_out t s = (Ret (), s\<lparr>su_out := su_out s @ t\<rparr>)"

text \<open>\<open>Pair\<close> works on the store and the files; the store is a local variable of the setup.\<close>

definition on_pairings ::
  "(pairing_store \<times> os, 'a) prog \<Rightarrow> pairing_store \<Rightarrow> (setup_state, 'a \<times> pairing_store) prog" where
  "on_pairings m p s =
     (case m (p, su_os s) of
        (Panic x, (p, t)) \<Rightarrow> (Panic x, s\<lparr>su_os := t\<rparr>)
      | (Ret a, (p, t)) \<Rightarrow> (Ret (a, p), s\<lparr>su_os := t\<rparr>))"

subsection \<open>Setup\<close>

definition create_ca :: "io_env \<Rightarrow> crypto \<Rightarrow> paths \<Rightarrow> (setup_state, go_error + ca) prog" where
  "create_ca io cr p =
     tryP (wrapped ''generate CA: '') (new_ca cr ''bottle-agent'' ca_validity) (\<lambda>ca.
     tryP id (retP (encode_ca_pem cr ca)) (\<lambda>(cert_pem, key_pem).
     checkP (wrapped ''create PKI dir: '') (on_os (os_mkdir_all io (pki_dir p)))
    (checkP (wrapped ''write CA certificate: '') (on_os (os_write_file io (ca_cert_path p) cert_pem 384))
    (checkP (wrapped ''write CA key: '') (on_os (os_write_file io (ca_key_path p) key_pem 384))
    (retP (Inr ca))))))"

definition load_or_create_ca :: "io_env \<Rightarrow> crypto \<Rightarrow> paths \<Rightarrow> (setup_state, go_error + ca) prog" where
  "load_or_create_ca io cr p =
     bindP (on_os (os_read_file io (ca_cert_path p))) (\<lambda>cert_pem.
     bindP (on_os (os_read_file io (ca_key_path p))) (\<lambda>key_pem.
     case (cert_pem, key_pem) of
       (Inr c, Inr k) \<Rightarrow> retP (load_ca cr c k)
     | _ \<Rightarrow> create_ca io cr p))"

definition create_server_cert :: "io_env \<Rightarrow> crypto \<Rightarrow> paths \<Rightarrow> ca \<Rightarrow> (setup_state, go_error + unit) prog" where
  "create_server_cert io cr p ca =
     tryP (wrapped ''issue server certificate: '') (issue_server_cert cr ca ''bottle-agent'' [''10.77.0.1''] server_validity)
       (\<lambda>(cert_pem, key_pem).
     checkP (wrapped ''write server certificate: '') (on_os (os_write_file io (server_cert_path p) cert_pem 384))
    (checkP (wrapped ''write server key: '') (on_os (os_write_file io (server_key_path p) key_pem 384))
    (retP (Inr ()))))"

definition ensure_server_cert :: "io_env \<Rightarrow> crypto \<Rightarrow> paths \<Rightarrow> ca \<Rightarrow> (setup_state, go_error + unit) prog" where
  "ensure_server_cert io cr p ca =
     bindP (on_os (os_stat io (server_cert_path p))) (\<lambda>err.
     if err = None then retP (Inr ()) else create_server_cert io cr p ca)"

fun write_files :: "io_env \<Rightarrow> path \<Rightarrow> (string \<times> string) list \<Rightarrow> (setup_state, go_error + unit) prog" where
  "write_files io dir [] = retP (Inr ())"
| "write_files io dir ((name, data) # rest) =
     checkP (wrapped (''write '' @ name @ '': '')) (on_os (os_write_file io (path_join [dir, name]) data 384))
       (write_files io dir rest)"

definition setup_instructions :: "string \<Rightarrow> string \<Rightarrow> path \<Rightarrow> string" where
  "setup_instructions profile fp dir =
     (let nl = [newline] in
      ''Profile '' @ go_quote profile @ '' paired (fingerprint '' @ fp @ '').'' @ nl @
      ''Copy these to your laptop, then run:'' @ nl @ nl @
      ''  scp -r '' @ dir @ '' <laptop>:~/'' @ nl @ nl @
      ''  cd bottle-tui'' @ nl @
      ''  go run . control profile import --ca '' @ profile @ ''/ca.pem --cert '' @ profile @ ''/client-cert.pem --key '' @
        profile @ ''/client-key.pem --id '' @ profile @ nl @
      nl @ ''These files are owned by root; `sudo scp`/`sudo chown` them off as needed.'' @ nl)"

definition pair_profile ::
  "io_env \<Rightarrow> pairing_codec \<Rightarrow> paths \<Rightarrow> string \<Rightarrow> (setup_state, go_error + unit) prog" where
  "pair_profile io cd p fp =
     tryP (wrapped ''load pairing store: '') (on_os (new_persistent_pairing_store io cd (pairings_path p))) (\<lambda>pairings.
     let pairings = open_physical_window pairings in
     bindP (on_pairings (pair_client io cd fp) pairings) (\<lambda>(err, pairings).
     let pairings = close_physical_window pairings in
     case err of Some e \<Rightarrow> retP (Inl (wrapped ''pair profile: '' e)) | None \<Rightarrow> retP (Inr ())))"

definition profile_data :: "string \<Rightarrow> string \<Rightarrow> string \<Rightarrow> string \<Rightarrow> string" where
  "profile_data ca_pem cert_pem key_pem name =
     the ([''ca.pem'' \<mapsto> ca_pem, ''client-cert.pem'' \<mapsto> cert_pem, ''client-key.pem'' \<mapsto> key_pem] name)"

definition write_profile ::
  "io_env \<Rightarrow> crypto \<Rightarrow> string list \<Rightarrow> ca \<Rightarrow> path \<Rightarrow> string \<Rightarrow> string \<Rightarrow> (setup_state, go_error + unit) prog" where
  "write_profile io cr order ca profile_dir cert_pem key_pem =
     tryP id (retP (encode_ca_pem cr ca)) (\<lambda>(ca_pem, _).
     checkP (wrapped ''create profile output dir: '') (on_os (os_mkdir_all io profile_dir))
    (write_files io profile_dir (map (\<lambda>n. (n, profile_data ca_pem cert_pem key_pem n)) order)))"

definition do_setup ::
  "io_env \<Rightarrow> crypto \<Rightarrow> pairing_codec \<Rightarrow> string list \<Rightarrow> paths \<Rightarrow> string \<Rightarrow> path \<Rightarrow> (setup_state, go_error + string) prog" where
  "do_setup io cr cd order p profile out_dir =
     tryP id (load_or_create_ca io cr p) (\<lambda>ca.
     tryP id (ensure_server_cert io cr p ca) (\<lambda>_.
     tryP (wrapped ''issue client certificate: '') (issue_client_cert cr ca profile client_validity) (\<lambda>(cert_pem, key_pem).
     tryP id (retP (fingerprint cr cert_pem)) (\<lambda>fp.
     tryP id (pair_profile io cd p fp) (\<lambda>_.
     let profile_dir = path_join [out_dir, profile] in
     tryP id (write_profile io cr order ca profile_dir cert_pem key_pem) (\<lambda>_.
     bindP (print_out (setup_instructions profile fp profile_dir)) (\<lambda>_.
     retP (Inr fp))))))))"

definition require_root :: "nat \<Rightarrow> go_error option" where
  "require_root euid =
     (if euid \<noteq> 0 then Some (ErrText ''must run as root (writes under /etc/bottle-agent and /var/lib/bottle-agent)'') else None)"

definition setup_flags :: "(string \<times> flag_kind) list" where
  "setup_flags = [(''profile'', FString), (''out'', FString)]"

definition run_setup_command ::
  "nat \<Rightarrow> (string \<Rightarrow> string option) \<Rightarrow> (string \<Rightarrow> go_error + int) \<Rightarrow> io_env \<Rightarrow> crypto \<Rightarrow> pairing_codec \<Rightarrow> string list \<Rightarrow>
     string list \<Rightarrow> (setup_state, go_error option) prog" where
  "run_setup_command euid env atoi io cr cd order args =
     (case require_root euid of
        Some err \<Rightarrow> retP (Some err)
      | None \<Rightarrow>
          (case parse_flags setup_flags atoi Map.empty args of
             Inl err \<Rightarrow> retP (Some err)
           | Inr (vs, rest) \<Rightarrow>
               if flag_string vs ''profile'' [] = [] then retP (Some (ErrText ''setup requires --profile NAME''))
               else bindP (do_setup io cr cd order (default_paths env) (flag_string vs ''profile'' [])
                             (flag_string vs ''out'' ''bottle-agent-profiles''))
                      (\<lambda>r. retP (case r of Inl err \<Rightarrow> Some err | Inr _ \<Rightarrow> None))))"

subsection \<open>Service\<close>

text \<open>\<open>tls.LoadX509KeyPair\<close>: both files, parsed, and the key has to be the certificate's.\<close>

definition load_key_pair :: "io_env \<Rightarrow> crypto \<Rightarrow> path \<Rightarrow> path \<Rightarrow> os \<Rightarrow> (go_error + x509 \<times> nat) \<times> os" where
  "load_key_pair io cr cert_path key_path s =
     (case os_read_file io cert_path s of
        (Inl err, s) \<Rightarrow> (Inl err, s)
      | (Inr cert_pem, s) \<Rightarrow>
          (case os_read_file io key_path s of
             (Inl err, s) \<Rightarrow> (Inl err, s)
           | (Inr key_pem, s) \<Rightarrow>
               (x509_key_pair cr cert_pem key_pem, s)))"

text \<open>The service: the server with its relay, the agent it serves and the certificate it presents.\<close>

record 'w service =
  sc_server :: "('w, file_jobs) agent_world server"
  sc_state :: "('w, file_jobs) agent_world server_state"
  sc_cert :: x509
  sc_relay :: tunnel_server

definition service_relay ::
  "(string \<Rightarrow> go_error + string) \<Rightarrow> relay_event list \<Rightarrow> tunnel_server \<Rightarrow> string \<Rightarrow> 'w \<Rightarrow> 'w" where
  "service_relay dial events relay input w = (let _ = serve_stream relay dial (Some input) events in w)"

record 'w service_env =
  sv_host :: "'w host"
  sv_host_state :: 'w
  sv_io :: io_env
  sv_crypto :: crypto
  sv_pairing_codec :: pairing_codec
  sv_job_codec :: job_codec
  sv_clock :: "nat \<Rightarrow> time"
  sv_unicode :: "string \<Rightarrow> string"
  sv_ip6 :: "string \<Rightarrow> bool option"
  sv_listen :: "string \<Rightarrow> go_error option"
  sv_dial :: "string \<Rightarrow> go_error + string"
  sv_relay_events :: "relay_event list"
  sv_json_text :: json_text

definition start_service :: "'w service_env \<Rightarrow> paths \<Rightarrow> os \<Rightarrow> (go_error + 'w service) \<times> os" where
  "start_service e p s =
     (let io = sv_io e; cr = sv_crypto e in
      case os_read_file io (ca_cert_path p) s of
        (Inl err, s) \<Rightarrow> (Inl (wrapped ''read CA (run `bottle-agent setup` first): '' err), s)
      | (Inr ca_pem, s) \<Rightarrow>
     (case pinned_client_ca (pem_is_cert cr) ca_pem of
        Inl err \<Rightarrow> (Inl err, s)
      | Inr roots \<Rightarrow>
     (case load_key_pair io cr (server_cert_path p) (server_key_path p) s of
        (Inl err, s) \<Rightarrow> (Inl (wrapped ''load server certificate (run `bottle-agent setup` first): '' err), s)
      | (Inr (cert, key), s) \<Rightarrow>
     (case new_persistent_pairing_store io (sv_pairing_codec e) (pairings_path p) s of
        (Inl err, s) \<Rightarrow> (Inl (wrapped ''load pairing store: '' err), s)
      | (Inr pairings, s) \<Rightarrow>
     (case new_file_jobs io (sv_job_codec e) (jobs_path p) s of
        (Inl err, s) \<Rightarrow> (Inl (wrapped ''load job store: '' err), s)
      | (Inr jobs, s) \<Rightarrow>
     (let tls = \<lparr>min_version = version_tls13, client_auth = RequireAndVerifyClientCert, client_cas = Some roots\<rparr>;
          agent = durable_agent (sv_host e) io (sv_job_codec e) (sv_clock e) (sv_unicode e);
          w = new_agent_world (sv_host_state e) jobs (new_bus 0) in
      case listen (sv_listen e) listen_address (Some tls) (Some pairings) (Some (agent_handler agent)) (sv_json_text e) s w of
        Inl err \<Rightarrow> (Inl (wrapped ''start control plane: '' err), s)
      | Inr (server, st) \<Rightarrow>
     (case new_tunnel_server (sv_ip6 e) kismet_endpoint True of
        Inl err \<Rightarrow> (Inl (wrapped ''start Kismet tunnel relay: '' err), s)
      | Inr relay \<Rightarrow>
          (Inr \<lparr>sc_server = set_kismet_tunnel (service_relay (sv_dial e) (sv_relay_events e) relay) server, sc_state = st,
                sc_cert = cert, sc_relay = relay\<rparr>, s))))))))"

definition run_service_command ::
  "nat \<Rightarrow> (string \<Rightarrow> string option) \<Rightarrow> 'w service_env \<Rightarrow> string list \<Rightarrow> os \<Rightarrow> (go_error + 'w service) \<times> os" where
  "run_service_command euid env e args s =
     (case require_root euid of
        Some err \<Rightarrow> (Inl err, s)
      | None \<Rightarrow>
          if args \<noteq> [] then (Inl (ErrText ''usage: bottle-agent [setup --profile NAME]''), s)
          else start_service e (default_paths env) s)"

end
