(* ===== verification/Agent_Main_Properties.thy ===== *)
theory Agent_Main_Properties
  imports Agent_Main
begin

section \<open>What the setup leaves behind and what the service accepts\<close>

text \<open>
  The files the setup of \<open>bottle-agent/main.go\<close> writes, as weakest preconditions of its programs
  over \<open>file_at\<close>, and the composition of setup, service, pairing store and control plane.
\<close>

subsection \<open>Files that do not collide\<close>

definition setup_files :: "paths \<Rightarrow> path \<Rightarrow> path list" where
  "setup_files p dir = [ca_cert_path p, ca_key_path p, server_cert_path p, server_key_path p, pairings_path p,
     persist_tmp (pairings_path p), path_join [dir, ''ca.pem''], path_join [dir, ''client-cert.pem''],
     path_join [dir, ''client-key.pem'']]"

definition files_apart :: "paths \<Rightarrow> path \<Rightarrow> bool" where
  "files_apart p dir \<longleftrightarrow> distinct (map path_clean (setup_files p dir)) \<and> pairings_path p \<noteq> []"

subsection \<open>The programs of the setup\<close>

lemma wp_on_os [prog_simps]:
  "wp (on_os f) Q s \<longleftrightarrow> (\<forall>a t. f (su_os s) = (a, t) \<longrightarrow> Q (Ret a) (s\<lparr>su_os := t\<rparr>))"
  by (auto simp: wp_def on_os_def split: prod.split)

lemma wp_print [prog_simps]: "wp (print_out t) Q s \<longleftrightarrow> Q (Ret ()) (s\<lparr>su_out := su_out s @ t\<rparr>)"
  by (simp add: wp_def print_out_def)

text \<open>The authority the setup works with is the one in the files.\<close>

definition ca_stored :: "crypto \<Rightarrow> paths \<Rightarrow> ca \<Rightarrow> os \<Rightarrow> bool" where
  "ca_stored cr p c t \<longleftrightarrow>
     (\<exists>cp kp. file_at t (ca_cert_path p) = Some cp \<and> parse_cert_pem cr cp = Inr (ca_cert c) \<and>
              file_at t (ca_key_path p) = Some kp \<and> parse_key_pem cr kp = Inr (ca_key c))"

lemma encode_ca_parts:
  assumes "crypto_laws cr" "wf_ca cr c" "encode_ca_pem cr c = Inr (cp, kp)"
  shows "parse_cert_pem cr cp = Inr (ca_cert c) \<and> parse_key_pem cr kp = Inr (ca_key c)"
  using load_ca_wf [OF assms] by (cases c) (auto simp: load_ca_def split: sum.splits)

definition setup_post :: "path set \<Rightarrow> setup_state \<Rightarrow> ('a \<Rightarrow> os \<Rightarrow> bool) \<Rightarrow> (go_error + 'a) outcome \<Rightarrow> setup_state \<Rightarrow> bool" where
  "setup_post P s ok r s' \<longleftrightarrow> touches P (su_os s) (su_os s') \<and> su_rand s \<le> su_rand s' \<and>
     (\<forall>x. r = Ret (Inr x) \<longrightarrow> ok x (su_os s'))"

text \<open>From a state that differs only in files of \<open>P\<close>, and for a weaker claim.\<close>

lemma setup_post_from:
  "setup_post P s1 ok r s' \<Longrightarrow> touches P (su_os s) (su_os s1) \<Longrightarrow> su_rand s \<le> su_rand s1 \<Longrightarrow>
     (\<And>x t. ok x t \<Longrightarrow> ok' x t) \<Longrightarrow> setup_post P s ok' r s'"
  by (auto simp: setup_post_def intro: touches_trans)

lemma setup_post_error: "touches P (su_os s) (su_os s') \<Longrightarrow> su_rand s \<le> su_rand s' \<Longrightarrow> setup_post P s ok (Ret (Inl e)) s'"
  by (simp add: setup_post_def)

text \<open>Two files written one after the other.\<close>

lemma write_two_wp:
  assumes "path_clean a \<noteq> path_clean b"
  shows "wp (checkP w1 (on_os (os_write_file io a d1 m1)) (checkP w2 (on_os (os_write_file io b d2 m2)) (retP (Inr x))))
    (setup_post {a, b} s (\<lambda>y t. y = x \<and> file_at t a = Some d1 \<and> file_at t b = Some d2)) s"
proof -
  have ab: "file_at t2 a = Some d1" if "os_write_file io a d1 m1 t = (None, t1)" "os_write_file io b d2 m2 t1 = (r, t2)" for t t1 t2 r
    using write_file_at [OF that(1)] write_file_touches [OF that(2), of "{b}"] assms by (simp add: touches_def)
  have t2: "touches {a, b} t t2" if "os_write_file io a d1 m1 t = (r1, t1)" "os_write_file io b d2 m2 t1 = (r2, t2)" for t t1 t2 r1 r2
    using write_file_touches [OF that(1), of "{a, b}"] write_file_touches [OF that(2), of "{a, b}"] by (auto intro: touches_trans)
  show ?thesis
    by (auto simp: checkP_def prog_simps setup_post_def intro: write_file_touches t2 ab write_file_at split: option.split)
qed

lemma create_ca_wp:
  assumes laws: "crypto_laws cr" and apart: "path_clean (ca_cert_path p) \<noteq> path_clean (ca_key_path p)"
  shows "wp (create_ca io cr p)
    (setup_post {ca_cert_path p, ca_key_path p} s (\<lambda>c t. ca_stored cr p c t \<and> gen_key cr (su_rand s) = Inr (ca_key c))) s"
proof -
  let ?P = "{ca_cert_path p, ca_key_path p}"
  have ok: "ca_stored cr p c t"
    if "wf_ca cr c" "encode_ca_pem cr c = Inr (cp, kp)" "file_at t (ca_cert_path p) = Some cp" "file_at t (ca_key_path p) = Some kp"
    for c cp kp t
    using encode_ca_parts [OF laws that(1,2)] that(3,4) by (simp add: ca_stored_def)
  show ?thesis
    unfolding create_ca_def tryP_def [of "wrapped ''generate CA: ''"] tryP_def [of id] checkP_def [of "wrapped ''create PKI dir: ''"]
    by (auto simp: prog_simps intro!: new_ca_wp [OF laws, THEN wp_mono] write_two_wp [OF apart, THEN wp_mono] setup_post_error touches_refl
        elim!: setup_post_from split: sum.split option.split)
       (blast intro: mkdir_all_touches ok)+
qed

text \<open>A new authority is made exactly when one of the two files cannot be read.\<close>

definition ca_ready :: "io_env \<Rightarrow> crypto \<Rightarrow> paths \<Rightarrow> setup_state \<Rightarrow> ca \<Rightarrow> os \<Rightarrow> bool" where
  "ca_ready io cr p s c t \<longleftrightarrow> ca_stored cr p c t \<and>
     (no_fault io \<and> file_at (su_os s) (ca_cert_path p) \<noteq> None \<and> file_at (su_os s) (ca_key_path p) \<noteq> None \<longrightarrow>
        file_at t (ca_cert_path p) = file_at (su_os s) (ca_cert_path p) \<and>
        file_at t (ca_key_path p) = file_at (su_os s) (ca_key_path p)) \<and>
     (file_at (su_os s) (ca_cert_path p) = None \<or> file_at (su_os s) (ca_key_path p) = None \<longrightarrow>
        gen_key cr (su_rand s) = Inr (ca_key c))"

lemma load_or_create_wp:
  assumes laws: "crypto_laws cr" and apart: "path_clean (ca_cert_path p) \<noteq> path_clean (ca_key_path p)"
  shows "wp (load_or_create_ca io cr p)
    (setup_post {ca_cert_path p, ca_key_path p} s (ca_ready io cr p s)) s"
proof -
  let ?P = "{ca_cert_path p, ca_key_path p}"
  have create: "wp (create_ca io cr p) (setup_post ?P s (ca_ready io cr p s)) (s\<lparr>su_os := t\<rparr>)"
    if "touches ?P (su_os s) t" "\<not> (no_fault io \<and> file_at (su_os s) (ca_cert_path p) \<noteq> None \<and> file_at (su_os s) (ca_key_path p) \<noteq> None)" for t
    by (rule create_ca_wp [OF laws apart, THEN wp_mono]) (use that in \<open>auto simp: setup_post_def ca_ready_def intro: touches_trans\<close>)
  have missing: "\<not> (no_fault io \<and> file_at (su_os s) (ca_cert_path p) \<noteq> None \<and> file_at (su_os s) (ca_key_path p) \<noteq> None)"
    if "os_read_file io (ca_cert_path p) (su_os s) = (a, t1)" "os_read_file io (ca_key_path p) t1 = (b, t2)" "a = Inl e \<or> b = Inl e" for a b e t1 t2
  proof -
    have "file_at t1 = file_at (su_os s)" using os_keptD(1) [OF that(1)] by (simp add: file_at_def fun_eq_iff)
    then show ?thesis using that read_file_no_fault [of io "ca_cert_path p"] read_file_no_fault [of io "ca_key_path p" t1] by fastforce
  qed
  have load: "ca_ready io cr p s c t2"
    if "os_read_file io (ca_cert_path p) (su_os s) = (Inr cp, t1)" "os_read_file io (ca_key_path p) t1 = (Inr kp, t2)"
      "load_ca cr cp kp = Inr c" for cp kp t1 t2 c
  proof -
    have fs: "file_at t1 = file_at (su_os s)" "file_at t2 = file_at t1"
      using os_keptD(1) [OF that(1)] os_keptD(1) [OF that(2)] by (simp_all add: file_at_def fun_eq_iff)
    show ?thesis
      using read_file_at [OF that(1)] read_file_at [OF that(2)] that(3) fs
      by (auto simp: ca_ready_def ca_stored_def load_ca_def split: sum.splits)
  qed
  have t: "touches ?P (su_os s) t2"
    if "os_read_file io (ca_cert_path p) (su_os s) = (a, t1)" "os_read_file io (ca_key_path p) t1 = (b, t2)" for a b t1 t2
    using read_file_touches [OF that(1), of ?P] read_file_touches [OF that(2), of ?P] by (rule touches_trans)
  show ?thesis
    unfolding load_or_create_ca_def
    by (auto simp: prog_simps setup_post_def [of _ _ _ "Ret _"] simp del: fun_upd_apply intro!: create t dest: load missing split: sum.split)
qed

text \<open>A server certificate that is there is kept, whoever signed it.\<close>

definition server_stored :: "crypto \<Rightarrow> paths \<Rightarrow> ca \<Rightarrow> os \<Rightarrow> bool" where
  "server_stored cr p c t \<longleftrightarrow>
     (\<exists>cp kp. file_at t (server_cert_path p) = Some cp \<and> file_at t (server_key_path p) = Some kp \<and>
              issued_by cr c ''bottle-agent'' [''10.77.0.1''] ServerAuth cp kp)"

definition server_ready :: "io_env \<Rightarrow> crypto \<Rightarrow> paths \<Rightarrow> ca \<Rightarrow> os \<Rightarrow> os \<Rightarrow> bool" where
  "server_ready io cr p c t t' \<longleftrightarrow>
     (let kept = file_at t' (server_cert_path p) = file_at t (server_cert_path p) \<and>
                 file_at t' (server_key_path p) = file_at t (server_key_path p) in
      (kept \<or> server_stored cr p c t') \<and> (no_fault io \<and> file_at t (server_cert_path p) \<noteq> None \<longrightarrow> kept))"

lemma ensure_server_cert_wp:
  assumes laws: "crypto_laws cr" and apart: "path_clean (server_cert_path p) \<noteq> path_clean (server_key_path p)"
  shows "wp (ensure_server_cert io cr p c)
    (setup_post {server_cert_path p, server_key_path p} s (\<lambda>_ t. server_ready io cr p c (su_os s) t)) s"
proof -
  let ?P = "{server_cert_path p, server_key_path p}"
  have create: "wp (create_server_cert io cr p c) (setup_post ?P s (\<lambda>_ t. server_ready io cr p c (su_os s) t)) (s\<lparr>su_os := t\<rparr>)"
    if t: "touches ?P (su_os s) t" "no_fault io \<longrightarrow> file_at (su_os s) (server_cert_path p) = None" for t
    unfolding create_server_cert_def issue_server_cert_def tryP_def
    using t
    by (auto simp: prog_simps intro!: issue_wp [OF laws, THEN wp_mono] write_two_wp [OF apart, THEN wp_mono] setup_post_error
        elim!: setup_post_from simp: server_stored_def server_ready_def split: sum.split)
  have kept: "server_ready io cr p c (su_os s) t" if "os_stat io (server_cert_path p) (su_os s) = (r, t)" for r t
    using stat_touches [OF that, of "{}"] by (simp add: server_ready_def touches_def)
  show ?thesis
    unfolding ensure_server_cert_def
    by (auto simp: prog_simps setup_post_def [of _ _ _ "Ret _"] intro!: create dest: stat_touches kept)
       (metis option.distinct(1) stat_no_fault)
qed

lemma wp_on_pairings:
  "wp (on_pairings m p) Q s \<longleftrightarrow>
     (\<forall>r p' t. m (p, su_os s) = (r, (p', t)) \<longrightarrow>
        (case r of Panic x \<Rightarrow> Q (Panic x) (s\<lparr>su_os := t\<rparr>) | Ret a \<Rightarrow> Q (Ret (a, p')) (s\<lparr>su_os := t\<rparr>)))"
  by (cases "m (p, su_os s)") (auto simp: wp_def on_pairings_def split: outcome.split)

text \<open>Pairing adds the fingerprint to what the file lists and forgets nobody.\<close>

definition paired_file :: "pairing_codec \<Rightarrow> paths \<Rightarrow> setup_state \<Rightarrow> string \<Rightarrow> os \<Rightarrow> bool" where
  "paired_file cd p s fp t \<longleftrightarrow>
     (\<exists>m. file_at t (pairings_path p) = Some (marshal_allowed cd (Some m)) \<and> m fp = Some True \<and> finite (dom m) \<and>
          (\<forall>j. listed cd (su_os s) (pairings_path p) j \<longrightarrow> m j = Some True))"

lemma pair_profile_wp:
  assumes honest: "honest io" and codec: "codec_ok cd" and path: "pairings_path p \<noteq> []"
  shows "wp (pair_profile io cd p fp)
    (setup_post {pairings_path p, persist_tmp (pairings_path p)} s (\<lambda>_ t. paired_file cd p s fp t)) s"
proof -
  let ?P = "{pairings_path p, persist_tmp (pairings_path p)}"
  have files: "touches ?P (su_os s) t2 \<and> (r = Ret None \<longrightarrow> paired_file cd p s fp t2)"
    if op: "new_persistent_pairing_store io cd (pairings_path p) (su_os s) = (Inr st, t1)"
      and pr: "pair_client io cd fp (open_physical_window st, t1) = (r, (st', t2))" for st t1 r st' t2
  proof -
    note o = opened_store [OF honest op]
    have "touches ?P (su_os s) t2"
      using touches_mono [OF o(1), of ?P] pair_client_files(1) [OF pr] o(2) by (auto intro: touches_trans)
    moreover have "paired_file cd p s fp t2" if ok: "r = Ret None"
    proof -
      from pr ok obtain m where m: "allowed st' = Some m" "is_allowed st' fp" "\<And>j. is_allowed st j \<Longrightarrow> is_allowed st' j" "finite (dom m)"
        by (cases rule: pair_client_cases) (auto simp: is_allowed_def dest: opened_store_finite [OF codec op])
      have "file_at t2 (pairings_path p) = Some (marshal_allowed cd (Some m))"
        using pair_client_files(2) [OF pr ok] m(1) path o(2) by simp
      with m o(4) show ?thesis by (auto simp: paired_file_def is_allowed_def)
    qed
    ultimately show ?thesis by blast
  qed
  have err: "touches ?P (su_os s) t" if "new_persistent_pairing_store io cd (pairings_path p) (su_os s) = (r, t)" for r t
    using that read_file_touches [of io "pairings_path p" "su_os s" _ _ ?P]
    by (auto simp: new_persistent_pairing_store_def Let_def split: prod.splits sum.splits if_splits)
  show ?thesis
    unfolding pair_profile_def tryP_def
    by (auto simp: prog_simps wp_on_pairings Let_def setup_post_def dest: err files split: sum.split outcome.split option.split)
qed

lemma write_files_wp:
  assumes "distinct (map (\<lambda>(n, d). path_clean (path_join [dir, n])) fls)"
  shows "wp (write_files io dir fls)
    (setup_post ((\<lambda>(n, d). path_join [dir, n]) ` set fls) s
      (\<lambda>_ t. \<forall>(n, d) \<in> set fls. file_at t (path_join [dir, n]) = Some d)) s"
  using assms
proof (induction fls arbitrary: s)
  case Nil
  then show ?case by (simp add: prog_simps setup_post_def touches_refl)
next
  case (Cons f fls)
  obtain n d where f: "f = (n, d)" by fastforce
  let ?p = "path_join [dir, n]" and ?P = "(\<lambda>(n, d). path_join [dir, n]) ` set fls"
  have out: "path_clean ?p \<notin> path_clean ` ?P" using Cons.prems by (auto simp: f)
  have rest: "wp (write_files io dir fls)
      (setup_post (insert ?p ?P) s (\<lambda>_ t. \<forall>(n, d) \<in> set (f # fls). file_at t (path_join [dir, n]) = Some d)) (s\<lparr>su_os := t\<rparr>)"
    if w: "os_write_file io ?p d 384 (su_os s) = (None, t)" for t
  proof -
    have IH: "wp (write_files io dir fls) (setup_post ?P (s\<lparr>su_os := t\<rparr>)
        (\<lambda>_ t. \<forall>(n, d) \<in> set fls. file_at t (path_join [dir, n]) = Some d)) (s\<lparr>su_os := t\<rparr>)"
      using Cons.IH Cons.prems by simp
    show ?thesis
    proof (rule wp_mono [OF IH])
      fix r s'
      assume q: "setup_post ?P (s\<lparr>su_os := t\<rparr>) (\<lambda>_ t. \<forall>(n, d) \<in> set fls. file_at t (path_join [dir, n]) = Some d) r s'"
      then have tc: "touches ?P t (su_os s')" by (simp add: setup_post_def)
      have "file_at (su_os s') ?p = Some d" using touchesD [OF tc out] write_file_at [OF w] by simp
      moreover have "touches (insert ?p ?P) (su_os s) (su_os s')"
        using write_file_touches [OF w, of "insert ?p ?P"] touches_mono [OF tc, of "insert ?p ?P"]
        by (auto intro: touches_trans)
      ultimately show "setup_post (insert ?p ?P) s (\<lambda>_ t. \<forall>(n, d) \<in> set (f # fls). file_at t (path_join [dir, n]) = Some d) r s'"
        using q by (auto simp: setup_post_def f)
    qed
  qed
  show ?case
    by (auto simp: f checkP_def prog_simps setup_post_error write_file_touches split: option.split dest: rest [unfolded f])
qed

definition profile_names :: "string list" where
  "profile_names = [''ca.pem'', ''client-cert.pem'', ''client-key.pem'']"

definition is_order :: "string list \<Rightarrow> bool" where
  "is_order order \<longleftrightarrow> distinct order \<and> set order = set profile_names"

definition profile_files :: "path \<Rightarrow> path set" where
  "profile_files dir = (\<lambda>n. path_join [dir, n]) ` set profile_names"

definition profile_written :: "crypto \<Rightarrow> ca \<Rightarrow> path \<Rightarrow> string \<Rightarrow> string \<Rightarrow> os \<Rightarrow> bool" where
  "profile_written cr c dir cert_pem key_pem t \<longleftrightarrow>
     file_at t (path_join [dir, ''client-cert.pem'']) = Some cert_pem \<and>
     file_at t (path_join [dir, ''client-key.pem'']) = Some key_pem \<and>
     (\<exists>pem. file_at t (path_join [dir, ''ca.pem'']) = Some pem \<and> parse_cert_pem cr pem = Inr (ca_cert c))"

lemma write_profile_wp:
  assumes laws: "crypto_laws cr" and order: "is_order order" and raw: "parse_certificate cr (xc_raw (ca_cert c)) = Inr (ca_cert c)"
    and apart: "distinct (map (\<lambda>n. path_clean (path_join [dir, n])) profile_names)"
  shows "wp (write_profile io cr order c dir cert_pem key_pem)
    (setup_post (profile_files dir) s (\<lambda>_ t. profile_written cr c dir cert_pem key_pem t)) s"
proof -
  let ?fls = "\<lambda>ca_pem. map (\<lambda>n. (n, profile_data ca_pem cert_pem key_pem n)) order"
  have inj: "inj_on (\<lambda>n. path_clean (path_join [dir, n])) (set profile_names)" using apart by (simp add: distinct_map)
  then have dist: "distinct (map (\<lambda>(n, d). path_clean (path_join [dir, n])) (?fls ca_pem))" for ca_pem
    using order by (simp add: is_order_def distinct_map comp_def)
  have img: "(\<lambda>(n, d). path_join [dir, n]) ` set (?fls ca_pem) = profile_files dir" for ca_pem
    using order by (force simp: is_order_def profile_files_def)
  have done_ok: "profile_written cr c dir cert_pem key_pem t"
    if "\<forall>n \<in> set order. file_at t (path_join [dir, n]) = Some (profile_data ca_pem cert_pem key_pem n)" "encode_ca_pem cr c = Inr (ca_pem, k)"
    for ca_pem k t
  proof -
    have "parse_cert_pem cr ca_pem = Inr (ca_cert c)"
      using that(2) parse_raw_pem [OF laws raw] by (auto simp: encode_ca_pem_def split: sum.splits)
    moreover
    have "file_at t (path_join [dir, ''ca.pem'']) = Some ca_pem" "file_at t (path_join [dir, ''client-cert.pem'']) = Some cert_pem"
      "file_at t (path_join [dir, ''client-key.pem'']) = Some key_pem"
      using that(1) order by (simp_all add: is_order_def profile_names_def profile_data_def)
    ultimately show ?thesis by (auto simp: profile_written_def)
  qed
  have wfiles: "wp (write_files io dir (?fls ca_pem)) (setup_post (profile_files dir) s (\<lambda>_ t. profile_written cr c dir cert_pem key_pem t)) (s\<lparr>su_os := t\<rparr>)"
    if "encode_ca_pem cr c = Inr (ca_pem, k)" "os_mkdir_all io dir (su_os s) = (r, t)" for ca_pem k r t
    by (rule write_files_wp [OF dist, unfolded img, THEN wp_mono], erule setup_post_from)
       (use that mkdir_all_touches [OF that(2)] in \<open>auto intro: done_ok\<close>)
  show ?thesis
    unfolding write_profile_def tryP_def checkP_def Let_def
    by (auto simp: prog_simps touches_refl intro!: setup_post_error wfiles split: sum.split option.split dest: mkdir_all_touches)
qed

subsection \<open>The setup as a whole\<close>

definition setup_done :: "io_env \<Rightarrow> crypto \<Rightarrow> pairing_codec \<Rightarrow> paths \<Rightarrow> path \<Rightarrow> string \<Rightarrow> setup_state \<Rightarrow> string \<Rightarrow> os \<Rightarrow> bool" where
  "setup_done io cr cd p dir profile s fp t \<longleftrightarrow>
     (\<exists>c x cert_pem key_pem. ca_ready io cr p s c t \<and>
        server_ready io cr p c (su_os s) t \<and>
        issued_by cr c profile [] ClientAuth cert_pem key_pem \<and> parse_cert_pem cr cert_pem = Inr x \<and> fp = sha256_hex cr (xc_raw x) \<and>
        paired_file cd p s fp t \<and> profile_written cr c dir cert_pem key_pem t)"

lemma setup_files_frames:
  assumes "files_apart p dir"
  shows "path_clean (ca_cert_path p) \<noteq> path_clean (ca_key_path p)" "path_clean (server_cert_path p) \<noteq> path_clean (server_key_path p)"
    "pairings_path p \<noteq> []" "distinct (map (\<lambda>n. path_clean (path_join [dir, n])) profile_names)"
    "path_clean ` {ca_cert_path p, ca_key_path p} \<inter> path_clean ` {server_cert_path p, server_key_path p} = {}"
    "path_clean ` {ca_cert_path p, ca_key_path p} \<inter> path_clean ` {pairings_path p, persist_tmp (pairings_path p)} = {}"
    "path_clean ` {server_cert_path p, server_key_path p} \<inter> path_clean ` {pairings_path p, persist_tmp (pairings_path p)} = {}"
    "path_clean ` {ca_cert_path p, ca_key_path p} \<inter> path_clean ` profile_files dir = {}"
    "path_clean ` {server_cert_path p, server_key_path p} \<inter> path_clean ` profile_files dir = {}"
    "path_clean (pairings_path p) \<notin> path_clean ` profile_files dir"
  using assms by (auto simp add: files_apart_def setup_files_def profile_files_def profile_names_def)

lemma ca_stored_frame:
  "ca_stored cr p c t \<Longrightarrow> touches P t t' \<Longrightarrow> path_clean ` {ca_cert_path p, ca_key_path p} \<inter> path_clean ` P = {} \<Longrightarrow> ca_stored cr p c t'"
  by (auto simp: ca_stored_def touches_def)

lemma server_ready_frame:
  assumes "server_ready io cr p c t1 t2"
    and "\<And>q. q \<in> {server_cert_path p, server_key_path p} \<Longrightarrow> file_at t1 q = file_at t q \<and> file_at t3 q = file_at t2 q"
  shows "server_ready io cr p c t t3"
  using assms(1) assms(2) [of "server_cert_path p"] assms(2) [of "server_key_path p"]
  by (simp add: server_ready_def server_stored_def)

definition on_success :: "('a \<Rightarrow> setup_state \<Rightarrow> bool) \<Rightarrow> (go_error + 'a) outcome \<Rightarrow> setup_state \<Rightarrow> bool" where
  "on_success ok r s \<longleftrightarrow> (\<forall>x. r = Ret (Inr x) \<longrightarrow> ok x s)"

lemma try_success:
  assumes "wp m (setup_post P s ok) s"
    and "\<And>x s1. ok x (su_os s1) \<Longrightarrow> touches P (su_os s) (su_os s1) \<Longrightarrow> su_rand s \<le> su_rand s1 \<Longrightarrow> wp (f x) (on_success ok') s1"
  shows "wp (tryP w m f) (on_success ok') s"
  unfolding tryP_def wp_bind
  by (rule wp_mono [OF assms(1)])
     (auto simp: setup_post_def wp_ret on_success_def [of _ "Ret (Inl _)"] on_success_def [of _ "Panic _"] intro!: assms(2)
       split: outcome.split sum.split)

lemma try_pure:
  assumes "\<And>x. v = Inr x \<Longrightarrow> wp (f x) (on_success ok') s"
  shows "wp (tryP w (retP v) f) (on_success ok') s"
  using assms by (auto simp: tryP_def wp_ret on_success_def split: sum.split)

lemma issue_client_wp:
  assumes "crypto_laws cr"
  shows "wp (issue_client_cert cr c cn v)
    (setup_post {} s (\<lambda>(cp, kp) t. t = su_os s \<and> issued_by cr c cn [] ClientAuth cp kp)) s"
  unfolding issue_client_cert_def
  by (rule issue_wp [OF assms, THEN wp_mono]) (auto simp: setup_post_def touches_refl)

lemma do_setup_wp:
  assumes laws: "crypto_laws cr" and honest: "honest io" and codec: "codec_ok cd" and order: "is_order order"
    and apart: "files_apart p (path_join [out_dir, profile])"
  shows "wp (do_setup io cr cd order p profile out_dir)
    (on_success (\<lambda>fp s'. setup_done io cr cd p (path_join [out_dir, profile]) profile s fp (su_os s'))) s"
proof -
  let ?dir = "path_join [out_dir, profile]"
  let ?ca = "{ca_cert_path p, ca_key_path p}" and ?sv = "{server_cert_path p, server_key_path p}"
  let ?pr = "{pairings_path p, persist_tmp (pairings_path p)}"
  note fr = setup_files_frames [OF apart]
  have last: "setup_done io cr cd p ?dir profile s fp t5"
    if ca: "ca_ready io cr p s c t1" "touches ?ca (su_os s) t1"
      and sv: "server_ready io cr p c t1 t2" "touches ?sv t1 t2"
      and cl: "issued_by cr c profile [] ClientAuth cp kp" "fingerprint cr cp = Inr fp"
      and pr: "paired_file cd p s2 fp t4" "touches ?pr t2 t4" "su_os s2 = t2"
      and pf: "profile_written cr c ?dir cp kp t5" "touches (profile_files ?dir) t4 t5"
    for c t1 t2 cp kp fp t4 t5 s2
  proof -
    have "ca_stored cr p c t5"
      using ca_stored_frame [OF ca_stored_frame [OF ca_stored_frame [OF _ sv(2) fr(5)] pr(2) fr(6)] pf(2) fr(8)] ca(1)
      by (simp add: ca_ready_def)
    moreover have "file_at t5 (ca_cert_path p) = file_at t1 (ca_cert_path p)" "file_at t5 (ca_key_path p) = file_at t1 (ca_key_path p)"
    proof -
      have "path_clean q \<notin> path_clean ` profile_files ?dir \<and> path_clean q \<notin> path_clean ` ?pr \<and> path_clean q \<notin> path_clean ` ?sv" if "q \<in> ?ca" for q
        using imageI [OF that, of path_clean] fr(5,6,8) by (simp only: disjoint_iff) blast
      then have "file_at t5 q = file_at t1 q" if "q \<in> ?ca" for q
        using touchesD [OF pf(2), of q] touchesD [OF pr(2), of q] touchesD [OF sv(2), of q] that by simp
      then show "file_at t5 (ca_cert_path p) = file_at t1 (ca_cert_path p)" "file_at t5 (ca_key_path p) = file_at t1 (ca_key_path p)"
        by simp_all
    qed
    ultimately have r: "ca_ready io cr p s c t5" using ca(1) unfolding ca_ready_def by metis
    have server: "server_ready io cr p c (su_os s) t5"
    proof (rule server_ready_frame [OF sv(1)])
      fix q
      assume q: "q \<in> ?sv"
      have "path_clean q \<notin> path_clean ` profile_files ?dir" "path_clean q \<notin> path_clean ` ?pr" "path_clean q \<notin> path_clean ` ?ca"
        using imageI [OF q, of path_clean] fr(5,7,9) by (simp_all only: disjoint_iff) blast+
      then show "file_at t1 q = file_at (su_os s) q \<and> file_at t5 q = file_at t2 q"
        using touchesD [OF pf(2), of q] touchesD [OF pr(2), of q] touchesD [OF ca(2), of q] by simp
    qed
    have pj: "path_clean (pairings_path p) \<notin> path_clean ` ?ca" "path_clean (pairings_path p) \<notin> path_clean ` ?sv"
      using fr(6,7) by auto
    have lst: "listed cd (su_os s) (pairings_path p) j = listed cd t2 (pairings_path p) j" for j
      using touchesD [OF ca(2) pj(1)] touchesD [OF sv(2) pj(2)] by (simp add: listed_def)
    have "paired_file cd p s fp t5"
      using pr(1) touchesD [OF pf(2) fr(10)] by (simp add: paired_file_def lst pr(3))
    moreover obtain x where "parse_cert_pem cr cp = Inr x" "fp = sha256_hex cr (xc_raw x)"
      using cl(2) by (auto simp: fingerprint_def split: sum.splits)
    ultimately show ?thesis using r server cl(1) pf(1) unfolding setup_done_def by blast
  qed
  have raw: "parse_certificate cr (xc_raw (ca_cert c)) = Inr (ca_cert c)" if "ca_ready io cr p s c t" for c t
    using that by (auto simp: ca_ready_def ca_stored_def dest: parsed_raw)
  show ?thesis
    unfolding do_setup_def Let_def
  proof (rule try_success [OF load_or_create_wp [OF laws fr(1)]], goal_cases)
    case (1 c s1)
    show ?case
    proof (rule try_success [OF ensure_server_cert_wp [OF laws fr(2)]], goal_cases)
      case s2: (1 _ s2)
      show ?case
      proof (rule try_success [OF issue_client_wp [OF laws]], goal_cases)
        case s3: (1 pems s3)
        obtain cp kp where pems: "pems = (cp, kp)" by fastforce
        show ?case
          unfolding pems prod.case
        proof (rule try_pure, rule try_success [OF pair_profile_wp [OF honest codec fr(3)]], goal_cases)
          case s4: (1 fp _ s4)
          show ?case
          proof (rule try_success [OF write_profile_wp [OF laws order raw [OF 1(1)] fr(4)]], goal_cases)
            case s5: (1 _ s5)
            show ?case
              using last [OF 1(1,2) s2(1,2) _ s4(1) s4(2) _ _ s5(1) s5(2)] s3 s4(3) pems
              by (simp add: wp_bind wp_print wp_ret on_success_def)
          qed
        qed
      qed
    qed
  qed
qed

subsection \<open>Setup and service together\<close>

lemma started_pairings:
  assumes "start_service e p r = (Inr sc, r')" "honest (sv_io e)"
  shows "is_allowed (ss_pairings (sc_state sc)) j \<longleftrightarrow> listed (sv_pairing_codec e) r (pairings_path p) j"
    and "\<exists>pem. file_at r (ca_cert_path p) = Some pem \<and> client_cas (sv_tls (sc_server sc)) = Some pem \<and> client_auth (sv_tls (sc_server sc)) = RequireAndVerifyClientCert"
proof -
  obtain ca_pem s1 where 1: "os_read_file (sv_io e) (ca_cert_path p) r = (Inr ca_pem, s1)"
    using assms(1) by (auto simp: start_service_def Let_def split: prod.splits sum.splits)
  obtain kp s2 where 2: "load_key_pair (sv_io e) (sv_crypto e) (server_cert_path p) (server_key_path p) s1 = (Inr kp, s2)"
    using assms(1) 1 by (auto simp: start_service_def Let_def split: prod.splits sum.splits)
  obtain st s3 where 3: "new_persistent_pairing_store (sv_io e) (sv_pairing_codec e) (pairings_path p) s2 = (Inr st, s3)"
    using assms(1) 1 2 by (auto simp: start_service_def Let_def split: prod.splits sum.splits)
  obtain js s4 where 4: "new_file_jobs (sv_io e) (sv_job_codec e) (jobs_path p) s3 = (Inr js, s4)"
    using assms(1) 1 2 3 by (auto simp: start_service_def Let_def split: prod.splits sum.splits)
  have st: "ss_pairings (sc_state sc) = st" and tls: "client_cas (sv_tls (sc_server sc)) = Some ca_pem"
    "client_auth (sv_tls (sc_server sc)) = RequireAndVerifyClientCert"
    using assms(1) 1 2 3 4
    by (auto simp: start_service_def Let_def listen_def new_server_def set_kismet_tunnel_def pinned_client_ca_def
        split: prod.splits sum.splits if_splits option.splits)
  obtain a b t1 where "os_read_file (sv_io e) (server_cert_path p) s1 = (a, t1)" "os_read_file (sv_io e) (server_key_path p) t1 = (b, s2)"
    using 2 by (auto simp: load_key_pair_def split: prod.splits sum.splits if_splits)
  then have "touches {} r s1" "touches {} s1 s2"
    using read_file_touches [OF 1] by (auto intro: touches_trans read_file_touches)
  then have "file_at s2 q = file_at r q" for q by (simp add: touches_def)
  then show "is_allowed (ss_pairings (sc_state sc)) j \<longleftrightarrow> listed (sv_pairing_codec e) r (pairings_path p) j"
    using opened_store(4) [OF assms(2) 3] by (simp add: st listed_def)
  show "\<exists>pem. file_at r (ca_cert_path p) = Some pem \<and> client_cas (sv_tls (sc_server sc)) = Some pem \<and> client_auth (sv_tls (sc_server sc)) = RequireAndVerifyClientCert"
    using read_file_at [OF 1] tls by blast
qed

text \<open>The connection of a client that completed the handshake with a certificate.\<close>

definition tls_client :: "x509 \<Rightarrow> net_conn" where
  "tls_client x = \<lparr>nc_tls = True, nc_handshake = None, nc_peer_certs = [xc_raw x]\<rparr>"

lemma setup_lists:
  assumes codec: "codec_ok cd" and "setup_done io cr cd p dir profile s fp t" "file_at r = file_at t"
  shows "listed cd r (pairings_path p) fp" and "listed cd (su_os s) (pairings_path p) j \<Longrightarrow> listed cd r (pairings_path p) j"
  using assms by (fastforce simp: setup_done_def paired_file_def listed_def codec_ok_def nil_lookup_def)+

text \<open>
  C21. The profile the setup writes is served by the agent started on the same files: its client
  certificate carries the printed fingerprint, was signed by the authority the agent pins and
  the profile holds, and a TLS client presenting it passes the allowlist.
\<close>

theorem setup_profile_is_served:
  assumes run: "do_setup io cr cd order p profile out_dir s = (Ret (Inr fp), s')"
    and laws: "crypto_laws cr" "codec_ok cd" "honest io" "is_order order" "files_apart p (path_join [out_dir, profile])"
    and start: "start_service e p r = (Inr sc, r')" "fs r = fs (su_os s')"
    and env: "sv_crypto e = cr" "sv_pairing_codec e = cd" "honest (sv_io e)"
  shows "\<exists>x a cert_pem pinned profile_ca. file_at r (path_join [path_join [out_dir, profile], ''client-cert.pem'']) = Some cert_pem \<and>
     parse_cert_pem cr cert_pem = Inr x \<and> sha256_hex cr (xc_raw x) = fp \<and> cb_ext_usage (xc_body x) = [ClientAuth] \<and>
     client_cas (sv_tls (sc_server sc)) = Some pinned \<and> parse_cert_pem cr pinned = Inr a \<and>
     file_at r (path_join [path_join [out_dir, profile], ''ca.pem'']) = Some profile_ca \<and> parse_cert_pem cr profile_ca = Inr a \<and>
     cb_signer (xc_body x) = cb_public (xc_body a) \<and>
     cn_phase (conn_open (sha256_hex cr) (ss_pairings (sc_state sc)) (tls_client x) None) = Greeting"
proof -
  let ?dir = "path_join [out_dir, profile]"
  have d: "setup_done io cr cd p ?dir profile s fp (su_os s')"
    using wpD [OF do_setup_wp [OF laws(1,3,2,4,5)] run] by (simp add: on_success_def)
  have r: "file_at r = file_at (su_os s')" using start(2) by (simp add: file_at_def fun_eq_iff)
  from d obtain c x cp kp where c: "ca_stored cr p c (su_os s')" "issued_by cr c profile [] ClientAuth cp kp"
    "parse_cert_pem cr cp = Inr x" "fp = sha256_hex cr (xc_raw x)" "profile_written cr c ?dir cp kp (su_os s')"
    unfolding setup_done_def ca_ready_def by blast
  have "is_allowed (ss_pairings (sc_state sc)) fp"
    using started_pairings(1) [OF start(1) env(3)] setup_lists(1) [OF laws(2) d r] env(2) by simp
  then have "cn_phase (conn_open (sha256_hex cr) (ss_pairings (sc_state sc)) (tls_client x) None) = Greeting"
    using c(4) by (simp add: conn_open_def tls_client_def certificate_id_def Let_def)
  moreover obtain pinned where "client_cas (sv_tls (sc_server sc)) = Some pinned" "parse_cert_pem cr pinned = Inr (ca_cert c)"
    using started_pairings(2) [OF start(1) env(3)] c(1) r by (auto simp: ca_stored_def)
  moreover have "cb_signer (xc_body x) = cb_public (xc_body (ca_cert c))" "cb_ext_usage (xc_body x) = [ClientAuth]"
    using c(2,3) by (auto simp: issued_by_def)
  moreover have "file_at r (path_join [?dir, ''client-cert.pem'']) = Some cp"
    "\<exists>pem. file_at r (path_join [?dir, ''ca.pem'']) = Some pem \<and> parse_cert_pem cr pem = Inr (ca_cert c)"
    using c(5) by (auto simp: profile_written_def r)
  ultimately show ?thesis using c(3,4) by blast
qed

text \<open>
  A further setup on a working installation leaves the authority, the server's certificate
  and every earlier pairing as they are, and adds the new profile.
\<close>

theorem setup_again_keeps:
  assumes run: "do_setup io cr cd order p profile out_dir s = (Ret (Inr fp), s')"
    and laws: "crypto_laws cr" "codec_ok cd" "no_fault io" "is_order order" "files_apart p (path_join [out_dir, profile])"
    and installed: "\<forall>q \<in> {ca_cert_path p, ca_key_path p, server_cert_path p}. file_at (su_os s) q \<noteq> None"
  shows "(\<forall>q \<in> {ca_cert_path p, ca_key_path p, server_cert_path p, server_key_path p}. file_at (su_os s') q = file_at (su_os s) q) \<and>
     listed cd (su_os s') (pairings_path p) fp \<and>
     (\<forall>j. listed cd (su_os s) (pairings_path p) j \<longrightarrow> listed cd (su_os s') (pairings_path p) j)"
proof -
  have h: "honest io" using laws(3) by (simp add: honest_def no_fault_def)
  have d: "setup_done io cr cd p (path_join [out_dir, profile]) profile s fp (su_os s')"
    using wpD [OF do_setup_wp [OF laws(1) h laws(2,4,5)] run] by (simp add: on_success_def)
  then have "\<forall>q \<in> {ca_cert_path p, ca_key_path p, server_cert_path p, server_key_path p}. file_at (su_os s') q = file_at (su_os s) q"
    using laws(3) installed by (auto simp: setup_done_def ca_ready_def server_ready_def Let_def)
  with setup_lists [OF laws(2) d refl] show ?thesis by blast
qed

text \<open>
  C22. A setup that cannot read the authority's key makes a new authority but keeps the server's
  certificate of the old one: the new profile pins an authority that did not sign the
  certificate the agent presents, so the laptop cannot authenticate the agent.
\<close>

theorem lost_key_splits_authority:
  assumes run: "do_setup io cr cd order p profile out_dir s = (Ret (Inr fp), s')"
    and laws: "crypto_laws cr" "codec_ok cd" "no_fault io" "is_order order" "files_apart p (path_join [out_dir, profile])"
    and lost: "file_at (su_os s) (ca_key_path p) = None"
    and server: "file_at (su_os s) (server_cert_path p) = Some pem" "parse_cert_pem cr pem = Inr y"
    and fresh: "gen_key cr (su_rand s) \<noteq> Inr (cb_signer (xc_body y))"
  shows "\<exists>profile_ca a. file_at (su_os s') (server_cert_path p) = Some pem \<and>
     file_at (su_os s') (path_join [path_join [out_dir, profile], ''ca.pem'']) = Some profile_ca \<and>
     parse_cert_pem cr profile_ca = Inr a \<and> cb_signer (xc_body y) \<noteq> cb_public (xc_body a)"
proof -
  have h: "honest io" using laws(3) by (simp add: honest_def no_fault_def)
  have "setup_done io cr cd p (path_join [out_dir, profile]) profile s fp (su_os s')"
    using wpD [OF do_setup_wp [OF laws(1) h laws(2,4,5)] run] by (simp add: on_success_def)
  then obtain c cp kp where d: "ca_ready io cr p s c (su_os s')" "server_ready io cr p c (su_os s) (su_os s')"
    "issued_by cr c profile [] ClientAuth cp kp" "profile_written cr c (path_join [out_dir, profile]) cp kp (su_os s')"
    unfolding setup_done_def by blast
  from d(1) lost have "gen_key cr (su_rand s) = Inr (ca_key c)" by (simp add: ca_ready_def)
  moreover from d(2) laws(3) server(1) have "file_at (su_os s') (server_cert_path p) = Some pem" by (simp add: server_ready_def Let_def)
  moreover from d(3) have "cb_public (xc_body (ca_cert c)) = ca_key c" by (auto simp: issued_by_def)
  moreover from d(4) obtain pca where "file_at (su_os s') (path_join [path_join [out_dir, profile], ''ca.pem'']) = Some pca"
    "parse_cert_pem cr pca = Inr (ca_cert c)" by (auto simp: profile_written_def)
  moreover note fresh
  ultimately show ?thesis by auto
qed

end
