(* ===== verification/Agent_Main_Examples.thy ===== *)
theory Agent_Main_Examples
  imports Agent_Main_Properties "HOL-Library.Countable"
begin

section \<open>Concrete setups\<close>

text \<open>
  Runs of the setup on concrete files, with encodings that keep the laws: a certificate, a key or a
  list is encoded in unary by its number in an enumeration of its type.
\<close>

instance ext_usage :: countable by countable_datatype
instance key_usage :: countable by countable_datatype

type_synonym body_fields =
  "(nat \<times> string \<times> string \<times> nat \<times> nat) \<times> (time \<times> time \<times> key_usage list \<times> ext_usage list \<times> string list \<times> bool)"

definition body_fields :: "cert_body \<Rightarrow> body_fields" where
  "body_fields b = ((cb_serial b, cb_subject b, cb_issuer b, cb_public b, cb_signer b),
     (cb_not_before b, cb_not_after b, cb_key_usage b, cb_ext_usage b, cb_ips b, cb_is_ca b))"

fun fields_body :: "body_fields \<Rightarrow> cert_body" where
  "fields_body ((a, b, c, d, e), (f, g, h, i, j, k)) =
     \<lparr>cb_serial = a, cb_subject = b, cb_issuer = c, cb_public = d, cb_signer = e, cb_not_before = f, cb_not_after = g,
      cb_key_usage = h, cb_ext_usage = i, cb_ips = j, cb_is_ca = k\<rparr>"

definition unary :: "'a::countable \<Rightarrow> string" where
  "unary x = replicate (to_nat x) (CHR ''1'')"

definition of_unary :: "string \<Rightarrow> 'a::countable" where
  "of_unary s = from_nat (length s)"

lemma of_unary [simp]: "of_unary (unary x) = x"
  by (simp add: unary_def of_unary_def)

definition test_crypto :: crypto where
  "test_crypto = \<lparr>gen_key = Inr, rand_serial = Inr, now_at = (\<lambda>_. 0), encode_cert = (\<lambda>b. unary (body_fields b)),
     decode_cert = (\<lambda>d. Inr (fields_body (of_unary d))), encode_key = (\<lambda>k. Inr (unary k)), decode_key = (\<lambda>d. Inr (of_unary d)),
     pem_encode = (\<lambda>t d. d), pem_decode = Some, sha256_hex = (\<lambda>d. CHR ''f'' # d)\<rparr>"

lemma test_crypto_laws: "crypto_laws test_crypto"
  by (simp add: crypto_laws_def test_crypto_def) (simp add: body_fields_def)

definition unary_codec :: pairing_codec where
  "unary_codec = \<lparr>marshal_allowed = (\<lambda>m. unary (SOME xs. map_of xs = the m)),
     unmarshal_allowed = (\<lambda>d. Inr (Some (map_of (of_unary d))))\<rparr>"

lemma ex_map_of: "finite (dom m) \<Longrightarrow> \<exists>xs. map_of xs = m"
proof (induction rule: finite_Map_induct)
  case empty
  show ?case by (rule exI [of _ "[]"]) simp
next
  case (update k v m)
  then obtain xs where "map_of xs = m" by blast
  then show ?case by (intro exI [of _ "(k, v) # xs"]) simp
qed

lemma unary_codec_ok: "codec_ok unary_codec"
proof -
  have "map_of (SOME xs. map_of xs = m) = m" if "finite (dom m)" for m :: "string \<Rightarrow> bool option"
    using someI_ex [OF ex_map_of [OF that]] .
  then show ?thesis by (auto simp: codec_ok_def unary_codec_def finite_dom_map_of)
qed

definition test_paths :: paths where
  "test_paths = \<lparr>pki_dir = ''/k'', state_dir = ''/s''\<rparr>"

lemma path_values:
  "ca_cert_path test_paths = ''/k/ca.pem''" "ca_key_path test_paths = ''/k/ca-key.pem''"
  "server_cert_path test_paths = ''/k/server-cert.pem''" "server_key_path test_paths = ''/k/server-key.pem''"
  "pairings_path test_paths = ''/s/pairings.json''" "jobs_path test_paths = ''/s/jobs.json''" "pki_dir test_paths = ''/k''"
  "path_join [''/o'', ''l''] = ''/o/l''" "path_join [''/o/l'', ''ca.pem''] = ''/o/l/ca.pem''"
  "path_join [''/o/l'', ''client-cert.pem''] = ''/o/l/client-cert.pem''" "path_join [''/o/l'', ''client-key.pem''] = ''/o/l/client-key.pem''"
  by code_simp+

lemma path_cleans:
  "path_clean ''/k/ca.pem'' = ''/k/ca.pem''" "path_clean ''/k/ca-key.pem'' = ''/k/ca-key.pem''"
  "path_clean ''/k/server-cert.pem'' = ''/k/server-cert.pem''" "path_clean ''/k/server-key.pem'' = ''/k/server-key.pem''"
  "path_clean ''/s/pairings.json'' = ''/s/pairings.json''" "path_clean ''/s/pairings.json.tmp'' = ''/s/pairings.json.tmp''"
  "path_clean ''/s/jobs.json'' = ''/s/jobs.json''"
  "path_clean ''/o/l/ca.pem'' = ''/o/l/ca.pem''" "path_clean ''/o/l/client-cert.pem'' = ''/o/l/client-cert.pem''"
  "path_clean ''/o/l/client-key.pem'' = ''/o/l/client-key.pem''"
  by code_simp+

lemma path_dirs:
  "path_dir ''/k/ca.pem'' = ''/k''" "path_dir ''/k/ca-key.pem'' = ''/k''"
  "path_dir ''/k/server-cert.pem'' = ''/k''" "path_dir ''/k/server-key.pem'' = ''/k''"
  "path_dir ''/s/pairings.json'' = ''/s''" "path_dir ''/s/pairings.json.tmp'' = ''/s''"
  "path_dir ''/o/l/ca.pem'' = ''/o/l''" "path_dir ''/o/l/client-cert.pem'' = ''/o/l''" "path_dir ''/o/l/client-key.pem'' = ''/o/l''"
  "ancestors ''/k'' = [''/k'']" "ancestors ''/s'' = [''/s'']" "ancestors ''/o/l'' = [''/o'', ''/o/l'']"
  by code_simp+

lemma test_apart: "files_apart test_paths (path_join [''/o'', ''l''])"
  by (simp add: files_apart_def setup_files_def persist_tmp_def path_values path_cleans)

lemma no_faults_ok [simp]: "no_fault no_faults" "honest no_faults"
  by (simp_all add: no_fault_def honest_def no_faults_def)

definition setup_from :: "(path \<Rightarrow> node option) \<Rightarrow> setup_state" where
  "setup_from f = \<lparr>su_os = \<lparr>fs = f, ios = 0\<rparr>, su_rand = 100, su_clock = 0, su_out = []\<rparr>"

definition test_setup :: "(path \<Rightarrow> node option) \<Rightarrow> (go_error + string) outcome \<times> setup_state" where
  "test_setup f = do_setup no_faults test_crypto unary_codec profile_names test_paths ''l'' ''/o'' (setup_from f)"

lemmas prog_evals = bindP_def tryP_def checkP_def retP_def on_os_def on_pairings_def print_out_def generate_key_def random_serial_def read_clock_def

lemma crypto_evals:
  "gen_key test_crypto n = Inr n" "rand_serial test_crypto n = Inr n" "now_at test_crypto n = 0" "encode_key test_crypto k = Inr (unary k)"
  "decode_key test_crypto (unary k) = Inr k" "pem_encode test_crypto t d = d" "pem_decode test_crypto d = Some d"
  "decode_cert test_crypto (encode_cert test_crypto b) = Inr b" "sha256_hex test_crypto d = CHR ''f'' # d"
  by (simp_all add: test_crypto_def body_fields_def)

lemmas pki_evals = new_ca_def create_certificate_def parse_certificate_def encode_ca_pem_def encode_key_pem_def encode_cert_pem_def
  parse_cert_pem_def parse_key_pem_def load_ca_def issue_server_cert_def issue_client_cert_def issue_def fingerprint_def

lemmas os_evals = os_op_defs no_faults_def is_dir_def is_not_exist_def err_not_exist_def

lemma codec_evals: "finite (dom m) \<Longrightarrow> unmarshal_allowed unary_codec (marshal_allowed unary_codec (Some m)) = Inr (Some m)"
  using unary_codec_ok by (simp add: codec_ok_def)

definition issued_body :: "nat \<Rightarrow> string \<Rightarrow> nat \<Rightarrow> time \<Rightarrow> ext_usage \<Rightarrow> string list \<Rightarrow> cert_body" where
  "issued_body serial subject signer until ext ips = \<lparr>cb_serial = serial, cb_subject = subject, cb_issuer = ''bottle-agent'',
     cb_public = serial - 1, cb_signer = signer, cb_not_before = - hour, cb_not_after = until,
     cb_key_usage = [DigitalSignature, KeyEncipherment], cb_ext_usage = [ext], cb_ips = ips, cb_is_ca = False\<rparr>"

definition ca_body :: "nat \<Rightarrow> cert_body" where
  "ca_body key = \<lparr>cb_serial = Suc key, cb_subject = ''bottle-agent'', cb_issuer = ''bottle-agent'', cb_public = key, cb_signer = key,
     cb_not_before = - hour, cb_not_after = ca_validity, cb_key_usage = [CertSign, CRLSign, DigitalSignature], cb_ext_usage = [],
     cb_ips = [], cb_is_ca = True\<rparr>"

lemmas setup_evals = test_setup_def do_setup_def load_or_create_ca_def setup_from_def create_ca_def ensure_server_cert_def create_server_cert_def
      pair_profile_def write_profile_def new_persistent_pairing_store_def pair_client_def persist_locked_def persist_tmp_def
      open_physical_window_def close_physical_window_def profile_names_def profile_data_def
      prog_evals os_evals path_values path_cleans path_dirs crypto_evals pki_evals Let_def

definition fresh_fp :: string where
  "fresh_fp = CHR ''f'' # encode_cert test_crypto (issued_body 105 ''l'' 100 client_validity ClientAuth [])"

lemma fresh_setup:
  "\<exists>s'. test_setup Map.empty = (Ret (Inr fresh_fp), s') \<and>
     fs (su_os s') ''/k/ca.pem'' = Some (FileNode (encode_cert test_crypto (ca_body 100)) 384) \<and>
     fs (su_os s') ''/k/server-cert.pem'' =
       Some (FileNode (encode_cert test_crypto (issued_body 103 ''bottle-agent'' 100 server_validity ServerAuth [''10.77.0.1''])) 384) \<and>
     fs (su_os s') ''/k/server-key.pem'' = Some (FileNode (unary (102 :: nat)) 384) \<and>
     fs (su_os s') ''/s/pairings.json'' = Some (FileNode (marshal_allowed unary_codec (Some [fresh_fp \<mapsto> True])) 384) \<and>
     fs (su_os s') ''/s/jobs.json'' = None"
  by (simp add: setup_evals issued_body_def ca_body_def fresh_fp_def)

definition test_env :: "unit service_env" where
  "test_env = \<lparr>sv_host = wrong_machine, sv_host_state = (), sv_io = no_faults, sv_crypto = test_crypto, sv_pairing_codec = unary_codec,
     sv_job_codec = test_codec, sv_clock = (\<lambda>_. 7), sv_unicode = (\<lambda>s. s), sv_ip6 = (\<lambda>_. None), sv_listen = (\<lambda>_. None),
     sv_dial = (\<lambda>_. Inr []), sv_relay_events = [], sv_json_text = test_json\<rparr>"

lemma loopback_relay: "new_tunnel_server (\<lambda>_. None) kismet_endpoint True = Inr \<lparr>ts_kismet_addr = ''127.0.0.1:2501''\<rparr>"
  by code_simp

lemma fresh_start:
  assumes "fs r ''/k/ca.pem'' = Some (FileNode (encode_cert test_crypto (ca_body 100)) 384)"
    "fs r ''/k/server-cert.pem'' =
       Some (FileNode (encode_cert test_crypto (issued_body 103 ''bottle-agent'' 100 server_validity ServerAuth [''10.77.0.1''])) 384)"
    "fs r ''/k/server-key.pem'' = Some (FileNode (unary (102 :: nat)) 384)"
    "fs r ''/s/pairings.json'' = Some (FileNode (marshal_allowed unary_codec (Some [fresh_fp \<mapsto> True])) 384)"
    "fs r ''/s/jobs.json'' = None"
  shows "\<exists>sc r'. start_service test_env test_paths r = (Inr sc, r')"
  using assms
  by (simp add: start_service_def test_env_def load_key_pair_def x509_key_pair_def pinned_client_ca_def pem_is_cert_def new_persistent_pairing_store_def
      new_file_jobs_def listen_def new_server_def loopback_relay codec_evals os_evals path_values path_cleans crypto_evals pki_evals
      Let_def issued_body_def version_tls13_def listen_address_def)

theorem setup_profile_is_served_witness:
  "\<exists>s' sc r'. test_setup Map.empty = (Ret (Inr fresh_fp), s') \<and> start_service test_env test_paths (su_os s') = (Inr sc, r') \<and>
     (\<exists>x. cn_phase (conn_open (sha256_hex test_crypto) (ss_pairings (sc_state sc)) (tls_client x) None) = Greeting)"
proof -
  obtain s' where s': "test_setup Map.empty = (Ret (Inr fresh_fp), s')" and start: "\<exists>sc r'. start_service test_env test_paths (su_os s') = (Inr sc, r')"
    using fresh_setup fresh_start by blast
  then obtain sc r' where sc: "start_service test_env test_paths (su_os s') = (Inr sc, r')" by blast
  have env: "sv_crypto test_env = test_crypto" "sv_pairing_codec test_env = unary_codec" "honest (sv_io test_env)"
    by (simp_all add: test_env_def)
  have order: "is_order profile_names" by (simp add: is_order_def profile_names_def)
  from setup_profile_is_served [OF s' [unfolded test_setup_def] test_crypto_laws unary_codec_ok no_faults_ok(2) order test_apart sc refl env]
  show ?thesis using s' sc by blast
qed

definition installed_files :: "bool \<Rightarrow> path \<Rightarrow> node option" where
  "installed_files with_key =
     [''/k'' \<mapsto> DirNode, ''/k/ca.pem'' \<mapsto> FileNode (encode_cert test_crypto (ca_body 7)) 384,
      ''/k/server-cert.pem'' \<mapsto> FileNode (encode_cert test_crypto (issued_body 9 ''bottle-agent'' 7 server_validity ServerAuth [''10.77.0.1''])) 384,
      ''/k/server-key.pem'' \<mapsto> FileNode (unary (8 :: nat)) 384]
     (''/k/ca-key.pem'' := if with_key then Some (FileNode (unary (7 :: nat)) 384) else None)"

lemma second_setup: "\<exists>fp s'. test_setup (installed_files True) = (Ret (Inr fp), s')"
  by (simp add: setup_evals installed_files_def ca_body_def)

lemma lost_key_setup: "\<exists>fp s'. test_setup (installed_files False) = (Ret (Inr fp), s')"
  by (simp add: setup_evals installed_files_def)

lemma installed_at:
  "file_at (su_os (setup_from (installed_files b))) (server_cert_path test_paths) =
     Some (encode_cert test_crypto (issued_body 9 ''bottle-agent'' 7 server_validity ServerAuth [''10.77.0.1'']))"
  "file_at (su_os (setup_from (installed_files b))) (ca_cert_path test_paths) = Some (encode_cert test_crypto (ca_body 7))"
  "file_at (su_os (setup_from (installed_files b))) (ca_key_path test_paths) = (if b then Some (unary (7 :: nat)) else None)"
  by (simp_all add: file_at_def setup_from_def installed_files_def path_values path_cleans)

theorem setup_again_keeps_witness:
  "\<exists>fp s'. test_setup (installed_files True) = (Ret (Inr fp), s') \<and>
     file_at (su_os s') (ca_cert_path test_paths) = Some (encode_cert test_crypto (ca_body 7)) \<and>
     listed unary_codec (su_os s') (pairings_path test_paths) fp"
proof -
  obtain fp s' where s': "test_setup (installed_files True) = (Ret (Inr fp), s')" using second_setup by blast
  have order: "is_order profile_names" by (simp add: is_order_def profile_names_def)
  from setup_again_keeps [OF s' [unfolded test_setup_def] test_crypto_laws unary_codec_ok no_faults_ok(1) order test_apart] s'
  show ?thesis by (simp add: installed_at)
qed

theorem lost_key_splits_authority_witness:
  "\<exists>fp s' profile_ca a. test_setup (installed_files False) = (Ret (Inr fp), s') \<and>
     file_at (su_os s') ''/o/l/ca.pem'' = Some profile_ca \<and> parse_cert_pem test_crypto profile_ca = Inr a \<and> cb_public (xc_body a) \<noteq> 7"
proof -
  obtain fp s' where s': "test_setup (installed_files False) = (Ret (Inr fp), s')" using lost_key_setup by blast
  have order: "is_order profile_names" by (simp add: is_order_def profile_names_def)
  have y: "parse_cert_pem test_crypto (encode_cert test_crypto b) = Inr \<lparr>xc_raw = encode_cert test_crypto b, xc_body = b\<rparr>" for b
    by (simp add: parse_cert_pem_def parse_certificate_def crypto_evals)
  have lost: "file_at (su_os (setup_from (installed_files False))) (ca_key_path test_paths) = None" by (simp add: installed_at)
  have fresh: "gen_key test_crypto (su_rand (setup_from (installed_files False))) \<noteq>
      Inr (cb_signer (issued_body 9 ''bottle-agent'' 7 server_validity ServerAuth [''10.77.0.1'']))"
    by (simp add: crypto_evals setup_from_def issued_body_def)
  from lost_key_splits_authority [OF s' [unfolded test_setup_def] test_crypto_laws unary_codec_ok no_faults_ok(1) order test_apart lost installed_at(1) y] fresh s'
  show ?thesis by (auto simp: issued_body_def path_values)
qed

end
