(* ===== verification/Wire_Json.thy ===== *)
theory Wire_Json
  imports Agent_Controlplane Go_Lib "HOL-Library.AList"
begin

section \<open>The messages as JSON\<close>

text \<open>
  The two structs named \<open>wireMessage\<close>, of the agent (\<open>controlplane/server.go\<close> of \<open>bottle-agent\<close>) and of
  the laptop (\<open>controlplane/client.go\<close> of \<open>bottle-tui\<close>), are declared apart and agree only through their
  JSON: each side writes the fields under its own tags, without the empty ones, and reads those of
  its own struct. What is taken of \<open>encoding/json\<close> and \<open>time\<close> are the texts of times and numbers and the
  replacement of bytes that are not UTF-8; the text of a document stands for the document.
\<close>

record wire_codec =
  wc_json :: json_text
  wc_parse_time :: "string \<Rightarrow> go_error + time"
  wc_float :: "string \<Rightarrow> string option"
  wc_utf8 :: "string \<Rightarrow> string"
  wc_fold :: "string \<Rightarrow> string"

subsection \<open>Writing\<close>

text \<open>Strings are written as valid UTF-8, in keys and values of a payload too.\<close>

fun coerce_json :: "wire_codec \<Rightarrow> json \<Rightarrow> json"
  and coerce_list :: "wire_codec \<Rightarrow> json list \<Rightarrow> json list"
  and coerce_map :: "wire_codec \<Rightarrow> payload \<Rightarrow> payload" where
  "coerce_json wc (JStr s) = JStr (wc_utf8 wc s)"
| "coerce_json wc (JArr vs) = JArr (coerce_list wc vs)"
| "coerce_json wc (JObj p) = JObj (coerce_map wc p)"
| "coerce_json wc v = v"
| "coerce_list wc [] = []"
| "coerce_list wc (v # vs) = coerce_json wc v # coerce_list wc vs"
| "coerce_map wc [] = []"
| "coerce_map wc ((k, v) # p) = (wc_utf8 wc k, coerce_json wc v) # coerce_map wc p"

definition coerce_message :: "wire_codec \<Rightarrow> wire_message \<Rightarrow> wire_message" where
  "coerce_message wc m =
     (let u = wc_utf8 wc in
      m\<lparr>wm_type := u (wm_type m), wm_version := u (wm_version m), wm_id := u (wm_id m), wm_op := u (wm_op m),
        wm_error := u (wm_error m), wm_payload := map_option (coerce_json wc) (wm_payload m),
        wm_severity := u (wm_severity m), wm_source := u (wm_source m), wm_kind := u (wm_kind m)\<rparr>)"

text \<open>The field is left out when it is empty.\<close>

definition omit_empty :: "bool \<Rightarrow> string \<Rightarrow> json \<Rightarrow> payload" where
  "omit_empty absent k v = (if absent then [] else [(k, v)])"

text \<open>The agent's struct; a \<open>time.Time\<close> is a struct, so its \<open>omitempty\<close> never applies.\<close>

definition wire_json :: "json_text \<Rightarrow> wire_message \<Rightarrow> json" where
  "wire_json jt m = JObj ((''type'', JStr (wm_type m)) #
     omit_empty (wm_version m = []) ''version'' (JStr (wm_version m)) @
     omit_empty (wm_id m = []) ''id'' (JStr (wm_id m)) @
     omit_empty (wm_op m = []) ''op'' (JStr (wm_op m)) @
     omit_empty (\<not> wm_confirm m) ''confirm'' (JBool True) @
     omit_empty (wm_last_sequence m = 0) ''last_sequence'' (JNum (itoa (uint (wm_last_sequence m)))) @
     omit_empty (\<not> wm_ok m) ''ok'' (JBool True) @
     omit_empty (wm_error m = []) ''error'' (JStr (wm_error m)) @
     (case wm_payload m of None \<Rightarrow> [] | Some p \<Rightarrow> [(''payload'', p)]) @
     omit_empty (wm_sequence m = 0) ''sequence'' (JNum (itoa (uint (wm_sequence m)))) @
     omit_empty (wm_severity m = []) ''severity'' (JStr (wm_severity m)) @
     omit_empty (wm_source m = []) ''source'' (JStr (wm_source m)) @
     omit_empty (wm_kind m = []) ''kind'' (JStr (wm_kind m)) @
     [(''occurred_at'', JStr (time_text jt (wm_occurred_at m)))])"

definition agent_json :: "wire_codec \<Rightarrow> wire_message \<Rightarrow> json" where
  "agent_json wc m = wire_json (wc_json wc) (coerce_message wc m)"

text \<open>The laptop's struct has one field more, \<open>client_id\<close>.\<close>

definition laptop_wire_json :: "json_text \<Rightarrow> string \<Rightarrow> wire_message \<Rightarrow> json" where
  "laptop_wire_json jt client_id m = JObj ((''type'', JStr (wm_type m)) #
     omit_empty (wm_version m = []) ''version'' (JStr (wm_version m)) @
     omit_empty (wm_id m = []) ''id'' (JStr (wm_id m)) @
     omit_empty (wm_op m = []) ''op'' (JStr (wm_op m)) @
     omit_empty (\<not> wm_confirm m) ''confirm'' (JBool True) @
     omit_empty (client_id = []) ''client_id'' (JStr client_id) @
     omit_empty (wm_last_sequence m = 0) ''last_sequence'' (JNum (itoa (uint (wm_last_sequence m)))) @
     omit_empty (\<not> wm_ok m) ''ok'' (JBool True) @
     omit_empty (wm_error m = []) ''error'' (JStr (wm_error m)) @
     (case wm_payload m of None \<Rightarrow> [] | Some p \<Rightarrow> [(''payload'', p)]) @
     omit_empty (wm_sequence m = 0) ''sequence'' (JNum (itoa (uint (wm_sequence m)))) @
     omit_empty (wm_severity m = []) ''severity'' (JStr (wm_severity m)) @
     omit_empty (wm_source m = []) ''source'' (JStr (wm_source m)) @
     omit_empty (wm_kind m = []) ''kind'' (JStr (wm_kind m)) @
     [(''occurred_at'', JStr (time_text jt (wm_occurred_at m)))])"

definition laptop_json :: "wire_codec \<Rightarrow> string \<Rightarrow> wire_message \<Rightarrow> json" where
  "laptop_json wc client_id m = laptop_wire_json (wc_json wc) (wc_utf8 wc client_id) (coerce_message wc m)"

subsection \<open>Reading\<close>

definition agent_wire_spec :: struct_spec where
  "agent_wire_spec = [(''type'', KString), (''version'', KString), (''id'', KString), (''op'', KString), (''confirm'', KBool),
     (''last_sequence'', KUint), (''ok'', KBool), (''error'', KString), (''payload'', KRaw), (''sequence'', KUint),
     (''severity'', KString), (''source'', KString), (''kind'', KString), (''occurred_at'', KAny)]"

definition laptop_wire_spec :: struct_spec where
  "laptop_wire_spec = [(''type'', KString), (''version'', KString), (''id'', KString), (''op'', KString), (''confirm'', KBool),
     (''client_id'', KString), (''last_sequence'', KUint), (''ok'', KBool), (''error'', KString), (''payload'', KRaw),
     (''sequence'', KUint), (''severity'', KString), (''source'', KString), (''kind'', KString), (''occurred_at'', KAny)]"

definition uint_field :: "(string \<Rightarrow> json option) \<Rightarrow> string \<Rightarrow> 64 word" where
  "uint_field m n = (case m n of Some (JNum s) \<Rightarrow> (case read_uint s of Some w \<Rightarrow> w | None \<Rightarrow> 0) | _ \<Rightarrow> 0)"

text \<open>\<open>time.Time\<close> decodes a string, and leaves itself as it is at \<open>null\<close>.\<close>

definition time_field :: "wire_codec \<Rightarrow> (string \<Rightarrow> json option) \<Rightarrow> string \<Rightarrow> go_error + time" where
  "time_field wc m n = (case m n of
       None \<Rightarrow> Inr 0
     | Some (JStr s) \<Rightarrow> wc_parse_time wc s
     | Some _ \<Rightarrow> Inl (ErrText ''Time.UnmarshalJSON: input is not a JSON string''))"

definition decode_message :: "wire_codec \<Rightarrow> struct_spec \<Rightarrow> json \<Rightarrow> go_error + wire_message" where
  "decode_message wc spec v =
     (case decode_struct (wc_fold wc) spec Map.empty v of
        (f, Some err) \<Rightarrow> Inl err
      | (f, None) \<Rightarrow>
          (case time_field wc f ''occurred_at'' of
             Inl err \<Rightarrow> Inl err
           | Inr t \<Rightarrow> Inr \<lparr>wm_type = str_field f ''type'', wm_version = str_field f ''version'', wm_id = str_field f ''id'',
               wm_op = str_field f ''op'', wm_confirm = bool_field f ''confirm'', wm_last_sequence = uint_field f ''last_sequence'',
               wm_ok = bool_field f ''ok'', wm_error = str_field f ''error'', wm_payload = f ''payload'',
               wm_sequence = uint_field f ''sequence'', wm_severity = str_field f ''severity'', wm_source = str_field f ''source'',
               wm_kind = str_field f ''kind'', wm_occurred_at = t\<rparr>))"

definition agent_decode :: "wire_codec \<Rightarrow> json \<Rightarrow> go_error + wire_message" where
  "agent_decode wc = decode_message wc agent_wire_spec"

definition laptop_decode :: "wire_codec \<Rightarrow> json \<Rightarrow> go_error + wire_message" where
  "laptop_decode wc = decode_message wc laptop_wire_spec"

text \<open>
  A payload read into \<open>map[string]any\<close>: a number becomes a \<open>float64\<close> (one that is none becomes \<open>nil\<close>), and of two
  entries with one key the last stays.
\<close>

definition last_wins :: "payload \<Rightarrow> payload" where
  "last_wins p = fold (\<lambda>(k, v) m. AList.update k v m) p []"

fun decode_any :: "wire_codec \<Rightarrow> json \<Rightarrow> json"
  and decode_list :: "wire_codec \<Rightarrow> json list \<Rightarrow> json list"
  and decode_map :: "wire_codec \<Rightarrow> payload \<Rightarrow> payload" where
  "decode_any wc (JNum n) = (case wc_float wc n of None \<Rightarrow> JNull | Some x \<Rightarrow> JNum x)"
| "decode_any wc (JArr vs) = JArr (decode_list wc vs)"
| "decode_any wc (JObj p) = JObj (last_wins (decode_map wc p))"
| "decode_any wc v = v"
| "decode_list wc [] = []"
| "decode_list wc (v # vs) = decode_any wc v # decode_list wc vs"
| "decode_map wc [] = []"
| "decode_map wc ((k, v) # p) = (k, decode_any wc v) # decode_map wc p"

definition decode_payload :: "wire_codec \<Rightarrow> json option \<Rightarrow> payload option" where
  "decode_payload wc p = (case p of
       Some (JObj q) \<Rightarrow> Some (last_wins (decode_map wc q))
     | _ \<Rightarrow> None)"

subsection \<open>What one side writes the other reads\<close>

lemma decode_fields_append:
  "decode_fields uni spec (p @ q) st = decode_fields uni spec q (decode_fields uni spec p st)"
  by (induction uni spec p st rule: decode_fields.induct) auto

definition opt_upd :: "bool \<Rightarrow> string \<Rightarrow> json \<Rightarrow> (string \<Rightarrow> json option) \<Rightarrow> (string \<Rightarrow> json option)" where
  "opt_upd absent k v m = (if absent then m else m(k \<mapsto> v))"

lemma opt_upd_apply: "opt_upd absent k v m j = (if j = k \<and> \<not> absent then Some v else m j)"
  by (simp add: opt_upd_def)

lemma decode_omit_empty:
  "field_match uni spec k = Some (n, kind) \<Longrightarrow> v \<noteq> JNull \<or> kind = KRaw \<Longrightarrow> kind_matches kind v \<Longrightarrow>
     decode_fields uni spec (omit_empty absent k v) (m, None) = (opt_upd absent n v m, None)"
  "field_match uni spec k = None \<Longrightarrow> decode_fields uni spec (omit_empty absent k v) (m, None) = (m, None)"
  by (auto simp: omit_empty_def opt_upd_def)

lemma decode_payload_entry:
  "field_match uni spec ''payload'' = Some (''payload'', KRaw) \<Longrightarrow>
     decode_fields uni spec (case p of None \<Rightarrow> [] | Some v \<Rightarrow> [(''payload'', v)]) (m, None) =
       (opt_upd (p = None) ''payload'' (the p) m, None)"
  by (auto simp: opt_upd_def split: option.split)

text \<open>Every tag of the agent's struct is one of the laptop's, of the same kind, and the other way round.\<close>

lemma laptop_tags:
  "field_match uni laptop_wire_spec ''type'' = Some (''type'', KString)"
  "field_match uni laptop_wire_spec ''version'' = Some (''version'', KString)"
  "field_match uni laptop_wire_spec ''id'' = Some (''id'', KString)"
  "field_match uni laptop_wire_spec ''op'' = Some (''op'', KString)"
  "field_match uni laptop_wire_spec ''confirm'' = Some (''confirm'', KBool)"
  "field_match uni laptop_wire_spec ''last_sequence'' = Some (''last_sequence'', KUint)"
  "field_match uni laptop_wire_spec ''ok'' = Some (''ok'', KBool)"
  "field_match uni laptop_wire_spec ''error'' = Some (''error'', KString)"
  "field_match uni laptop_wire_spec ''payload'' = Some (''payload'', KRaw)"
  "field_match uni laptop_wire_spec ''sequence'' = Some (''sequence'', KUint)"
  "field_match uni laptop_wire_spec ''severity'' = Some (''severity'', KString)"
  "field_match uni laptop_wire_spec ''source'' = Some (''source'', KString)"
  "field_match uni laptop_wire_spec ''kind'' = Some (''kind'', KString)"
  "field_match uni laptop_wire_spec ''occurred_at'' = Some (''occurred_at'', KAny)"
  by (simp_all add: field_match_def laptop_wire_spec_def)

lemma agent_tags:
  "field_match uni agent_wire_spec ''type'' = Some (''type'', KString)"
  "field_match uni agent_wire_spec ''version'' = Some (''version'', KString)"
  "field_match uni agent_wire_spec ''id'' = Some (''id'', KString)"
  "field_match uni agent_wire_spec ''op'' = Some (''op'', KString)"
  "field_match uni agent_wire_spec ''confirm'' = Some (''confirm'', KBool)"
  "field_match uni agent_wire_spec ''last_sequence'' = Some (''last_sequence'', KUint)"
  "field_match uni agent_wire_spec ''ok'' = Some (''ok'', KBool)"
  "field_match uni agent_wire_spec ''error'' = Some (''error'', KString)"
  "field_match uni agent_wire_spec ''payload'' = Some (''payload'', KRaw)"
  "field_match uni agent_wire_spec ''sequence'' = Some (''sequence'', KUint)"
  "field_match uni agent_wire_spec ''severity'' = Some (''severity'', KString)"
  "field_match uni agent_wire_spec ''source'' = Some (''source'', KString)"
  "field_match uni agent_wire_spec ''kind'' = Some (''kind'', KString)"
  "field_match uni agent_wire_spec ''occurred_at'' = Some (''occurred_at'', KAny)"
  "field_match uni agent_wire_spec ''client_id'' = None"
  by (simp_all add: field_match_def agent_wire_spec_def to_lower_def is_ascii_def lower_char_def Let_def)

lemmas wire_decode = decode_struct_def decode_fields_append decode_omit_empty decode_payload_entry

definition time_ok :: "wire_codec \<Rightarrow> time \<Rightarrow> bool" where
  "time_ok wc t \<longleftrightarrow> wc_parse_time wc (time_text (wc_json wc) t) = Inr t"

text \<open>The fields that are set when a message is read, on either side.\<close>

definition read_fields :: "json_text \<Rightarrow> wire_message \<Rightarrow> (string \<Rightarrow> json option)" where
  "read_fields jt m = (opt_upd (wm_kind m = []) ''kind'' (JStr (wm_kind m))
      (opt_upd (wm_source m = []) ''source'' (JStr (wm_source m))
      (opt_upd (wm_severity m = []) ''severity'' (JStr (wm_severity m))
      (opt_upd (wm_sequence m = 0) ''sequence'' (JNum (itoa (uint (wm_sequence m))))
      (opt_upd (wm_payload m = None) ''payload'' (the (wm_payload m))
      (opt_upd (wm_error m = []) ''error'' (JStr (wm_error m))
      (opt_upd (\<not> wm_ok m) ''ok'' (JBool True)
      (opt_upd (wm_last_sequence m = 0) ''last_sequence'' (JNum (itoa (uint (wm_last_sequence m))))
      (opt_upd (\<not> wm_confirm m) ''confirm'' (JBool True)
      (opt_upd (wm_op m = []) ''op'' (JStr (wm_op m))
      (opt_upd (wm_id m = []) ''id'' (JStr (wm_id m))
      (opt_upd (wm_version m = []) ''version'' (JStr (wm_version m)) [''type'' \<mapsto> JStr (wm_type m)]))))))))))))
      (''occurred_at'' \<mapsto> JStr (time_text jt (wm_occurred_at m)))"

lemma str_field_reads:
  "str_field (read_fields jt m) ''type'' = wm_type m" "str_field (read_fields jt m) ''version'' = wm_version m"
  "str_field (read_fields jt m) ''id'' = wm_id m" "str_field (read_fields jt m) ''op'' = wm_op m"
  "str_field (read_fields jt m) ''error'' = wm_error m" "str_field (read_fields jt m) ''severity'' = wm_severity m"
  "str_field (read_fields jt m) ''source'' = wm_source m" "str_field (read_fields jt m) ''kind'' = wm_kind m"
  by (simp_all add: read_fields_def str_field_def opt_upd_apply)

lemma other_field_reads:
  "bool_field (read_fields jt m) ''confirm'' = wm_confirm m" "bool_field (read_fields jt m) ''ok'' = wm_ok m"
  "uint_field (read_fields jt m) ''last_sequence'' = wm_last_sequence m"
  "uint_field (read_fields jt m) ''sequence'' = wm_sequence m"
  "read_fields jt m ''payload'' = wm_payload m"
  "read_fields jt m ''occurred_at'' = Some (JStr (time_text jt (wm_occurred_at m)))"
  by (auto simp add: read_fields_def bool_field_def uint_field_def opt_upd_apply)

lemma decode_read_fields:
  assumes "decode_struct (wc_fold wc) spec Map.empty v = (read_fields (wc_json wc) m, None)" "time_ok wc (wm_occurred_at m)"
  shows "decode_message wc spec v = Inr m"
  using assms by (simp add: decode_message_def str_field_reads other_field_reads time_field_def time_ok_def)

lemma laptop_reads_agent:
  assumes "time_ok wc (wm_occurred_at m)"
  shows "laptop_decode wc (wire_json (wc_json wc) m) = Inr m"
  unfolding laptop_decode_def
  by (rule decode_read_fields [OF _ assms]) (simp add: wire_json_def wire_decode laptop_tags read_fields_def)

lemma agent_reads_laptop:
  assumes "time_ok wc (wm_occurred_at m)"
  shows "agent_decode wc (laptop_wire_json (wc_json wc) client_id m) = Inr m"
  unfolding agent_decode_def
  by (rule decode_read_fields [OF _ assms]) (simp add: laptop_wire_json_def wire_decode agent_tags read_fields_def)

text \<open>What survives the trip as it is: UTF-8 strings, numbers a \<open>float64\<close> holds, maps without double keys.\<close>

fun exact_json :: "wire_codec \<Rightarrow> json \<Rightarrow> bool"
  and exact_list :: "wire_codec \<Rightarrow> json list \<Rightarrow> bool"
  and exact_map :: "wire_codec \<Rightarrow> payload \<Rightarrow> bool" where
  "exact_json wc (JStr s) \<longleftrightarrow> wc_utf8 wc s = s"
| "exact_json wc (JNum n) \<longleftrightarrow> wc_float wc n = Some n"
| "exact_json wc (JArr vs) \<longleftrightarrow> exact_list wc vs"
| "exact_json wc (JObj p) \<longleftrightarrow> distinct (map fst p) \<and> exact_map wc p"
| "exact_json wc v \<longleftrightarrow> True"
| "exact_list wc [] \<longleftrightarrow> True"
| "exact_list wc (v # vs) \<longleftrightarrow> exact_json wc v \<and> exact_list wc vs"
| "exact_map wc [] \<longleftrightarrow> True"
| "exact_map wc ((k, v) # p) \<longleftrightarrow> wc_utf8 wc k = k \<and> exact_json wc v \<and> exact_map wc p"

lemma exact_coerce:
  "exact_json wc v \<Longrightarrow> coerce_json wc v = v"
  "exact_list wc vs \<Longrightarrow> coerce_list wc vs = vs"
  "exact_map wc p \<Longrightarrow> coerce_map wc p = p"
  by (induction wc v and wc vs and wc p rule: exact_json_exact_list_exact_map.induct) auto

lemma update_fresh: "k \<notin> fst ` set m \<Longrightarrow> AList.update k v m = m @ [(k, v)]"
  by (induction m) auto

lemma last_wins_distinct: "distinct (map fst p) \<Longrightarrow> last_wins p = p"
proof -
  have "distinct (map fst (m @ p)) \<Longrightarrow> fold (\<lambda>(k, v) m. AList.update k v m) p m = m @ p" for m
  proof (induction p arbitrary: m)
    case (Cons e p)
    obtain k v where e: "e = (k, v)" by fastforce
    have "AList.update k v m = m @ [(k, v)]" using Cons.prems by (intro update_fresh) (auto simp: e)
    with Cons.IH [of "m @ [(k, v)]"] Cons.prems show ?case by (simp add: e)
  qed simp
  from this [of "[]"] show "distinct (map fst p) \<Longrightarrow> last_wins p = p" by (simp add: last_wins_def)
qed

lemma exact_decode:
  "exact_json wc v \<Longrightarrow> decode_any wc v = v"
  "exact_list wc vs \<Longrightarrow> decode_list wc vs = vs"
  "exact_map wc p \<Longrightarrow> decode_map wc p = p"
  by (induction wc v and wc vs and wc p rule: exact_json_exact_list_exact_map.induct) (auto simp: last_wins_distinct)

lemma decode_payload_exact: "exact_json wc (payload_json p) \<Longrightarrow> decode_payload wc (Some (payload_json p)) = p"
  using exact_decode(3) by (auto simp: decode_payload_def payload_json_def last_wins_distinct split: option.splits)

end
