(* ===== verification/Laptop_Client.thy ===== *)
theory Laptop_Client
  imports Agent_Server Agent_Pki Wire_Json Event_Client
begin

section \<open>The laptop's client of the control plane\<close>

text \<open>
  \<open>bottle-tui/internal/controlplane/client.go\<close> and \<open>internal/provisioncontrol/controller.go\<close>. A
  connection is the record \<open>transport\<close>: what dialling, the handshake, sending and receiving answer,
  over the state \<open>'w\<close> of everything beyond the laptop; \<open>tr_recv\<close> answers \<open>Inl\<close> with the context's
  error when the context ends first. A message is a \<open>wire_message\<close>; \<open>Wire_Json\<close> has
  its JSON on both sides. The laptop's extra field \<open>client_id\<close> is sent beside it (the agent ignores it). A status that was decoded only in part is
  returned beside the error, as the console looks at it; of a job only the error is kept, as no caller
  looks at more.
\<close>

subsection \<open>Building a client\<close>

definition pi_address :: string where
  "pi_address = ''10.77.0.1:7443''"

definition err_not_paired :: go_error where
  "err_not_paired = ErrSentinel ''controlplane.ErrNotPaired''
     ''Pi rejected the laptop profile; pair it during the physical pairing window''"

record credentials =
  cr_ca_pem :: string
  cr_cert_pem :: string
  cr_key_pem :: string
  cr_client_id :: string

record rpc_client =
  rc_address :: string
  rc_client_id :: string
  rc_roots :: string
  rc_cert :: "x509 \<times> nat"

definition new_rpc_client :: "crypto \<Rightarrow> string \<Rightarrow> credentials \<Rightarrow> go_error + rpc_client" where
  "new_rpc_client cr address c =
     (let address = (if address = [] then pi_address else address) in
      if address \<noteq> pi_address then Inl (ErrText (''Pi control plane is fixed at '' @ pi_address))
      else if \<not> pem_is_cert cr (cr_ca_pem c) then Inl (ErrText ''invalid pinned Pi CA PEM'')
      else (case x509_key_pair cr (cr_cert_pem c) (cr_key_pem c) of
          Inl err \<Rightarrow> Inl (wrapped ''invalid client certificate: '' err)
        | Inr pair \<Rightarrow>
            if cr_client_id c = [] then Inl (ErrText ''client profile ID is required'')
            else Inr \<lparr>rc_address = address, rc_client_id = cr_client_id c, rc_roots = cr_ca_pem c, rc_cert = pair\<rparr>))"

subsection \<open>A connection\<close>

record 'w transport =
  tr_dial :: "string \<Rightarrow> ('w, go_error option) prog"
  tr_handshake :: "('w, go_error option) prog"
  tr_send :: "string \<Rightarrow> wire_message \<Rightarrow> ('w, go_error option) prog"
  tr_recv :: "('w, go_error + wire_message) prog"
  tr_close :: "('w, unit) prog"

definition rpc_open :: "'w transport \<Rightarrow> rpc_client \<Rightarrow> ('w, go_error option) prog" where
  "rpc_open tr c =
     bindP (tr_dial tr (rc_address c)) (\<lambda>e.
     case e of
       Some err \<Rightarrow> retP (Some (wrapped (''connect Pi control plane at '' @ rc_address c @ '': '') err))
     | None \<Rightarrow>
         bindP (tr_handshake tr) (\<lambda>e.
         case e of
           Some err \<Rightarrow> bindP (tr_close tr) (\<lambda>_. retP (Some (wrapped ''TLS 1.3 mTLS handshake: '' err)))
         | None \<Rightarrow> retP None))"

definition rpc_call :: "'w transport \<Rightarrow> string \<Rightarrow> wire_message \<Rightarrow> ('w, go_error + wire_message) prog" where
  "rpc_call tr client_id msg =
     checkP id (tr_send tr client_id msg)
     (tryP id (tr_recv tr) (\<lambda>m.
        if \<not> wm_ok m then
          (if wm_error m = ''not_paired'' then retP (Inl err_not_paired) else retP (Inl (ErrText (wm_error m))))
        else retP (Inr m)))"

definition hello_message :: wire_message where
  "hello_message = empty_message\<lparr>wm_type := ''hello'', wm_version := protocol_version\<rparr>"

text \<open>The deferred close of \<open>request\<close> runs on every path after the connection is open.\<close>

definition with_close :: "'w transport \<Rightarrow> ('w, 'a) prog \<Rightarrow> ('w, 'a) prog" where
  "with_close tr m = bindP m (\<lambda>r. bindP (tr_close tr) (\<lambda>_. retP r))"

definition rpc_request ::
  "'w transport \<Rightarrow> rpc_client \<Rightarrow> string \<Rightarrow> string \<Rightarrow> bool \<Rightarrow> go_error + json \<Rightarrow> ('w, go_error + wire_message) prog" where
  "rpc_request tr c i opn confirm payload =
     checkP id (rpc_open tr c)
     (with_close tr
       (tryP id (rpc_call tr (rc_client_id c) hello_message) (\<lambda>_.
        tryP id (retP payload) (\<lambda>body.
        rpc_call tr [] (empty_message\<lparr>wm_type := ''request'', wm_version := protocol_version, wm_id := i, wm_op := opn,
          wm_confirm := confirm, wm_payload := Some body\<rparr>)))))"

subsection \<open>Requests\<close>

record remote_job =
  rj_id :: string
  rj_state :: string
  rj_message :: string

record remote_provision =
  rp_request_id :: string
  rp_confirmed :: bool

record remote_update =
  ru_request_id :: string
  ru_version :: string
  ru_channel :: string
  ru_confirmed :: bool

definition job_spec :: struct_spec where
  "job_spec = [(''ID'', KString), (''State'', KString), (''Message'', KString)]"

text \<open>The payload of a response that has none is the empty text, which is no JSON.\<close>

definition unmarshal_payload ::
  "(string \<Rightarrow> string) \<Rightarrow> struct_spec \<Rightarrow> json option \<Rightarrow> go_error + (string \<Rightarrow> json option)" where
  "unmarshal_payload uni spec p =
     (case p of
        None \<Rightarrow> Inl (ErrText ''unexpected end of JSON input'')
      | Some v \<Rightarrow> (case decode_struct uni spec Map.empty v of (m, Some err) \<Rightarrow> Inl err | (m, None) \<Rightarrow> Inr m))"

definition decode_job :: "(string \<Rightarrow> string) \<Rightarrow> go_error + wire_message \<Rightarrow> go_error + remote_job" where
  "decode_job uni r =
     (case r of
        Inl err \<Rightarrow> Inl err
      | Inr m \<Rightarrow>
          (case unmarshal_payload uni job_spec (wm_payload m) of
             Inl err \<Rightarrow> Inl (wrapped ''decode job: '' err)
           | Inr f \<Rightarrow> Inr \<lparr>rj_id = str_field f ''ID'', rj_state = str_field f ''State'', rj_message = str_field f ''Message''\<rparr>))"

definition provision_json :: "remote_provision \<Rightarrow> json" where
  "provision_json r = JObj [(''RequestID'', JStr (rp_request_id r)), (''Confirmed'', JBool (rp_confirmed r))]"

definition update_json :: "remote_update \<Rightarrow> json" where
  "update_json r = JObj [(''RequestID'', JStr (ru_request_id r)), (''Version'', JStr (ru_version r)),
     (''Channel'', JStr (ru_channel r)), (''Confirmed'', JBool (ru_confirmed r))]"

definition rpc_provision ::
  "(string \<Rightarrow> string) \<Rightarrow> 'w transport \<Rightarrow> rpc_client \<Rightarrow> remote_provision \<Rightarrow> ('w, go_error + remote_job) prog" where
  "rpc_provision uni tr c r =
     bindP (rpc_request tr c (rp_request_id r) ''provision'' (rp_confirmed r) (Inr (provision_json r))) (\<lambda>m. retP (decode_job uni m))"

definition rpc_update ::
  "(string \<Rightarrow> string) \<Rightarrow> 'w transport \<Rightarrow> rpc_client \<Rightarrow> remote_update \<Rightarrow> ('w, go_error + remote_job) prog" where
  "rpc_update uni tr c r =
     bindP (rpc_request tr c (ru_request_id r) ''update'' (ru_confirmed r) (Inr (update_json r))) (\<lambda>m. retP (decode_job uni m))"

definition status_spec :: struct_spec where
  "status_spec = [(''ready'', KBool), (''survey'', KString), (''message'', KString)]"

definition no_agent_status :: status where
  "no_agent_status = \<lparr>st_ready = False, st_survey = [], st_message = []\<rparr>"

definition decode_status :: "(string \<Rightarrow> string) \<Rightarrow> json option \<Rightarrow> status \<times> go_error option" where
  "decode_status uni p =
     (case p of
        None \<Rightarrow> (no_agent_status, Some (ErrText ''unexpected end of JSON input''))
      | Some v \<Rightarrow> (case decode_struct uni status_spec Map.empty v of
          (f, e) \<Rightarrow> (\<lparr>st_ready = bool_field f ''ready'', st_survey = str_field f ''survey'', st_message = str_field f ''message''\<rparr>, e)))"

definition rpc_status :: "(string \<Rightarrow> string) \<Rightarrow> 'w transport \<Rightarrow> rpc_client \<Rightarrow> ('w, status \<times> go_error option) prog" where
  "rpc_status uni tr c =
     bindP (rpc_request tr c ''status'' ''status'' False (Inr JNull)) (\<lambda>r. retP
       (case r of Inl err \<Rightarrow> (no_agent_status, Some err) | Inr m \<Rightarrow> decode_status uni (wm_payload m)))"

definition rpc_survey :: "'w transport \<Rightarrow> rpc_client \<Rightarrow> bool \<Rightarrow> bool \<Rightarrow> ('w, go_error option) prog" where
  "rpc_survey tr c start confirm =
     (let opn = (if start then ''survey_start'' else ''survey_stop'') in
      bindP (rpc_request tr c opn opn confirm (Inr JNull)) (\<lambda>r. retP (case r of Inl err \<Rightarrow> Some err | Inr _ \<Rightarrow> None)))"

subsection \<open>The event stream\<close>

text \<open>
  The goroutine of \<open>StreamEvents\<close>: \<open>stream_start\<close> up to the subscription, \<open>stream_next\<close> one round of
  its loop (\<open>ctx_over\<close>: the context is done when it is looked at). Returning closes both channels.
\<close>

definition end_stream :: "event_stream \<Rightarrow> event_stream" where
  "end_stream s = s\<lparr>es_events_closed := True, es_errs_closed := True\<rparr>"

definition fail_stream :: "go_error \<Rightarrow> event_stream \<Rightarrow> event_stream" where
  "fail_stream err s = end_stream (s\<lparr>es_errs := es_errs s @ [err]\<rparr>)"

definition stream_start :: "'w transport \<Rightarrow> rpc_client \<Rightarrow> 64 word \<Rightarrow> ('w, event_stream) prog" where
  "stream_start tr c cursor =
     (let s = \<lparr>es_events = [], es_events_closed = False, es_errs = [], es_errs_closed = False\<rparr> in
      bindP (rpc_open tr c) (\<lambda>e.
      case e of
        Some err \<Rightarrow> retP (fail_stream err s)
      | None \<Rightarrow>
          bindP (rpc_call tr (rc_client_id c) (hello_message\<lparr>wm_last_sequence := cursor\<rparr>)) (\<lambda>r.
          case r of
            Inl err \<Rightarrow> bindP (tr_close tr) (\<lambda>_. retP (fail_stream err s))
          | Inr _ \<Rightarrow>
              bindP (tr_send tr [] (empty_message\<lparr>wm_type := ''request'', wm_version := protocol_version,
                  wm_op := ''events_subscribe'', wm_last_sequence := cursor\<rparr>)) (\<lambda>e.
              case e of
                Some err \<Rightarrow> bindP (tr_close tr) (\<lambda>_. retP (fail_stream err s))
              | None \<Rightarrow> retP s))))"

definition message_event :: "wire_codec \<Rightarrow> wire_message \<Rightarrow> event" where
  "message_event wc m = \<lparr>ev_sequence = wm_sequence m, ev_occurred_at = wm_occurred_at m, ev_severity = wm_severity m,
     ev_source = wm_source m, ev_kind = wm_kind m, ev_correlation_id = [],
     ev_payload = decode_payload wc (wm_payload m)\<rparr>"

definition stream_next :: "wire_codec \<Rightarrow> bool \<Rightarrow> go_error + wire_message \<Rightarrow> event_stream \<Rightarrow> event_stream" where
  "stream_next wc ctx_over r s =
     (if es_events_closed s then s
      else (case r of
          Inl err \<Rightarrow> if \<not> errors_is err io_eof \<and> \<not> ctx_over then fail_stream err s else end_stream s
        | Inr m \<Rightarrow>
            if wm_type m = ''resync_required'' then fail_stream err_rpc_resync s
            else if wm_type m \<noteq> ''event'' then s
            else if ctx_over then end_stream s
            else s\<lparr>es_events := es_events s @ [message_event wc m]\<rparr>))"

subsection \<open>The controller\<close>

definition err_confirmation_required :: go_error where
  "err_confirmation_required = ErrSentinel ''provisioncontrol.ErrConfirmationRequired'' ''explicit confirmation is required''"

record 'w job_client =
  jc_provision :: "remote_provision \<Rightarrow> ('w, go_error + remote_job) prog"
  jc_update :: "remote_update \<Rightarrow> ('w, go_error + remote_job) prog"

definition controller_provision :: "'w job_client \<Rightarrow> remote_provision \<Rightarrow> ('w, go_error + remote_job) prog" where
  "controller_provision c r =
     (if rp_request_id r = [] then retP (Inl (ErrText ''request id is required''))
      else if \<not> rp_confirmed r then retP (Inl err_confirmation_required)
      else jc_provision c r)"

definition controller_update :: "'w job_client \<Rightarrow> remote_update \<Rightarrow> ('w, go_error + remote_job) prog" where
  "controller_update c r =
     (if ru_request_id r = [] \<or> ru_version r = [] \<or> ru_channel r = []
      then retP (Inl (ErrText ''request id, version, and channel are required''))
      else if \<not> ru_confirmed r then retP (Inl err_confirmation_required)
      else jc_update c r)"

definition rpc_job_client :: "(string \<Rightarrow> string) \<Rightarrow> 'w transport \<Rightarrow> rpc_client \<Rightarrow> 'w job_client" where
  "rpc_job_client uni tr c = \<lparr>jc_provision = rpc_provision uni tr c, jc_update = rpc_update uni tr c\<rparr>"

end
