(* ===== verification/Laptop_Agent.thy ===== *)
theory Laptop_Agent
  imports Laptop_Client
begin

section \<open>The laptop and the agent together\<close>

text \<open>
  The laptop's client over a transport that is the agent's control plane: dialling and the
  handshake open a connection of the agent, a sent message is one input of that connection, and
  a receive takes the next message the agent sent. What is checked here is that the two sides, which
  define their messages separately, agree.
\<close>

record 'w link =
  ln_world :: 'w
  ln_conn :: conn
  ln_read :: nat

definition agent_link ::
  "(string \<Rightarrow> string) \<Rightarrow> 'w server \<Rightarrow> pairing_store \<Rightarrow> net_conn \<Rightarrow> 'w link transport" where
  "agent_link sha sv pairings nc = \<lparr>
     tr_dial = (\<lambda>address. retP None),
     tr_handshake = (\<lambda>s. (Ret None, s\<lparr>ln_conn := conn_open sha pairings nc None, ln_read := 0\<rparr>)),
     tr_send = (\<lambda>client_id m s.
        case conn_step sv (message_in m) (ln_conn s) (ln_world s) of
          (Ret c, w) \<Rightarrow> (Ret None, s\<lparr>ln_conn := c, ln_world := w\<rparr>)
        | (Panic p, w) \<Rightarrow> (Ret None, s\<lparr>ln_conn := (ln_conn s)\<lparr>cn_phase := Ended\<rparr>, ln_world := w\<rparr>)),
     tr_recv = (\<lambda>s. if ln_read s < length (cn_sent (ln_conn s))
        then (Ret (Inr (cn_sent (ln_conn s) ! ln_read s)), s\<lparr>ln_read := Suc (ln_read s)\<rparr>)
        else (Ret (Inl io_eof), s)),
     tr_close = (\<lambda>s. (Ret (), s\<lparr>ln_conn := (ln_conn s)\<lparr>cn_phase := Ended\<rparr>\<rparr>))\<rparr>"

lemmas link_simps = agent_link_def rpc_open_def rpc_call_def rpc_request_def with_close_def tryP_def checkP_def bindP_def retP_def

subsection \<open>Requests\<close>

definition paired_conn :: "(string \<Rightarrow> string) \<Rightarrow> pairing_store \<Rightarrow> net_conn \<Rightarrow> bool" where
  "paired_conn sha pairings nc \<longleftrightarrow> nc_tls nc \<and> nc_handshake nc = None \<and> is_allowed pairings (certificate_id sha nc)"

definition hello_ack :: wire_message where
  "hello_ack = empty_message\<lparr>wm_type := ''hello_ack'', wm_ok := True, wm_version := protocol_version\<rparr>"

definition serving_conn :: "string \<Rightarrow> conn" where
  "serving_conn i = \<lparr>cn_id = 0, cn_client = i, cn_phase = Serving, cn_pumps = [], cn_sent = [hello_ack]\<rparr>"

lemma open_paired: "paired_conn sha p nc \<Longrightarrow>
    conn_open sha p nc None = \<lparr>cn_id = 0, cn_client = certificate_id sha nc, cn_phase = Greeting, cn_pumps = [], cn_sent = []\<rparr>"
  by (simp add: paired_conn_def conn_open_def Let_def)

lemma step_hello: "conn_step sv (message_in hello_message) \<lparr>cn_id = 0, cn_client = i, cn_phase = Greeting, cn_pumps = [], cn_sent = []\<rparr> =
    retP (serving_conn i)"
  by (simp add: conn_step_def conn_hello_def message_in_def hello_message_def encode_def serving_conn_def hello_ack_def
      empty_message_def Let_def)

text \<open>The greeting of a request over the agent's link, for a paired and for an unpaired laptop.\<close>

lemma request_paired:
  assumes "paired_conn sha p nc"
  shows "rpc_request (agent_link sha sv p nc) c i opn confirm (Inr body) s =
    with_close (agent_link sha sv p nc)
      (rpc_call (agent_link sha sv p nc) [] (empty_message\<lparr>wm_type := ''request'', wm_version := protocol_version, wm_id := i,
         wm_op := opn, wm_confirm := confirm, wm_payload := Some body\<rparr>))
      (s\<lparr>ln_conn := serving_conn (certificate_id sha nc), ln_read := 1\<rparr>)"
proof -
  have "rpc_call (agent_link sha sv p nc) (rc_client_id c) hello_message
      (s\<lparr>ln_conn := \<lparr>cn_id = 0, cn_client = certificate_id sha nc, cn_phase = Greeting, cn_pumps = [], cn_sent = []\<rparr>, ln_read := 0\<rparr>) =
      (Ret (Inr hello_ack), s\<lparr>ln_conn := serving_conn (certificate_id sha nc), ln_read := 1\<rparr>)"
    by (simp add: rpc_call_def agent_link_def checkP_def tryP_def bindP_def retP_def step_hello)
       (simp add: serving_conn_def hello_ack_def empty_message_def)
  moreover have "rpc_open (agent_link sha sv p nc) c s =
      (Ret None, s\<lparr>ln_conn := \<lparr>cn_id = 0, cn_client = certificate_id sha nc, cn_phase = Greeting, cn_pumps = [], cn_sent = []\<rparr>, ln_read := 0\<rparr>)"
    using open_paired [OF assms] by (simp add: rpc_open_def agent_link_def bindP_def retP_def)
  ultimately show ?thesis
    by (simp add: rpc_request_def with_close_def checkP_def tryP_def bindP_def retP_def)
qed

text \<open>
  A laptop that is not paired is told so: whatever it requests ends in \<open>ErrNotPaired\<close> and
  the agent's state is as before.
\<close>

theorem unpaired_request_refused:
  assumes "nc_tls nc" "nc_handshake nc = None" "\<not> is_allowed p (certificate_id sha nc)"
  shows "\<exists>s'. rpc_request (agent_link sha sv p nc) c i opn confirm payload s = (Ret (Inl err_not_paired), s') \<and> ln_world s' = ln_world s"
proof -
  have "conn_open sha p nc None = \<lparr>cn_id = 0, cn_client = certificate_id sha nc, cn_phase = Ended, cn_pumps = [],
      cn_sent = [empty_message\<lparr>wm_type := ''response'', wm_ok := False, wm_error := ''not_paired''\<rparr>]\<rparr>"
    using assms by (simp add: conn_open_def encode_def Let_def)
  then show ?thesis by (simp add: link_simps empty_message_def)
qed

text \<open>One request over a greeted connection: the agent's dispatch, then its reply.\<close>

lemma call_serving:
  assumes disp: "dispatch Background sv (message_in m) m (serving_conn i) w = (Ret (False, reply (message_in m) m payload err (serving_conn i)), w')"
    and m: "wm_type m = ''request''" "wm_op m \<noteq> ''tunnel''"
  shows "\<exists>s'. with_close (agent_link sha sv p nc) (rpc_call (agent_link sha sv p nc) cid m)
      \<lparr>ln_world = w, ln_conn = serving_conn i, ln_read = 1\<rparr> =
      (Ret (case err of
          None \<Rightarrow> Inr (empty_message\<lparr>wm_type := ''response'', wm_id := wm_id m, wm_ok := True, wm_payload := Some payload\<rparr>)
        | Some e \<Rightarrow> Inl (if error_text e = ''not_paired'' then err_not_paired else ErrText (error_text e))), s') \<and>
      ln_world s' = w'"
proof -
  have "conn_step sv (message_in m) (serving_conn i) w = (Ret (reply (message_in m) m payload err (serving_conn i)), w')"
    using disp m by (simp add: conn_step_def conn_request_def serving_conn_def message_in_def bindP_def retP_def)
  moreover have "cn_sent (reply (message_in m) m payload err (serving_conn i)) = [hello_ack,
      (case err of
         None \<Rightarrow> empty_message\<lparr>wm_type := ''response'', wm_id := wm_id m, wm_ok := True, wm_payload := Some payload\<rparr>
       | Some e \<Rightarrow> empty_message\<lparr>wm_type := ''response'', wm_id := wm_id m, wm_ok := False, wm_error := error_text e\<rparr>)]"
    by (simp add: reply_def message_in_def encode_def serving_conn_def Let_def empty_message_def split: option.split)
  ultimately show ?thesis
    by (auto simp: link_simps empty_message_def split: option.splits)
qed

subsection \<open>Provisioning from the laptop\<close>

lemma provision_payload_decodes:
  "decode_provision_payload uni (Some (provision_json r)) = (rp_request_id r, None)"
  by (simp add: decode_provision_payload_def provision_json_def request_id_key_def to_lower_def is_ascii_def lower_char_def Let_def)

lemma job_decodes: "decode_job uni (Inr (m\<lparr>wm_payload := Some (job_json jt (Some j))\<rparr>)) =
    Inr \<lparr>rj_id = job_id j, rj_state = state_string (job_state j), rj_message = job_message j\<rparr>"
  by (simp add: decode_job_def unmarshal_payload_def job_json_def decode_struct_def field_match_def job_spec_def str_field_def
      to_lower_def is_ascii_def lower_char_def Let_def)

definition remote_result :: "job_result \<Rightarrow> go_error + remote_job" where
  "remote_result r = (case r of
       (jo, Some e) \<Rightarrow> Inl (if error_text e = ''not_paired'' then err_not_paired else ErrText (error_text e))
     | (None, None) \<Rightarrow> Inr \<lparr>rj_id = [], rj_state = [], rj_message = []\<rparr>
     | (Some j, None) \<Rightarrow> Inr \<lparr>rj_id = job_id j, rj_state = state_string (job_state j), rj_message = job_message j\<rparr>)"

lemma empty_job_decodes: "decode_job uni (Inr (m\<lparr>wm_payload := Some (job_json jt None)\<rparr>)) = Inr \<lparr>rj_id = [], rj_state = [], rj_message = []\<rparr>"
  by (simp add: decode_job_def unmarshal_payload_def job_json_def decode_struct_def field_match_def job_spec_def str_field_def
      to_lower_def is_ascii_def lower_char_def Let_def)

lemma decode_error: "decode_job uni (Inl e) = Inl e"
  by (simp add: decode_job_def)

lemma publish_job_returns:
  assumes "subs_ok (aw_bus w)"
  shows "\<exists>w'. publish_job c kind rid job err w = (Ret (), w') \<and> aw_life w' = aw_life w"
proof -
  have "\<exists>w'. bus_publish c sev src k pl w = (Ret (), w') \<and> aw_life w' = aw_life w" for sev src k pl
    using publish_result [OF assms, of "ag_now c (aw_reads w)" sev src k "Some pl"] by (auto simp: bus_publish_def)
  then show ?thesis by (auto simp: publish_job_def Let_def split: option.split)
qed

text \<open>
  C24. A provisioning request made on a paired laptop is one run of the agent's provisioner with
  the request's id and its confirmation: the laptop is given the job the run ended with (or its
  error), and the agent's jobs and host are left as that run leaves them.
\<close>

theorem remote_provision_is_local:
  assumes paired: "paired_conn sha p nc"
    and sv: "sv_handler sv = agent_handler cfg"
    and req: "rp_request_id req \<noteq> []" "rp_confirmed req"
    and bus: "subs_ok (aw_bus w)"
    and run: "provisioner_run (ag_host cfg) (ag_jobs cfg) \<lparr>pr_id = rp_request_id req, pr_confirm = True\<rparr> (aw_life w) = (Ret res, l)"
  shows "\<exists>s'. controller_provision (rpc_job_client uni (agent_link sha sv p nc) c) req
      \<lparr>ln_world = w, ln_conn = conn0, ln_read = r0\<rparr> = (Ret (remote_result res), s') \<and> aw_life (ln_world s') = l"
proof -
  let ?m = "empty_message\<lparr>wm_type := ''request'', wm_version := protocol_version, wm_id := rp_request_id req,
     wm_op := ''provision'', wm_confirm := True, wm_payload := Some (provision_json req)\<rparr>"
  let ?i = "certificate_id sha nc"
  obtain jo err where res: "res = (jo, err)" by fastforce
  have "\<exists>w'. publish_job cfg ''provision'' (rp_request_id req) jo err (w\<lparr>aw_life := l\<rparr>) = (Ret (), w') \<and> aw_life w' = l"
    using publish_job_returns [of "w\<lparr>aw_life := l\<rparr>" cfg "''provision''" "rp_request_id req" jo err] bus by simp
  then obtain w' where pub: "publish_job cfg ''provision'' (rp_request_id req) jo err (w\<lparr>aw_life := l\<rparr>) = (Ret (), w')" "aw_life w' = l"
    by blast
  have prov: "agent_provision cfg (Some (provision_json req)) True w = (Ret (jo, err), w')"
    using run pub(1)
    by (simp add: agent_provision_def provision_payload_decodes bindP_def on_life_def retP_def res)
  have disp: "dispatch Background sv (message_in ?m) ?m (serving_conn ?i) w =
      (Ret (False, reply (message_in ?m) ?m (job_json (sv_json sv) jo) err (serving_conn ?i)), w')"
    using prov by (simp add: dispatch_def sv agent_handler_def bindP_def retP_def empty_message_def Let_def)
  have msg: "wm_type ?m = ''request''" "wm_op ?m \<noteq> ''tunnel''" "wm_id ?m = rp_request_id req" by simp_all
  obtain s' where call: "with_close (agent_link sha sv p nc) (rpc_call (agent_link sha sv p nc) [] ?m)
      \<lparr>ln_world = w, ln_conn = serving_conn ?i, ln_read = 1\<rparr> =
      (Ret (case err of
          None \<Rightarrow> Inr (empty_message\<lparr>wm_type := ''response'', wm_id := wm_id ?m, wm_ok := True, wm_payload := Some (job_json (sv_json sv) jo)\<rparr>)
        | Some e \<Rightarrow> Inl (if error_text e = ''not_paired'' then err_not_paired else ErrText (error_text e))), s')"
    "ln_world s' = w'"
    using call_serving [OF disp msg(1,2)] by blast
  have req_eq: "rpc_request (agent_link sha sv p nc) c (rp_request_id req) ''provision'' True (Inr (provision_json req))
      \<lparr>ln_world = w, ln_conn = conn0, ln_read = r0\<rparr> =
      with_close (agent_link sha sv p nc) (rpc_call (agent_link sha sv p nc) [] ?m) \<lparr>ln_world = w, ln_conn = serving_conn ?i, ln_read = 1\<rparr>"
    unfolding request_paired [OF paired] by (simp only: link.simps)
  have dec: "decode_job uni (case err of
          None \<Rightarrow> Inr (empty_message\<lparr>wm_type := ''response'', wm_id := wm_id ?m, wm_ok := True, wm_payload := Some (job_json (sv_json sv) jo)\<rparr>)
        | Some e \<Rightarrow> Inl (if error_text e = ''not_paired'' then err_not_paired else ErrText (error_text e))) = remote_result res"
    unfolding remote_result_def res
    by (cases err; cases jo) (simp_all only: option.case prod.case job_decodes empty_job_decodes decode_error)
  have "controller_provision (rpc_job_client uni (agent_link sha sv p nc) c) req \<lparr>ln_world = w, ln_conn = conn0, ln_read = r0\<rparr> =
      (Ret (remote_result res), s')"
    unfolding controller_provision_def rpc_job_client_def rpc_provision_def
    using req by (simp only: if_False job_client.simps bindP_def req_eq call(1) outcome.case prod.case retP_def dec simp_thms)
  with call(2) pub(2) show ?thesis by blast
qed

subsection \<open>Events\<close>

definition bus_to_event :: "bus_event \<Rightarrow> event" where
  "bus_to_event e = \<lparr>ev_sequence = be_sequence e, ev_occurred_at = be_occurred_at e, ev_severity = be_severity e,
     ev_source = be_source e, ev_kind = be_kind e, ev_correlation_id = [], ev_payload = be_payload e\<rparr>"

text \<open>The document of an event, as the goroutine of the agent's subscription writes it.\<close>

definition event_json :: "wire_codec \<Rightarrow> bus_event \<Rightarrow> json" where
  "event_json wc e = agent_json wc (event_message e)"

definition resync_json :: "wire_codec \<Rightarrow> string \<Rightarrow> json" where
  "resync_json wc i = agent_json wc (empty_message\<lparr>wm_type := ''resync_required'', wm_id := i,
     wm_error := error_text err_event_history_gap\<rparr>)"

text \<open>
  An event whose strings are UTF-8 and whose payload has no number but those a \<open>float64\<close> holds,
  and a codec that knows the zero time and leaves ASCII as it is.
\<close>

definition exact_event :: "wire_codec \<Rightarrow> bus_event \<Rightarrow> bool" where
  "exact_event wc e \<longleftrightarrow> time_ok wc (be_occurred_at e) \<and> wc_utf8 wc (be_severity e) = be_severity e \<and>
     wc_utf8 wc (be_source e) = be_source e \<and> wc_utf8 wc (be_kind e) = be_kind e \<and> exact_json wc (payload_json (be_payload e))"

definition codec_ok :: "wire_codec \<Rightarrow> bool" where
  "codec_ok wc \<longleftrightarrow> time_ok wc 0 \<and> (\<forall>s. is_ascii s \<longrightarrow> wc_utf8 wc s = s)"

lemma event_read:
  assumes "codec_ok wc" "exact_event wc e"
  shows "laptop_decode wc (event_json wc e) = Inr (event_message e) \<and> message_event wc (event_message e) = bus_to_event e"
proof -
  have "wc_utf8 wc [] = []" "wc_utf8 wc ''event'' = ''event''" using assms(1) by (simp_all add: codec_ok_def is_ascii_def)
  then have "coerce_message wc (event_message e) = event_message e"
    using assms(2) exact_coerce(1) [of wc "payload_json (be_payload e)"]
    by (simp add: coerce_message_def event_message_def empty_message_def exact_event_def Let_def)
  then have "laptop_decode wc (event_json wc e) = Inr (event_message e)"
    using assms(2) laptop_reads_agent [of wc "event_message e"]
    by (simp add: event_json_def agent_json_def exact_event_def event_message_def)
  moreover have "message_event wc (event_message e) = bus_to_event e"
    using assms(2) decode_payload_exact [of wc "be_payload e"]
    by (simp add: message_event_def event_message_def bus_to_event_def empty_message_def exact_event_def)
  ultimately show ?thesis by blast
qed

text \<open>
  C25. Events cross the wire unchanged: the JSON documents the agent writes for a list of events,
  under the tags of its struct and without the empty fields, are read by the laptop's struct and
  stream into the same events in the same order, if strings are UTF-8 and the payload's numbers are
  exact as \<open>float64\<close>; a refused subscription is read as a history gap; and any request the laptop
  writes is read by the agent as it was meant.
\<close>

theorem events_cross_the_wire:
  assumes wc: "codec_ok wc" and s: "\<not> es_events_closed s" and es: "\<forall>e \<in> set es. exact_event wc e"
    and m: "coerce_message wc m = m" "time_ok wc (wm_occurred_at m)"
  shows "fold (\<lambda>d. stream_next wc False (laptop_decode wc d)) (map (event_json wc) es) s =
      s\<lparr>es_events := es_events s @ map bus_to_event es\<rparr> \<and>
    stream_next wc b (laptop_decode wc (resync_json wc i)) s = fail_stream err_rpc_resync s \<and>
    agent_decode wc (laptop_json wc client_id m) = Inr m"
proof (intro conjI)
  show "fold (\<lambda>d. stream_next wc False (laptop_decode wc d)) (map (event_json wc) es) s =
      s\<lparr>es_events := es_events s @ map bus_to_event es\<rparr>"
    using s es
  proof (induction es arbitrary: s)
    case (Cons e es)
    have "wm_type (event_message e) = ''event''" by (simp add: event_message_def)
    then show ?case using Cons event_read [OF wc, of e] by (simp add: stream_next_def)
  qed simp
  have "is_ascii ''resync_required''" by (simp add: is_ascii_def)
  then have "wm_type (coerce_message wc (empty_message\<lparr>wm_type := ''resync_required'', wm_id := i,
      wm_error := error_text err_event_history_gap\<rparr>)) = ''resync_required''"
    using wc by (simp add: coerce_message_def codec_ok_def Let_def)
  then show "stream_next wc b (laptop_decode wc (resync_json wc i)) s = fail_stream err_rpc_resync s"
    using s wc by (simp add: resync_json_def agent_json_def laptop_reads_agent coerce_message_def codec_ok_def empty_message_def
        stream_next_def Let_def)
  show "agent_decode wc (laptop_json wc client_id m) = Inr m"
    using m by (simp add: laptop_json_def agent_reads_laptop)
qed

end
