(* ===== verification/Laptop_Tunnel.thy ===== *)
theory Laptop_Tunnel
  imports Laptop_Agent
begin

section \<open>The laptop's Kismet tunnel\<close>

text \<open>
  \<open>bottle-tui/internal/tunnel/tunnel.go\<close>: a loopback listener whose connections are relayed, each
  over a fresh stream of an opener; and \<open>mtls.go\<close>: the opener that asks the agent for a stream.
  The tunnel is a step relation: its goroutines (accept loop, relays, the caller of \<open>Close\<close>) have
  program counters and interleave freely; an \<open>emit\<close> is two steps, as the status is set under the
  lock and the event is sent after it.
\<close>

subsection \<open>State\<close>

datatype tunnel_status = StatusStarting | StatusConnected | StatusReconnecting | StatusClosed

record tunnel_event =
  tv_status :: tunnel_status
  tv_message :: string
  tv_err :: "go_error option"

definition err_local_port_unavailable :: go_error where
  "err_local_port_unavailable = ErrSentinel ''tunnel.ErrLocalPortUnavailable'' ''LOCAL_PORT_UNAVAILABLE''"

text \<open>A relay is opening its stream, inside an \<open>emit\<close> (with what follows it), copying, or done.\<close>

datatype relay_phase = Opening string | Emitting tunnel_event "relay option" | Copying relay | RelayDone

datatype accept_phase = Accepting | AcceptEmitting tunnel_event | AcceptDone

datatype close_phase = NotClosed | CloseWaiting | CloseEmitting tunnel_event | CloseSent | CloseDone

record tunnel =
  tn_addr :: string
  tn_ctx_done :: bool
  tn_listening :: bool
  tn_accept :: accept_phase
  tn_relays :: "relay_phase list"
  tn_close :: close_phase
  tn_status :: tunnel_status
  tn_last_err :: "go_error option"
  tn_events :: "tunnel_event list"
  tn_events_open :: bool

subsection \<open>Operations\<close>

definition event_slots :: nat where
  "event_slots = 32"

definition set_status :: "tunnel_event \<Rightarrow> tunnel \<Rightarrow> tunnel" where
  "set_status e t = t\<lparr>tn_status := tv_status e, tn_last_err := tv_err e\<rparr>"

text \<open>The \<open>select\<close> of \<open>emit\<close>: a full channel loses the event, a closed channel panics.\<close>

definition send_event :: "tunnel_event \<Rightarrow> (tunnel, unit) prog" where
  "send_event e t =
     (if \<not> tn_events_open t then (Panic ''send on closed channel'', t)
      else if length (tn_events t) < event_slots then (Ret (), t\<lparr>tn_events := tn_events t @ [e]\<rparr>)
      else (Ret (), t))"

definition emit :: "tunnel_event \<Rightarrow> (tunnel, unit) prog" where
  "emit e t = send_event e (set_status e t)"

definition tunnel_start :: "(string \<Rightarrow> go_error + string) \<Rightarrow> bool \<Rightarrow> int \<Rightarrow> bool \<Rightarrow> go_error + tunnel" where
  "tunnel_start listen_on ctx_done port has_opener =
     (if \<not> has_opener then Inl (ErrText ''authenticated stream opener is required'')
      else if port < 0 \<or> port > 65535 then Inl (ErrText (''invalid local port '' @ itoa port))
      else (case listen_on (join_host_port ''127.0.0.1'' (itoa port)) of
          Inl err \<Rightarrow> Inl (ErrWrap [] err_local_port_unavailable ('': '' @ error_text err))
        | Inr addr \<Rightarrow>
            let t = \<lparr>tn_addr = addr, tn_ctx_done = ctx_done, tn_listening = True, tn_accept = Accepting, tn_relays = [],
                     tn_close = NotClosed, tn_status = StatusStarting, tn_last_err = None, tn_events = [], tn_events_open = True\<rparr>
            in Inr (snd (emit \<lparr>tv_status = StatusStarting, tv_message = ''Kismet tunnel listening on '' @ addr, tv_err = None\<rparr> t))))"

definition stopped_event :: "go_error \<Rightarrow> tunnel_event" where
  "stopped_event err = \<lparr>tv_status = StatusReconnecting, tv_message = ''local Kismet listener stopped unexpectedly'', tv_err = Some err\<rparr>"

definition lost_event :: "go_error \<Rightarrow> tunnel_event" where
  "lost_event err = \<lparr>tv_status = StatusReconnecting,
     tv_message = ''Kismet tunnel transport lost; reconnecting on next request'', tv_err = Some err\<rparr>"

definition connected_event :: tunnel_event where
  "connected_event = \<lparr>tv_status = StatusConnected, tv_message = ''Kismet tunnel connected'', tv_err = None\<rparr>"

definition closed_event :: tunnel_event where
  "closed_event = \<lparr>tv_status = StatusClosed, tv_message = ''Kismet tunnel closed'', tv_err = None\<rparr>"

text \<open>One round of \<open>acceptLoop\<close>: a connection (the bytes its peer will send) or an error.\<close>

definition accept_round :: "go_error + string \<Rightarrow> tunnel \<Rightarrow> tunnel" where
  "accept_round r t =
     (case r of
        Inr local \<Rightarrow> t\<lparr>tn_relays := tn_relays t @ [Opening local]\<rparr>
      | Inl err \<Rightarrow> if tn_ctx_done t then t\<lparr>tn_accept := AcceptDone\<rparr>
                   else (set_status (stopped_event err) t)\<lparr>tn_accept := AcceptEmitting (stopped_event err)\<rparr>)"

definition set_relay :: "nat \<Rightarrow> relay_phase \<Rightarrow> tunnel \<Rightarrow> tunnel" where
  "set_relay i p t = t\<lparr>tn_relays := (tn_relays t)[i := p]\<rparr>"

definition relay_opened :: "nat \<Rightarrow> string \<Rightarrow> go_error + string \<Rightarrow> tunnel \<Rightarrow> tunnel" where
  "relay_opened i local r t =
     (case r of
        Inl err \<Rightarrow> set_relay i (Emitting (lost_event err) None) (set_status (lost_event err) t)
      | Inr stream \<Rightarrow> set_relay i (Emitting connected_event (Some (new_relay local stream))) (set_status connected_event t))"

text \<open>
  Copying, until the first end (a copy that has not reached the end of its source cannot end with
  \<open>nil\<close>); the bytes the other copy still moves before the deferred closes are not followed.
\<close>

definition relay_copies :: "nat \<Rightarrow> relay_event \<Rightarrow> relay \<Rightarrow> tunnel \<Rightarrow> tunnel" where
  "relay_copies i e r t =
     (case e of
        CtxDone err \<Rightarrow> set_relay i RelayDone t
      | CopyEnds d err \<Rightarrow>
          if rl_first (relay_step e r) = None then t
          else if clean_end err then set_relay i RelayDone t
          else (case err of
              None \<Rightarrow> set_relay i RelayDone t
            | Some x \<Rightarrow> set_relay i (Emitting (lost_event x) None) (set_status (lost_event x) t))
      | _ \<Rightarrow> set_relay i (Copying (relay_step e r)) t)"

definition relay_emitted :: "nat \<Rightarrow> relay option \<Rightarrow> tunnel \<Rightarrow> tunnel" where
  "relay_emitted i after t = set_relay i (case after of None \<Rightarrow> RelayDone | Some r \<Rightarrow> Copying r) t"

text \<open>\<open>Close\<close>, up to its wait, after it, and the two halves of its end; a second call does nothing.\<close>

definition close_begin :: "tunnel \<Rightarrow> tunnel" where
  "close_begin t = (if tn_close t \<noteq> NotClosed then t else t\<lparr>tn_close := CloseWaiting, tn_ctx_done := True, tn_listening := False\<rparr>)"

definition goroutines_done :: "tunnel \<Rightarrow> bool" where
  "goroutines_done t \<longleftrightarrow> tn_accept t = AcceptDone \<and> list_all (\<lambda>p. p = RelayDone) (tn_relays t)"

definition close_waited :: "tunnel \<Rightarrow> tunnel" where
  "close_waited t = (set_status closed_event t)\<lparr>tn_close := CloseEmitting closed_event\<rparr>"

definition close_events :: "tunnel \<Rightarrow> tunnel" where
  "close_events t = t\<lparr>tn_close := CloseDone, tn_events_open := False\<rparr>"

definition tunnel_url :: "tunnel \<Rightarrow> string" where
  "tunnel_url t = ''http://'' @ tn_addr t"

inductive tunnel_step :: "tunnel \<Rightarrow> unit outcome \<Rightarrow> tunnel \<Rightarrow> bool" where
  ts_accept: "tn_accept t = Accepting \<Longrightarrow> tn_listening t \<Longrightarrow> tunnel_step t (Ret ()) (accept_round (Inr local) t)"
| ts_accept_error: "tn_accept t = Accepting \<Longrightarrow> tunnel_step t (Ret ()) (accept_round (Inl err) t)"
| ts_accept_emit: "tn_accept t = AcceptEmitting e \<Longrightarrow> send_event e t = (r, t') \<Longrightarrow> tunnel_step t r (t'\<lparr>tn_accept := AcceptDone\<rparr>)"
| ts_opened: "i < length (tn_relays t) \<Longrightarrow> tn_relays t ! i = Opening local \<Longrightarrow> tunnel_step t (Ret ()) (relay_opened i local res t)"
| ts_relay_emit: "i < length (tn_relays t) \<Longrightarrow> tn_relays t ! i = Emitting e after \<Longrightarrow> send_event e t = (r, t') \<Longrightarrow>
    tunnel_step t r (relay_emitted i after t')"
| ts_copies: "i < length (tn_relays t) \<Longrightarrow> tn_relays t ! i = Copying r \<Longrightarrow> (\<And>x. e = CtxDone x \<Longrightarrow> tn_ctx_done t) \<Longrightarrow>
    tunnel_step t (Ret ()) (relay_copies i e r t)"
| ts_cancel: "tunnel_step t (Ret ()) (t\<lparr>tn_ctx_done := True\<rparr>)"
| ts_close: "tunnel_step t (Ret ()) (close_begin t)"
| ts_waited: "tn_close t = CloseWaiting \<Longrightarrow> goroutines_done t \<Longrightarrow> tunnel_step t (Ret ()) (close_waited t)"
| ts_close_emit: "tn_close t = CloseEmitting e \<Longrightarrow> send_event e t = (r, t') \<Longrightarrow> tunnel_step t r (t'\<lparr>tn_close := CloseSent\<rparr>)"
| ts_close_events: "tn_close t = CloseSent \<Longrightarrow> tunnel_step t (Ret ()) (close_events t)"
| ts_receive: "tn_events t = e # es \<Longrightarrow> tunnel_step t (Ret ()) (t\<lparr>tn_events := es\<rparr>)"

definition tunnel_runs :: "tunnel \<Rightarrow> tunnel \<Rightarrow> bool" where
  "tunnel_runs = (\<lambda>t t'. tunnel_step t (Ret ()) t')\<^sup>*\<^sup>*"

subsection \<open>Opening a stream\<close>

record client_cert =
  cc_chain :: "string list"
  cc_has_key :: bool

record client_tls =
  ct_insecure :: bool
  ct_roots :: "string option"
  ct_certs :: "client_cert list"
  ct_min_version :: "16 word"
  ct_server_name :: string

record mtls_opener =
  mo_address :: string
  mo_config :: client_tls

definition new_mtls_opener :: "string \<Rightarrow> client_tls option \<Rightarrow> go_error + mtls_opener" where
  "new_mtls_opener address config =
     (case split_host_port address of
        Inl err \<Rightarrow> Inl (wrapped ''invalid Pi control-plane address: '' err)
      | Inr (host, port) \<Rightarrow>
          (case config of
             None \<Rightarrow> Inl (ErrText ''mTLS tunnel requires verified private CA and client certificate'')
           | Some c \<Rightarrow>
               if ct_insecure c \<or> ct_roots c = None \<or> ct_certs c = []
               then Inl (ErrText ''mTLS tunnel requires verified private CA and client certificate'')
               else if (\<exists>x \<in> set (ct_certs c). cc_chain x = [] \<or> \<not> cc_has_key x)
               then Inl (ErrText ''mTLS tunnel client certificate is incomplete'')
               else (let c = c\<lparr>ct_min_version := version_tls13\<rparr>;
                         c = (if ct_server_name c = [] then c\<lparr>ct_server_name := host\<rparr> else c)
                     in Inr \<lparr>mo_address = address, mo_config = c\<rparr>)))"

definition pinned_roots :: "(string \<Rightarrow> bool) \<Rightarrow> string \<Rightarrow> go_error + string" where
  "pinned_roots append_certs pem = (if \<not> append_certs pem then Inl (ErrText ''invalid pinned Pi CA PEM'') else Inr pem)"

text \<open>\<open>NewMTLSOpener\<close> of the control-plane client: its address and TLS configuration.\<close>

definition client_tls_config :: "rpc_client \<Rightarrow> client_tls" where
  "client_tls_config c = \<lparr>ct_insecure = False, ct_roots = Some (rc_roots c),
     ct_certs = [\<lparr>cc_chain = [xc_raw (fst (rc_cert c))], cc_has_key = True\<rparr>], ct_min_version = version_tls13,
     ct_server_name = ''10.77.0.1''\<rparr>"

definition new_rpc_opener :: "rpc_client \<Rightarrow> go_error + mtls_opener" where
  "new_rpc_opener c = new_mtls_opener (rc_address c) (Some (client_tls_config c))"

definition ack_spec :: struct_spec where
  "ack_spec = [(''type'', KString), (''ok'', KBool), (''error'', KString)]"

text \<open>Decoding an answer into the one \<open>ack\<close> variable: absent fields keep their values.\<close>

definition read_ack ::
  "(string \<Rightarrow> string) \<Rightarrow> json_text \<Rightarrow> 'w transport \<Rightarrow> string \<Rightarrow> string \<Rightarrow> (string \<Rightarrow> json option) \<Rightarrow>
     ('w, go_error + (string \<Rightarrow> json option)) prog" where
  "read_ack uni jt tr failed rejected ack =
     bindP (tr_recv tr) (\<lambda>r.
       let (ack, e) = (case r of Inl err \<Rightarrow> (ack, Some err) | Inr m \<Rightarrow> decode_struct uni ack_spec ack (wire_json jt m)) in
       if e \<noteq> None \<or> \<not> bool_field ack ''ok'' then
         bindP (tr_close tr) (\<lambda>_. retP (Inl (case e of Some err \<Rightarrow> wrapped failed err
           | None \<Rightarrow> ErrText (rejected @ str_field ack ''error''))))
       else retP (Inr ack))"

definition send_or_close :: "'w transport \<Rightarrow> string \<Rightarrow> wire_message \<Rightarrow> ('w, go_error + 'a) prog \<Rightarrow> ('w, go_error + 'a) prog" where
  "send_or_close tr failed m k =
     bindP (tr_send tr [] m) (\<lambda>e. case e of
         Some err \<Rightarrow> bindP (tr_close tr) (\<lambda>_. retP (Inl (wrapped failed err)))
       | None \<Rightarrow> k)"

definition tunnel_message :: wire_message where
  "tunnel_message = empty_message\<lparr>wm_type := ''request'', wm_version := protocol_version, wm_id := ''kismet-stream'', wm_op := ''tunnel''\<rparr>"

definition opener_open ::
  "(string \<Rightarrow> string) \<Rightarrow> json_text \<Rightarrow> 'w transport \<Rightarrow> mtls_opener \<Rightarrow> ('w, go_error + (string \<Rightarrow> json option)) prog" where
  "opener_open uni jt tr o1 =
     checkP (wrapped ''connect Pi control plane: '') (tr_dial tr (mo_address o1))
     (bindP (tr_handshake tr) (\<lambda>e. case e of
        Some err \<Rightarrow> bindP (tr_close tr) (\<lambda>_. retP (Inl (wrapped ''mTLS tunnel handshake: '' err)))
      | None \<Rightarrow>
          send_or_close tr ''send tunnel hello: '' hello_message
          (tryP id (read_ack uni jt tr ''read tunnel hello: '' ''tunnel hello rejected: '' Map.empty) (\<lambda>ack.
           send_or_close tr ''select Kismet tunnel: '' tunnel_message
           (read_ack uni jt tr ''read Kismet selection: '' ''Kismet tunnel rejected: '' ack)))))"

end
