(* ===== verification/Laptop_Tunnel_Properties.thy ===== *)
theory Laptop_Tunnel_Properties
  imports Laptop_Tunnel
begin

section \<open>Properties of the laptop's tunnel\<close>

text \<open>
  The invariant of the tunnel's goroutines, from which no interleaving sends on the closed event
  channel; that \<open>Close\<close> can finish once no relay waits for its opener; and what the opener
  makes of the agent's answers.
\<close>

lemmas tunnel_updates = set_status_def set_relay_def accept_round_def relay_opened_def relay_copies_def relay_emitted_def
  close_begin_def close_waited_def close_events_def

subsection \<open>The invariant\<close>

definition closing_down :: "close_phase \<Rightarrow> bool" where
  "closing_down c \<longleftrightarrow> c \<noteq> NotClosed \<and> c \<noteq> CloseWaiting"

lemma closing_down_simps [simp]:
  "\<not> closing_down NotClosed" "\<not> closing_down CloseWaiting" "closing_down (CloseEmitting e)" "closing_down CloseSent" "closing_down CloseDone"
  by (simp_all add: closing_down_def)

definition tunnel_inv :: "tunnel \<Rightarrow> bool" where
  "tunnel_inv t \<longleftrightarrow> length (tn_events t) \<le> event_slots \<and> (tn_events_open t \<longleftrightarrow> tn_close t \<noteq> CloseDone) \<and>
     (closing_down (tn_close t) \<longrightarrow> goroutines_done t \<and> tn_status t = StatusClosed) \<and>
     (tn_close t \<noteq> NotClosed \<longrightarrow> tn_ctx_done t)"

lemma send_event_cases:
  "tn_events_open t \<Longrightarrow> send_event e t = (r, t') \<Longrightarrow>
     r = Ret () \<and> t' = t\<lparr>tn_events := tn_events t'\<rparr> \<and> length (tn_events t') \<le> max (length (tn_events t)) event_slots"
  by (auto simp: send_event_def split: if_splits)

lemma done_no_goroutine:
  assumes "goroutines_done t"
  shows "tn_accept t = AcceptDone" and "i < length (tn_relays t) \<Longrightarrow> tn_relays t ! i = RelayDone"
  using assms by (auto simp: goroutines_done_def list_all_length)

lemma set_relay_fields [simp]:
  "tn_close (set_relay i p t) = tn_close t" "tn_events (set_relay i p t) = tn_events t" "tn_ctx_done (set_relay i p t) = tn_ctx_done t"
  "tn_events_open (set_relay i p t) = tn_events_open t" "tn_status (set_relay i p t) = tn_status t"
  "tn_accept (set_relay i p t) = tn_accept t" "tn_relays (set_relay i p t) = (tn_relays t)[i := p]"
  by (simp_all add: set_relay_def)

text \<open>A step of a goroutine before \<open>Close\<close> has waited keeps the fields the invariant speaks of.\<close>

lemma inv_goroutine:
  assumes "tunnel_inv t" "\<not> closing_down (tn_close t)" "tn_close t' = tn_close t" "tn_ctx_done t' = tn_ctx_done t"
    "tn_events_open t' = tn_events_open t" "length (tn_events t') \<le> max (length (tn_events t)) event_slots"
  shows "tunnel_inv t'"
  using assms by (auto simp: tunnel_inv_def)

lemma inv_sends:
  assumes inv: "tunnel_inv t" and busy: "\<not> goroutines_done t" and send: "send_event e t = (r, t')"
  shows "r = Ret () \<and> tn_close t' = tn_close t \<and> tn_ctx_done t' = tn_ctx_done t \<and> tn_events_open t' = tn_events_open t \<and>
    length (tn_events t') \<le> max (length (tn_events t)) event_slots \<and> \<not> closing_down (tn_close t)"
proof -
  have "\<not> closing_down (tn_close t)" using inv busy by (auto simp: tunnel_inv_def)
  moreover from this have "tn_events_open t" using inv by (auto simp: tunnel_inv_def)
  ultimately show ?thesis using send by (auto simp: send_event_def split: if_splits)
qed

lemma tunnel_step_inv: "tunnel_step t r t' \<Longrightarrow> tunnel_inv t \<Longrightarrow> r = Ret () \<and> tunnel_inv t'"
proof (induction rule: tunnel_step.induct)
  case (ts_accept t local)
  then have "\<not> closing_down (tn_close t)" by (auto simp: tunnel_inv_def goroutines_done_def)
  with ts_accept show ?case by (auto intro!: inv_goroutine [of t] simp: accept_round_def)
next
  case (ts_accept_error t err)
  then have "\<not> closing_down (tn_close t)" by (auto simp: tunnel_inv_def goroutines_done_def)
  with ts_accept_error show ?case by (auto intro!: inv_goroutine [of t] simp: accept_round_def set_status_def)
next
  case (ts_accept_emit t e r t')
  then have "\<not> goroutines_done t" by (simp add: goroutines_done_def)
  from inv_sends [OF ts_accept_emit.prems this ts_accept_emit.hyps(2)] show ?case
    by (auto intro!: inv_goroutine [OF ts_accept_emit.prems])
next
  case (ts_opened i t local res)
  then have "\<not> closing_down (tn_close t)" using done_no_goroutine(2) by (fastforce simp: tunnel_inv_def)
  with ts_opened show ?case by (auto intro!: inv_goroutine [of t] simp: relay_opened_def set_status_def split: sum.split)
next
  case (ts_relay_emit i t e after r t')
  then have "\<not> goroutines_done t" using done_no_goroutine(2) by fastforce
  from inv_sends [OF ts_relay_emit.prems this ts_relay_emit.hyps(3)] show ?case
    by (auto intro!: inv_goroutine [OF ts_relay_emit.prems] simp: relay_emitted_def)
next
  case (ts_copies i t r e)
  then have "\<not> closing_down (tn_close t)" using done_no_goroutine(2) by (fastforce simp: tunnel_inv_def)
  with ts_copies show ?case
    by (auto intro!: inv_goroutine [of t] simp: relay_copies_def set_status_def split: relay_event.split option.split)
next
  case (ts_cancel t)
  then show ?case by (simp add: tunnel_inv_def goroutines_done_def)
next
  case (ts_close t)
  then show ?case by (auto simp: tunnel_inv_def close_begin_def goroutines_done_def)
next
  case (ts_waited t)
  then show ?case by (auto simp: tunnel_inv_def close_waited_def set_status_def closed_event_def goroutines_done_def)
next
  case (ts_close_emit t e r t')
  then have "tn_events_open t" by (simp add: tunnel_inv_def)
  with ts_close_emit show ?case by (auto simp: tunnel_inv_def send_event_def goroutines_done_def split: if_splits)
next
  case (ts_close_events t)
  then show ?case by (simp add: tunnel_inv_def close_events_def goroutines_done_def)
next
  case (ts_receive t e es)
  then show ?case by (auto simp: tunnel_inv_def goroutines_done_def)
qed

lemma tunnel_start_inv: "tunnel_start listen_on b port op = Inr t \<Longrightarrow> tunnel_inv t"
  by (auto simp: tunnel_start_def tunnel_inv_def emit_def send_event_def set_status_def event_slots_def Let_def
      split: if_splits sum.splits)

lemma tunnel_runs_inv: "tunnel_runs t t' \<Longrightarrow> tunnel_inv t \<Longrightarrow> tunnel_inv t'"
  unfolding tunnel_runs_def by (induction rule: rtranclp_induct) (auto dest: tunnel_step_inv)

text \<open>
  C26. Whatever the browser connections, the opener, the user interface and \<open>Close\<close> do and in
  whatever order, no goroutine of the tunnel panics by sending on the closed event channel, at
  most 32 events are queued, and once \<open>Close\<close> has returned the accept loop and every relay
  have ended and the status is closed.
\<close>

theorem tunnel_never_panics:
  assumes "tunnel_start listen_on b port op = Inr t0" "tunnel_runs t0 t"
  shows "(tunnel_step t r t' \<longrightarrow> r = Ret ()) \<and> length (tn_events t) \<le> event_slots \<and>
    (tn_close t = CloseDone \<longrightarrow> goroutines_done t \<and> tn_status t = StatusClosed)"
proof -
  have inv: "tunnel_inv t" using assms tunnel_start_inv tunnel_runs_inv by blast
  then show ?thesis using tunnel_step_inv [of t r t'] by (auto simp: tunnel_inv_def)
qed

subsection \<open>Closing\<close>

text \<open>What is left to run before \<open>Close\<close> can go on, when no relay is waiting for its opener.\<close>

fun relay_work :: "relay_phase \<Rightarrow> nat" where
  "relay_work (Opening l) = 3"
| "relay_work (Emitting e (Some r)) = 2"
| "relay_work (Emitting e None) = 1"
| "relay_work (Copying r) = 1"
| "relay_work RelayDone = 0"

definition accept_work :: "accept_phase \<Rightarrow> nat" where
  "accept_work a = (case a of Accepting \<Rightarrow> 1 | AcceptEmitting e \<Rightarrow> 1 | AcceptDone \<Rightarrow> 0)"

definition work_left :: "tunnel \<Rightarrow> nat" where
  "work_left t = accept_work (tn_accept t) + sum_list (map relay_work (tn_relays t))"

definition no_opening :: "tunnel \<Rightarrow> bool" where
  "no_opening t \<longleftrightarrow> (\<forall>i < length (tn_relays t). \<forall>l. tn_relays t ! i \<noteq> Opening l)"

lemma relay_work_0: "relay_work p = 0 \<longleftrightarrow> p = RelayDone"
  by (cases p rule: relay_work.cases) auto

lemma accept_work_0: "accept_work a = 0 \<longleftrightarrow> a = AcceptDone"
  by (simp add: accept_work_def split: accept_phase.split)

lemma work_left_0: "work_left t = 0 \<longleftrightarrow> goroutines_done t"
  by (auto simp: work_left_def goroutines_done_def accept_work_0 relay_work_0 list_all_iff)

lemma work_left_relay:
  assumes "i < length ps" "relay_work p < relay_work (ps ! i)"
  shows "sum_list (map relay_work (ps[i := p])) < sum_list (map relay_work ps)"
  using assms
proof (induction ps arbitrary: i)
  case (Cons q ps)
  then show ?case by (cases i) auto
qed simp

lemma work_left_set_relay:
  assumes "i < length (tn_relays t)" "relay_work p < relay_work (tn_relays t ! i)"
  shows "work_left (set_relay i p t) < work_left t"
  using work_left_relay [OF assms] by (simp add: work_left_def)

lemma no_opening_set_relay: "no_opening t \<Longrightarrow> (\<And>l. p \<noteq> Opening l) \<Longrightarrow> no_opening (set_relay i p t)"
  unfolding no_opening_def by (metis length_list_update nth_list_update_eq nth_list_update_neq set_relay_fields(7))

lemma send_event_keeps:
  assumes "tn_events_open t"
  shows "\<exists>t'. send_event e t = (Ret (), t') \<and> tn_close t' = tn_close t \<and> tn_ctx_done t' = tn_ctx_done t \<and>
    tn_relays t' = tn_relays t \<and> tn_accept t' = tn_accept t \<and> tn_events_open t'"
  using assms by (simp add: send_event_def)

text \<open>Some goroutine can always move while \<open>Close\<close> waits, unless all have ended.\<close>

lemma relay_progress:
  assumes inv: "tunnel_inv t" and cl: "tn_close t = CloseWaiting" and no: "no_opening t"
    and i: "i < length (tn_relays t)" "tn_relays t ! i \<noteq> RelayDone"
  shows "\<exists>t'. tunnel_step t (Ret ()) t' \<and> tn_close t' = CloseWaiting \<and> no_opening t' \<and> work_left t' < work_left t"
proof (cases "tn_relays t ! i")
  case (Opening l)
  with no i show ?thesis by (simp add: no_opening_def)
next
  case (Emitting e after)
  have "tn_events_open t" using inv cl by (simp add: tunnel_inv_def)
  from send_event_keeps [OF this, of e] obtain u where u: "send_event e t = (Ret (), u)" "tn_close u = tn_close t"
    "tn_relays u = tn_relays t" "tn_accept u = tn_accept t" by blast
  have le: "work_left u = work_left t" "no_opening u" using u no by (simp_all add: work_left_def no_opening_def)
  have "work_left (relay_emitted i after u) < work_left u"
    unfolding relay_emitted_def using i(1) u(3) Emitting by (intro work_left_set_relay) (auto split: option.split)
  moreover have "no_opening (relay_emitted i after u)"
    unfolding relay_emitted_def by (rule no_opening_set_relay [OF le(2)]) (simp split: option.split)
  ultimately show ?thesis using ts_relay_emit [OF i(1) Emitting u(1)] u cl le by (auto simp: relay_emitted_def)
next
  case (Copying r)
  have ctx: "tn_ctx_done t" using inv cl by (simp add: tunnel_inv_def)
  have "work_left (set_relay i RelayDone t) < work_left t" using i(1) Copying by (intro work_left_set_relay) auto
  moreover have "no_opening (set_relay i RelayDone t)" by (rule no_opening_set_relay [OF no]) simp
  moreover have "tunnel_step t (Ret ()) (set_relay i RelayDone t)"
    using ts_copies [OF i(1) Copying, of "CtxDone ctx_canceled"] ctx by (simp add: relay_copies_def)
  ultimately show ?thesis using cl by auto
qed (use i in simp)

lemma accept_progress:
  assumes inv: "tunnel_inv t" and cl: "tn_close t = CloseWaiting" and no: "no_opening t" and ac: "tn_accept t \<noteq> AcceptDone"
  shows "\<exists>t'. tunnel_step t (Ret ()) t' \<and> tn_close t' = CloseWaiting \<and> no_opening t' \<and> work_left t' < work_left t"
proof (cases "tn_accept t")
  case Accepting
  have ctx: "tn_ctx_done t" using inv cl by (simp add: tunnel_inv_def)
  with ts_accept_error [OF Accepting, of net_err_closed] no cl Accepting show ?thesis
    by (auto simp: accept_round_def work_left_def accept_work_def no_opening_def intro!: exI [of _ "t\<lparr>tn_accept := AcceptDone\<rparr>"])
next
  case (AcceptEmitting e)
  have "tn_events_open t" using inv cl by (simp add: tunnel_inv_def)
  from send_event_keeps [OF this, of e] obtain u where u: "send_event e t = (Ret (), u)" "tn_close u = tn_close t"
    "tn_relays u = tn_relays t" by blast
  with ts_accept_emit [OF AcceptEmitting u(1)] no cl AcceptEmitting show ?thesis
    by (auto simp: work_left_def accept_work_def no_opening_def intro!: exI [of _ "u\<lparr>tn_accept := AcceptDone\<rparr>"])
qed (use ac in simp)

lemma runs_step: "tunnel_step t (Ret ()) t' \<Longrightarrow> tunnel_runs t' u \<Longrightarrow> tunnel_runs t u"
  unfolding tunnel_runs_def by (rule converse_rtranclp_into_rtranclp)

lemma drain: "tunnel_inv t \<Longrightarrow> tn_close t = CloseWaiting \<Longrightarrow> no_opening t \<Longrightarrow>
    \<exists>t'. tunnel_runs t t' \<and> tunnel_inv t' \<and> tn_close t' = CloseWaiting \<and> goroutines_done t'"
proof (induction "work_left t" arbitrary: t rule: less_induct)
  case less
  show ?case
  proof (cases "goroutines_done t")
    case True
    with less.prems show ?thesis by (auto simp: tunnel_runs_def)
  next
    case False
    then consider "tn_accept t \<noteq> AcceptDone" | i where "i < length (tn_relays t)" "tn_relays t ! i \<noteq> RelayDone"
      by (auto simp: goroutines_done_def list_all_length)
    then obtain u where u: "tunnel_step t (Ret ()) u" "tn_close u = CloseWaiting" "no_opening u" "work_left u < work_left t"
      using accept_progress [OF less.prems] relay_progress [OF less.prems] by metis
    with less.hyps [OF u(4)] tunnel_step_inv [OF u(1) less.prems(1)] show ?thesis by (blast intro: runs_step)
  qed
qed

lemma close_finishes:
  assumes "tunnel_inv t" "tn_close t = CloseWaiting" "goroutines_done t"
  shows "\<exists>t'. tunnel_runs t t' \<and> tn_close t' = CloseDone"
proof -
  have w: "tunnel_step t (Ret ()) (close_waited t)" using assms by (intro ts_waited)
  have "tn_events_open (close_waited t)" "tn_close (close_waited t) = CloseEmitting closed_event"
    using assms by (simp_all add: tunnel_inv_def close_waited_def set_status_def)
  moreover from send_event_keeps [OF this(1)] obtain u where "send_event closed_event (close_waited t) = (Ret (), u)" by blast
  ultimately have "tunnel_step (close_waited t) (Ret ()) (u\<lparr>tn_close := CloseSent\<rparr>)" by (rule_tac ts_close_emit)
  moreover have "tunnel_step (u\<lparr>tn_close := CloseSent\<rparr>) (Ret ()) (close_events (u\<lparr>tn_close := CloseSent\<rparr>))"
    by (rule ts_close_events) simp
  moreover have "tn_close (close_events (u\<lparr>tn_close := CloseSent\<rparr>)) = CloseDone" by (simp add: close_events_def)
  ultimately show ?thesis using w by (blast intro: runs_step rtranclp.rtrancl_refl [of "\<lambda>t t'. tunnel_step t (Ret ()) t'", folded tunnel_runs_def])
qed

text \<open>
  C27. \<open>Close\<close> cannot be stuck on its own account: from every state in which it waits there
  are steps of the tunnel's goroutines that let it return, provided no relay is inside the opener.
  A relay inside the opener does hold it up: \<open>Close\<close> has not returned while one is there (and
  the opener's reads of the agent's answers do not end with the context).
\<close>

theorem close_can_return:
  assumes "tunnel_start listen_on b port op = Inr t0" "tunnel_runs t0 t" "tn_close t = CloseWaiting"
  shows "(no_opening t \<longrightarrow> (\<exists>t'. tunnel_runs t t' \<and> tn_close t' = CloseDone)) \<and>
    (\<forall>t'. tunnel_runs t t' \<and> \<not> no_opening t' \<longrightarrow> tn_close t' \<noteq> CloseDone)"
proof (intro conjI impI allI)
  have inv: "tunnel_inv t" using assms tunnel_start_inv tunnel_runs_inv by blast
  show "\<exists>t'. tunnel_runs t t' \<and> tn_close t' = CloseDone" if "no_opening t"
  proof -
    obtain u where u: "tunnel_runs t u" "tunnel_inv u" "tn_close u = CloseWaiting" "goroutines_done u"
      using drain [OF inv assms(3) \<open>no_opening t\<close>] by blast
    with close_finishes [OF u(2-4)] show ?thesis unfolding tunnel_runs_def by (meson rtranclp_trans)
  qed
  show "tn_close t' \<noteq> CloseDone" if "tunnel_runs t t' \<and> \<not> no_opening t'" for t'
  proof -
    have "tunnel_inv t'" using that inv tunnel_runs_inv by blast
    with that done_no_goroutine(2) [of t'] show ?thesis by (fastforce simp: tunnel_inv_def no_opening_def)
  qed
qed

subsection \<open>The opener and the agent\<close>

lemma ack_fields: "field_match uni ack_spec ''type'' = Some (''type'', KString)" "field_match uni ack_spec ''ok'' = Some (''ok'', KBool)"
  "field_match uni ack_spec ''error'' = Some (''error'', KString)" "field_match uni ack_spec ''version'' = None"
  "field_match uni ack_spec ''id'' = None" "field_match uni ack_spec ''occurred_at'' = None"
  by (simp_all add: field_match_def ack_spec_def to_lower_def is_ascii_def lower_char_def Let_def)

lemma decode_ack:
  "decode_struct uni ack_spec m (wire_json jt (empty_message\<lparr>wm_type := t, wm_ok := True, wm_version := v\<rparr>)) =
     (m(''type'' \<mapsto> JStr t, ''ok'' \<mapsto> JBool True), None)"
  "decode_struct uni ack_spec m (wire_json jt (empty_message\<lparr>wm_type := t, wm_id := i, wm_ok := False, wm_error := e\<rparr>)) =
     (if e = [] then m(''type'' \<mapsto> JStr t) else m(''type'' \<mapsto> JStr t, ''error'' \<mapsto> JStr e), None)"
  "decode_struct uni ack_spec m (wire_json jt (empty_message\<lparr>wm_type := t, wm_id := i, wm_ok := True\<rparr>)) =
     (m(''type'' \<mapsto> JStr t, ''ok'' \<mapsto> JBool True), None)"
  by (simp_all add: decode_struct_def wire_json_def empty_message_def omit_empty_def ack_fields)

definition tunnel_refused :: wire_message where
  "tunnel_refused = empty_message\<lparr>wm_type := ''response'', wm_id := ''kismet-stream'', wm_ok := False,
     wm_error := ''Kismet tunnel is not configured''\<rparr>"

lemma step_tunnel: "\<exists>m w'. conn_step sv (message_in tunnel_message) (serving_conn i) w =
    (Ret ((serving_conn i)\<lparr>cn_phase := Ended, cn_sent := [hello_ack, m]\<rparr>), w') \<and>
    m = (case sv_tunnel sv of None \<Rightarrow> tunnel_refused
         | Some relay \<Rightarrow> empty_message\<lparr>wm_type := ''response'', wm_id := ''kismet-stream'', wm_ok := True\<rparr>)"
  by (simp add: conn_step_def conn_request_def message_in_def tunnel_message_def serving_conn_def encode_def retP_def tunnel_refused_def
      empty_message_def Let_def split: option.split)

lemmas opener_simps = opener_open_def send_or_close_def read_ack_def checkP_def tryP_def bindP_def retP_def agent_link_def

lemma hello_decodes: "decode_struct uni ack_spec m (wire_json jt hello_ack) = (m(''type'' \<mapsto> JStr ''hello_ack'', ''ok'' \<mapsto> JBool True), None)"
  using decode_ack(1) [where t = "''hello_ack''" and v = protocol_version] by (simp only: hello_ack_def)

lemma selection_decodes:
  assumes "m = (case sv_tunnel sv of None \<Rightarrow> tunnel_refused
       | Some relay \<Rightarrow> empty_message\<lparr>wm_type := ''response'', wm_id := ''kismet-stream'', wm_ok := True\<rparr>)"
  shows "\<exists>ack. decode_struct uni ack_spec [''type'' \<mapsto> JStr ''hello_ack'', ''ok'' \<mapsto> JBool True] (wire_json jt m) = (ack, None) \<and>
     bool_field ack ''ok''"
  using assms decode_ack(2,3) [where t = "''response''" and i = "''kismet-stream''"]
  by (auto simp: tunnel_refused_def bool_field_def split: option.splits)

text \<open>
  C28. A paired laptop's opener always reports an open stream, also when the agent has just
  refused it: the refusal leaves \<open>ok\<close> out of its JSON, and the opener decodes it over the
  greeting's \<open>ok\<close>. An unpaired laptop's opener reports the refusal.
\<close>

theorem tunnel_opens_if_paired:
  assumes "nc_tls nc" "nc_handshake nc = None"
  shows "\<exists>r s'. opener_open uni jt (agent_link sha sv p nc) o1 s = (Ret r, s') \<and>
    (if is_allowed p (certificate_id sha nc)
     then (\<exists>ack. r = Inr ack) \<and> (sv_tunnel sv = None \<longrightarrow> last (cn_sent (ln_conn s')) = tunnel_refused \<and> cn_phase (ln_conn s') = Ended)
     else r = Inl (ErrText ''tunnel hello rejected: not_paired''))"
proof (cases "is_allowed p (certificate_id sha nc)")
  case True
  then have open1: "conn_open sha p nc None = \<lparr>cn_id = 0, cn_client = certificate_id sha nc, cn_phase = Greeting, cn_pumps = [], cn_sent = []\<rparr>"
    using open_paired [of sha p nc] assms by (simp add: paired_conn_def)
  obtain m w' where st: "conn_step sv (message_in tunnel_message) (serving_conn (certificate_id sha nc)) (ln_world s) =
      (Ret ((serving_conn (certificate_id sha nc))\<lparr>cn_phase := Ended, cn_sent := [hello_ack, m]\<rparr>), w')"
    and m: "m = (case sv_tunnel sv of None \<Rightarrow> tunnel_refused
         | Some relay \<Rightarrow> empty_message\<lparr>wm_type := ''response'', wm_id := ''kismet-stream'', wm_ok := True\<rparr>)"
    using step_tunnel by metis
  obtain ack where ack: "decode_struct uni ack_spec [''type'' \<mapsto> JStr ''hello_ack'', ''ok'' \<mapsto> JBool True] (wire_json jt m) = (ack, None)"
    "bool_field ack ''ok''" using selection_decodes [OF m] by blast
  have sent: "cn_sent (serving_conn i) = [hello_ack]" for i by (simp add: serving_conn_def)
  show ?thesis using True open1 st ack m
    by (simp add: opener_simps step_hello sent hello_decodes) (simp add: bool_field_def)
next
  case False
  then have open1: "conn_open sha p nc None = \<lparr>cn_id = 0, cn_client = certificate_id sha nc, cn_phase = Ended, cn_pumps = [],
      cn_sent = [empty_message\<lparr>wm_type := ''response'', wm_ok := False, wm_error := ''not_paired''\<rparr>]\<rparr>"
    using assms by (simp add: conn_open_def encode_def Let_def)
  have dec: "decode_struct uni ack_spec Map.empty (wire_json jt (empty_message\<lparr>wm_type := ''response'', wm_ok := False, wm_error := ''not_paired''\<rparr>)) =
      ([''type'' \<mapsto> JStr ''response'', ''error'' \<mapsto> JStr ''not_paired''], None)"
    using decode_ack(2) [where t = "''response''" and i = "[]" and e = "''not_paired''"] by (simp add: empty_message_def)
  have ended: "conn_step sv i (c\<lparr>cn_phase := Ended\<rparr>) w = (Ret (c\<lparr>cn_phase := Ended\<rparr>), w)" for i c w
    by (simp add: conn_step_def retP_def)
  have st: "conn_step sv i \<lparr>cn_id = 0, cn_client = x, cn_phase = Ended, cn_pumps = [], cn_sent = ms\<rparr> w =
      (Ret \<lparr>cn_id = 0, cn_client = x, cn_phase = Ended, cn_pumps = [], cn_sent = ms\<rparr>, w)" for i x ms w
    by (simp add: conn_step_def retP_def)
  show ?thesis using False open1 by (simp add: opener_simps st dec) (simp add: bool_field_def str_field_def)
qed

end
