(* ===== verification/Laptop_Examples.thy ===== *)
theory Laptop_Examples
  imports Laptop_Tunnel_Properties
begin

section \<open>The laptop's properties at concrete inputs\<close>

text \<open>
  The theorems on the laptop's client and tunnel, applied where their hypotheses hold: small agents,
  one paired and one unpaired laptop, one tunnel.
\<close>

definition test_link :: "'w \<Rightarrow> 'w link" where
  "test_link w = \<lparr>ln_world = w, ln_conn = serving_conn [], ln_read = 0\<rparr>"

definition laptop_client :: rpc_client where
  "laptop_client = \<lparr>rc_address = pi_address, rc_client_id = ''laptop'', rc_roots = ''ca'',
     rc_cert = (\<lparr>xc_raw = ''a1'', xc_body = \<lparr>cb_serial = 0, cb_subject = ''laptop'', cb_issuer = ''ca'', cb_public = 0, cb_signer = 0,
       cb_not_before = 0, cb_not_after = 1, cb_key_usage = [], cb_ext_usage = [], cb_ips = [], cb_is_ca = False\<rparr>\<rparr>, 0)\<rparr>"

theorem unpaired_request_refused_witness:
  "\<exists>s'. rpc_request (agent_link (\<lambda>x. x) (test_server counting_handler) new_pairing_store (test_conn ''a1'')) laptop_client
      ''p1'' ''provision'' True (Inr JNull) (test_link 0) = (Ret (Inl err_not_paired), s') \<and> ln_world s' = 0"
proof -
  have "nc_tls (test_conn ''a1'')" "nc_handshake (test_conn ''a1'') = None"
    "\<not> is_allowed new_pairing_store (certificate_id (\<lambda>x. x) (test_conn ''a1''))"
    by (simp_all add: test_conn_def new_pairing_store_def is_allowed_def)
  from unpaired_request_refused [OF this, of "test_server counting_handler" laptop_client "''p1''" "''provision''" True "Inr JNull" "test_link 0"]
  show ?thesis by (simp add: test_link_def)
qed

definition memory_agent :: "(unit, memory_jobs) agent_cfg" where
  "memory_agent = \<lparr>ag_host = wrong_machine, ag_jobs = memory_store (\<lambda>_. 7), ag_now = (\<lambda>_. 7), ag_fold = (\<lambda>s. s)\<rparr>"

definition memory_agent_world :: "(unit, memory_jobs) agent_world" where
  "memory_agent_world = new_agent_world () new_memory_jobs (new_bus 0)"

theorem remote_provision_is_local_witness:
  "\<exists>res s'. controller_provision (rpc_job_client (\<lambda>s. s) (agent_link (\<lambda>x. x) (test_server (agent_handler memory_agent))
      (allows ''a1'') (test_conn ''a1'')) laptop_client) \<lparr>rp_request_id = ''p1'', rp_confirmed = True\<rparr> (test_link memory_agent_world) =
     (Ret (remote_result res), s') \<and> calls (aw_life (ln_world s')) \<noteq> []"
proof -
  have "wp (provisioner_run wrong_machine (memory_store (\<lambda>_. 7)) \<lparr>pr_id = ''p1'', pr_confirm = True\<rparr>)
      (\<lambda>r s. (\<exists>x. r = Ret x) \<and> calls s \<noteq> []) (aw_life memory_agent_world)"
    by (simp add: provisioner_run_def provision_job_def preflight_def provision_fail_def wrong_machine_def new_provision_job_def
       Let_def prog_simps wp_jobs_get wp_jobs_put wp_host_op memory_store_def memory_get_def memory_put_def new_memory_jobs_def
       memory_agent_world_def new_agent_world_def split: outcome.splits)
  then obtain res l where run: "provisioner_run wrong_machine (memory_store (\<lambda>_. 7)) \<lparr>pr_id = ''p1'', pr_confirm = True\<rparr>
      (aw_life memory_agent_world) = (Ret res, l)" "calls l \<noteq> []"
    by (auto simp: wp_def split: prod.splits)
  have paired: "paired_conn (\<lambda>x. x) (allows ''a1'') (test_conn ''a1'')"
    by (simp add: paired_conn_def test_conn_def allows_def is_allowed_def certificate_id_def)
  have sv: "sv_handler (test_server (agent_handler memory_agent)) = agent_handler memory_agent" by (simp add: test_server_def)
  have cfg: "ag_host memory_agent = wrong_machine" "ag_jobs memory_agent = memory_store (\<lambda>_. 7)" by (simp_all add: memory_agent_def)
  have "subs_ok (aw_bus memory_agent_world)"
    using kept_new by (simp add: memory_agent_world_def new_agent_world_def kept_def bus_ids_ok_def)
  from remote_provision_is_local [OF paired sv _ _ this, of "\<lparr>rp_request_id = ''p1'', rp_confirmed = True\<rparr>" res l "\<lambda>s. s" laptop_client "serving_conn []" 0]
  obtain s' where "controller_provision (rpc_job_client (\<lambda>s. s) (agent_link (\<lambda>x. x) (test_server (agent_handler memory_agent))
      (allows ''a1'') (test_conn ''a1'')) laptop_client) \<lparr>rp_request_id = ''p1'', rp_confirmed = True\<rparr> (test_link memory_agent_world) =
     (Ret (remote_result res), s')" "aw_life (ln_world s') = l"
    using run(1) cfg by (auto simp: test_link_def)
  with run(2) show ?thesis by blast
qed

text \<open>A codec that writes times in unary and keeps small numbers; bytes beyond ASCII are replaced.\<close>

definition test_codec_wire :: wire_codec where
  "test_codec_wire = \<lparr>
     wc_json = \<lparr>time_text = (\<lambda>t. (if t < 0 then ''-'' else []) @ replicate (nat \<bar>t\<bar>) CHR ''x''), map_keys = (\<lambda>_. [])\<rparr>,
     wc_parse_time = (\<lambda>s. Inr (if s \<noteq> [] \<and> hd s = CHR ''-'' then - int (length s - 1) else int (length s))),
     wc_float = (\<lambda>n. if length n \<le> 15 then Some n else None),
     wc_utf8 = map (\<lambda>c. if (of_char c :: nat) < 128 then c else CHR ''?''), wc_fold = id\<rparr>"

lemma test_codec_wire_ok: "codec_ok test_codec_wire"
proof -
  have "is_ascii s \<Longrightarrow> wc_utf8 test_codec_wire s = s" for s
    by (simp add: test_codec_wire_def is_ascii_def map_idI)
  then show ?thesis by (simp add: codec_ok_def time_ok_def) (simp add: test_codec_wire_def)
qed

definition wire_sample :: bus_event where
  "wire_sample = \<lparr>be_sequence = 3, be_occurred_at = 5, be_severity = ''info'', be_source = ''s'', be_kind = ''k'',
     be_payload = Some [(''n'', JNum ''7''), (''xs'', JArr [JStr ''a'', JNull])]\<rparr>"

theorem events_cross_the_wire_witness:
  "es_events (fold (\<lambda>d. stream_next test_codec_wire False (laptop_decode test_codec_wire d)) (map (event_json test_codec_wire) [wire_sample])
      \<lparr>es_events = [], es_events_closed = False, es_errs = [], es_errs_closed = False\<rparr>) =
   [\<lparr>ev_sequence = 3, ev_occurred_at = 5, ev_severity = ''info'', ev_source = ''s'', ev_kind = ''k'', ev_correlation_id = [],
      ev_payload = Some [(''n'', JNum ''7''), (''xs'', JArr [JStr ''a'', JNull])]\<rparr>] \<and>
   agent_decode test_codec_wire (laptop_json test_codec_wire ''l1'' hello_message) = Inr hello_message"
proof -
  let ?s = "\<lparr>es_events = [], es_events_closed = False, es_errs = [], es_errs_closed = False\<rparr>"
  have open_s: "\<not> es_events_closed ?s" by simp
  have time: "time_ok test_codec_wire 5" "time_ok test_codec_wire 0" by (simp_all add: time_ok_def test_codec_wire_def)
  have utf8: "is_ascii s \<Longrightarrow> wc_utf8 test_codec_wire s = s" for s using test_codec_wire_ok by (simp add: codec_ok_def)
  have ascii: "is_ascii ''info''" "is_ascii ''s''" "is_ascii ''k''" "is_ascii ''n''" "is_ascii ''xs''" "is_ascii ''a''" "is_ascii []"
    "is_ascii ''hello''" "is_ascii protocol_version" by (simp_all add: is_ascii_def protocol_version_def)
  have "\<forall>e \<in> set [wire_sample]. exact_event test_codec_wire e"
    using time by (simp add: exact_event_def wire_sample_def payload_json_def utf8 ascii) (simp add: test_codec_wire_def)
  moreover have "coerce_message test_codec_wire hello_message = hello_message"
    by (simp add: coerce_message_def hello_message_def empty_message_def utf8 ascii Let_def)
  moreover have "time_ok test_codec_wire (wm_occurred_at hello_message)"
    using time by (simp add: hello_message_def empty_message_def)
  ultimately show ?thesis
    using events_cross_the_wire [OF test_codec_wire_ok open_s, of "[wire_sample]" hello_message]
    by (simp add: bus_to_event_def wire_sample_def)
qed

definition test_tunnel :: tunnel where
  "test_tunnel = \<lparr>tn_addr = ''127.0.0.1:2501'', tn_ctx_done = False, tn_listening = True, tn_accept = Accepting, tn_relays = [],
     tn_close = NotClosed, tn_status = StatusStarting, tn_last_err = None,
     tn_events = [\<lparr>tv_status = StatusStarting, tv_message = ''Kismet tunnel listening on 127.0.0.1:2501'', tv_err = None\<rparr>],
     tn_events_open = True\<rparr>"

lemma test_tunnel_start: "tunnel_start (\<lambda>a. Inr ''127.0.0.1:2501'') False 0 True = Inr test_tunnel"
  by (simp add: tunnel_start_def emit_def send_event_def set_status_def event_slots_def test_tunnel_def)

lemma test_tunnel_closing: "tunnel_runs test_tunnel (close_begin test_tunnel)" "tn_close (close_begin test_tunnel) = CloseWaiting"
  using ts_close [of test_tunnel] by (auto simp: tunnel_runs_def close_begin_def test_tunnel_def)

theorem tunnel_never_panics_witness: "length (tn_events (close_begin test_tunnel)) \<le> event_slots"
  using tunnel_never_panics [OF test_tunnel_start test_tunnel_closing(1)] by blast

theorem close_can_return_witness: "\<exists>t'. tunnel_runs (close_begin test_tunnel) t' \<and> tn_close t' = CloseDone"
proof -
  have "no_opening (close_begin test_tunnel)" by (simp add: no_opening_def close_begin_def test_tunnel_def)
  then show ?thesis using close_can_return [OF test_tunnel_start test_tunnel_closing] by blast
qed

theorem tunnel_opens_if_paired_witness:
  "\<exists>ack s'. opener_open (\<lambda>s. s) test_json (agent_link (\<lambda>x. x) (test_server counting_handler) (allows ''a1'') (test_conn ''a1''))
      \<lparr>mo_address = pi_address, mo_config = client_tls_config laptop_client\<rparr> (test_link 0) = (Ret (Inr ack), s') \<and>
     last (cn_sent (ln_conn s')) = tunnel_refused"
proof -
  have "nc_tls (test_conn ''a1'')" "nc_handshake (test_conn ''a1'') = None"
    and p: "is_allowed (allows ''a1'') (certificate_id (\<lambda>x. x) (test_conn ''a1''))" "sv_tunnel (test_server counting_handler) = None"
    by (simp_all add: test_conn_def allows_def is_allowed_def certificate_id_def test_server_def)
  from tunnel_opens_if_paired [OF this(1,2), of "\<lambda>s. s" test_json "\<lambda>x. x" "test_server counting_handler" "allows ''a1''"
      "\<lparr>mo_address = pi_address, mo_config = client_tls_config laptop_client\<rparr>" "test_link 0"] p
  show ?thesis by auto
qed

end
