(* ===== verification/Go_Base64.thy ===== *)
theory Go_Base64
  imports Bottle_Prelude
begin

section \<open>Base64 as \<open>base64.StdEncoding\<close> has it\<close>

text \<open>
  The standard alphabet with padding. Decoding drops carriage returns and newlines, takes groups of
  four characters, and ignores the unused low bits of a padded group, as Go's decoder does when it
  is not strict.
\<close>

definition b64_alphabet :: string where
  "b64_alphabet = ''ABCDEFGHIJKLMNOPQRSTUVWXYZabcdefghijklmnopqrstuvwxyz0123456789+/''"

definition b64_char :: "nat \<Rightarrow> char" where
  "b64_char n = b64_alphabet ! (n mod 64)"

definition b64_value :: "char \<Rightarrow> nat option" where
  "b64_value c = (if c \<in> set b64_alphabet then Some (length (takeWhile (\<lambda>x. x \<noteq> c) b64_alphabet)) else None)"

definition b64_pad :: char where
  "b64_pad = CHR ''=''"

definition b64_group :: "nat \<Rightarrow> nat \<Rightarrow> nat \<Rightarrow> string" where
  "b64_group a b c = [b64_char (a div 4), b64_char (a mod 4 * 16 + b div 16), b64_char (b mod 16 * 4 + c div 64), b64_char (c mod 64)]"

fun b64_encode :: "string \<Rightarrow> string" where
  "b64_encode [] = []"
| "b64_encode [a] = take 2 (b64_group (of_char a) 0 0) @ [b64_pad, b64_pad]"
| "b64_encode [a, b] = take 3 (b64_group (of_char a) (of_char b) 0) @ [b64_pad]"
| "b64_encode (a # b # c # s) = b64_group (of_char a) (of_char b) (of_char c) @ b64_encode s"

definition b64_bytes :: "nat \<Rightarrow> nat \<Rightarrow> nat \<Rightarrow> nat \<Rightarrow> string" where
  "b64_bytes w x y z = [char_of (w * 4 + x div 16), char_of (x mod 16 * 16 + y div 4), char_of (y mod 4 * 64 + z)]"

fun b64_quads :: "string \<Rightarrow> string option" where
  "b64_quads [] = Some []"
| "b64_quads (w # x # y # z # s) =
     (case (b64_value w, b64_value x) of
        (Some i, Some j) \<Rightarrow>
          (if s = [] \<and> y = b64_pad \<and> z = b64_pad then Some (take 1 (b64_bytes i j 0 0))
           else (case b64_value y of
               None \<Rightarrow> None
             | Some k \<Rightarrow>
                 if s = [] \<and> z = b64_pad then Some (take 2 (b64_bytes i j k 0))
                 else (case b64_value z of
                     None \<Rightarrow> None
                   | Some l \<Rightarrow> map_option (\<lambda>r. b64_bytes i j k l @ r) (b64_quads s))))
      | _ \<Rightarrow> None)"
| "b64_quads _ = None"

definition b64_decode :: "string \<Rightarrow> string option" where
  "b64_decode s = b64_quads (filter (\<lambda>c. c \<noteq> char_of (10 :: nat) \<and> c \<noteq> char_of (13 :: nat)) s)"

subsection \<open>Decoding inverts encoding\<close>

lemma b64_table: "list_all (\<lambda>n. b64_value (b64_char n) = Some n \<and> b64_char n \<noteq> b64_pad \<and> b64_char n \<noteq> char_of (10 :: nat) \<and>
    b64_char n \<noteq> char_of (13 :: nat)) [0..<64]"
  by code_simp

lemma b64_char_props:
  assumes "n < 64"
  shows "b64_value (b64_char n) = Some n" "b64_char n \<noteq> b64_pad" "b64_char n \<noteq> char_of (10 :: nat)" "b64_char n \<noteq> char_of (13 :: nat)"
  using b64_table assms unfolding list_all_iff by simp_all

lemma b64_char_mod: "b64_char n = b64_char (n mod 64)"
  by (simp add: b64_char_def)

lemma b64_char_plain [simp]: "b64_char n \<noteq> b64_pad" "b64_char n \<noteq> char_of (10 :: nat)" "b64_char n \<noteq> char_of (13 :: nat)"
  by (subst b64_char_mod, rule b64_char_props, simp)+

lemma b64_pad_plain [simp]: "b64_pad \<noteq> char_of (10 :: nat)" "b64_pad \<noteq> char_of (13 :: nat)"
  by (code_simp, code_simp)

lemma byte_bound: "(of_char c :: nat) < 256"
  by simp

lemma b64_split:
  assumes "(a::nat) < 256" "b < 256" "c < 256"
  shows "a div 4 < 64" "a mod 4 * 16 + b div 16 < 64" "b mod 16 * 4 + c div 64 < 64" "c mod 64 < 64"
    "a div 4 * 4 + (a mod 4 * 16 + b div 16) div 16 = a"
    "(a mod 4 * 16 + b div 16) mod 16 * 16 + (b mod 16 * 4 + c div 64) div 4 = b"
    "(b mod 16 * 4 + c div 64) mod 4 * 64 + c mod 64 = c"
proof -
  show "a div 4 < 64" using assms by simp
  show "c mod 64 < 64" by simp
  have b: "b div 16 < 16" and c: "c div 64 < 4" using assms by simp_all
  have "a mod 4 < 4" "b mod 16 < 16" by simp_all
  with b c show "a mod 4 * 16 + b div 16 < 64" "b mod 16 * 4 + c div 64 < 64" by linarith+
  from b show "a div 4 * 4 + (a mod 4 * 16 + b div 16) div 16 = a" by simp
  from b c show "(a mod 4 * 16 + b div 16) mod 16 * 16 + (b mod 16 * 4 + c div 64) div 4 = b" by simp
  from c show "(b mod 16 * 4 + c div 64) mod 4 * 64 + c mod 64 = c" by simp
qed

lemma b64_group_bytes:
  assumes "a < 256" "b < 256" "c < 256"
  shows "b64_bytes (a div 4) (a mod 4 * 16 + b div 16) (b mod 16 * 4 + c div 64) (c mod 64) = [char_of a, char_of b, char_of c]"
  using b64_split [OF assms] by (simp only: b64_bytes_def)

lemma b64_quads_encode: "b64_quads (b64_encode s) = Some s"
proof (induction s rule: b64_encode.induct)
  case 1
  then show ?case by simp
next
  case (2 a)
  let ?a = "of_char a :: nat"
  note p = b64_char_props(1)
  have "b64_bytes (?a div 4) (?a mod 4 * 16 + 0 div 16) (0 mod 16 * 4 + 0 div 64) (0 mod 64) = [char_of ?a, char_of (0::nat), char_of (0::nat)]"
    by (rule b64_group_bytes) simp_all
  then show ?case using b64_split(1,2) [of ?a 0 0] by (simp add: b64_group_def p)
next
  case (3 a b)
  let ?a = "of_char a :: nat" and ?b = "of_char b :: nat"
  note p = b64_char_props(1)
  have "b64_bytes (?a div 4) (?a mod 4 * 16 + ?b div 16) (?b mod 16 * 4 + 0 div 64) (0 mod 64) = [char_of ?a, char_of ?b, char_of (0::nat)]"
    by (rule b64_group_bytes) simp_all
  then show ?case using b64_split(1,2,3) [of ?a ?b 0] by (simp add: b64_group_def p)
next
  case (4 a b c s)
  let ?a = "of_char a :: nat" and ?b = "of_char b :: nat" and ?c = "of_char c :: nat"
  note p = b64_char_props(1)
  have "b64_bytes (?a div 4) (?a mod 4 * 16 + ?b div 16) (?b mod 16 * 4 + ?c div 64) (?c mod 64) = [char_of ?a, char_of ?b, char_of ?c]"
    by (rule b64_group_bytes) simp_all
  then show ?case using b64_split(1,2,3,4) [of ?a ?b ?c] 4 by (simp add: b64_group_def p)
qed

lemma b64_encode_plain: "filter (\<lambda>c. c \<noteq> char_of (10 :: nat) \<and> c \<noteq> char_of (13 :: nat)) (b64_encode s) = b64_encode s"
  by (induction s rule: b64_encode.induct) (simp_all add: b64_group_def)

lemma b64_round_trip [simp]: "b64_decode (b64_encode s) = Some s"
  by (simp add: b64_decode_def b64_encode_plain b64_quads_encode)

end
