(* ===== verification/Laptop_Keyring.thy ===== *)
theory Laptop_Keyring
  imports Laptop_Client Go_Base64 "HOL-Library.Multiset"
begin

section \<open>Credentials in the operating system's keyring\<close>

text \<open>
  \<open>bottle-tui/internal/controlplane/keyring.go\<close> and \<open>internal/wigle/keyring.go\<close>. The keyring is the
  operating system's: a map from a service and a name to a secret, whose calls may fail (a call that
  fails changes nothing; a missing secret is \<open>ErrNotFound\<close>). Both stores implement one contract,
  the locale \<open>credential_store\<close>.
\<close>

subsection \<open>The keyring\<close>

record keyring =
  kr_items :: "string \<times> string \<Rightarrow> string option"
  kr_calls :: nat

record keyring_env =
  kr_fault :: "nat \<Rightarrow> go_error option"
  kr_corrupt :: "string \<Rightarrow> go_error"
  kr_pick :: "nat \<Rightarrow> nat"

definition err_keyring_not_found :: go_error where
  "err_keyring_not_found = ErrSentinel ''keyring.ErrNotFound'' ''secret not found in keyring''"

definition keyring_get :: "keyring_env \<Rightarrow> string \<Rightarrow> string \<Rightarrow> (keyring, go_error + string) prog" where
  "keyring_get env service name k =
     (Ret (case kr_fault env (kr_calls k) of
             Some err \<Rightarrow> Inl err
           | None \<Rightarrow> (case kr_items k (service, name) of None \<Rightarrow> Inl err_keyring_not_found | Some v \<Rightarrow> Inr v)),
      k\<lparr>kr_calls := Suc (kr_calls k)\<rparr>)"

definition keyring_set :: "keyring_env \<Rightarrow> string \<Rightarrow> string \<Rightarrow> string \<Rightarrow> (keyring, go_error option) prog" where
  "keyring_set env service name v k =
     (case kr_fault env (kr_calls k) of
        Some err \<Rightarrow> (Ret (Some err), k\<lparr>kr_calls := Suc (kr_calls k)\<rparr>)
      | None \<Rightarrow> (Ret None, k\<lparr>kr_items := (kr_items k)((service, name) \<mapsto> v), kr_calls := Suc (kr_calls k)\<rparr>))"

text \<open>Ranging over a Go map: \<open>pick\<close> chooses which of the remaining entries comes next.\<close>

function map_order :: "(nat \<Rightarrow> nat) \<Rightarrow> 'a list \<Rightarrow> 'a list" where
  "map_order pick [] = []"
| "map_order pick (x # xs) =
     (let ys = x # xs; i = pick (length ys) mod length ys in ys ! i # map_order pick (take i ys @ drop (Suc i) ys))"
  by pat_completeness auto
termination
  by (relation "measure (\<lambda>(pick, xs). length xs)") auto

declare map_order.simps [simp del]

lemma map_order_mset: "mset (map_order pick xs) = mset xs"
proof (induction pick xs rule: map_order.induct)
  case (2 pick x xs)
  let ?ys = "x # xs" let ?i = "pick (length ?ys) mod length ?ys"
  have "?i < length ?ys" by simp
  then have "mset ?ys = mset (take ?i ?ys @ ?ys ! ?i # drop (Suc ?i) ?ys)" by (simp only: id_take_nth_drop [symmetric])
  with 2 show ?case by (simp add: map_order.simps Let_def del: drop_Suc_Cons)
qed (simp add: map_order.simps)

lemma set_map_order [simp]: "set (map_order pick xs) = set xs"
  by (metis map_order_mset set_mset_mset)

lemma distinct_map_order [simp]: "distinct (map fst (map_order pick xs)) = distinct (map fst xs)"
  by (metis map_order_mset mset_eq_imp_distinct_iff mset_map)

subsection \<open>The control-plane profile\<close>

definition profile_service :: string where
  "profile_service = ''wifi-water-bottle/control-plane''"

definition profile_get :: "keyring_env \<Rightarrow> string \<Rightarrow> (keyring, go_error + string) prog" where
  "profile_get env name =
     tryP (wrapped (''read control-plane '' @ name @ '' from OS keyring: '')) (keyring_get env profile_service name)
     (\<lambda>v. retP (case b64_decode v of
         None \<Rightarrow> Inl (wrapped (''decode control-plane '' @ name @ '': '') (kr_corrupt env v))
       | Some b \<Rightarrow> Inr b))"

definition profile_load :: "keyring_env \<Rightarrow> (keyring, go_error + credentials) prog" where
  "profile_load env =
     tryP id (profile_get env ''ca'') (\<lambda>ca.
     tryP id (profile_get env ''client-cert'') (\<lambda>cert.
     tryP id (profile_get env ''client-key'') (\<lambda>key.
     tryP (wrapped ''read control-plane client ID from OS keyring: '') (keyring_get env profile_service ''client-id'') (\<lambda>i.
       if i = [] then retP (Inl (ErrText ''control-plane client ID is empty''))
       else retP (Inr \<lparr>cr_ca_pem = ca, cr_cert_pem = cert, cr_key_pem = key, cr_client_id = i\<rparr>)))))"

fun set_all :: "keyring_env \<Rightarrow> (string \<times> string) list \<Rightarrow> (keyring, go_error option) prog" where
  "set_all env [] = retP None"
| "set_all env ((name, v) # es) =
     bindP (keyring_set env profile_service name (b64_encode v)) (\<lambda>e. case e of
         Some err \<Rightarrow> retP (Some (wrapped (''save control-plane '' @ name @ '' in OS keyring: '') err))
       | None \<Rightarrow> set_all env es)"

definition profile_material :: "credentials \<Rightarrow> (string \<times> string) list" where
  "profile_material c = [(''ca'', cr_ca_pem c), (''client-cert'', cr_cert_pem c), (''client-key'', cr_key_pem c)]"

definition profile_complete :: "credentials \<Rightarrow> bool" where
  "profile_complete c \<longleftrightarrow> cr_ca_pem c \<noteq> [] \<and> cr_cert_pem c \<noteq> [] \<and> cr_key_pem c \<noteq> [] \<and> cr_client_id c \<noteq> []"

definition profile_save :: "keyring_env \<Rightarrow> credentials \<Rightarrow> (keyring, go_error option) prog" where
  "profile_save env c =
     (if \<not> profile_complete c
      then retP (Some (ErrText ''control-plane CA, client certificate, private key, and client ID are required''))
      else bindP (set_all env (map_order (kr_pick env) (profile_material c))) (\<lambda>e. case e of
          Some err \<Rightarrow> retP (Some err)
        | None \<Rightarrow>
            bindP (keyring_set env profile_service ''client-id'' (cr_client_id c)) (\<lambda>e. retP (case e of
                Some err \<Rightarrow> Some (wrapped ''save control-plane client ID in OS keyring: '' err)
              | None \<Rightarrow> None))))"

subsection \<open>The WiGLE account\<close>

record wigle_credentials =
  wc_api_name :: string
  wc_token :: string

definition wigle_service :: string where
  "wigle_service = ''wifi-water-bottle/wigle''"

definition wigle_load :: "keyring_env \<Rightarrow> (keyring, go_error + wigle_credentials) prog" where
  "wigle_load env =
     tryP (wrapped ''read API name from OS keyring: '') (keyring_get env wigle_service ''api-name'') (\<lambda>n.
     tryP (wrapped ''read API token from OS keyring: '') (keyring_get env wigle_service ''token'') (\<lambda>t.
       retP (Inr \<lparr>wc_api_name = n, wc_token = t\<rparr>)))"

definition wigle_complete :: "wigle_credentials \<Rightarrow> bool" where
  "wigle_complete c \<longleftrightarrow> wc_api_name c \<noteq> [] \<and> wc_token c \<noteq> []"

definition wigle_save :: "keyring_env \<Rightarrow> wigle_credentials \<Rightarrow> (keyring, go_error option) prog" where
  "wigle_save env c =
     (if \<not> wigle_complete c then retP (Some (ErrText ''WiGLE API name and token are both required''))
      else bindP (keyring_set env wigle_service ''api-name'' (wc_api_name c)) (\<lambda>e. case e of
          Some err \<Rightarrow> retP (Some (wrapped ''save API name in OS keyring: '' err))
        | None \<Rightarrow>
            bindP (keyring_set env wigle_service ''token'' (wc_token c)) (\<lambda>e. retP (case e of
                Some err \<Rightarrow> Some (wrapped ''save API token in OS keyring: '' err)
              | None \<Rightarrow> None))))"

subsection \<open>The contract of a credential store\<close>

text \<open>
  \<open>entries c\<close> are the secrets a store keeps for \<open>c\<close>. A save that succeeds has written them all and
  nothing else; one that fails has written some of them. A load reads them back, unless the keyring
  fails.
\<close>

definition holds :: "((string \<times> string) \<times> string) list \<Rightarrow> keyring \<Rightarrow> bool" where
  "holds es k \<longleftrightarrow> (\<forall>(p, v) \<in> set es. kr_items k p = Some v)"

definition keyring_ok :: "keyring_env \<Rightarrow> keyring \<Rightarrow> bool" where
  "keyring_ok env k \<longleftrightarrow> (\<forall>n \<ge> kr_calls k. kr_fault env n = None)"

locale credential_store =
  fixes env :: keyring_env
    and load :: "(keyring, go_error + 'c) prog"
    and save :: "'c \<Rightarrow> (keyring, go_error option) prog"
    and complete :: "'c \<Rightarrow> bool"
    and entries :: "'c \<Rightarrow> ((string \<times> string) \<times> string) list"
    and owned :: "(string \<times> string) set"
  assumes save_stores: "save c k = (Ret None, k') \<Longrightarrow> complete c \<and> holds (entries c) k'"
    and save_frame: "save c k = (r, k') \<Longrightarrow> p \<notin> owned \<Longrightarrow> kr_items k' p = kr_items k p"
    and save_needs: "\<not> complete c \<Longrightarrow> \<exists>e. save c k = (Ret (Some e), k)"
    and load_reads: "complete c \<Longrightarrow> holds (entries c) k \<Longrightarrow> keyring_ok env k \<Longrightarrow> \<exists>k'. load k = (Ret (Inr c), k') \<and> kr_items k' = kr_items k"
    and load_frame: "load k = (x, k') \<Longrightarrow> kr_items k' = kr_items k"
    and entries_owned: "fst ` set (entries c) \<subseteq> owned"
begin

text \<open>What was saved last is loaded, however often the store was read and other stores written in between.\<close>

lemma saved_then_loaded:
  assumes "save c k = (Ret None, k')" "\<And>p. p \<in> owned \<Longrightarrow> kr_items k'' p = kr_items k' p" "keyring_ok env k''"
  shows "\<exists>k3. load k'' = (Ret (Inr c), k3) \<and> kr_items k3 = kr_items k''"
proof -
  have "complete c" "holds (entries c) k''"
    using save_stores [OF assms(1)] assms(2) entries_owned [of c] by (fastforce simp: holds_def)+
  then show ?thesis by (rule load_reads [OF _ _ assms(3)])
qed

end

subsection \<open>Both stores implement it\<close>

lemma set_all_spec:
  assumes "distinct (map fst es)" "set_all env es k = (r, k')"
  shows "(r = Ret None \<longrightarrow> (\<forall>(n, v) \<in> set es. kr_items k' (profile_service, n) = Some (b64_encode v))) \<and>
    (\<exists>x. r = Ret x) \<and> (\<forall>p. p \<notin> (\<lambda>n. (profile_service, n)) ` fst ` set es \<longrightarrow> kr_items k' p = kr_items k p)"
  using assms
proof (induction es arbitrary: k)
  case Nil
  then show ?case by (auto simp: retP_def)
next
  case (Cons e es)
  obtain n v where e: "e = (n, v)" by fastforce
  show ?case
  proof (cases "kr_fault env (kr_calls k)")
    case (Some err)
    then show ?thesis using Cons.prems e by (auto simp: bindP_def keyring_set_def retP_def)
  next
    case None
    let ?k = "k\<lparr>kr_items := (kr_items k)((profile_service, n) \<mapsto> b64_encode v), kr_calls := Suc (kr_calls k)\<rparr>"
    have "set_all env es ?k = (r, k')" using Cons.prems(2) None e by (simp add: bindP_def keyring_set_def)
    with Cons.IH [OF _ this] Cons.prems(1)
    have IH: "r = Ret None \<longrightarrow> (\<forall>(n, v) \<in> set es. kr_items k' (profile_service, n) = Some (b64_encode v))" "\<exists>x. r = Ret x"
      "\<forall>p. p \<notin> (\<lambda>n. (profile_service, n)) ` fst ` set es \<longrightarrow> kr_items k' p = kr_items ?k p" by simp_all
    moreover have "kr_items k' (profile_service, n) = Some (b64_encode v)"
      using IH(3) Cons.prems(1) e by (auto simp: image_iff)
    ultimately show ?thesis using e by auto
  qed
qed

definition profile_entries :: "credentials \<Rightarrow> ((string \<times> string) \<times> string) list" where
  "profile_entries c = ((profile_service, ''client-id''), cr_client_id c) #
     map (\<lambda>(n, v). ((profile_service, n), b64_encode v)) (profile_material c)"

definition profile_owned :: "(string \<times> string) set" where
  "profile_owned = Pair profile_service ` {''ca'', ''client-cert'', ''client-key'', ''client-id''}"

lemma profile_save_cases:
  assumes "profile_save env c k = (r, k')"
  shows "(r = Ret None \<longrightarrow> profile_complete c \<and> holds (profile_entries c) k') \<and> (\<forall>p. p \<notin> profile_owned \<longrightarrow> kr_items k' p = kr_items k p)"
proof (cases "profile_complete c")
  case False
  then show ?thesis using assms by (auto simp: profile_save_def retP_def)
next
  case True
  let ?es = "map_order (kr_pick env) (profile_material c)"
  obtain r1 k1 where s: "set_all env ?es k = (r1, k1)" by fastforce
  have d: "distinct (map fst ?es)" by (simp add: profile_material_def)
  from set_all_spec [OF d s]
  have 1: "r1 = Ret None \<longrightarrow> (\<forall>(n, v) \<in> set (profile_material c). kr_items k1 (profile_service, n) = Some (b64_encode v))" "\<exists>x. r1 = Ret x"
    "\<forall>p. p \<notin> (\<lambda>n. (profile_service, n)) ` fst ` set (profile_material c) \<longrightarrow> kr_items k1 p = kr_items k p" by simp_all
  have frame: "p \<notin> profile_owned \<Longrightarrow> kr_items k1 p = kr_items k p" for p
  proof -
    assume "p \<notin> profile_owned"
    then have "p \<notin> (\<lambda>n. (profile_service, n)) ` fst ` set (profile_material c)"
      by (simp add: profile_owned_def profile_material_def)
    with 1(3) show ?thesis by blast
  qed
  show ?thesis
  proof (cases "r1 = Ret None")
    case False
    then obtain e where "r1 = Ret (Some e)" using 1(2) by (metis not_Some_eq)
    then have "r = Ret (Some e)" "k' = k1" using assms s True by (simp_all add: profile_save_def bindP_def retP_def)
    then show ?thesis using frame by simp
  next
    case stored: True
    have ca: "(profile_service, ''client-id'') \<in> profile_owned" by (simp add: profile_owned_def)
    show ?thesis
    proof (cases "kr_fault env (kr_calls k1)")
      case (Some err)
      then have "r \<noteq> Ret None" "kr_items k' = kr_items k1"
        using assms s True stored by (auto simp: profile_save_def bindP_def keyring_set_def retP_def)
      then show ?thesis using frame by simp
    next
      case None
      then have k': "kr_items k' = (kr_items k1)((profile_service, ''client-id'') \<mapsto> cr_client_id c)"
        using assms s True stored by (auto simp: profile_save_def bindP_def keyring_set_def retP_def)
      have "holds (profile_entries c) k'"
        using 1(1) stored k' by (auto simp: holds_def profile_entries_def profile_material_def)
      then show ?thesis using True frame k' ca by auto
    qed
  qed
qed

lemma keyring_ok_later: "keyring_ok env k \<Longrightarrow> keyring_ok env (k\<lparr>kr_calls := Suc (kr_calls k)\<rparr>)" "keyring_ok env k \<Longrightarrow> kr_fault env (kr_calls k) = None"
  by (simp_all add: keyring_ok_def)

lemma profile_get_reads:
  assumes "kr_items k (profile_service, n) = Some (b64_encode v)" "keyring_ok env k"
  shows "profile_get env n k = (Ret (Inr v), k\<lparr>kr_calls := Suc (kr_calls k)\<rparr>)"
  using assms keyring_ok_later(2) [OF assms(2)] by (simp add: profile_get_def tryP_def bindP_def keyring_get_def retP_def)

lemma profile_get_frame: "profile_get env n k = (r, k') \<Longrightarrow> kr_items k' = kr_items k"
  by (auto simp: profile_get_def tryP_def bindP_def keyring_get_def retP_def split: sum.splits)

lemma profile_load_reads:
  assumes "profile_complete c" "holds (profile_entries c) k" "keyring_ok env k"
  shows "\<exists>k'. profile_load env k = (Ret (Inr c), k') \<and> kr_items k' = kr_items k"
proof -
  let ?at = "\<lambda>i. k\<lparr>kr_calls := i + kr_calls k\<rparr>"
  have a: "keyring_ok env (?at i)" for i using assms(3) by (simp add: keyring_ok_def)
  have g: "profile_get env n (?at i) = (Ret (Inr v), ?at (Suc i))" if "(n, v) \<in> set (profile_material c)" for n v i
    using that assms(2) profile_get_reads [OF _ a, of i n v] by (auto simp: holds_def profile_entries_def)
  have i: "keyring_get env profile_service ''client-id'' (?at j) = (Ret (Inr (cr_client_id c)), ?at (Suc j))" for j
    using assms(2) keyring_ok_later(2) [OF a, of j] by (simp add: keyring_get_def holds_def profile_entries_def)
  note g1 = g [of "''ca''" "cr_ca_pem c" 0] g [of "''client-cert''" "cr_cert_pem c" 1] g [of "''client-key''" "cr_key_pem c" 2]
  have "profile_load env (?at 0) = (Ret (Inr c), ?at 4)"
    using g1 i [of 3] assms(1)
    by (simp add: profile_load_def tryP_def bindP_def profile_material_def retP_def profile_complete_def eval_nat_numeral)
  then show ?thesis by simp
qed

lemma frame_bind:
  assumes "\<And>k r k'. m k = (r, k') \<Longrightarrow> kr_items k' = kr_items k" "\<And>a k r k'. f a k = (r, k') \<Longrightarrow> kr_items k' = kr_items k"
  shows "bindP m f k = (r, k') \<Longrightarrow> kr_items k' = kr_items k"
  using assms unfolding bindP_def by (auto split: prod.splits outcome.splits)

lemma frame_try:
  assumes "\<And>k r k'. m k = (r, k') \<Longrightarrow> kr_items k' = kr_items k" "\<And>a k r k'. f a k = (r, k') \<Longrightarrow> kr_items k' = kr_items k"
  shows "tryP w m f k = (r, k') \<Longrightarrow> kr_items k' = kr_items k"
  unfolding tryP_def by (erule frame_bind [rotated 2]) (auto intro: assms simp: retP_def split: sum.splits)

lemma keyring_get_frame: "keyring_get env s n k = (r, k') \<Longrightarrow> kr_items k' = kr_items k"
  by (auto simp: keyring_get_def)

lemma retP_frame: "retP x k = (r, k') \<Longrightarrow> kr_items k' = kr_items k"
  by (simp add: retP_def)

lemma profile_load_frame: "profile_load env k = (r, k') \<Longrightarrow> kr_items k' = kr_items k"
  unfolding profile_load_def
  apply (erule frame_try [rotated 2], erule profile_get_frame)
  apply (erule frame_try [rotated 2], erule profile_get_frame)
  apply (erule frame_try [rotated 2], erule profile_get_frame)
  apply (erule frame_try [rotated 2], erule keyring_get_frame)
  apply (simp add: retP_def split: if_splits)
  done

interpretation profile: credential_store env "profile_load env" "profile_save env" profile_complete profile_entries profile_owned for env
proof
  show "profile_save env c k = (Ret None, k') \<Longrightarrow> profile_complete c \<and> holds (profile_entries c) k'" for c k k'
    using profile_save_cases by blast
  show "profile_save env c k = (r, k') \<Longrightarrow> p \<notin> profile_owned \<Longrightarrow> kr_items k' p = kr_items k p" for c k r k' p
    using profile_save_cases by blast
  show "\<not> profile_complete c \<Longrightarrow> \<exists>e. profile_save env c k = (Ret (Some e), k)" for c k
    by (simp add: profile_save_def retP_def)
  show "profile_complete c \<Longrightarrow> holds (profile_entries c) k \<Longrightarrow> keyring_ok env k \<Longrightarrow>
      \<exists>k'. profile_load env k = (Ret (Inr c), k') \<and> kr_items k' = kr_items k" for c k
    by (rule profile_load_reads)
  show "profile_load env k = (x, k') \<Longrightarrow> kr_items k' = kr_items k" for k x k'
    by (rule profile_load_frame)
  show "fst ` set (profile_entries c) \<subseteq> profile_owned" for c
    by (simp add: profile_entries_def profile_owned_def profile_material_def)
qed

definition wigle_entries :: "wigle_credentials \<Rightarrow> ((string \<times> string) \<times> string) list" where
  "wigle_entries c = [((wigle_service, ''api-name''), wc_api_name c), ((wigle_service, ''token''), wc_token c)]"

definition wigle_owned :: "(string \<times> string) set" where
  "wigle_owned = Pair wigle_service ` {''api-name'', ''token''}"

lemmas wigle_simps = wigle_load_def wigle_save_def wigle_entries_def wigle_owned_def holds_def keyring_get_def keyring_set_def
  tryP_def bindP_def retP_def

interpretation wigle: credential_store env "wigle_load env" "wigle_save env" wigle_complete wigle_entries wigle_owned for env
proof
  show "wigle_save env c k = (Ret None, k') \<Longrightarrow> wigle_complete c \<and> holds (wigle_entries c) k'" for c k k'
    by (auto simp: wigle_simps split: if_splits option.splits)
  show "wigle_save env c k = (r, k') \<Longrightarrow> p \<notin> wigle_owned \<Longrightarrow> kr_items k' p = kr_items k p" for c k r k' p
    by (auto simp: wigle_simps split: if_splits option.splits)
  show "\<not> wigle_complete c \<Longrightarrow> \<exists>e. wigle_save env c k = (Ret (Some e), k)" for c k
    by (simp add: wigle_save_def retP_def)
  show "wigle_complete c \<Longrightarrow> holds (wigle_entries c) k \<Longrightarrow> keyring_ok env k \<Longrightarrow>
      \<exists>k'. wigle_load env k = (Ret (Inr c), k') \<and> kr_items k' = kr_items k" for c k
    by (simp add: wigle_simps keyring_ok_def)
  show "wigle_load env k = (x, k') \<Longrightarrow> kr_items k' = kr_items k" for k x k'
    by (auto simp: wigle_simps split: option.splits)
  show "fst ` set (wigle_entries c) \<subseteq> wigle_owned" for c
    by (simp add: wigle_entries_def wigle_owned_def)
qed

subsection \<open>Properties\<close>

lemma owned_apart: "p \<in> profile_owned \<Longrightarrow> p \<notin> wigle_owned"
  by (auto simp: profile_owned_def wigle_owned_def profile_service_def wigle_service_def)

text \<open>
  Credentials that were saved are loaded as they were, bytes included: after a profile and
  then a WiGLE account were saved, both are read back, the one undisturbed by the other.
\<close>

theorem saved_credentials_are_loaded:
  assumes "profile_save env c k = (Ret None, k1)" "wigle_save env w k1 = (Ret None, k2)" "keyring_ok env k2"
  shows "\<exists>k3 k4. profile_load env k2 = (Ret (Inr c), k3) \<and> wigle_load env k2 = (Ret (Inr w), k4)"
proof -
  have "kr_items k2 p = kr_items k1 p" if "p \<in> profile_owned" for p
    using wigle.save_frame [OF assms(2) owned_apart [OF that]] .
  from profile.saved_then_loaded [OF assms(1) this assms(3)] wigle.saved_then_loaded [OF assms(2) refl assms(3)]
  show ?thesis by blast
qed

definition good_keyring :: keyring_env where
  "good_keyring = \<lparr>kr_fault = (\<lambda>_. None), kr_corrupt = ErrText, kr_pick = id\<rparr>"

definition test_profile :: "string \<Rightarrow> credentials" where
  "test_profile x = \<lparr>cr_ca_pem = x @ ''ca'', cr_cert_pem = x @ ''cert'', cr_key_pem = x @ ''key'', cr_client_id = x @ ''id''\<rparr>"

lemma good_keyring_saves: "set_all good_keyring es k = (Ret None, snd (set_all good_keyring es k))"
proof (induction es arbitrary: k)
  case (Cons e es)
  obtain n v where "e = (n, v)" by fastforce
  then show ?case
    using Cons [of "k\<lparr>kr_items := (kr_items k)((profile_service, n) \<mapsto> b64_encode v), kr_calls := Suc (kr_calls k)\<rparr>"]
    by (simp add: bindP_def keyring_set_def good_keyring_def)
qed (simp add: retP_def)

theorem saved_credentials_are_loaded_witness:
  "\<exists>k1 k2 k3. profile_save good_keyring (test_profile ''a'') \<lparr>kr_items = Map.empty, kr_calls = 0\<rparr> = (Ret None, k1) \<and>
     wigle_save good_keyring \<lparr>wc_api_name = ''n'', wc_token = ''t''\<rparr> k1 = (Ret None, k2) \<and>
     profile_load good_keyring k2 = (Ret (Inr (test_profile ''a'')), k3)"
proof -
  let ?k = "\<lparr>kr_items = Map.empty, kr_calls = 0\<rparr>"
  have "profile_complete (test_profile ''a'')" by (simp add: profile_complete_def test_profile_def)
  then obtain k1 where 1: "profile_save good_keyring (test_profile ''a'') ?k = (Ret None, k1)"
    using good_keyring_saves [of "map_order (kr_pick good_keyring) (profile_material (test_profile ''a''))" ?k]
    by (cases "set_all good_keyring (map_order (kr_pick good_keyring) (profile_material (test_profile ''a''))) ?k")
       (simp add: profile_save_def bindP_def keyring_set_def retP_def good_keyring_def)
  obtain k2 where 2: "wigle_save good_keyring \<lparr>wc_api_name = ''n'', wc_token = ''t''\<rparr> k1 = (Ret None, k2)"
    by (simp add: wigle_save_def wigle_complete_def bindP_def keyring_set_def retP_def good_keyring_def)
  have "keyring_ok good_keyring k2" by (simp add: keyring_ok_def good_keyring_def)
  from saved_credentials_are_loaded [OF 1 2 this] 1 2 show ?thesis by blast
qed

text \<open>One set of a profile entry leaves an old profile with that one field replaced.\<close>

definition replaced :: "string \<Rightarrow> credentials \<Rightarrow> credentials \<Rightarrow> credentials" where
  "replaced n new old =
     (if n = ''ca'' then old\<lparr>cr_ca_pem := cr_ca_pem new\<rparr>
      else if n = ''client-cert'' then old\<lparr>cr_cert_pem := cr_cert_pem new\<rparr>
      else old\<lparr>cr_key_pem := cr_key_pem new\<rparr>)"

lemma replaced_holds:
  assumes "holds (profile_entries old) k" "(n, v) \<in> set (profile_material new)"
  shows "holds (profile_entries (replaced n new old)) (k\<lparr>kr_items := (kr_items k)((profile_service, n) \<mapsto> b64_encode v), kr_calls := j\<rparr>)"
  using assms by (auto simp: holds_def profile_entries_def profile_material_def replaced_def)

text \<open>
  C29. Saving a profile is not atomic: when the keyring fails at the second entry, the save
  reports an error, but the profile loaded afterwards is neither the old nor the new one. It mixes
  the old client id with a certificate, key or authority of the new profile, and loads without error.
\<close>

theorem failed_save_mixes_profiles:
  assumes old: "profile_complete old" "holds (profile_entries old) k" and new: "profile_complete new"
    and fault: "kr_fault env = (\<lambda>n. if n = Suc (kr_calls k) then Some err else None)"
    and differ: "cr_ca_pem new \<noteq> cr_ca_pem old" "cr_cert_pem new \<noteq> cr_cert_pem old" "cr_key_pem new \<noteq> cr_key_pem old"
      "cr_client_id new \<noteq> cr_client_id old"
  shows "\<exists>e k' mix k''. profile_save env new k = (Ret (Some e), k') \<and> profile_load env k' = (Ret (Inr mix), k'') \<and>
    mix \<noteq> old \<and> mix \<noteq> new \<and> cr_client_id mix = cr_client_id old"
proof -
  let ?es = "map_order (kr_pick env) (profile_material new)"
  have "length ?es = 3" using arg_cong [OF map_order_mset, of size "kr_pick env" "profile_material new"] by (simp add: profile_material_def)
  then obtain a b c where es: "?es = [a, b, c]" by (auto simp: length_Suc_conv numeral_3_eq_3)
  obtain n v m u where ab: "a = (n, v)" "b = (m, u)" by (metis prod.exhaust)
  have mem: "(n, v) \<in> set (profile_material new)" using arg_cong [OF es, of set] ab by auto
  let ?k = "k\<lparr>kr_items := (kr_items k)((profile_service, n) \<mapsto> b64_encode v), kr_calls := kr_calls k + 2\<rparr>"
  have save: "profile_save env new k = (Ret (Some (wrapped (''save control-plane '' @ m @ '' in OS keyring: '') err)), ?k)"
    using new es ab fault by (simp add: profile_save_def bindP_def keyring_set_def retP_def)
  have mix: "profile_complete (replaced n new old)" "holds (profile_entries (replaced n new old)) ?k"
    using old(1) new replaced_holds [OF old(2) mem] by (auto simp: profile_complete_def replaced_def)
  have "keyring_ok env ?k" using fault by (simp add: keyring_ok_def)
  from profile_load_reads [OF mix this] obtain k'' where "profile_load env ?k = (Ret (Inr (replaced n new old)), k'')" by blast
  moreover have "replaced n new old \<noteq> old" "replaced n new old \<noteq> new" "cr_client_id (replaced n new old) = cr_client_id old"
    using differ mem by (auto simp: replaced_def profile_material_def dest: arg_cong [where f = cr_client_id] arg_cong [where f = cr_ca_pem]
        arg_cong [where f = cr_cert_pem] arg_cong [where f = cr_key_pem])
  ultimately show ?thesis using save by blast
qed

theorem failed_save_mixes_profiles_witness:
  "\<exists>env k e k' mix k''. profile_save env (test_profile ''new'') k = (Ret (Some e), k') \<and> profile_load env k' = (Ret (Inr mix), k'') \<and>
     cr_client_id mix = ''oldid'' \<and> mix \<noteq> test_profile ''old''"
proof -
  let ?env = "good_keyring\<lparr>kr_fault := (\<lambda>n. if n = Suc 0 then Some (ErrText ''locked'') else None)\<rparr>"
  let ?k = "\<lparr>kr_items = map_of (profile_entries (test_profile ''old'')), kr_calls = 0\<rparr>"
  have "profile_complete (test_profile x)" for x by (simp add: profile_complete_def test_profile_def)
  moreover have "holds (profile_entries (test_profile ''old'')) ?k"
    by (simp add: holds_def profile_entries_def profile_material_def)
  ultimately show ?thesis
    using failed_save_mixes_profiles [of "test_profile ''old''" ?k "test_profile ''new''" ?env "ErrText ''locked''"]
    by (fastforce simp: test_profile_def)
qed

end
