(* ===== verification/Wigle.thy ===== *)
theory Wigle
  imports Complex_Main Laptop_Keyring
begin

section \<open>WiGLE records, CSV and upload\<close>

text \<open>
  \<open>bottle-tui/internal/wigle/wigle.go\<close>: checking captured records, writing them as WiGLE CSV, and the
  upload with its retries. A coordinate is a rational number (every float64 that JSON can carry is
  one). Parameters: the decoder of the capture file, the texts of times and floats, Unicode case
  folding and white space of strings that are not ASCII (\<open>TrimSpace\<close> is the ASCII one), and the
  network.
\<close>

subsection \<open>Records\<close>

record wigle_record =
  wr_bssid :: string
  wr_ssid :: string
  wr_auth_mode :: string
  wr_first_seen :: time
  wr_channel :: int
  wr_frequency :: int
  wr_rssi :: int
  wr_latitude :: rat
  wr_longitude :: rat
  wr_altitude :: rat
  wr_accuracy :: rat

record preview_issue =
  pi_index :: nat
  pi_reason :: string

record preview_result =
  pv_records :: "wigle_record list"
  pv_issues :: "preview_issue list"
  pv_valid :: nat
  pv_invalid :: nat

text \<open>\<open>net.ParseMAC\<close> with a six-octet result: \<open>xx:xx:xx:xx:xx:xx\<close>, the same with dashes, or \<open>xxxx.xxxx.xxxx\<close>.\<close>

definition is_hex :: "char \<Rightarrow> bool" where
  "is_hex c \<longleftrightarrow> c \<in> set ''0123456789abcdefABCDEF''"

definition is_mac6 :: "string \<Rightarrow> bool" where
  "is_mac6 s \<longleftrightarrow>
     (length s = 17 \<and> (s ! 2 = CHR '':'' \<or> s ! 2 = CHR ''-'') \<and>
        list_all (\<lambda>i. if i mod 3 = 2 then s ! i = s ! 2 else is_hex (s ! i)) [0..<17]) \<or>
     (length s = 14 \<and> list_all (\<lambda>i. if i mod 5 = 4 then s ! i = CHR ''.'' else is_hex (s ! i)) [0..<14])"

definition normalize :: "(string \<Rightarrow> string) \<Rightarrow> wigle_record \<Rightarrow> go_error + wigle_record" where
  "normalize uni r =
     (let r = r\<lparr>wr_bssid := to_lower uni (trim_space (wr_bssid r))\<rparr> in
      if \<not> is_mac6 (wr_bssid r) then Inl (ErrText ''BSSID must be a six-octet MAC address'')
      else if wr_first_seen r = 0 then Inl (ErrText ''FirstSeen is required'')
      else if wr_latitude r < -90 \<or> wr_latitude r > 90 \<or> wr_longitude r < -180 \<or> wr_longitude r > 180
      then Inl (ErrText ''latitude/longitude is invalid'')
      else if wr_channel r < 0 \<or> wr_frequency r < 0 then Inl (ErrText ''channel/frequency cannot be negative'')
      else Inr r)"

fun preview_from :: "(string \<Rightarrow> string) \<Rightarrow> nat \<Rightarrow> wigle_record list \<Rightarrow> preview_result \<Rightarrow> preview_result" where
  "preview_from uni i [] p = p"
| "preview_from uni i (r # rs) p =
     preview_from uni (Suc i) rs
       (case normalize uni r of
          Inl err \<Rightarrow> p\<lparr>pv_invalid := Suc (pv_invalid p), pv_issues := pv_issues p @ [\<lparr>pi_index = i, pi_reason = error_text err\<rparr>]\<rparr>
        | Inr r' \<Rightarrow> p\<lparr>pv_valid := Suc (pv_valid p), pv_records := pv_records p @ [r']\<rparr>)"

definition preview :: "(string \<Rightarrow> string) \<Rightarrow> wigle_record list \<Rightarrow> preview_result" where
  "preview uni rs = preview_from uni 0 rs \<lparr>pv_records = [], pv_issues = [], pv_valid = 0, pv_invalid = 0\<rparr>"

definition decode_records :: "(string \<Rightarrow> go_error + wigle_record list) \<Rightarrow> string \<Rightarrow> go_error + wigle_record list" where
  "decode_records parse text =
     (case parse text of Inl err \<Rightarrow> Inl (wrapped ''decode capture records: '' err) | Inr rs \<Rightarrow> Inr rs)"

subsection \<open>CSV\<close>

text \<open>\<open>encoding/csv\<close>'s writer: which fields are quoted (\<open>uspace\<close>: a leading non-ASCII white space), and a row.\<close>

definition quote_mark :: char where
  "quote_mark = char_of (34 :: nat)"

definition line_feed :: char where
  "line_feed = char_of (10 :: nat)"

definition csv_needs_quotes :: "(string \<Rightarrow> bool) \<Rightarrow> string \<Rightarrow> bool" where
  "csv_needs_quotes uspace f \<longleftrightarrow> f \<noteq> [] \<and>
     (f = [char_of (92 :: nat), CHR ''.''] \<or>
      (\<exists>c \<in> set f. c = CHR '','' \<or> c = quote_mark \<or> c = line_feed \<or> c = char_of (13 :: nat)) \<or>
      (if (of_char (hd f) :: nat) < 128 then is_space (hd f) else uspace f))"

definition csv_field :: "(string \<Rightarrow> bool) \<Rightarrow> string \<Rightarrow> string" where
  "csv_field uspace f =
     (if \<not> csv_needs_quotes uspace f then f
      else [quote_mark] @ concat (map (\<lambda>c. if c = quote_mark then [quote_mark, quote_mark] else [c]) f) @ [quote_mark])"

definition csv_line :: "(string \<Rightarrow> bool) \<Rightarrow> string list \<Rightarrow> string" where
  "csv_line uspace cols = join_with '','' (map (csv_field uspace) cols) @ [line_feed]"

record device_metadata =
  dm_app_release :: string
  dm_model :: string
  dm_release :: string
  dm_device :: string
  dm_brand :: string

record csv_env =
  ce_fold :: "string \<Rightarrow> string"
  ce_space :: "string \<Rightarrow> bool"
  ce_time :: "time \<Rightarrow> string"
  ce_float :: "rat \<Rightarrow> string"

definition csv_preamble :: "device_metadata \<Rightarrow> string list" where
  "csv_preamble m = [''WigleWifi-1.6'', ''appRelease='' @ dm_app_release m, ''model='' @ dm_model m, ''release='' @ dm_release m,
     ''device='' @ dm_device m, ''brand='' @ dm_brand m, ''star=Sol'', ''body=3'', ''subBody=0'']"

definition csv_columns :: "string list" where
  "csv_columns = [''MAC'', ''SSID'', ''AuthMode'', ''FirstSeen'', ''Channel'', ''Frequency'', ''RSSI'', ''CurrentLatitude'',
     ''CurrentLongitude'', ''AltitudeMeters'', ''AccuracyMeters'', ''RCOIs'', ''MfgrId'', ''Type'']"

definition record_row :: "csv_env \<Rightarrow> wigle_record \<Rightarrow> string list" where
  "record_row env r = [wr_bssid r, wr_ssid r, wr_auth_mode r, ce_time env (wr_first_seen r), itoa (wr_channel r), itoa (wr_frequency r),
     itoa (wr_rssi r), ce_float env (wr_latitude r), ce_float env (wr_longitude r), ce_float env (wr_altitude r),
     ce_float env (wr_accuracy r), [], [], ''WIFI'']"

definition default_metadata :: "device_metadata \<Rightarrow> device_metadata" where
  "default_metadata m =
     (let m = (if dm_app_release m = [] then m\<lparr>dm_app_release := ''dev''\<rparr> else m)
      in if dm_model m = [] then m\<lparr>dm_model := ''unknown''\<rparr> else m)"

fun csv_rows :: "csv_env \<Rightarrow> wigle_record list \<Rightarrow> go_error + string" where
  "csv_rows env [] = Inr []"
| "csv_rows env (r # rs) =
     (case normalize (ce_fold env) r of
        Inl err \<Rightarrow> Inl (wrapped ''refusing invalid record: '' err)
      | Inr _ \<Rightarrow> map_sum id (\<lambda>t. csv_line (ce_space env) (record_row env r) @ t) (csv_rows env rs))"

text \<open>
  What \<open>WriteCSV\<close> writes, or the error it stops with; the caller of a write that failed does not
  use what was written until then.
\<close>

definition write_csv :: "csv_env \<Rightarrow> wigle_record list \<Rightarrow> device_metadata \<Rightarrow> go_error + string" where
  "write_csv env rs m =
     map_sum id (\<lambda>t. csv_line (ce_space env) (csv_preamble (default_metadata m)) @ csv_line (ce_space env) csv_columns @ t) (csv_rows env rs)"

subsection \<open>Upload\<close>

definition wigle_default_url :: string where
  "wigle_default_url = ''https://api.wigle.net''"

definition err_upload_confirmation :: go_error where
  "err_upload_confirmation = ErrSentinel ''wigle.ErrConfirmationRequired'' ''WiGLE upload requires explicit confirmation''"

record upload_request =
  uq_url :: string
  uq_filename :: string
  uq_contents :: string
  uq_credentials :: wigle_credentials

record upload_response =
  us_status :: int
  us_body :: "go_error + string"

record upload_result =
  ur_transaction :: string
  ur_attempts :: int

text \<open>The network: building a request (its URL may not parse), sending it, the pause, and JSON.\<close>

record 'w http =
  ht_request :: "string \<Rightarrow> go_error option"
  ht_send :: "upload_request \<Rightarrow> ('w, go_error + upload_response) prog"
  ht_wait :: "int \<Rightarrow> ('w, go_error option) prog"
  ht_json :: "string \<Rightarrow> go_error + json"
  ht_fold :: "string \<Rightarrow> string"

record uploader =
  up_base_url :: string
  up_max_attempts :: int
  up_retry_delay :: int

definition transid_spec :: struct_spec where
  "transid_spec = [(''transid'', KString), (''success'', KBool)]"

text \<open>\<open>doUpload\<close>: the transaction id or an error, and whether the error may be retried.\<close>

definition upload_answer :: "'w http \<Rightarrow> upload_response \<Rightarrow> (go_error + string) \<times> bool" where
  "upload_answer h a =
     (case us_body a of
        Inl err \<Rightarrow> (Inl err, True)
      | Inr body \<Rightarrow>
          if us_status a < 200 \<or> us_status a \<ge> 300
          then (Inl (ErrText (''WiGLE API returned HTTP '' @ itoa (us_status a))), us_status a = 429 \<or> us_status a \<ge> 500)
          else (case ht_json h body of
              Inl err \<Rightarrow> (Inl (wrapped ''decode WiGLE response: '' err), False)
            | Inr v \<Rightarrow> (case decode_struct (ht_fold h) transid_spec Map.empty v of
                (m, Some err) \<Rightarrow> (Inl (wrapped ''decode WiGLE response: '' err), False)
              | (m, None) \<Rightarrow> (Inr (str_field m ''transid''), False))))"

definition do_upload :: "'w http \<Rightarrow> string \<Rightarrow> string \<Rightarrow> string \<Rightarrow> wigle_credentials \<Rightarrow> ('w, (go_error + string) \<times> bool) prog" where
  "do_upload h base filename contents c =
     (let url = base @ ''/api/v2/file/upload'' in
      case ht_request h url of
        Some err \<Rightarrow> retP (Inl err, False)
      | None \<Rightarrow>
          bindP (ht_send h \<lparr>uq_url = url, uq_filename = filename, uq_contents = contents, uq_credentials = c\<rparr>) (\<lambda>r.
            case r of Inl err \<Rightarrow> retP (Inl err, True) | Inr a \<Rightarrow> retP (upload_answer h a)))"

text \<open>The loop, with \<open>left\<close> attempts to go after this one.\<close>

fun upload_loop ::
  "'w http \<Rightarrow> ('w, (go_error + string) \<times> bool) prog \<Rightarrow> int \<Rightarrow> int \<Rightarrow> int \<Rightarrow> nat \<Rightarrow> ('w, go_error + upload_result) prog" where
  "upload_loop h try1 delay attempts attempt left =
     bindP try1 (\<lambda>(r, retryable).
       case r of
         Inr tid \<Rightarrow> retP (Inr \<lparr>ur_transaction = tid, ur_attempts = attempt\<rparr>)
       | Inl err \<Rightarrow>
           (let failed = retP (Inl (wrapped (''WiGLE upload failed after '' @ itoa attempts @ '' attempt(s): '') err)) in
            case left of
              0 \<Rightarrow> failed
            | Suc n \<Rightarrow>
                if \<not> retryable then failed
                else bindP (ht_wait h delay) (\<lambda>e. case e of
                    Some cerr \<Rightarrow> retP (Inl cerr)
                  | None \<Rightarrow> upload_loop h try1 delay attempts (attempt + 1) n)))"

declare upload_loop.simps [simp del]

definition second :: int where
  "second = 1000000000"

definition upload ::
  "'w http \<Rightarrow> uploader \<Rightarrow> ('w, go_error + wigle_credentials) prog option \<Rightarrow> string \<Rightarrow> string \<Rightarrow> bool \<Rightarrow> ('w, go_error + upload_result) prog" where
  "upload h u load filename contents confirmed =
     (if \<not> confirmed then retP (Inl err_upload_confirmation)
      else (case load of
          None \<Rightarrow> retP (Inl (ErrText ''WiGLE credentials are not configured in the secure credential store''))
        | Some load \<Rightarrow>
            tryP (wrapped ''load WiGLE credentials: '') load (\<lambda>c.
              if \<not> wigle_complete c then retP (Inl (ErrText ''WiGLE secure credentials are incomplete''))
              else (let base = trim_suffix (up_base_url u) ''/'';
                        base = (if base = [] then wigle_default_url else base);
                        attempts = (if up_max_attempts u \<le> 0 then 3 else up_max_attempts u);
                        delay = (if up_retry_delay u \<le> 0 then second else up_retry_delay u)
                    in upload_loop h (do_upload h base filename contents c) delay attempts 1 (nat (attempts - 1))))))"

end
