(* ===== verification/Laptop_Cli.thy ===== *)
theory Laptop_Cli
  imports Wigle Laptop_Tunnel Go_Flag
begin

section \<open>The laptop's command line\<close>

text \<open>
  \<open>bottle-tui/main.go\<close>: the subcommands \<open>control\<close> and \<open>wigle\<close>, and the live log. The state is what a
  command can touch: files, keyring, the agent behind the transport, WiGLE's server, and what was
  printed. A file is opened and read in one operation. The usage text that the flag package
  prints after a bad flag is left out, as are the exit codes of \<open>main\<close>.
\<close>

subsection \<open>The laptop\<close>

record ('a, 'h) laptop =
  lp_os :: os
  lp_keyring :: keyring
  lp_agent :: 'a
  lp_http :: 'h
  lp_out :: string
  lp_err :: string

text \<open>
  What surrounds a command: \<open>le_input\<close> are the words on standard input and \<open>le_no_input\<close> the error
  when there are no more; \<open>le_listen\<close> binds a local port; \<open>le_tunnel_events\<close> are the events of the tunnel until
  its channel closes; \<open>le_logs\<close> what the live log selects.
\<close>

datatype log_input =
    LogCtx go_error
  | LogEvent event time "go_error option"
  | LogEventsClosed
  | LogErr go_error time "go_error option"
  | LogErrsClosed

record ('a, 'h) laptop_env =
  le_io :: io_env
  le_keyring :: keyring_env
  le_crypto :: crypto
  le_transport :: "'a transport"
  le_http :: "'h http"
  le_csv :: csv_env
  le_parse :: "string \<Rightarrow> go_error + wigle_record list"
  le_fold :: "string \<Rightarrow> string"
  le_atoi :: "string \<Rightarrow> go_error + int"
  le_encode :: encoder
  le_input :: "string list"
  le_no_input :: go_error
  le_listen :: "string \<Rightarrow> go_error + string"
  le_tunnel_events :: "tunnel_event list"
  le_logs :: "log_input list"

type_synonym ('a, 'h, 'r) command = "(('a, 'h) laptop, 'r) prog"

definition at_os :: "(os \<Rightarrow> 'r \<times> os) \<Rightarrow> ('a, 'h, 'r) command" where
  "at_os f s = (case f (lp_os s) of (r, t) \<Rightarrow> (Ret r, s\<lparr>lp_os := t\<rparr>))"

definition at_keyring :: "(keyring, 'r) prog \<Rightarrow> ('a, 'h, 'r) command" where
  "at_keyring m s = (case m (lp_keyring s) of (r, k) \<Rightarrow> (r, s\<lparr>lp_keyring := k\<rparr>))"

definition at_agent :: "('a, 'r) prog \<Rightarrow> ('a, 'h, 'r) command" where
  "at_agent m s = (case m (lp_agent s) of (r, a) \<Rightarrow> (r, s\<lparr>lp_agent := a\<rparr>))"

definition at_http :: "('h, 'r) prog \<Rightarrow> ('a, 'h, 'r) command" where
  "at_http m s = (case m (lp_http s) of (r, h) \<Rightarrow> (r, s\<lparr>lp_http := h\<rparr>))"

definition say :: "string \<Rightarrow> ('a, 'h, unit) command" where
  "say t s = (Ret (), s\<lparr>lp_out := lp_out s @ t\<rparr>)"

definition complain :: "string \<Rightarrow> ('a, 'h, unit) command" where
  "complain t s = (Ret (), s\<lparr>lp_err := lp_err s @ t\<rparr>)"

definition failP :: "go_error \<Rightarrow> ('s, go_error option) prog" where
  "failP e = retP (Some e)"

definition doneP :: "('s, go_error option) prog" where
  "doneP = retP None"

definition orfail :: "('s, go_error + 'r) prog \<Rightarrow> ('r \<Rightarrow> ('s, go_error option) prog) \<Rightarrow> ('s, go_error option) prog" where
  "orfail m f = bindP m (\<lambda>r. case r of Inl e \<Rightarrow> failP e | Inr x \<Rightarrow> f x)"

definition orstop :: "('s, go_error option) prog \<Rightarrow> ('s, go_error option) prog \<Rightarrow> ('s, go_error option) prog" where
  "orstop m k = bindP m (\<lambda>r. case r of Some e \<Rightarrow> failP e | None \<Rightarrow> k)"

definition thenP :: "('s, unit) prog \<Rightarrow> ('s, 'r) prog \<Rightarrow> ('s, 'r) prog" where
  "thenP m k = bindP m (\<lambda>_. k)"

definition ln :: "string \<Rightarrow> string" where
  "ln t = t @ [char_of (10 :: nat)]"

subsection \<open>WiGLE commands\<close>

definition parse_input :: "('a, 'h) laptop_env \<Rightarrow> string list \<Rightarrow> go_error + string" where
  "parse_input env args =
     (case parse_flags [(''input'', FString)] (le_atoi env) Map.empty args of
        Inl err \<Rightarrow> Inl err
      | Inr (vs, rest) \<Rightarrow>
          (let input = flag_string vs ''input'' [] in if input = [] then Inl (ErrText ''preview requires --input'') else Inr input))"

definition load_preview :: "('a, 'h) laptop_env \<Rightarrow> path \<Rightarrow> ('a, 'h, go_error + wigle_record list \<times> preview_result) command" where
  "load_preview env p =
     tryP id (at_os (os_read_file (le_io env) p)) (\<lambda>text.
       retP (case decode_records (le_parse env) text of
           Inl err \<Rightarrow> Inl err
         | Inr rs \<Rightarrow> Inr (rs, preview (ce_fold (le_csv env)) rs)))"

definition print_preview :: "preview_result \<Rightarrow> string" where
  "print_preview p = ln (''Preview: '' @ itoa (int (pv_valid p)) @ '' valid, '' @ itoa (int (pv_invalid p)) @ '' invalid record(s)'') @
     concat (map (\<lambda>i. ln (''  record '' @ itoa (int (pi_index i)) @ '' skipped: '' @ pi_reason i)) (pv_issues p))"

definition cli_metadata :: device_metadata where
  "cli_metadata = \<lparr>dm_app_release = ''0.1.0'', dm_model = ''wifi-water-bottle'', dm_release = [], dm_device = [], dm_brand = []\<rparr>"

text \<open>\<open>os.Create\<close>, the text in one write, and the deferred close, whose error is dropped.\<close>

definition create_and_write :: "io_env \<Rightarrow> path \<Rightarrow> go_error + string \<Rightarrow> os \<Rightarrow> go_error option \<times> os" where
  "create_and_write io p text s =
     (case os_write_file io p [] 438 s of
        (Some err, s) \<Rightarrow> (Some err, s)
      | (None, s) \<Rightarrow>
          (case text of
             Inl err \<Rightarrow> (Some err, snd (file_close io s))
           | Inr t \<Rightarrow> (case file_write io (path_clean p) t s of (r, s) \<Rightarrow> (r, snd (file_close io s)))))"

definition wigle_preview_cmd :: "('a, 'h) laptop_env \<Rightarrow> string list \<Rightarrow> ('a, 'h, go_error option) command" where
  "wigle_preview_cmd env args =
     orfail (retP (parse_input env args)) (\<lambda>input.
     orfail (load_preview env input) (\<lambda>(rs, p). thenP (say (print_preview p)) doneP))"

definition wigle_export_cmd :: "('a, 'h) laptop_env \<Rightarrow> string list \<Rightarrow> ('a, 'h, go_error option) command" where
  "wigle_export_cmd env args =
     orfail (retP (parse_flags [(''input'', FString), (''output'', FString)] (le_atoi env) Map.empty args)) (\<lambda>(vs, rest).
       let input = flag_string vs ''input'' []; output = flag_string vs ''output'' [] in
       if input = [] \<or> output = [] then failP (ErrText ''export requires --input and --output'')
       else orfail (load_preview env input) (\<lambda>(rs, p).
         thenP (say (print_preview p))
         (if pv_valid p = 0 then failP (ErrText ''no valid records to export'')
          else orstop (at_os (create_and_write (le_io env) output (write_csv (le_csv env) (pv_records p) cli_metadata)))
            (thenP (say (ln (''Exported '' @ itoa (int (pv_valid p)) @ '' valid record(s) to '' @ output))) doneP))))"

text \<open>The extension of \<open>filepath.Ext\<close>: from the last dot of the last element.\<close>

definition path_ext :: "path \<Rightarrow> string" where
  "path_ext p =
     (let name = rev (takeWhile (\<lambda>c. c \<noteq> CHR ''/'') (rev p)) in
      if CHR ''.'' \<in> set name then drop (length name - 1 - length (takeWhile (\<lambda>c. c \<noteq> CHR ''.'') (rev name))) name else [])"

definition upload_name :: "path \<Rightarrow> string" where
  "upload_name input = trim_suffix (path_base input) (path_ext input) @ ''.wiglecsv''"

definition wigle_store :: "('a, 'h) laptop_env \<Rightarrow> ('a, 'h, go_error + wigle_credentials) command" where
  "wigle_store env = at_keyring (wigle_load (le_keyring env))"

text \<open>The network of the uploader, as it is reached from a command.\<close>

definition lift_http :: "'h http \<Rightarrow> ('a, 'h) laptop http" where
  "lift_http h = \<lparr>ht_request = ht_request h, ht_send = (\<lambda>q. at_http (ht_send h q)), ht_wait = (\<lambda>d. at_http (ht_wait h d)),
     ht_json = ht_json h, ht_fold = ht_fold h\<rparr>"

definition default_uploader :: uploader where
  "default_uploader = \<lparr>up_base_url = [], up_max_attempts = 0, up_retry_delay = 0\<rparr>"

definition wigle_upload_cmd :: "('a, 'h) laptop_env \<Rightarrow> string list \<Rightarrow> ('a, 'h, go_error option) command" where
  "wigle_upload_cmd env args =
     orfail (retP (parse_flags [(''input'', FString), (''confirm'', FBool)] (le_atoi env) Map.empty args)) (\<lambda>(vs, rest).
       let input = flag_string vs ''input'' [] in
       if input = [] then failP (ErrText ''upload requires --input'')
       else orfail (load_preview env input) (\<lambda>(rs, p).
         thenP (say (print_preview p))
         (if \<not> flag_bool vs ''confirm'' then failP err_upload_confirmation
          else if pv_valid p = 0 then failP (ErrText ''no valid records to upload'')
          else orfail (retP (write_csv (le_csv env) (pv_records p) cli_metadata)) (\<lambda>csv.
            orfail (upload (lift_http (le_http env)) default_uploader (Some (wigle_store env)) (upload_name input) csv True) (\<lambda>r.
            thenP (say (ln (''WiGLE upload accepted: transaction='' @ ur_transaction r @ '' attempts='' @ itoa (ur_attempts r)))) doneP)))))"

definition wigle_credentials_cmd :: "('a, 'h) laptop_env \<Rightarrow> string list \<Rightarrow> ('a, 'h, go_error option) command" where
  "wigle_credentials_cmd env args =
     (if args \<noteq> [''set'']
      then failP (ErrText ''usage: bottle-tui wigle credentials set (reads API name and token from standard input)'')
      else thenP (say ''WiGLE API name: '')
        (case le_input env of
           [] \<Rightarrow> failP (le_no_input env)
         | n # words \<Rightarrow> thenP (say ''WiGLE API token: '')
             (case words of
                [] \<Rightarrow> failP (le_no_input env)
              | t # _ \<Rightarrow> orstop (at_keyring (wigle_save (le_keyring env) \<lparr>wc_api_name = n, wc_token = t\<rparr>))
                  (thenP (say (ln ''WiGLE credentials stored in the operating-system credential store.'')) doneP))))"

subsection \<open>Control commands\<close>

definition read_material :: "('a, 'h) laptop_env \<Rightarrow> path \<Rightarrow> ('a, 'h, go_error + string) command" where
  "read_material env p = tryP (wrapped ''read profile material: '') (at_os (os_read_file (le_io env) p)) (\<lambda>d. retP (Inr d))"

definition profile_import_cmd :: "('a, 'h) laptop_env \<Rightarrow> string list \<Rightarrow> ('a, 'h, go_error option) command" where
  "profile_import_cmd env args =
     orfail (retP (parse_flags [(''ca'', FString), (''cert'', FString), (''key'', FString), (''id'', FString)] (le_atoi env) Map.empty args))
     (\<lambda>(vs, rest).
       let ca = flag_string vs ''ca'' []; cert = flag_string vs ''cert'' []; key = flag_string vs ''key'' []; i = flag_string vs ''id'' [] in
       if ca = [] \<or> cert = [] \<or> key = [] \<or> i = []
       then failP (ErrText ''profile import requires --ca, --cert, --key, and --id'')
       else orfail (read_material env ca) (\<lambda>ca.
         orfail (read_material env cert) (\<lambda>cert.
         orfail (read_material env key) (\<lambda>key.
         orstop (at_keyring (profile_save (le_keyring env) \<lparr>cr_ca_pem = ca, cr_cert_pem = cert, cr_key_pem = key, cr_client_id = i\<rparr>))
           (thenP (say (ln ''Control-plane profile stored in the operating-system credential store.'')) doneP)))))"

definition job_line :: "string \<Rightarrow> remote_job \<Rightarrow> string" where
  "job_line what j = ln (what @ '' '' @ rj_id j @ '': '' @ rj_state j @ '' ('' @ rj_message j @ '')'')"

definition status_line :: "status \<Rightarrow> string" where
  "status_line st = ln (''Pi ready='' @ (if st_ready st then ''true'' else ''false'') @ '' survey='' @ st_survey st @ '' message='' @ st_message st)"

definition status_cmd :: "('a, 'h) laptop_env \<Rightarrow> rpc_client \<Rightarrow> ('a, 'h, go_error option) command" where
  "status_cmd env c =
     bindP (at_agent (rpc_status (le_fold env) (le_transport env) c)) (\<lambda>(st, e).
       case e of Some err \<Rightarrow> failP err | None \<Rightarrow> thenP (say (status_line st)) doneP)"

definition provision_cmd :: "('a, 'h) laptop_env \<Rightarrow> rpc_client \<Rightarrow> string list \<Rightarrow> ('a, 'h, go_error option) command" where
  "provision_cmd env c args =
     orfail (retP (parse_flags [(''request-id'', FString), (''confirm'', FBool)] (le_atoi env) Map.empty args)) (\<lambda>(vs, rest).
       let i = flag_string vs ''request-id'' [] in
       if i = [] then failP (ErrText ''provision requires --request-id'')
       else orfail (at_agent (controller_provision (rpc_job_client (le_fold env) (le_transport env) c)
                \<lparr>rp_request_id = i, rp_confirmed = flag_bool vs ''confirm''\<rparr>))
              (\<lambda>j. thenP (say (job_line ''Provision'' j)) doneP))"

definition update_cmd :: "('a, 'h) laptop_env \<Rightarrow> rpc_client \<Rightarrow> string list \<Rightarrow> ('a, 'h, go_error option) command" where
  "update_cmd env c args =
     orfail (retP (parse_flags [(''request-id'', FString), (''version'', FString), (''channel'', FString), (''confirm'', FBool)]
         (le_atoi env) Map.empty args)) (\<lambda>(vs, rest).
       let i = flag_string vs ''request-id'' []; v = flag_string vs ''version'' [] in
       if i = [] \<or> v = [] then failP (ErrText ''update requires --request-id and --version'')
       else orfail (at_agent (controller_update (rpc_job_client (le_fold env) (le_transport env) c)
                \<lparr>ru_request_id = i, ru_version = v, ru_channel = flag_string vs ''channel'' ''stable'', ru_confirmed = flag_bool vs ''confirm''\<rparr>))
              (\<lambda>j. thenP (say (job_line ''Update'' j)) doneP))"

definition survey_cmd :: "('a, 'h) laptop_env \<Rightarrow> rpc_client \<Rightarrow> string list \<Rightarrow> ('a, 'h, go_error option) command" where
  "survey_cmd env c args =
     (case args of
        [] \<Rightarrow> failP (ErrText ''usage: bottle-tui control survey <start|stop> --confirm'')
      | w # rest \<Rightarrow>
          if w \<noteq> ''start'' \<and> w \<noteq> ''stop'' then failP (ErrText ''usage: bottle-tui control survey <start|stop> --confirm'')
          else orfail (retP (parse_flags [(''confirm'', FBool)] (le_atoi env) Map.empty rest)) (\<lambda>(vs, _).
            orstop (at_agent (rpc_survey (le_transport env) c (w = ''start'') (flag_bool vs ''confirm'')))
              (thenP (say (ln (''Survey '' @ w @ '' requested.''))) doneP)))"

definition status_name :: "tunnel_status \<Rightarrow> string" where
  "status_name st = (case st of StatusStarting \<Rightarrow> ''starting'' | StatusConnected \<Rightarrow> ''connected''
     | StatusReconnecting \<Rightarrow> ''reconnecting'' | StatusClosed \<Rightarrow> ''closed'')"

definition tunnel_event_cmd :: "tunnel_event \<Rightarrow> ('a, 'h, unit) command" where
  "tunnel_event_cmd e =
     (case tv_err e of
        Some err \<Rightarrow> complain (ln (''tunnel '' @ status_name (tv_status e) @ '': '' @ error_text err))
      | None \<Rightarrow> say (ln (''tunnel '' @ status_name (tv_status e) @ '': '' @ tv_message e)))"

fun tunnel_loop :: "tunnel_event list \<Rightarrow> ('a, 'h, go_error option) command" where
  "tunnel_loop [] = doneP"
| "tunnel_loop (e # es) = thenP (tunnel_event_cmd e) (tunnel_loop es)"

definition flag_int :: "flag_values \<Rightarrow> (string \<Rightarrow> go_error + int) \<Rightarrow> string \<Rightarrow> int \<Rightarrow> int" where
  "flag_int vs atoi name dflt = (case vs name of None \<Rightarrow> dflt | Some t \<Rightarrow> (case atoi t of Inl e \<Rightarrow> dflt | Inr i \<Rightarrow> i))"

definition tunnel_cmd :: "('a, 'h) laptop_env \<Rightarrow> rpc_client \<Rightarrow> string list \<Rightarrow> ('a, 'h, go_error option) command" where
  "tunnel_cmd env c args =
     orfail (retP (parse_flags [(''port'', FInt)] (le_atoi env) Map.empty args)) (\<lambda>(vs, rest).
     orfail (retP (new_rpc_opener c)) (\<lambda>opener.
     orfail (retP (tunnel_start (le_listen env) False (flag_int vs (le_atoi env) ''port'' 2501) True)) (\<lambda>t.
       thenP (say (ln (''Kismet tunnel listening at '' @ tunnel_url t))) (tunnel_loop (le_tunnel_events env)))))"

subsection \<open>The live log\<close>

record live_log =
  ll_buffer :: buffer
  ll_events_open :: bool
  ll_errs_open :: bool
  ll_lines :: "string list"

definition err_live :: "string \<Rightarrow> go_error \<Rightarrow> go_error" where
  "err_live pre err = wrapped pre err"

text \<open>Encoding the newest visible event to standard output; indexing an empty list would panic.\<close>

definition live_line :: "encoder \<Rightarrow> string \<Rightarrow> go_error option \<Rightarrow> (live_log, go_error option) prog" where
  "live_line enc what werr l =
     (if visible (ll_buffer l) = [] then (Panic ''index out of range [-1]'', l)
      else (case enc (last (visible (ll_buffer l))) of
          Inl err \<Rightarrow> (Ret (Some (wrapped what err)), l)
        | Inr t \<Rightarrow> (case werr of
            Some err \<Rightarrow> (Ret (Some (wrapped what err)), l)
          | None \<Rightarrow> (Ret None, l\<lparr>ll_lines := ll_lines l @ [t]\<rparr>))))"

definition live_step :: "encoder \<Rightarrow> (string \<Rightarrow> string) \<Rightarrow> log_input \<Rightarrow> (live_log, go_error option) prog" where
  "live_step enc uni i l =
     (case i of
        LogCtx err \<Rightarrow> (Ret (Some err), l)
      | LogEventsClosed \<Rightarrow> (Ret None, l\<lparr>ll_events_open := False\<rparr>)
      | LogErrsClosed \<Rightarrow> (Ret None, l\<lparr>ll_errs_open := False\<rparr>)
      | LogEvent e now werr \<Rightarrow>
          if \<not> ll_events_open l then (Ret None, l)
          else (case buffer_add enc uni now e (ll_buffer l) of
              (Some err, b) \<Rightarrow> (Ret None, l\<lparr>ll_buffer := b\<rparr>)
            | (None, b) \<Rightarrow> live_line enc ''write live log: '' werr (l\<lparr>ll_buffer := b\<rparr>))
      | LogErr err now werr \<Rightarrow>
          if \<not> ll_errs_open l then (Ret None, l)
          else if errors_is err err_rpc_resync
          then live_line enc ''write live log history gap: '' werr
                 (l\<lparr>ll_buffer := mark_history_gap enc now (error_text err) (ll_buffer l)\<rparr>)
          else if errors_is err ctx_canceled then (Ret None, l)
          else (Ret (Some (wrapped ''live log stream: '' err)), l))"

fun live_loop :: "encoder \<Rightarrow> (string \<Rightarrow> string) \<Rightarrow> log_input list \<Rightarrow> (live_log, go_error option) prog" where
  "live_loop enc uni [] = retP None"
| "live_loop enc uni (i # is) = (\<lambda>l.
     if \<not> ll_events_open l \<and> \<not> ll_errs_open l then (Ret None, l)
     else bindP (live_step enc uni i) (\<lambda>r. case r of Some err \<Rightarrow> retP (Some err) | None \<Rightarrow> live_loop enc uni is) l)"

definition new_live_log :: live_log where
  "new_live_log = \<lparr>ll_buffer = new_buffer \<lparr>cfg_max_events = 10000, cfg_max_bytes = 0\<rparr>, ll_events_open = True, ll_errs_open = True, ll_lines = []\<rparr>"

definition logs_cmd :: "('a, 'h) laptop_env \<Rightarrow> ('a, 'h, go_error option) command" where
  "logs_cmd env s =
     (case live_loop (le_encode env) (le_fold env) (le_logs env) new_live_log of
        (r, l) \<Rightarrow> (r, s\<lparr>lp_out := lp_out s @ concat (map ln (ll_lines l))\<rparr>))"

subsection \<open>Dispatch\<close>

definition run_control :: "('a, 'h) laptop_env \<Rightarrow> string list \<Rightarrow> ('a, 'h, go_error option) command" where
  "run_control env args =
     (case args of
        [] \<Rightarrow> failP (ErrText ''usage: bottle-tui control <profile|status|provision|update|survey|tunnel>'')
      | a # rest \<Rightarrow>
          if a = ''profile'' then
            (case rest of
               w # words \<Rightarrow> if w = ''import'' then profile_import_cmd env words
                 else failP (ErrText ''usage: bottle-tui control profile import --ca FILE --cert FILE --key FILE --id ID'')
             | [] \<Rightarrow> failP (ErrText ''usage: bottle-tui control profile import --ca FILE --cert FILE --key FILE --id ID''))
          else
            orfail (at_keyring (profile_load (le_keyring env))) (\<lambda>creds.
            orfail (retP (new_rpc_client (le_crypto env) pi_address creds)) (\<lambda>c.
              if a = ''status'' then status_cmd env c
              else if a = ''provision'' then provision_cmd env c rest
              else if a = ''update'' then update_cmd env c rest
              else if a = ''survey'' then survey_cmd env c rest
              else if a = ''logs'' then logs_cmd env
              else if a = ''tunnel'' then tunnel_cmd env c rest
              else failP (ErrText (''unknown control command '' @ go_quote a)))))"

definition run_cli :: "('a, 'h) laptop_env \<Rightarrow> string list \<Rightarrow> ('a, 'h, go_error option) command" where
  "run_cli env args =
     (case args of
        [] \<Rightarrow> failP (ErrText ''usage: bottle-tui <control|wigle> ...'')
      | a # rest \<Rightarrow>
          if a = ''control'' then run_control env rest
          else if a \<noteq> ''wigle'' then failP (ErrText ''usage: bottle-tui <control|wigle> ...'')
          else (case rest of
              [] \<Rightarrow> failP (ErrText ''usage: bottle-tui wigle <preview|export|upload|credentials> ...'')
            | w # words \<Rightarrow>
                if w = ''preview'' then wigle_preview_cmd env words
                else if w = ''export'' then wigle_export_cmd env words
                else if w = ''upload'' then wigle_upload_cmd env words
                else if w = ''credentials'' then wigle_credentials_cmd env words
                else failP (ErrText (''unknown wigle command '' @ go_quote w))))"

end
