(* ===== verification/Tui_Base.thy ===== *)
theory Tui_Base
  imports Laptop_Cli
begin

section \<open>Messages, commands and the confirmation modal of the console\<close>

text \<open>
  \<open>bottle-tui/internal/tui/\<close>: an Elm-style program. Its screens answer messages with a new state and a
  command; a command is a value of \<open>cmd\<close> here, one constructor for each closure the code builds, and runs
  later. Text fields, spinners and the runtime belong to the Bubble Tea library: a text field is the
  type \<open>'i\<close> with the operations \<open>text_fields\<close>.
\<close>

subsection \<open>Text fields\<close>

record 'i text_fields =
  ti_new :: "string \<Rightarrow> nat \<Rightarrow> 'i"
  ti_value :: "'i \<Rightarrow> string"
  ti_set_value :: "string \<Rightarrow> 'i \<Rightarrow> 'i"
  ti_mask :: "char \<Rightarrow> 'i \<Rightarrow> 'i"
  ti_focus :: "'i \<Rightarrow> 'i"
  ti_blur :: "'i \<Rightarrow> 'i"
  ti_key :: "string \<Rightarrow> 'i \<Rightarrow> 'i \<times> bool"
  ti_other :: "'i \<Rightarrow> 'i \<times> bool"

text \<open>
  \<open>ti_mask\<close> makes a field show one character for every character typed. The flag that the last two
  answer says whether the field asks for another blink of its cursor.
\<close>

subsection \<open>Screens, commands and messages\<close>

datatype screen = ScreenDashboard | ScreenPairing | ScreenProvision | ScreenUpdate | ScreenSurvey | ScreenTunnel | ScreenWigle

definition screen_order :: "screen list" where
  "screen_order = [ScreenDashboard, ScreenPairing, ScreenProvision, ScreenUpdate, ScreenSurvey, ScreenTunnel, ScreenWigle]"

definition screen_index :: "screen \<Rightarrow> nat" where
  "screen_index s = length (takeWhile (\<lambda>v. v \<noteq> s) screen_order)"

definition next_screen :: "screen \<Rightarrow> screen" where
  "next_screen s = screen_order ! ((screen_index s + 1) mod length screen_order)"

definition prev_screen :: "screen \<Rightarrow> screen" where
  "prev_screen s = screen_order ! ((screen_index s + length screen_order - 1) mod length screen_order)"

text \<open>The modal holds a command of the type \<open>'c\<close> back until it is confirmed; a command may ask for a modal.\<close>

datatype ('i, 'c) confirm_model =
    Confirm (cf_title: string) (cf_body: string) (cf_danger: bool) (cf_gate: string) (cf_input: "'i option") (cf_command: 'c) (cf_error: string)

datatype 'i cmd =
    NoCmd
  | Batch "'i cmd list"
  | Sequence "'i cmd list"
  | RequestConfirm "('i, 'i cmd) confirm_model"
  | LoadCredentials
  | FetchStatus
  | TickSpinner screen
  | BlinkCursor
  | PairingSubmit path path path string
  | ProvisionSubmit string
  | UpdateSubmit remote_update
  | SurveyControl bool
  | StartConsumer
  | Consuming event_client consume_loc
  | TickLogs
  | TunnelStart int
  | DrainTunnel nat
  | CloseTunnel "nat option"
  | AwaitClose nat
  | TickTunnel
  | WiglePreview path
  | WigleExport "wigle_record list" path
  | WigleUpload "wigle_record list" string
  | WigleSave wigle_credentials
  | QuitProgram
  | CancelAndQuit

type_synonym 'i confirm = "('i, 'i cmd) confirm_model"

datatype 'i msg =
    Key string
  | WindowSize int int
  | ConfirmRequested "'i confirm"
  | CredentialsLoaded "go_error + credentials"
  | StatusResult status "go_error option"
  | PairingSaved "go_error option"
  | ProvisionResult "go_error + remote_job"
  | UpdateResult "go_error + remote_job"
  | SurveyResult bool "go_error option"
  | ConsumeStopped "go_error option"
  | RefreshLogs
  | TunnelStarted "go_error + nat \<times> string"
  | TunnelTick
  | TunnelClosed
  | WiglePreviewed "go_error + preview_result"
  | WigleExported "go_error + path \<times> nat"
  | WigleUploaded "go_error + upload_result"
  | WigleSaved "go_error option"
  | SpinnerTick nat
  | OtherMsg
  | QuitMsg

definition blink :: "bool \<Rightarrow> 'i cmd" where
  "blink b = (if b then BlinkCursor else NoCmd)"

text \<open>A message reaches a text field as a key or as something else.\<close>

definition field_update :: "'i text_fields \<Rightarrow> 'i msg \<Rightarrow> 'i \<Rightarrow> 'i \<times> 'i cmd" where
  "field_update tf m x = (case (case m of Key k \<Rightarrow> ti_key tf k x | _ \<Rightarrow> ti_other tf x) of (y, b) \<Rightarrow> (y, blink b))"

subsection \<open>The confirmation modal\<close>

definition yes_no_confirm :: "string \<Rightarrow> string \<Rightarrow> bool \<Rightarrow> 'i cmd \<Rightarrow> 'i confirm" where
  "yes_no_confirm title body danger c = Confirm title body danger [] None c []"

definition typed_confirm :: "'i text_fields \<Rightarrow> string \<Rightarrow> string \<Rightarrow> string \<Rightarrow> bool \<Rightarrow> 'i cmd \<Rightarrow> 'i confirm" where
  "typed_confirm tf title body must_type danger c =
     Confirm title body danger must_type (Some (ti_focus tf (ti_new tf must_type 128))) c []"

definition set_input :: "'i option \<Rightarrow> 'i confirm \<Rightarrow> 'i confirm" where
  "set_input x c = Confirm (cf_title c) (cf_body c) (cf_danger c) (cf_gate c) x (cf_command c) (cf_error c)"

definition set_error :: "string \<Rightarrow> 'i confirm \<Rightarrow> 'i confirm" where
  "set_error t c = Confirm (cf_title c) (cf_body c) (cf_danger c) (cf_gate c) (cf_input c) (cf_command c) t"

definition gate_input :: "'i text_fields \<Rightarrow> 'i confirm \<Rightarrow> 'i" where
  "gate_input tf c = (case cf_input c of Some x \<Rightarrow> x | None \<Rightarrow> ti_new tf [] 0)"

definition confirm_field :: "'i text_fields \<Rightarrow> 'i msg \<Rightarrow> 'i confirm \<Rightarrow> 'i confirm \<times> 'i cmd \<times> bool" where
  "confirm_field tf m c = (case field_update tf m (gate_input tf c) of (y, b) \<Rightarrow> (set_input (Some y) c, b, False))"

definition confirm_update :: "'i text_fields \<Rightarrow> 'i msg \<Rightarrow> 'i confirm \<Rightarrow> 'i confirm \<times> 'i cmd \<times> bool" where
  "confirm_update tf m c =
     (case m of
        Key k \<Rightarrow>
          if cf_gate c \<noteq> [] then
            (if k = ''esc'' then (c, NoCmd, True)
             else if k = ''enter'' then
               (if ti_value tf (gate_input tf c) = cf_gate c then (c, cf_command c, True)
                else (set_error ''text does not match; action canceled'' c, NoCmd, True))
             else confirm_field tf m c)
          else if k = ''y'' \<or> k = ''enter'' then (c, cf_command c, True)
          else if k = ''n'' \<or> k = ''esc'' then (c, NoCmd, True)
          else (c, NoCmd, False)
      | _ \<Rightarrow> if cf_gate c \<noteq> [] then confirm_field tf m c else (c, NoCmd, False))"

subsection \<open>The engine\<close>

text \<open>
  What all screens and commands share: the client, set once a profile is loaded, the event buffer, the
  tunnels that were started, with the events drained from them (a handle is a position in this
  list), and whether the root context is cancelled.
\<close>

record engine =
  en_client :: "rpc_client option"
  en_buffer :: buffer

record tunnel_handle =
  th_tunnel :: tunnel
  th_history :: "tunnel_event list"

record ui_heap = engine +
  uh_handles :: "tunnel_handle list"
  uh_cancelled :: bool

definition new_engine :: engine where
  "new_engine = \<lparr>en_client = None, en_buffer = new_buffer \<lparr>cfg_max_events = 0, cfg_max_bytes = 0\<rparr>\<rparr>"

definition new_heap :: ui_heap where
  "new_heap = engine.extend new_engine (ui_heap.fields [] False)"

definition history_append :: "tunnel_event \<Rightarrow> tunnel_handle \<Rightarrow> tunnel_handle" where
  "history_append e h =
     (let h = h\<lparr>th_history := th_history h @ [e]\<rparr> in
      if length (th_history h) > 200 then h\<lparr>th_history := drop (length (th_history h) - 200) (th_history h)\<rparr> else h)"

definition snapshot :: "nat option \<Rightarrow> (ui_heap, tunnel_event list) prog" where
  "snapshot h s =
     (case h of
        None \<Rightarrow> (Panic ''invalid memory address or nil pointer dereference'', s)
      | Some i \<Rightarrow> (Ret (th_history (uh_handles s ! i)), s))"

definition get_client :: "(ui_heap, rpc_client option) prog" where
  "get_client s = (Ret (en_client s), s)"

definition set_client :: "rpc_client \<Rightarrow> (ui_heap, unit) prog" where
  "set_client c s = (Ret (), s\<lparr>en_client := Some c\<rparr>)"

definition on_buffer :: "(buffer \<Rightarrow> 'r \<times> buffer) \<Rightarrow> (ui_heap, 'r) prog" where
  "on_buffer f s = (case f (en_buffer s) of (r, b) \<Rightarrow> (Ret r, s\<lparr>en_buffer := b\<rparr>))"

text \<open>The seams of \<open>AppDeps\<close>, and how \<open>DefaultAppDeps\<close> fills them.\<close>

record ('a, 'h) app_deps =
  ad_load_profile :: "('a, 'h, go_error + credentials) command"
  ad_save_profile :: "credentials \<Rightarrow> ('a, 'h, go_error option) command"
  ad_new_client :: "string \<Rightarrow> credentials \<Rightarrow> go_error + rpc_client"
  ad_load_wigle :: "('a, 'h, go_error + wigle_credentials) command"
  ad_save_wigle :: "wigle_credentials \<Rightarrow> ('a, 'h, go_error option) command"

definition default_app_deps :: "('a, 'h) laptop_env \<Rightarrow> ('a, 'h) app_deps" where
  "default_app_deps env = \<lparr>ad_load_profile = at_keyring (profile_load (le_keyring env)),
     ad_save_profile = (\<lambda>c. at_keyring (profile_save (le_keyring env) c)),
     ad_new_client = new_rpc_client (le_crypto env),
     ad_load_wigle = at_keyring (wigle_load (le_keyring env)),
     ad_save_wigle = (\<lambda>c. at_keyring (wigle_save (le_keyring env) c))\<rparr>"

text \<open>
  What a screen depends on. \<open>ue_spin s n\<close> says whether the spinner of screen \<open>s\<close> takes the tick
  \<open>n\<close> for its own and asks for the next.
\<close>

record 'i ui_env =
  ue_fields :: "'i text_fields"
  ue_new_client :: "string \<Rightarrow> credentials \<Rightarrow> go_error + rpc_client"
  ue_atoi :: "string \<Rightarrow> go_error + int"
  ue_spin :: "screen \<Rightarrow> nat \<Rightarrow> bool"

definition spin :: "'i ui_env \<Rightarrow> screen \<Rightarrow> nat \<Rightarrow> 'i cmd" where
  "spin env s n = (if ue_spin env s n then TickSpinner s else NoCmd)"

definition err_no_profile :: go_error where
  "err_no_profile = ErrText ''no paired profile loaded''"

end
