(* ===== verification/Tui_Screens.thy ===== *)
theory Tui_Screens
  imports Tui_Base
begin

section \<open>The screens of the console\<close>

text \<open>
  \<open>dashboard.go\<close>, \<open>pairing.go\<close>, \<open>provision.go\<close>, \<open>update.go\<close>, \<open>logs.go\<close>, \<open>survey.go\<close>, \<open>tunnel.go\<close> and
  \<open>wigle.go\<close>: for each screen its state, its initial state and its \<open>Update\<close>, a program over the shared
  heap that gives the new state and a command. A result whose error is set carries the zero value
  beside it (a status what was decoded of it). The \<open>View\<close> functions are in \<open>Tui_View\<close>; the spinners' frames and the scrolling of
  the log are the library's.
\<close>

type_synonym ('i, 'm) update = "'i ui_env \<Rightarrow> 'i msg \<Rightarrow> 'm \<Rightarrow> (ui_heap, 'm \<times> 'i cmd) prog"

definition stay :: "'m \<Rightarrow> (ui_heap, 'm \<times> 'i cmd) prog" where
  "stay m = retP (m, NoCmd)"

definition go_field :: "'i text_fields \<Rightarrow> 'i msg \<Rightarrow> 'i \<Rightarrow> ('i \<Rightarrow> 'm) \<Rightarrow> (ui_heap, 'm \<times> 'i cmd) prog" where
  "go_field tf msg x f = (case field_update tf msg x of (y, c) \<Rightarrow> retP (f y, c))"

text \<open>Moving the focus of a row of fields from the field \<open>i\<close> to the field \<open>j\<close>.\<close>

definition refocus :: "'i text_fields \<Rightarrow> nat \<Rightarrow> nat \<Rightarrow> 'i list \<Rightarrow> 'i list" where
  "refocus tf i j xs = (let xs = xs[i := ti_blur tf (xs ! i)] in xs[j := ti_focus tf (xs ! j)])"

subsection \<open>Dashboard\<close>

record dashboard =
  db_loading :: bool
  db_paired :: bool
  db_cred_err :: "go_error option"
  db_status :: status
  db_status_err :: "go_error option"
  db_have_fetch :: bool

definition new_dashboard :: dashboard where
  "new_dashboard = \<lparr>db_loading = False, db_paired = False, db_cred_err = None, db_status = no_agent_status,
     db_status_err = None, db_have_fetch = False\<rparr>"

definition dashboard_update :: "('i, dashboard) update" where
  "dashboard_update env msg m =
     (case msg of
        CredentialsLoaded r \<Rightarrow>
          (let m = m\<lparr>db_loading := False\<rparr> in
           case r of
             Inl err \<Rightarrow> stay (m\<lparr>db_paired := False, db_cred_err := Some err\<rparr>)
           | Inr creds \<Rightarrow>
               (let m = m\<lparr>db_paired := True, db_cred_err := None\<rparr> in
                case ue_new_client env pi_address creds of
                  Inl err \<Rightarrow> stay (m\<lparr>db_status_err := Some err\<rparr>)
                | Inr c \<Rightarrow> bindP (set_client c) (\<lambda>_.
                    retP (m\<lparr>db_loading := True\<rparr>, Batch [TickSpinner ScreenDashboard, FetchStatus]))))
      | StatusResult st e \<Rightarrow> stay (m\<lparr>db_loading := False, db_have_fetch := True, db_status := st, db_status_err := e\<rparr>)
      | SpinnerTick n \<Rightarrow> if \<not> db_loading m then stay m else retP (m, spin env ScreenDashboard n)
      | Key k \<Rightarrow>
          if k = ''r'' \<and> db_paired m
          then retP (m\<lparr>db_loading := True\<rparr>, Batch [TickSpinner ScreenDashboard, FetchStatus]) else stay m
      | _ \<Rightarrow> stay m)"

subsection \<open>Pairing\<close>

record 'i pairing =
  pa_inputs :: "'i list"
  pa_focus :: nat
  pa_saving :: bool
  pa_err :: "go_error option"
  pa_success :: bool

definition new_fields :: "'i text_fields \<Rightarrow> string list \<Rightarrow> nat \<Rightarrow> 'i list" where
  "new_fields tf placeholders most = (let xs = map (\<lambda>p. ti_new tf p most) placeholders in xs[0 := ti_focus tf (xs ! 0)])"

definition new_pairing :: "'i text_fields \<Rightarrow> 'i pairing" where
  "new_pairing tf = \<lparr>pa_inputs = new_fields tf [''CA PEM path'', ''Client cert PEM path'', ''Client key PEM path'', ''Profile ID''] 512,
     pa_focus = 0, pa_saving = False, pa_err = None, pa_success = False\<rparr>"

definition pairing_submit :: "'i text_fields \<Rightarrow> 'i pairing \<Rightarrow> 'i cmd" where
  "pairing_submit tf m = (let v = (\<lambda>i. ti_value tf (pa_inputs m ! i)) in PairingSubmit (v 0) (v 1) (v 2) (v 3))"

definition pairing_focus :: "'i text_fields \<Rightarrow> nat \<Rightarrow> 'i pairing \<Rightarrow> 'i pairing" where
  "pairing_focus tf j m = m\<lparr>pa_inputs := refocus tf (pa_focus m) j (pa_inputs m), pa_focus := j\<rparr>"

definition pairing_field :: "'i ui_env \<Rightarrow> 'i msg \<Rightarrow> 'i pairing \<Rightarrow> (ui_heap, 'i pairing \<times> 'i cmd) prog" where
  "pairing_field env msg m =
     go_field (ue_fields env) msg (pa_inputs m ! pa_focus m) (\<lambda>y. m\<lparr>pa_inputs := (pa_inputs m)[pa_focus m := y]\<rparr>)"

definition pairing_update :: "('i, 'i pairing) update" where
  "pairing_update env msg m =
     (case msg of
        PairingSaved e \<Rightarrow>
          (let m = m\<lparr>pa_saving := False, pa_err := e, pa_success := (e = None)\<rparr> in
           if e = None then retP (m, LoadCredentials) else stay m)
      | Key k \<Rightarrow>
          if k = ''tab'' \<or> k = ''down'' then stay (pairing_focus (ue_fields env) ((pa_focus m + 1) mod 4) m)
          else if k = ''shift+tab'' \<or> k = ''up'' then stay (pairing_focus (ue_fields env) ((pa_focus m + 3) mod 4) m)
          else if k = ''enter'' then
            (if pa_focus m = 3
             then retP (m\<lparr>pa_saving := True, pa_err := None, pa_success := False\<rparr>, pairing_submit (ue_fields env) m)
             else stay (pairing_focus (ue_fields env) ((pa_focus m + 1) mod 4) m))
          else pairing_field env msg m
      | _ \<Rightarrow> pairing_field env msg m)"

subsection \<open>Provision\<close>

record 'i provision =
  po_request_id :: 'i
  po_submitting :: bool
  po_job :: remote_job
  po_err :: "go_error option"
  po_have_result :: bool

definition no_remote_job :: remote_job where
  "no_remote_job = \<lparr>rj_id = [], rj_state = [], rj_message = []\<rparr>"

definition new_provision :: "'i text_fields \<Rightarrow> 'i provision" where
  "new_provision tf = \<lparr>po_request_id = ti_focus tf (ti_new tf ''provision-2026-08-14'' 128), po_submitting = False,
     po_job = no_remote_job, po_err = None, po_have_result = False\<rparr>"

definition provision_confirm :: "'i text_fields \<Rightarrow> string \<Rightarrow> 'i confirm" where
  "provision_confirm tf i = typed_confirm tf ''Confirm provision''
     ''This reconfigures the Pi: backup existing config, install packages, configure services, enable them, then health-check. Retype the request ID to proceed.''
     i False (ProvisionSubmit i)"

definition provision_field :: "'i ui_env \<Rightarrow> 'i msg \<Rightarrow> 'i provision \<Rightarrow> (ui_heap, 'i provision \<times> 'i cmd) prog" where
  "provision_field env msg m = go_field (ue_fields env) msg (po_request_id m) (\<lambda>y. m\<lparr>po_request_id := y\<rparr>)"

definition job_result :: "go_error + remote_job \<Rightarrow> remote_job \<times> go_error option" where
  "job_result r = (case r of Inl err \<Rightarrow> (no_remote_job, Some err) | Inr j \<Rightarrow> (j, None))"

definition provision_update :: "('i, 'i provision) update" where
  "provision_update env msg m =
     (case msg of
        ProvisionResult r \<Rightarrow>
          stay (m\<lparr>po_submitting := False, po_have_result := True, po_job := fst (job_result r), po_err := snd (job_result r)\<rparr>)
      | SpinnerTick n \<Rightarrow> if \<not> po_submitting m then stay m else retP (m, spin env ScreenProvision n)
      | Key k \<Rightarrow>
          if k = ''enter'' then bindP get_client (\<lambda>client.
            let i = trim_space (ti_value (ue_fields env) (po_request_id m)) in
            if i = [] \<or> client = None then stay m
            else retP (m\<lparr>po_submitting := True, po_have_result := False\<rparr>, RequestConfirm (provision_confirm (ue_fields env) i)))
          else provision_field env msg m
      | _ \<Rightarrow> provision_field env msg m)"

subsection \<open>Update\<close>

record 'i update_screen =
  us_inputs :: "'i list"
  us_focus :: nat
  us_submitting :: bool
  us_job :: remote_job
  us_err :: "go_error option"
  us_have_result :: bool

definition new_update_screen :: "'i text_fields \<Rightarrow> 'i update_screen" where
  "new_update_screen tf =
     (let xs = map (\<lambda>p. ti_new tf p 128) [''update-2026-08-14'', ''v2'', ''stable'']; xs = xs[2 := ti_set_value tf ''stable'' (xs ! 2)]
      in \<lparr>us_inputs = xs[0 := ti_focus tf (xs ! 0)], us_focus = 0, us_submitting = False, us_job = no_remote_job, us_err = None,
          us_have_result = False\<rparr>)"

definition update_request :: "'i text_fields \<Rightarrow> 'i update_screen \<Rightarrow> remote_update" where
  "update_request tf m = (let v = (\<lambda>i. trim_space (ti_value tf (us_inputs m ! i))) in
     \<lparr>ru_request_id = v 0, ru_version = v 1, ru_channel = v 2, ru_confirmed = True\<rparr>)"

definition update_warning :: "remote_update \<Rightarrow> string" where
  "update_warning q = ''This activates release '' @ go_quote (ru_version q) @ '' on channel '' @ go_quote (ru_channel q) @
     '', with automatic rollback if the post-update health check fails. Retype the version to proceed.''"

definition update_confirm :: "'i text_fields \<Rightarrow> remote_update \<Rightarrow> 'i confirm" where
  "update_confirm tf q = typed_confirm tf ''Confirm update'' (update_warning q) (ru_version q) True (UpdateSubmit q)"

definition update_focus :: "'i text_fields \<Rightarrow> nat \<Rightarrow> 'i update_screen \<Rightarrow> 'i update_screen" where
  "update_focus tf j m = m\<lparr>us_inputs := refocus tf (us_focus m) j (us_inputs m), us_focus := j\<rparr>"

definition update_field :: "'i ui_env \<Rightarrow> 'i msg \<Rightarrow> 'i update_screen \<Rightarrow> (ui_heap, 'i update_screen \<times> 'i cmd) prog" where
  "update_field env msg m =
     go_field (ue_fields env) msg (us_inputs m ! us_focus m) (\<lambda>y. m\<lparr>us_inputs := (us_inputs m)[us_focus m := y]\<rparr>)"

definition update_update :: "('i, 'i update_screen) update" where
  "update_update env msg m =
     (case msg of
        UpdateResult r \<Rightarrow>
          stay (m\<lparr>us_submitting := False, us_have_result := True, us_job := fst (job_result r), us_err := snd (job_result r)\<rparr>)
      | SpinnerTick n \<Rightarrow> if \<not> us_submitting m then stay m else retP (m, spin env ScreenUpdate n)
      | Key k \<Rightarrow>
          if k = ''tab'' \<or> k = ''down'' then stay (update_focus (ue_fields env) ((us_focus m + 1) mod 3) m)
          else if k = ''shift+tab'' \<or> k = ''up'' then stay (update_focus (ue_fields env) ((us_focus m + 2) mod 3) m)
          else if k = ''enter'' then bindP get_client (\<lambda>client.
            let q = update_request (ue_fields env) m in
            if ru_request_id q = [] \<or> ru_version q = [] \<or> client = None then stay m
            else retP (m\<lparr>us_submitting := True, us_have_result := False\<rparr>, RequestConfirm (update_confirm (ue_fields env) q)))
          else update_field env msg m
      | _ \<Rightarrow> update_field env msg m)"

subsection \<open>Live log and survey\<close>

text \<open>What \<open>render\<close> puts in the viewport is the list \<open>lm_content\<close>, as events.\<close>

record logs =
  lm_content :: "event list"
  lm_width :: int
  lm_height :: int
  lm_paused :: bool
  lm_disconnected :: bool
  lm_err :: "go_error option"
  lm_started :: bool

definition new_logs :: logs where
  "new_logs = \<lparr>lm_content = [], lm_width = 0, lm_height = 0, lm_paused = False, lm_disconnected = False, lm_err = None, lm_started = False\<rparr>"

definition render :: "logs \<Rightarrow> (ui_heap, logs) prog" where
  "render m = bindP (on_buffer (\<lambda>b. (visible b, b))) (\<lambda>events. retP (m\<lparr>lm_content := events\<rparr>))"

definition logs_update :: "('i, logs) update" where
  "logs_update env msg m =
     (case msg of
        RefreshLogs \<Rightarrow> if \<not> lm_started m then stay m else bindP (render m) (\<lambda>m. retP (m, TickLogs))
      | ConsumeStopped e \<Rightarrow> stay (m\<lparr>lm_disconnected := True, lm_err := e\<rparr>)
      | Key k \<Rightarrow>
          if k = ''p'' then
            (let m = m\<lparr>lm_paused := \<not> lm_paused m\<rparr> in
             bindP (on_buffer (\<lambda>b. ((), set_paused (lm_paused m) b))) (\<lambda>_. bindP (render m) stay))
          else stay m
      | _ \<Rightarrow> stay m)"

definition logs_set_size :: "int \<Rightarrow> int \<Rightarrow> logs \<Rightarrow> (ui_heap, logs) prog" where
  "logs_set_size w h m = render (m\<lparr>lm_width := w, lm_height := h\<rparr>)"

record survey =
  sy_logs :: logs
  sy_consumer_started :: bool
  sy_last_action :: string
  sy_last_err :: "go_error option"

definition new_survey :: survey where
  "new_survey = \<lparr>sy_logs = new_logs, sy_consumer_started = False, sy_last_action = [], sy_last_err = None\<rparr>"

definition survey_activate :: "survey \<Rightarrow> survey \<times> 'i cmd" where
  "survey_activate m =
     (if sy_consumer_started m then (m, NoCmd)
      else (m\<lparr>sy_consumer_started := True, sy_logs := (sy_logs m)\<lparr>lm_started := True, lm_disconnected := False\<rparr>\<rparr>,
        Batch [TickLogs, StartConsumer]))"

definition survey_confirm :: "bool \<Rightarrow> 'i confirm" where
  "survey_confirm start =
     (if start then yes_no_confirm ''Confirm survey start'' ''This begins active collection on the Pi.'' False (SurveyControl True)
      else yes_no_confirm ''Confirm survey stop'' ''This ends the in-progress survey on the Pi.'' False (SurveyControl False))"

definition survey_update :: "('i, survey) update" where
  "survey_update env msg m =
     (let to_logs = bindP (logs_update env msg (sy_logs m)) (\<lambda>(l, c). retP (m\<lparr>sy_logs := l\<rparr>, c)) in
      case msg of
        SurveyResult start r \<Rightarrow>
          (case r of
             Some err \<Rightarrow> stay (m\<lparr>sy_last_err := Some err\<rparr>)
           | None \<Rightarrow> stay (m\<lparr>sy_last_err := None, sy_last_action := (if start then ''start'' else ''stop'') @ '' requested''\<rparr>))
      | Key k \<Rightarrow>
          if k = ''s'' \<or> k = ''x'' then bindP get_client (\<lambda>client.
            if client = None then stay m else retP (m, RequestConfirm (survey_confirm (k = ''s''))))
          else to_logs
      | _ \<Rightarrow> to_logs)"

definition survey_set_size :: "int \<Rightarrow> int \<Rightarrow> survey \<Rightarrow> (ui_heap, survey) prog" where
  "survey_set_size w h m = bindP (logs_set_size w (h - 2) (sy_logs m)) (\<lambda>l. retP (m\<lparr>sy_logs := l\<rparr>))"

subsection \<open>Tunnel\<close>

record 'i tunnel_screen =
  tu_port :: 'i
  tu_handle :: "nat option"
  tu_url :: string
  tu_running :: bool
  tu_closing :: bool
  tu_err :: "go_error option"
  tu_history :: "tunnel_event list"

definition new_tunnel_screen :: "'i text_fields \<Rightarrow> 'i tunnel_screen" where
  "new_tunnel_screen tf = \<lparr>tu_port = ti_focus tf (ti_set_value tf ''2501'' (ti_new tf [] 5)), tu_handle = None, tu_url = [], tu_running = False,
     tu_closing = False, tu_err = None, tu_history = []\<rparr>"

definition tunnel_field :: "'i ui_env \<Rightarrow> 'i msg \<Rightarrow> 'i tunnel_screen \<Rightarrow> (ui_heap, 'i tunnel_screen \<times> 'i cmd) prog" where
  "tunnel_field env msg m =
     (if \<not> tu_running m then go_field (ue_fields env) msg (tu_port m) (\<lambda>y. m\<lparr>tu_port := y\<rparr>) else stay m)"

definition tunnel_update :: "('i, 'i tunnel_screen) update" where
  "tunnel_update env msg m =
     (case msg of
        TunnelStarted r \<Rightarrow>
          (case r of
             Inl err \<Rightarrow> stay (m\<lparr>tu_err := Some err\<rparr>)
           | Inr (h, url) \<Rightarrow>
               retP (m\<lparr>tu_err := None, tu_handle := Some h, tu_url := url, tu_running := True\<rparr>, Batch [DrainTunnel h, TickTunnel]))
      | TunnelTick \<Rightarrow>
          if \<not> tu_running m then stay m
          else bindP (snapshot (tu_handle m)) (\<lambda>es. retP (m\<lparr>tu_history := es\<rparr>, TickTunnel))
      | TunnelClosed \<Rightarrow>
          (let m = m\<lparr>tu_running := False, tu_closing := False\<rparr> in
           if tu_handle m = None then stay m else bindP (snapshot (tu_handle m)) (\<lambda>es. stay (m\<lparr>tu_history := es\<rparr>)))
      | Key k \<Rightarrow>
          if k = ''t'' then bindP get_client (\<lambda>client.
            if tu_running m \<or> client = None then stay m
            else (let port = ti_value (ue_fields env) (tu_port m) in
              case ue_atoi env port of
                Inl _ \<Rightarrow> stay (m\<lparr>tu_err := Some (ErrText (''invalid port '' @ go_quote port))\<rparr>)
              | Inr n \<Rightarrow> retP (m\<lparr>tu_err := None\<rparr>, TunnelStart n)))
          else if k = ''c'' then
            (case tu_handle m of
               None \<Rightarrow> stay m
             | Some h \<Rightarrow> if \<not> tu_running m then stay m else retP (m\<lparr>tu_closing := True\<rparr>, CloseTunnel (Some h)))
          else tunnel_field env msg m
      | _ \<Rightarrow> tunnel_field env msg m)"

subsection \<open>WiGLE\<close>

datatype wigle_mode = WigleBrowse | WigleCredentials

record 'i wigle_screen =
  wg_mode :: wigle_mode
  wg_inputs :: "'i list"
  wg_focus :: nat
  wg_cred_name :: 'i
  wg_cred_token :: 'i
  wg_cred_focus_token :: bool
  wg_cred_err :: "go_error option"
  wg_cred_saved :: bool
  wg_have_preview :: bool
  wg_preview :: preview_result
  wg_preview_err :: "go_error option"
  wg_rows :: "string list list"
  wg_export_msg :: string
  wg_export_err :: "go_error option"
  wg_upload_result :: upload_result
  wg_upload_err :: "go_error option"

definition no_preview :: preview_result where
  "no_preview = \<lparr>pv_records = [], pv_issues = [], pv_valid = 0, pv_invalid = 0\<rparr>"

definition no_upload :: upload_result where
  "no_upload = \<lparr>ur_transaction = [], ur_attempts = 0\<rparr>"

definition new_wigle_screen :: "'i text_fields \<Rightarrow> 'i wigle_screen" where
  "new_wigle_screen tf = \<lparr>wg_mode = WigleBrowse, wg_inputs = new_fields tf [''capture.json'', ''capture.wiglecsv''] 0, wg_focus = 0,
     wg_cred_name = ti_new tf ''WiGLE API name'' 0, wg_cred_token = ti_mask tf (CHR ''*'') (ti_new tf ''WiGLE API token'' 0), wg_cred_focus_token = False,
     wg_cred_err = None, wg_cred_saved = False, wg_have_preview = False, wg_preview = no_preview, wg_preview_err = None, wg_rows = [],
     wg_export_msg = [], wg_export_err = None, wg_upload_result = no_upload, wg_upload_err = None\<rparr>"

definition preview_row :: "wigle_record \<Rightarrow> string list" where
  "preview_row r = [wr_bssid r, wr_ssid r, wr_auth_mode r, itoa (wr_channel r), itoa (wr_rssi r)]"

definition wigle_field :: "'i ui_env \<Rightarrow> 'i msg \<Rightarrow> 'i wigle_screen \<Rightarrow> (ui_heap, 'i wigle_screen \<times> 'i cmd) prog" where
  "wigle_field env msg m =
     (if wg_mode m = WigleCredentials then
        (if wg_cred_focus_token m then go_field (ue_fields env) msg (wg_cred_token m) (\<lambda>y. m\<lparr>wg_cred_token := y\<rparr>)
         else go_field (ue_fields env) msg (wg_cred_name m) (\<lambda>y. m\<lparr>wg_cred_name := y\<rparr>))
      else go_field (ue_fields env) msg (wg_inputs m ! wg_focus m) (\<lambda>y. m\<lparr>wg_inputs := (wg_inputs m)[wg_focus m := y]\<rparr>))"

definition wigle_switch_field :: "'i text_fields \<Rightarrow> 'i wigle_screen \<Rightarrow> 'i wigle_screen" where
  "wigle_switch_field tf m =
     (if \<not> wg_cred_focus_token m
      then m\<lparr>wg_cred_focus_token := True, wg_cred_name := ti_blur tf (wg_cred_name m), wg_cred_token := ti_focus tf (wg_cred_token m)\<rparr>
      else m\<lparr>wg_cred_focus_token := False, wg_cred_token := ti_blur tf (wg_cred_token m), wg_cred_name := ti_focus tf (wg_cred_name m)\<rparr>)"

definition wigle_credentials_key :: "'i ui_env \<Rightarrow> string \<Rightarrow> 'i wigle_screen \<Rightarrow> (ui_heap, 'i wigle_screen \<times> 'i cmd) prog" where
  "wigle_credentials_key env k m =
     (let tf = ue_fields env in
      if k = ''esc'' then stay (m\<lparr>wg_mode := WigleBrowse\<rparr>)
      else if k = ''tab'' \<or> k = ''down'' \<or> k = ''up'' then stay (wigle_switch_field tf m)
      else if k = ''enter''
      then retP (m, WigleSave \<lparr>wc_api_name = ti_value tf (wg_cred_name m), wc_token = ti_value tf (wg_cred_token m)\<rparr>)
      else wigle_field env (Key k) m)"

definition upload_warning :: "nat \<Rightarrow> string" where
  "upload_warning n = ''This uploads '' @ itoa (int n) @ '' valid Wi-Fi record(s) to api.wigle.net under your WiGLE account.''"

definition wigle_confirm :: "'i text_fields \<Rightarrow> 'i wigle_screen \<Rightarrow> 'i confirm" where
  "wigle_confirm tf m =
     (let filename = ti_value tf (wg_inputs m ! 1); filename = (if filename = [] then ''capture.wiglecsv'' else filename) in
      yes_no_confirm ''Confirm WiGLE upload'' (upload_warning (pv_valid (wg_preview m))) True (WigleUpload (pv_records (wg_preview m)) filename))"

definition wigle_browse_key :: "'i ui_env \<Rightarrow> string \<Rightarrow> 'i wigle_screen \<Rightarrow> (ui_heap, 'i wigle_screen \<times> 'i cmd) prog" where
  "wigle_browse_key env k m =
     (let tf = ue_fields env in
      if k = ''c''
      then stay (m\<lparr>wg_mode := WigleCredentials, wg_cred_name := ti_focus tf (wg_cred_name m), wg_cred_focus_token := False\<rparr>)
      else if k = ''tab''
      then stay (m\<lparr>wg_inputs := refocus tf (wg_focus m) ((wg_focus m + 1) mod 2) (wg_inputs m), wg_focus := (wg_focus m + 1) mod 2\<rparr>)
      else if k = ''enter'' then
        (let p = ti_value tf (wg_inputs m ! 0) in if p = [] then stay m else retP (m, WiglePreview p))
      else if k = ''e'' then
        (if \<not> wg_have_preview m then stay m
         else retP (m, WigleExport (pv_records (wg_preview m)) (ti_value tf (wg_inputs m ! 1))))
      else if k = ''u'' then
        (if \<not> wg_have_preview m \<or> pv_valid (wg_preview m) = 0 then stay m else retP (m, RequestConfirm (wigle_confirm tf m)))
      else wigle_field env (Key k) m)"

definition wigle_update :: "('i, 'i wigle_screen) update" where
  "wigle_update env msg m =
     (case msg of
        WiglePreviewed r \<Rightarrow>
          (let m = m\<lparr>wg_export_msg := [], wg_export_err := None, wg_upload_err := None\<rparr> in
           case r of
             Inl err \<Rightarrow> stay (m\<lparr>wg_have_preview := False, wg_preview := no_preview, wg_preview_err := Some err\<rparr>)
           | Inr p \<Rightarrow> stay (m\<lparr>wg_have_preview := True, wg_preview := p, wg_preview_err := None, wg_rows := map preview_row (pv_records p)\<rparr>))
      | WigleExported r \<Rightarrow>
          (case r of
             Inl err \<Rightarrow> stay (m\<lparr>wg_export_err := Some err\<rparr>)
           | Inr (p, n) \<Rightarrow> stay (m\<lparr>wg_export_err := None, wg_export_msg := ''exported '' @ itoa (int n) @ '' record(s) to '' @ p\<rparr>))
      | WigleUploaded r \<Rightarrow>
          (case r of
             Inl err \<Rightarrow> stay (m\<lparr>wg_upload_result := no_upload, wg_upload_err := Some err\<rparr>)
           | Inr u \<Rightarrow> stay (m\<lparr>wg_upload_result := u, wg_upload_err := None\<rparr>))
      | WigleSaved e \<Rightarrow> stay (m\<lparr>wg_cred_err := e, wg_cred_saved := (e = None)\<rparr>)
      | Key k \<Rightarrow> (if wg_mode m = WigleCredentials then wigle_credentials_key env k m else wigle_browse_key env k m)
      | _ \<Rightarrow> wigle_field env msg m)"

end
