(* ===== verification/Tui_App.thy ===== *)
theory Tui_App
  imports Tui_Screens
begin

section \<open>The console\<close>

text \<open>
  \<open>app.go\<close> with the bindings of \<open>keys.go\<close>: the root model that routes messages, what each command does,
  and the program as the runtime drives it, a step relation over waiting commands and messages.
\<close>

subsection \<open>State\<close>

record 'i app =
  ap_width :: int
  ap_height :: int
  ap_active :: screen
  ap_full_help :: bool
  ap_confirm :: "'i confirm option"
  ap_dashboard :: dashboard
  ap_pairing :: "'i pairing"
  ap_provision :: "'i provision"
  ap_update :: "'i update_screen"
  ap_survey :: survey
  ap_tunnel :: "'i tunnel_screen"
  ap_wigle :: "'i wigle_screen"

definition new_app :: "'i text_fields \<Rightarrow> 'i app" where
  "new_app tf = \<lparr>ap_width = 0, ap_height = 0, ap_active = ScreenDashboard, ap_full_help = False, ap_confirm = None,
     ap_dashboard = new_dashboard, ap_pairing = new_pairing tf, ap_provision = new_provision tf, ap_update = new_update_screen tf,
     ap_survey = new_survey, ap_tunnel = new_tunnel_screen tf, ap_wigle = new_wigle_screen tf\<rparr>"

definition app_init :: "'i cmd" where
  "app_init = LoadCredentials"

subsection \<open>Routing\<close>

definition active_focused :: "'i app \<Rightarrow> bool" where
  "active_focused m \<longleftrightarrow>
     (case ap_active m of ScreenDashboard \<Rightarrow> False | ScreenSurvey \<Rightarrow> False | ScreenTunnel \<Rightarrow> \<not> tu_running (ap_tunnel m) | _ \<Rightarrow> True)"

definition set_active :: "screen \<Rightarrow> 'i app \<Rightarrow> 'i app \<times> 'i cmd" where
  "set_active target m =
     (let m = m\<lparr>ap_active := target\<rparr> in
      if target = ScreenSurvey then (case survey_activate (ap_survey m) of (v, c) \<Rightarrow> (m\<lparr>ap_survey := v\<rparr>, c)) else (m, NoCmd))"

definition screen_keys :: "string list" where
  "screen_keys = [''1'', ''2'', ''3'', ''4'', ''5'', ''6'', ''7'']"

definition screen_key :: "string \<Rightarrow> screen option" where
  "screen_key k = map_of (zip screen_keys screen_order) k"

definition cancel :: "(ui_heap, unit) prog" where
  "cancel s = (Ret (), s\<lparr>uh_cancelled := True\<rparr>)"

definition quit_confirm :: "nat option \<Rightarrow> 'i confirm" where
  "quit_confirm h = yes_no_confirm ''Quit bottle-tui'' ''An active Kismet tunnel will be closed first.'' True
     (Sequence [CloseTunnel h, CancelAndQuit])"

text \<open>The answer \<open>None\<close> is a key that is not global.\<close>

definition handle_global_key :: "string \<Rightarrow> 'i app \<Rightarrow> (ui_heap, ('i app \<times> 'i cmd) option) prog" where
  "handle_global_key k m =
     (if k = ''q'' \<or> k = ''ctrl+c'' then
        (if k = ''q'' \<and> active_focused m then retP None
         else if tu_running (ap_tunnel m) then
           retP (Some (m\<lparr>ap_confirm := Some (quit_confirm (tu_handle (ap_tunnel m)))\<rparr>, NoCmd))
         else bindP cancel (\<lambda>_. retP (Some (m, QuitProgram))))
      else if k = ''?'' then retP (Some (m\<lparr>ap_full_help := \<not> ap_full_help m\<rparr>, NoCmd))
      else if k = '']'' then retP (Some (set_active (next_screen (ap_active m)) m))
      else if k = ''['' then retP (Some (set_active (prev_screen (ap_active m)) m))
      else (case screen_key k of
          None \<Rightarrow> retP None
        | Some v \<Rightarrow> if active_focused m then retP None else retP (Some (set_active v m))))"

text \<open>One screen's \<open>Update\<close> inside the whole model.\<close>

definition at_screen :: "('m \<Rightarrow> (ui_heap, 'm \<times> 'i cmd) prog) \<Rightarrow> 'm \<Rightarrow> ('m \<Rightarrow> 'i app) \<Rightarrow> (ui_heap, 'i app \<times> 'i cmd) prog" where
  "at_screen f x put = bindP (f x) (\<lambda>(y, c). retP (put y, c))"

definition screen_update :: "'i ui_env \<Rightarrow> screen \<Rightarrow> 'i msg \<Rightarrow> 'i app \<Rightarrow> (ui_heap, 'i app \<times> 'i cmd) prog" where
  "screen_update env v msg m =
     (case v of
        ScreenDashboard \<Rightarrow> at_screen (dashboard_update env msg) (ap_dashboard m) (\<lambda>y. m\<lparr>ap_dashboard := y\<rparr>)
      | ScreenPairing \<Rightarrow> at_screen (pairing_update env msg) (ap_pairing m) (\<lambda>y. m\<lparr>ap_pairing := y\<rparr>)
      | ScreenProvision \<Rightarrow> at_screen (provision_update env msg) (ap_provision m) (\<lambda>y. m\<lparr>ap_provision := y\<rparr>)
      | ScreenUpdate \<Rightarrow> at_screen (update_update env msg) (ap_update m) (\<lambda>y. m\<lparr>ap_update := y\<rparr>)
      | ScreenSurvey \<Rightarrow> at_screen (survey_update env msg) (ap_survey m) (\<lambda>y. m\<lparr>ap_survey := y\<rparr>)
      | ScreenTunnel \<Rightarrow> at_screen (tunnel_update env msg) (ap_tunnel m) (\<lambda>y. m\<lparr>ap_tunnel := y\<rparr>)
      | ScreenWigle \<Rightarrow> at_screen (wigle_update env msg) (ap_wigle m) (\<lambda>y. m\<lparr>ap_wigle := y\<rparr>))"

fun broadcast_to :: "'i ui_env \<Rightarrow> screen list \<Rightarrow> 'i msg \<Rightarrow> 'i app \<Rightarrow> (ui_heap, 'i app \<times> 'i cmd list) prog" where
  "broadcast_to env [] msg m = retP (m, [])"
| "broadcast_to env (v # vs) msg m =
     bindP (screen_update env v msg m) (\<lambda>(m, c). bindP (broadcast_to env vs msg m) (\<lambda>(m, cs). retP (m, c # cs)))"

definition broadcast :: "'i ui_env \<Rightarrow> 'i msg \<Rightarrow> 'i app \<Rightarrow> (ui_heap, 'i app \<times> 'i cmd) prog" where
  "broadcast env msg m = bindP (broadcast_to env screen_order msg m) (\<lambda>(m, cs). retP (m, Batch cs))"

definition content_size :: "int \<Rightarrow> int \<Rightarrow> int" where
  "content_size least n = max (n - 8) least"

definition resize :: "'i app \<Rightarrow> (ui_heap, 'i app) prog" where
  "resize m = bindP (survey_set_size (content_size 20 (ap_width m)) (content_size 5 (ap_height m)) (ap_survey m))
     (\<lambda>v. retP (m\<lparr>ap_survey := v\<rparr>))"

definition app_update :: "'i ui_env \<Rightarrow> 'i msg \<Rightarrow> 'i app \<Rightarrow> (ui_heap, 'i app \<times> 'i cmd) prog" where
  "app_update env msg m =
     (case msg of
        WindowSize w h \<Rightarrow> bindP (resize (m\<lparr>ap_width := w, ap_height := h\<rparr>)) stay
      | ConfirmRequested c \<Rightarrow> stay (m\<lparr>ap_confirm := Some c\<rparr>)
      | Key k \<Rightarrow>
          (case ap_confirm m of
             Some c \<Rightarrow> (case confirm_update (ue_fields env) msg c of
                 (c', cmd, resolved) \<Rightarrow> retP (m\<lparr>ap_confirm := (if resolved then None else Some c')\<rparr>, cmd))
           | None \<Rightarrow> bindP (handle_global_key k m) (\<lambda>r. case r of
                 Some mc \<Rightarrow> retP mc
               | None \<Rightarrow> screen_update env (ap_active m) msg m))
      | _ \<Rightarrow> broadcast env msg m)"

subsection \<open>Commands\<close>

text \<open>
  What a command does to the shared heap and the laptop: it ends with a message, or goes on as another
  command. Every request is one step. \<open>n\<close> is the payload of a spinner's tick and \<open>ci\<close> what the event
  stream delivers; a command that waits is run when it is ready.
\<close>

record ('a, 'h, 'i) console =
  co_deps :: "('a, 'h) app_deps"
  co_env :: "('a, 'h) laptop_env"
  co_fields :: "'i text_fields"
  co_spin :: "screen \<Rightarrow> nat \<Rightarrow> bool"

definition screens_env :: "('a, 'h, 'i) console \<Rightarrow> 'i ui_env" where
  "screens_env co = \<lparr>ue_fields = co_fields co, ue_new_client = ad_new_client (co_deps co), ue_atoi = le_atoi (co_env co), ue_spin = co_spin co\<rparr>"

record ('a, 'h) ui_world =
  uw_heap :: ui_heap
  uw_laptop :: "('a, 'h) laptop"

definition on_heap :: "(ui_heap, 'r) prog \<Rightarrow> (('a, 'h) ui_world, 'r) prog" where
  "on_heap m s = (case m (uw_heap s) of (r, h) \<Rightarrow> (r, s\<lparr>uw_heap := h\<rparr>))"

definition on_laptop :: "('a, 'h, 'r) command \<Rightarrow> (('a, 'h) ui_world, 'r) prog" where
  "on_laptop m s = (case m (uw_laptop s) of (r, l) \<Rightarrow> (r, s\<lparr>uw_laptop := l\<rparr>))"

definition with_client :: "'r \<Rightarrow> (rpc_client \<Rightarrow> ('a, 'h, 'r) command) \<Rightarrow> (('a, 'h) ui_world, 'r) prog" where
  "with_client none f = bindP (on_heap get_client) (\<lambda>c. case c of None \<Rightarrow> retP none | Some c \<Rightarrow> on_laptop (f c))"

type_synonym ('a, 'h, 'i) performed = "(('a, 'h) ui_world, 'i msg option \<times> 'i cmd) prog"

definition answer :: "('r \<Rightarrow> 'i msg) \<Rightarrow> (('a, 'h) ui_world, 'r) prog \<Rightarrow> ('a, 'h, 'i) performed" where
  "answer f m = bindP m (\<lambda>r. retP (Some (f r), NoCmd))"

definition error_of :: "go_error + unit \<Rightarrow> go_error option" where
  "error_of r = (case r of Inl err \<Rightarrow> Some err | Inr _ \<Rightarrow> None)"

definition as_sum :: "go_error option \<Rightarrow> go_error + unit" where
  "as_sum e = (case e of Some err \<Rightarrow> Inl err | None \<Rightarrow> Inr ())"

definition run_pairing :: "('a, 'h, 'i) console \<Rightarrow> path \<Rightarrow> path \<Rightarrow> path \<Rightarrow> string \<Rightarrow> ('a, 'h, go_error option) command" where
  "run_pairing co ca cert key i =
     (let read = (\<lambda>p. at_os (os_read_file (le_io (co_env co)) p)) in
      orfail (read ca) (\<lambda>ca. orfail (read cert) (\<lambda>cert. orfail (read key) (\<lambda>key.
        ad_save_profile (co_deps co) \<lparr>cr_ca_pem = ca, cr_cert_pem = cert, cr_key_pem = key, cr_client_id = i\<rparr>))))"

definition run_export :: "('a, 'h, 'i) console \<Rightarrow> wigle_record list \<Rightarrow> path \<Rightarrow> ('a, 'h, go_error + path \<times> nat) command" where
  "run_export co rs out =
     (let env = co_env co in
      if rs = [] then retP (Inl (ErrText ''no valid records to export''))
      else if out = [] then retP (Inl (ErrText ''output path is required''))
      else checkP id (at_os (create_and_write (le_io env) out (write_csv (le_csv env) rs cli_metadata))) (retP (Inr (out, length rs))))"

definition run_upload :: "('a, 'h, 'i) console \<Rightarrow> wigle_record list \<Rightarrow> string \<Rightarrow> ('a, 'h, go_error + upload_result) command" where
  "run_upload co rs filename =
     (let env = co_env co in
      tryP id (retP (write_csv (le_csv env) rs cli_metadata)) (\<lambda>csv.
        upload (lift_http (le_http env)) default_uploader (Some (ad_load_wigle (co_deps co))) filename csv True))"

definition add_handle :: "tunnel \<Rightarrow> (ui_heap, nat) prog" where
  "add_handle t s = (Ret (length (uh_handles s)), s\<lparr>uh_handles := uh_handles s @ [\<lparr>th_tunnel = t, th_history = []\<rparr>]\<rparr>)"

definition run_tunnel_start :: "('a, 'h, 'i) console \<Rightarrow> int \<Rightarrow> (ui_heap, go_error + nat \<times> string) prog" where
  "run_tunnel_start co port =
     tryP id (bindP get_client (\<lambda>c. retP (case c of None \<Rightarrow> Inl err_no_profile | Some c \<Rightarrow> Inr c))) (\<lambda>c.
     tryP id (retP (new_rpc_opener c)) (\<lambda>opener.
     tryP id (\<lambda>s. (Ret (tunnel_start (le_listen (co_env co)) (uh_cancelled s) port True), s)) (\<lambda>t.
       bindP (add_handle t) (\<lambda>h. retP (Inr (h, tunnel_url t))))))"

definition at_handle :: "nat \<Rightarrow> (tunnel_handle \<Rightarrow> tunnel_handle) \<Rightarrow> ui_heap \<Rightarrow> ui_heap" where
  "at_handle i f s = s\<lparr>uh_handles := (uh_handles s)[i := f (uh_handles s ! i)]\<rparr>"

text \<open>One receive of the draining goroutine.\<close>

definition drain :: "nat \<Rightarrow> (ui_heap, bool) prog" where
  "drain i s =
     (case tn_events (th_tunnel (uh_handles s ! i)) of
        [] \<Rightarrow> (Ret True, s)
      | e # es \<Rightarrow> (Ret False, at_handle i (\<lambda>h. history_append e (h\<lparr>th_tunnel := (th_tunnel h)\<lparr>tn_events := es\<rparr>\<rparr>)) s))"

definition consume_once :: "('a, 'h, 'i) console \<Rightarrow> consume_input \<Rightarrow> event_client \<times> consume_loc \<Rightarrow> (ui_heap, event_client \<times> consume_loc) prog" where
  "consume_once co ci cl s =
     (let r = consume_step (le_encode (co_env co)) (le_fold (co_env co)) ci ((fst cl)\<lparr>c_buffer := en_buffer s\<rparr>, snd cl)
      in (Ret r, s\<lparr>en_buffer := c_buffer (fst r)\<rparr>))"

definition consuming :: "event_client \<times> consume_loc \<Rightarrow> 'i msg option \<times> 'i cmd" where
  "consuming cl = (case snd cl of Returned err \<Rightarrow> (Some (ConsumeStopped (Some err)), NoCmd) | l \<Rightarrow> (None, Consuming (fst cl) l))"

definition start_consumer :: "ui_heap \<Rightarrow> 'i msg option \<times> 'i cmd" where
  "start_consumer s =
     (case en_client s of
        None \<Rightarrow> (Some (ConsumeStopped (Some err_no_profile)), NoCmd)
      | Some c \<Rightarrow> consuming (consume_start (if uh_cancelled s then Some ctx_canceled else None) (new_client (en_buffer s) True)))"

definition load_credentials_cmd :: "('a, 'h, 'i) console \<Rightarrow> ('a, 'h, 'i) performed" where
  "load_credentials_cmd co = answer CredentialsLoaded (on_laptop (ad_load_profile (co_deps co)))"

definition fetch_status_cmd :: "('a, 'h, 'i) console \<Rightarrow> ('a, 'h, 'i) performed" where
  "fetch_status_cmd co = answer (\<lambda>(st, e). StatusResult st e) (with_client (no_agent_status, Some err_no_profile) (\<lambda>c. at_agent (rpc_status (le_fold (co_env co)) (le_transport (co_env co)) c)))"

definition provision_submit_cmd :: "('a, 'h, 'i) console \<Rightarrow> string \<Rightarrow> ('a, 'h, 'i) performed" where
  "provision_submit_cmd co i = answer ProvisionResult (with_client (Inl err_no_profile) (\<lambda>c. at_agent (controller_provision (rpc_job_client (le_fold (co_env co)) (le_transport (co_env co)) c)
       \<lparr>rp_request_id = i, rp_confirmed = True\<rparr>)))"

definition update_submit_cmd :: "('a, 'h, 'i) console \<Rightarrow> remote_update \<Rightarrow> ('a, 'h, 'i) performed" where
  "update_submit_cmd co q = answer UpdateResult (with_client (Inl err_no_profile) (\<lambda>c. at_agent (controller_update (rpc_job_client (le_fold (co_env co)) (le_transport (co_env co)) c) q)))"

definition survey_control_cmd :: "('a, 'h, 'i) console \<Rightarrow> bool \<Rightarrow> ('a, 'h, 'i) performed" where
  "survey_control_cmd co start = answer (\<lambda>r. SurveyResult start (error_of r))
       (with_client (Inl err_no_profile) (\<lambda>c. bindP (at_agent (rpc_survey (le_transport (co_env co)) c start True)) (\<lambda>e. retP (as_sum e))))"

definition preview_file_cmd :: "('a, 'h, 'i) console \<Rightarrow> path \<Rightarrow> ('a, 'h, 'i) performed" where
  "preview_file_cmd co p = answer (\<lambda>r. WiglePreviewed (map_sum id snd r)) (on_laptop (load_preview (co_env co) p))"

definition cred_save_cmd :: "('a, 'h, 'i) console \<Rightarrow> wigle_credentials \<Rightarrow> ('a, 'h, 'i) performed" where
  "cred_save_cmd co c = answer WigleSaved (on_laptop (ad_save_wigle (co_deps co) c))"

definition close_tunnel_cmd :: "nat \<Rightarrow> (('a, 'h) ui_world, 'i msg option \<times> 'i cmd) prog" where
  "close_tunnel_cmd i = on_heap (\<lambda>s. (Ret (None, AwaitClose i), at_handle i (\<lambda>h. h\<lparr>th_tunnel := close_begin (th_tunnel h)\<rparr>) s))"

definition drain_tunnel_cmd :: "nat \<Rightarrow> (('a, 'h) ui_world, 'i msg option \<times> 'i cmd) prog" where
  "drain_tunnel_cmd i = on_heap (bindP (drain i) (\<lambda>ended. retP (if ended then (Some TunnelClosed, NoCmd) else (None, DrainTunnel i))))"

lemmas cmd_defs = load_credentials_cmd_def fetch_status_cmd_def provision_submit_cmd_def update_submit_cmd_def survey_control_cmd_def
  preview_file_cmd_def cred_save_cmd_def close_tunnel_cmd_def drain_tunnel_cmd_def

fun perform :: "('a, 'h, 'i) console \<Rightarrow> nat \<Rightarrow> consume_input \<Rightarrow> 'i cmd \<Rightarrow> ('a, 'h, 'i) performed" where
  "perform co n ci (RequestConfirm c) = answer (\<lambda>_. ConfirmRequested c) (retP ())"
| "perform co n ci LoadCredentials = load_credentials_cmd co"
| "perform co n ci FetchStatus = fetch_status_cmd co"
| "perform co n ci (TickSpinner s) = answer SpinnerTick (retP n)"
| "perform co n ci BlinkCursor = answer (\<lambda>_. OtherMsg) (retP ())"
| "perform co n ci (PairingSubmit ca cert key i) = answer PairingSaved (on_laptop (run_pairing co ca cert key i))"
| "perform co n ci (ProvisionSubmit i) = provision_submit_cmd co i"
| "perform co n ci (UpdateSubmit q) = update_submit_cmd co q"
| "perform co n ci (SurveyControl start) = survey_control_cmd co start"
| "perform co n ci StartConsumer = on_heap (\<lambda>s. (Ret (start_consumer s), s))"
| "perform co n ci (Consuming c l) = on_heap (bindP (consume_once co ci (c, l)) (\<lambda>cl. retP (consuming cl)))"
| "perform co n ci TickLogs = answer (\<lambda>_. RefreshLogs) (retP ())"
| "perform co n ci (TunnelStart port) = answer TunnelStarted (on_heap (run_tunnel_start co port))"
| "perform co n ci (DrainTunnel i) = drain_tunnel_cmd i"
| "perform co n ci (CloseTunnel None) = panicP ''invalid memory address or nil pointer dereference''"
| "perform co n ci (CloseTunnel (Some i)) = close_tunnel_cmd i"
| "perform co n ci (AwaitClose i) = answer (\<lambda>_. TunnelClosed) (retP ())"
| "perform co n ci TickTunnel = answer (\<lambda>_. TunnelTick) (retP ())"
| "perform co n ci (WiglePreview p) = preview_file_cmd co p"
| "perform co n ci (WigleExport rs out) = answer WigleExported (on_laptop (run_export co rs out))"
| "perform co n ci (WigleUpload rs filename) = answer WigleUploaded (on_laptop (run_upload co rs filename))"
| "perform co n ci (WigleSave c) = cred_save_cmd co c"
| "perform co n ci QuitProgram = answer (\<lambda>_. QuitMsg) (retP ())"
| "perform co n ci CancelAndQuit = answer (\<lambda>_. QuitMsg) (on_heap cancel)"
| "perform co n ci (Sequence (c # cs)) = bindP (perform co n ci c) (\<lambda>(m, c'). retP (m, Sequence (if c' = NoCmd then cs else c' # cs)))"
| "perform co n ci (Sequence []) = retP (None, NoCmd)"
| "perform co n ci (Batch cs) = retP (None, Batch cs)"
| "perform co n ci NoCmd = retP (None, NoCmd)"

subsection \<open>The program\<close>

text \<open>
  The runtime keeps the commands that were started, each in a goroutine of its own, and the messages
  they sent; it hands messages to \<open>app_update\<close> one at a time, in any order among the senders. A batch is
  started at once, a sequence goes on when its first command has ended. The goroutines of the tunnels
  run beside it, and \<open>runTUI\<close> quits when the root context is cancelled, by a signal for instance.
\<close>

fun spawn :: "'i cmd \<Rightarrow> 'i cmd list" where
  "spawn NoCmd = []"
| "spawn (Batch cs) = concat (map spawn cs)"
| "spawn (Sequence []) = []"
| "spawn c = [c]"

fun ready :: "ui_heap \<Rightarrow> 'i cmd \<Rightarrow> bool" where
  "ready s (DrainTunnel i) \<longleftrightarrow> tn_events (th_tunnel (uh_handles s ! i)) \<noteq> [] \<or> \<not> tn_events_open (th_tunnel (uh_handles s ! i))"
| "ready s (AwaitClose i) \<longleftrightarrow> tn_close (th_tunnel (uh_handles s ! i)) = CloseDone"
| "ready s (Sequence (c # cs)) \<longleftrightarrow> ready s c"
| "ready s c \<longleftrightarrow> True"

record ('a, 'h, 'i) ui =
  ui_app :: "'i app"
  ui_world :: "('a, 'h) ui_world"
  ui_pending :: "'i cmd list"
  ui_mail :: "'i msg list"
  ui_quit :: bool

definition ui_start :: "('a, 'h, 'i) console \<Rightarrow> ('a, 'h) laptop \<Rightarrow> ('a, 'h, 'i) ui" where
  "ui_start co l = \<lparr>ui_app = new_app (co_fields co), ui_world = \<lparr>uw_heap = new_heap, uw_laptop = l\<rparr>, ui_pending = spawn app_init,
     ui_mail = [], ui_quit = False\<rparr>"

definition deliver :: "('a, 'h, 'i) console \<Rightarrow> 'i msg \<Rightarrow> (('a, 'h, 'i) ui, unit) prog" where
  "deliver co m s =
     (case app_update (screens_env co) m (ui_app s) (uw_heap (ui_world s)) of
        (Ret (a, c), h) \<Rightarrow> (Ret (), s\<lparr>ui_app := a, ui_world := (ui_world s)\<lparr>uw_heap := h\<rparr>, ui_pending := ui_pending s @ spawn c\<rparr>)
      | (Panic p, h) \<Rightarrow> (Panic p, s))"

definition run_command :: "('a, 'h, 'i) console \<Rightarrow> nat \<Rightarrow> consume_input \<Rightarrow> 'i cmd list \<Rightarrow> 'i cmd \<Rightarrow> 'i cmd list \<Rightarrow> (('a, 'h, 'i) ui, unit) prog" where
  "run_command co n ci before c after s =
     (case perform co n ci c (ui_world s) of
        (Ret (m, c'), w) \<Rightarrow> (Ret (), s\<lparr>ui_world := w, ui_pending := before @ spawn c' @ after,
           ui_mail := ui_mail s @ (case m of None \<Rightarrow> [] | Some m \<Rightarrow> [m])\<rparr>)
      | (Panic p, w) \<Rightarrow> (Panic p, s))"

text \<open>
  A step of a tunnel's goroutines: what the console does itself (receiving, closing) and
  the root context are its own steps.
\<close>

definition background_step :: "ui_heap \<Rightarrow> tunnel \<Rightarrow> tunnel \<Rightarrow> bool" where
  "background_step h t t' \<longleftrightarrow> tunnel_step t (Ret ()) t' \<and> length (tn_events t) \<le> length (tn_events t') \<and>
     (tn_close t = NotClosed \<longrightarrow> tn_close t' = NotClosed) \<and> (tn_ctx_done t' \<longrightarrow> tn_ctx_done t \<or> uh_cancelled h)"

datatype 'i ui_label = Got "'i msg" | Ran "'i cmd" | Elsewhere

inductive ui_step :: "('a, 'h, 'i) console \<Rightarrow> ('a, 'h, 'i) ui \<Rightarrow> 'i ui_label \<Rightarrow> unit outcome \<Rightarrow> ('a, 'h, 'i) ui \<Rightarrow> bool" for co where
  us_key: "\<not> ui_quit s \<Longrightarrow> deliver co (Key k) s = (r, s') \<Longrightarrow> ui_step co s (Got (Key k)) r s'"
| us_resize: "\<not> ui_quit s \<Longrightarrow> deliver co (WindowSize w h) s = (r, s') \<Longrightarrow> ui_step co s (Got (WindowSize w h)) r s'"
| us_mail: "\<not> ui_quit s \<Longrightarrow> ui_mail s = ms @ m # ms' \<Longrightarrow> m \<noteq> QuitMsg \<Longrightarrow> deliver co m (s\<lparr>ui_mail := ms @ ms'\<rparr>) = (r, s') \<Longrightarrow>
    ui_step co s (Got m) r s'"
| us_quit: "\<not> ui_quit s \<Longrightarrow> QuitMsg \<in> set (ui_mail s) \<Longrightarrow> ui_step co s (Got QuitMsg) (Ret ()) (s\<lparr>ui_quit := True\<rparr>)"
| us_run: "\<not> ui_quit s \<Longrightarrow> ui_pending s = cs @ c # cs' \<Longrightarrow> ready (uw_heap (ui_world s)) c \<Longrightarrow>
    run_command co n ci cs c cs' s = (r, s') \<Longrightarrow> ui_step co s (Ran c) r s'"
| us_tunnel: "\<not> ui_quit s \<Longrightarrow> uw_heap (ui_world s) = h \<Longrightarrow> i < length (uh_handles h) \<Longrightarrow>
    background_step h (th_tunnel (uh_handles h ! i)) t \<Longrightarrow>
    ui_step co s Elsewhere (Ret ()) (s\<lparr>ui_world := (ui_world s)\<lparr>uw_heap := at_handle i (\<lambda>x. x\<lparr>th_tunnel := t\<rparr>) h\<rparr>\<rparr>)"
| us_signal: "\<not> ui_quit s \<Longrightarrow>
    ui_step co s Elsewhere (Ret ()) (s\<lparr>ui_world := (ui_world s)\<lparr>uw_heap := (uw_heap (ui_world s))\<lparr>uh_cancelled := True\<rparr>\<rparr>\<rparr>)"
| us_cancelled: "\<not> ui_quit s \<Longrightarrow> uh_cancelled (uw_heap (ui_world s)) \<Longrightarrow>
    ui_step co s Elsewhere (Ret ()) (s\<lparr>ui_mail := ui_mail s @ [QuitMsg]\<rparr>)"

text \<open>A run with its history, newest step first: each step's label and the state it was made in.\<close>

inductive ui_run :: "('a, 'h, 'i) console \<Rightarrow> ('a, 'h, 'i) ui \<Rightarrow> (('a, 'h, 'i) ui \<times> 'i ui_label) list \<Rightarrow> ('a, 'h, 'i) ui \<Rightarrow> bool" for co s0 where
  ur_start: "ui_run co s0 [] s0"
| ur_step: "ui_run co s0 tr s \<Longrightarrow> ui_step co s l (Ret ()) s' \<Longrightarrow> ui_run co s0 ((s, l) # tr) s'"

inductive_cases ui_step_panics: "ui_step co s l (Panic p) s'"

end
