(* ===== verification/Tui_Contract.thy ===== *)
theory Tui_Contract
  imports Tui_App
begin

section \<open>What every screen promises the console\<close>

text \<open>
  The contract \<open>elm_screen\<close>: an update does not panic, keeps the screen's invariant, names only
  tunnels that exist, and emits no command that reaches the agent or WiGLE in earnest unless inside a
  confirmation. All seven screens implement it.
\<close>

subsection \<open>Commands inside commands\<close>

fun leaves :: "'i cmd \<Rightarrow> 'i cmd list" where
  "leaves NoCmd = []"
| "leaves (Batch cs) = concat (map leaves cs)"
| "leaves (Sequence cs) = concat (map leaves cs)"
| "leaves c = [c]"

fun gated :: "'i cmd \<Rightarrow> bool" where
  "gated (ProvisionSubmit i) = True"
| "gated (UpdateSubmit q) = True"
| "gated (SurveyControl b) = True"
| "gated (WigleUpload rs f) = True"
| "gated c = False"

fun consumer :: "'i cmd \<Rightarrow> bool" where
  "consumer StartConsumer = True"
| "consumer (Consuming c l) = True"
| "consumer c = False"

text \<open>
  What a modal tells the user about a command it holds, in its title \<open>t\<close>, its text \<open>b\<close>, whether it is
  drawn as dangerous (\<open>d\<close>), and what must be typed (\<open>g\<close>).
\<close>

fun told :: "string \<Rightarrow> string \<Rightarrow> bool \<Rightarrow> string \<Rightarrow> 'i cmd \<Rightarrow> bool" where
  "told t b d g (ProvisionSubmit i) \<longleftrightarrow> t = ''Confirm provision'' \<and> g = i \<and> i \<noteq> []"
| "told t b d g (UpdateSubmit q) \<longleftrightarrow>
     t = ''Confirm update'' \<and> b = update_warning q \<and> d \<and> g = ru_version q \<and> g \<noteq> [] \<and> ru_confirmed q"
| "told t b d g (SurveyControl start) \<longleftrightarrow> t = (if start then ''Confirm survey start'' else ''Confirm survey stop'') \<and> g = []"
| "told t b d g (WigleUpload rs f) \<longleftrightarrow> t = ''Confirm WiGLE upload'' \<and> b = upload_warning (length rs) \<and> rs \<noteq> [] \<and> d \<and> g = []"
| "told t b d g c \<longleftrightarrow> False"

text \<open>What a confirmation may hold back, and what names a tunnel: \<open>n\<close> tunnels exist.\<close>

fun closing_cmd :: "nat \<Rightarrow> 'i cmd \<Rightarrow> bool" where
  "closing_cmd n (CloseTunnel (Some i)) \<longleftrightarrow> i < n"
| "closing_cmd n CancelAndQuit \<longleftrightarrow> True"
| "closing_cmd n c \<longleftrightarrow> False"

abbreviation told_by :: "'i confirm \<Rightarrow> 'i cmd \<Rightarrow> bool" where
  "told_by k \<equiv> told (cf_title k) (cf_body k) (cf_danger k) (cf_gate k)"

definition confirm_ok :: "nat \<Rightarrow> 'i confirm \<Rightarrow> bool" where
  "confirm_ok n k \<longleftrightarrow> (\<forall>x \<in> set (leaves (cf_command k)). told_by k x \<or> closing_cmd n x)"

text \<open>What a screen may ask to confirm: nothing that closes a tunnel, only quitting does that.\<close>

definition asks_ok :: "'i confirm \<Rightarrow> bool" where
  "asks_ok k \<longleftrightarrow> (\<forall>x \<in> set (leaves (cf_command k)). told_by k x)"

lemma asks_confirm: "asks_ok k \<Longrightarrow> confirm_ok n k"
  by (simp add: asks_ok_def confirm_ok_def)

fun names_ok :: "nat \<Rightarrow> 'i cmd \<Rightarrow> bool" where
  "names_ok n (RequestConfirm k) \<longleftrightarrow> asks_ok k"
| "names_ok n (DrainTunnel i) \<longleftrightarrow> i < n"
| "names_ok n (AwaitClose i) \<longleftrightarrow> i < n"
| "names_ok n (CloseTunnel None) \<longleftrightarrow> False"
| "names_ok n (CloseTunnel (Some i)) \<longleftrightarrow> i < n"
| "names_ok n c \<longleftrightarrow> True"

definition screen_cmd :: "nat \<Rightarrow> 'i cmd \<Rightarrow> bool" where
  "screen_cmd n c \<longleftrightarrow> (\<forall>x \<in> set (leaves c). names_ok n x \<and> \<not> gated x \<and> \<not> consumer x)"

fun msg_ok :: "nat \<Rightarrow> 'i msg \<Rightarrow> bool" where
  "msg_ok n (ConfirmRequested k) \<longleftrightarrow> asks_ok k"
| "msg_ok n (TunnelStarted (Inr (i, u))) \<longleftrightarrow> i < n"
| "msg_ok n (WiglePreviewed (Inr p)) \<longleftrightarrow> pv_valid p = length (pv_records p)"
| "msg_ok n m \<longleftrightarrow> True"

definition handles :: "ui_heap \<Rightarrow> nat" where
  "handles h = length (uh_handles h)"

lemma closing_mono: "closing_cmd n x \<Longrightarrow> n \<le> n' \<Longrightarrow> closing_cmd n' x"
  by (cases "(n, x)" rule: closing_cmd.cases) auto

lemma confirm_mono: "confirm_ok n k \<Longrightarrow> n \<le> n' \<Longrightarrow> confirm_ok n' k"
  by (auto simp: confirm_ok_def intro: closing_mono)

lemma names_mono: "names_ok n x \<Longrightarrow> n \<le> n' \<Longrightarrow> names_ok n' x"
  by (cases "(n, x)" rule: names_ok.cases) auto

lemma msg_mono: "msg_ok n m \<Longrightarrow> n \<le> n' \<Longrightarrow> msg_ok n' m"
  by (cases "(n, m)" rule: msg_ok.cases) auto

lemma screen_cmd_simps [simp]:
  "screen_cmd n NoCmd" "screen_cmd n (Batch cs) \<longleftrightarrow> (\<forall>c \<in> set cs. screen_cmd n c)" "screen_cmd n (blink b)" "screen_cmd n (spin env v t1)"
  "screen_cmd n (TickSpinner v)" "screen_cmd n FetchStatus" "screen_cmd n LoadCredentials" "screen_cmd n (PairingSubmit p1 p2 p3 t)"
  "screen_cmd n TickLogs" "screen_cmd n TickTunnel" "screen_cmd n (TunnelStart j)" "screen_cmd n (WiglePreview p1)"
  "screen_cmd n (WigleExport rs p1)" "screen_cmd n (WigleSave c1)" "screen_cmd n (DrainTunnel i) \<longleftrightarrow> i < n"
  "screen_cmd n (CloseTunnel (Some i)) \<longleftrightarrow> i < n" "screen_cmd n (RequestConfirm k) \<longleftrightarrow> asks_ok k" "screen_cmd n QuitProgram"
  by (auto simp: screen_cmd_def blink_def spin_def)

lemma confirm_ok_simps [simp]:
  "confirm_ok n (typed_confirm tf t b g d c) \<longleftrightarrow> (\<forall>x \<in> set (leaves c). told t b d g x \<or> closing_cmd n x)"
  "confirm_ok n (yes_no_confirm t b d c) \<longleftrightarrow> (\<forall>x \<in> set (leaves c). told t b d [] x \<or> closing_cmd n x)"
  "asks_ok (typed_confirm tf t b g d c) \<longleftrightarrow> (\<forall>x \<in> set (leaves c). told t b d g x)"
  "asks_ok (yes_no_confirm t b d c) \<longleftrightarrow> (\<forall>x \<in> set (leaves c). told t b d [] x)"
  by (simp_all add: confirm_ok_def asks_ok_def typed_confirm_def yes_no_confirm_def)

subsection \<open>The contract\<close>

lemma heap_wp [prog_simps]:
  "wp get_client Q h \<longleftrightarrow> Q (Ret (en_client h)) h"
  "wp (set_client c) Q1 h \<longleftrightarrow> Q1 (Ret ()) (h\<lparr>en_client := Some c\<rparr>)"
  "wp (on_buffer g) Q2 h \<longleftrightarrow> Q2 (Ret (fst (g (en_buffer h)))) (h\<lparr>en_buffer := snd (g (en_buffer h))\<rparr>)"
  "wp (snapshot (Some i)) Q3 h \<longleftrightarrow> Q3 (Ret (th_history (uh_handles h ! i))) h"
  by (simp_all add: wp_def get_client_def set_client_def on_buffer_def snapshot_def split: prod.split)

lemma screen_wp [prog_simps]:
  "wp (stay m) Q h \<longleftrightarrow> Q (Ret (m, NoCmd)) h"
  "wp (go_field tf msg x f) Q4 h \<longleftrightarrow> Q4 (Ret (f (fst (field_update tf msg x)), snd (field_update tf msg x))) h"
  by (simp_all add: wp_def stay_def go_field_def retP_def split: prod.split)

definition keeps :: "(nat \<Rightarrow> 'm \<Rightarrow> bool) \<Rightarrow> (ui_heap, 'm \<times> 'i cmd) prog \<Rightarrow> ui_heap \<Rightarrow> bool" where
  "keeps ok p h \<longleftrightarrow> wp p (\<lambda>r h'. \<exists>m c. r = Ret (m, c) \<and> ok (handles h) m \<and> screen_cmd (handles h) c \<and> handles h' = handles h) h"

lemma keepsE:
  assumes "keeps ok p h"
  obtains m c h' where "p h = (Ret (m, c), h')" "ok (handles h) m" "screen_cmd (handles h) c" "handles h' = handles h"
  using assms by (cases "p h") (auto simp: keeps_def wp_def)

lemma keepsI: "p h = (Ret (m, c), h') \<Longrightarrow> ok (handles h) m \<Longrightarrow> screen_cmd (handles h) c \<Longrightarrow> handles h' = handles h \<Longrightarrow> keeps ok p h"
  by (simp add: keeps_def wp_def)

locale elm_screen =
  fixes upd :: "('i, 'm) update"
    and ok :: "nat \<Rightarrow> 'm \<Rightarrow> bool"
  assumes upd_keeps: "ok (handles h) m \<Longrightarrow> msg_ok (handles h) msg \<Longrightarrow> keeps ok (upd env msg m) h"
    and ok_mono: "ok n m \<Longrightarrow> n \<le> n' \<Longrightarrow> ok n' m"
begin

text \<open>Inside the whole model, where \<open>good\<close> is the invariant of the model.\<close>

lemma in_model:
  assumes "ok (handles h) m" "msg_ok (handles h) msg" "\<And>y. ok (handles h) y \<Longrightarrow> good (handles h) (put y)"
  shows "keeps good (at_screen (upd env msg) m put) h"
  using upd_keeps [OF assms(1,2), of env] assms(3) by (auto simp: keeps_def at_screen_def prog_simps elim!: wp_mono)

text \<open>A single update from any later heap.\<close>

lemma update_total:
  assumes "ok n m" "n \<le> handles h" "msg_ok n msg"
  shows "\<exists>m' c h'. upd env msg m h = (Ret (m', c), h') \<and> ok (handles h') m' \<and> screen_cmd (handles h') c"
proof -
  have "keeps ok (upd env msg m) h" using assms by (meson ok_mono msg_mono upd_keeps)
  then show ?thesis by (cases "upd env msg m h") (auto simp: keeps_def wp_def)
qed

end

named_theorems screen_simps \<open>symbolic execution of screen updates\<close>

lemma keeps_ret [screen_simps]: "keeps ok (retP (m, c)) h \<longleftrightarrow> ok (handles h) m \<and> screen_cmd (handles h) c"
  by (auto simp: keeps_def prog_simps)

lemma keeps_stay [screen_simps]: "keeps ok (stay m) h \<longleftrightarrow> ok (handles h) m"
  by (simp add: keeps_def prog_simps)

lemma keeps_field [screen_simps]: "keeps ok (go_field tf msg x f) h \<longleftrightarrow> ok (handles h) (f (fst (field_update tf msg x)))"
  by (simp add: keeps_def prog_simps field_update_def split: prod.split)

lemma keeps_client [screen_simps]: "keeps ok (bindP get_client f) h \<longleftrightarrow> keeps ok (f (en_client h)) h"
  by (simp add: keeps_def prog_simps)

lemma keeps_set_client [screen_simps]: "keeps ok (bindP (set_client c) f) h \<longleftrightarrow> keeps ok (f ()) (h\<lparr>en_client := Some c\<rparr>)"
  by (simp add: keeps_def prog_simps handles_def)

lemma keeps_buffer [screen_simps]:
  "keeps ok (bindP (on_buffer g) f) h \<longleftrightarrow> keeps ok (f (fst (g (en_buffer h)))) (h\<lparr>en_buffer := snd (g (en_buffer h))\<rparr>)"
  by (simp add: keeps_def prog_simps handles_def)

lemma keeps_snapshot [screen_simps]: "keeps ok (bindP (snapshot (Some i)) f) h \<longleftrightarrow> keeps ok (f (th_history (uh_handles h ! i))) h"
  by (simp add: keeps_def prog_simps)

lemma handles_simps [simp]: "handles (h\<lparr>en_client := c\<rparr>) = handles h" "handles (h\<lparr>en_buffer := b\<rparr>) = handles h"
  "handles (h\<lparr>uh_cancelled := x\<rparr>) = handles h" "handles (at_handle i f h) = handles h"
  by (simp_all add: handles_def at_handle_def)

subsection \<open>All seven screens implement it\<close>

definition always :: "nat \<Rightarrow> 'm \<Rightarrow> bool" where
  "always n m \<longleftrightarrow> True"

definition fields_ok :: "nat \<Rightarrow> 'i list \<Rightarrow> nat \<Rightarrow> bool" where
  "fields_ok k xs i \<longleftrightarrow> length xs = k \<and> i < k"

definition pairing_ok :: "nat \<Rightarrow> 'i pairing \<Rightarrow> bool" where
  "pairing_ok n m \<longleftrightarrow> fields_ok 4 (pa_inputs m) (pa_focus m)"

definition update_ok :: "nat \<Rightarrow> 'i update_screen \<Rightarrow> bool" where
  "update_ok n m \<longleftrightarrow> fields_ok 3 (us_inputs m) (us_focus m)"

definition wigle_ok :: "nat \<Rightarrow> 'i wigle_screen \<Rightarrow> bool" where
  "wigle_ok n m \<longleftrightarrow> fields_ok 2 (wg_inputs m) (wg_focus m) \<and> pv_valid (wg_preview m) = length (pv_records (wg_preview m))"

definition tunnel_ok :: "nat \<Rightarrow> 'i tunnel_screen \<Rightarrow> bool" where
  "tunnel_ok n m \<longleftrightarrow> (tu_running m \<longrightarrow> tu_handle m \<noteq> None) \<and> (\<forall>i. tu_handle m = Some i \<longrightarrow> i < n)"

lemma fields_ok_update [simp]: "fields_ok k (xs[i := y]) j \<longleftrightarrow> fields_ok k xs j" "fields_ok k (refocus tf i j xs) l \<longleftrightarrow> fields_ok k xs l"
  by (simp_all add: fields_ok_def refocus_def Let_def)

lemma fields_ok_focus: "fields_ok k xs i \<Longrightarrow> fields_ok k xs (j mod k)"
  by (auto simp: fields_ok_def)

lemma always_simps [simp]: "always n m"
  by (simp add: always_def)

interpretation dashboard: elm_screen dashboard_update always
  by unfold_locales (auto simp: dashboard_update_def screen_simps Let_def split: msg.split sum.split)

lemma pairing_ok_focus: "pairing_ok n m \<Longrightarrow> pairing_ok n (pairing_focus tf (j mod 4) m)"
  by (simp add: pairing_ok_def pairing_focus_def fields_ok_focus)

lemma pairing_ok_field: "pairing_ok (handles h) m \<Longrightarrow> keeps pairing_ok (pairing_field env msg m) h"
  by (simp add: pairing_ok_def pairing_field_def screen_simps)

lemma pairing_ok_flags: "pairing_ok n (m\<lparr>pa_saving := a, pa_err := e, pa_success := b\<rparr>) \<longleftrightarrow> pairing_ok n m"
  by (simp add: pairing_ok_def)

interpretation pairing: elm_screen pairing_update pairing_ok
proof unfold_locales
  fix h :: ui_heap and m :: "'i pairing" and msg :: "'i msg" and env
  assume "pairing_ok (handles h) m"
  then show "keeps pairing_ok (pairing_update env msg m) h"
    by (cases msg)
      (simp_all add: pairing_update_def pairing_submit_def screen_simps Let_def pairing_ok_field pairing_ok_focus pairing_ok_flags)
qed (simp add: pairing_ok_def)

interpretation provision: elm_screen provision_update always
  by unfold_locales
    (auto simp: provision_update_def provision_field_def provision_confirm_def screen_simps Let_def split: msg.split)

interpretation update: elm_screen update_update update_ok
  by unfold_locales
    (auto simp: update_update_def update_ok_def update_focus_def update_field_def update_confirm_def update_request_def screen_simps
      Let_def fields_ok_focus split: msg.split)

lemma logs_keeps: "keeps always (logs_update env msg m) h"
  by (cases msg) (auto simp: logs_update_def render_def bindP_assoc screen_simps Let_def stay_def)

lemma survey_logs: "keeps always (bindP (logs_update env msg l) (\<lambda>(l, c). retP (m\<lparr>sy_logs := l\<rparr>, c))) h"
  using logs_keeps [of env msg l h] by (auto simp: keeps_def prog_simps elim!: wp_mono)

interpretation survey: elm_screen survey_update always
  by unfold_locales
    (auto simp: survey_update_def survey_confirm_def screen_simps survey_logs Let_def split: msg.split option.split)

interpretation tunnel: elm_screen tunnel_update tunnel_ok
proof unfold_locales
  fix h :: ui_heap and m :: "'i tunnel_screen" and msg :: "'i msg" and env
  assume "tunnel_ok (handles h) m" "msg_ok (handles h) msg"
  then show "keeps tunnel_ok (tunnel_update env msg m) h"
    by (cases msg; cases "tu_handle m")
      (auto simp: tunnel_update_def tunnel_ok_def tunnel_field_def screen_simps Let_def split: sum.split)
qed (auto simp: tunnel_ok_def)

interpretation wigle: elm_screen wigle_update wigle_ok
  by unfold_locales
    (auto simp: wigle_update_def wigle_ok_def wigle_credentials_key_def wigle_browse_key_def wigle_field_def wigle_switch_field_def
      wigle_confirm_def no_preview_def screen_simps Let_def fields_ok_focus split: msg.split sum.split)

end
