(* ===== verification/Wigle_Properties.thy ===== *)
theory Wigle_Properties
  imports Wigle
begin

section \<open>Properties of the WiGLE export and upload\<close>

text \<open>
  A preview is the map of \<open>normalize\<close> over the records, and what it accepts is never refused by the
  export; the CSV text reads back into the rows it was written from, whatever network names are in
  it; and the upload's attempts, waits and result for every sequence of answers of the server.
\<close>

subsection \<open>Previews\<close>

definition accepted :: "(string \<Rightarrow> string) \<Rightarrow> wigle_record \<Rightarrow> wigle_record option" where
  "accepted uni r = (case normalize uni r of Inl _ \<Rightarrow> None | Inr r' \<Rightarrow> Some r')"

definition issue_of :: "(string \<Rightarrow> string) \<Rightarrow> nat \<times> wigle_record \<Rightarrow> preview_issue option" where
  "issue_of uni = (\<lambda>(i, r). case normalize uni r of Inl err \<Rightarrow> Some \<lparr>pi_index = i, pi_reason = error_text err\<rparr> | Inr _ \<Rightarrow> None)"

lemma preview_from_spec:
  "preview_from uni i rs p = \<lparr>pv_records = pv_records p @ List.map_filter (accepted uni) rs,
     pv_issues = pv_issues p @ List.map_filter (issue_of uni) (enumerate i rs),
     pv_valid = pv_valid p + length (List.map_filter (accepted uni) rs),
     pv_invalid = pv_invalid p + length (List.map_filter (issue_of uni) (enumerate i rs))\<rparr>"
proof (induction uni i rs p rule: preview_from.induct)
  case (1 uni i p)
  then show ?case by (simp add: map_filter_simps)
next
  case (2 uni i r rs p)
  then show ?case
    by (cases "normalize uni r") (simp_all add: map_filter_simps accepted_def issue_of_def)
qed

lemma accepted_or_issue: "length (List.map_filter (accepted uni) rs) + length (List.map_filter (issue_of uni) (enumerate i rs)) = length rs"
proof (induction rs arbitrary: i)
  case (Cons r rs)
  then show ?case using Cons [of "Suc i"] by (cases "normalize uni r") (simp_all add: map_filter_simps accepted_def issue_of_def)
qed (simp add: map_filter_simps)

text \<open>A normalized address is its own normal form.\<close>

lemma is_hex_not_space: "is_hex c \<Longrightarrow> \<not> is_space c"
  by (auto simp: is_hex_def is_space_def)

lemma dropWhile_hd: "s \<noteq> [] \<Longrightarrow> \<not> P (hd s) \<Longrightarrow> dropWhile P s = s"
  by (cases s) auto

lemma trim_space_id: "s \<noteq> [] \<Longrightarrow> \<not> is_space (hd s) \<Longrightarrow> \<not> is_space (last s) \<Longrightarrow> trim_space s = s"
  by (simp add: trim_space_def dropWhile_hd hd_rev)

lemma mac_ends:
  assumes "is_mac6 s"
  shows "s \<noteq> [] \<and> is_hex (hd s) \<and> is_hex (last s)"
proof -
  consider "length s = 17" "list_all (\<lambda>i. if i mod 3 = 2 then s ! i = s ! 2 else is_hex (s ! i)) [0..<17]" |
    "length s = 14" "list_all (\<lambda>i. if i mod 5 = 4 then s ! i = CHR ''.'' else is_hex (s ! i)) [0..<14]"
    using assms by (auto simp only: is_mac6_def)
  then show ?thesis
  proof cases
    case 1
    then have "s \<noteq> []" "is_hex (s ! 0)" "is_hex (s ! 16)" by (auto simp: list_all_iff dest: bspec [of _ _ 0] bspec [of _ _ 16])
    with 1(1) show ?thesis by (simp add: hd_conv_nth last_conv_nth)
  next
    case 2
    then have "s \<noteq> []" "is_hex (s ! 0)" "is_hex (s ! 13)" by (auto simp: list_all_iff dest: bspec [of _ _ 0] bspec [of _ _ 13])
    with 2(1) show ?thesis by (simp add: hd_conv_nth last_conv_nth)
  qed
qed

lemma mac_trimmed: "is_mac6 s \<Longrightarrow> trim_space s = s"
  using mac_ends is_hex_not_space trim_space_id by blast

definition folding :: "(string \<Rightarrow> string) \<Rightarrow> bool" where
  "folding uni \<longleftrightarrow> (\<forall>s. to_lower uni (uni s) = uni s)"

lemma lower_char_idem: "lower_char (lower_char c) = lower_char c"
  by (cases "65 \<le> (of_char c :: nat) \<and> (of_char c :: nat) \<le> 90") (auto simp: lower_char_def Let_def)

lemma lower_char_ascii: "(of_char c :: nat) < 128 \<Longrightarrow> (of_char (lower_char c) :: nat) < 128"
  by (auto simp: lower_char_def Let_def)

lemma to_lower_idem: "folding uni \<Longrightarrow> to_lower uni (to_lower uni s) = to_lower uni s"
  using lower_char_ascii by (auto simp: to_lower_def folding_def is_ascii_def lower_char_idem)

lemma normalize_idem:
  assumes "folding uni" "normalize uni r = Inr r'"
  shows "normalize uni r' = Inr r'"
proof -
  have r': "r' = r\<lparr>wr_bssid := to_lower uni (trim_space (wr_bssid r))\<rparr>" and mac: "is_mac6 (to_lower uni (trim_space (wr_bssid r)))"
    using assms(2) by (auto simp: normalize_def Let_def split: if_splits)
  have "wr_bssid r' = to_lower uni (trim_space (wr_bssid r'))"
    by (simp add: r' mac_trimmed [OF mac] to_lower_idem [OF assms(1)])
  then have "r'\<lparr>wr_bssid := to_lower uni (trim_space (wr_bssid r'))\<rparr> = r'" by simp
  then show ?thesis using assms(2) r' mac by (simp add: normalize_def Let_def split: if_splits)
qed

lemma rows_of_normal: "(\<And>r. r \<in> set rs \<Longrightarrow> normalize (ce_fold env) r = Inr r) \<Longrightarrow>
    csv_rows env rs = Inr (concat (map (\<lambda>r. csv_line (ce_space env) (record_row env r)) rs))"
  by (induction rs) simp_all

text \<open>
  C30. A preview sorts the records, in order, into those it accepts and a reason for each of
  the others, under its position; and whatever it accepts is exported: \<open>WriteCSV\<close> refuses none of
  the records of a preview.
\<close>

theorem preview_exportable:
  assumes "folding (ce_fold env)"
  shows "pv_records (preview (ce_fold env) rs) = List.map_filter (accepted (ce_fold env)) rs \<and>
    pv_issues (preview (ce_fold env) rs) = List.map_filter (issue_of (ce_fold env)) (enumerate 0 rs) \<and>
    pv_valid (preview (ce_fold env) rs) = length (pv_records (preview (ce_fold env) rs)) \<and>
    pv_valid (preview (ce_fold env) rs) + pv_invalid (preview (ce_fold env) rs) = length rs \<and>
    (\<exists>t. write_csv env (pv_records (preview (ce_fold env) rs)) m = Inr t)"
proof -
  have p: "preview (ce_fold env) rs = \<lparr>pv_records = List.map_filter (accepted (ce_fold env)) rs,
     pv_issues = List.map_filter (issue_of (ce_fold env)) (enumerate 0 rs),
     pv_valid = length (List.map_filter (accepted (ce_fold env)) rs),
     pv_invalid = length (List.map_filter (issue_of (ce_fold env)) (enumerate 0 rs))\<rparr>"
    by (simp add: preview_def preview_from_spec)
  have "normalize (ce_fold env) r = Inr r" if "r \<in> set (List.map_filter (accepted (ce_fold env)) rs)" for r
    using that normalize_idem [OF assms] by (auto simp: map_filter_def accepted_def split: sum.splits)
  from rows_of_normal [OF this] show ?thesis
    using accepted_or_issue [of "ce_fold env" rs 0] by (simp add: p write_csv_def)
qed

subsection \<open>Reading the CSV back\<close>

text \<open>A reader of CSV as RFC 4180 has it: a quoted field ends at a quote that is not doubled.\<close>

datatype csv_mode = FieldStart | Unquoted | Quoted | QuoteSeen

definition field_end :: "char \<Rightarrow> bool" where
  "field_end c \<longleftrightarrow> c = CHR '','' \<or> c = line_feed"

fun csv_read :: "csv_mode \<Rightarrow> string \<Rightarrow> string list \<Rightarrow> string \<Rightarrow> string list list option" where
  "csv_read md cur row [] = (if md = FieldStart \<and> cur = [] \<and> row = [] then Some [] else None)"
| "csv_read md cur row (c # s) =
     (if md = Quoted then
        (if c = quote_mark then csv_read QuoteSeen cur row s else csv_read Quoted (cur @ [c]) row s)
      else if c = CHR '','' then csv_read FieldStart [] (row @ [cur]) s
      else if c = line_feed then map_option (\<lambda>rs. (row @ [cur]) # rs) (csv_read FieldStart [] [] s)
      else if c = quote_mark then
        (if md = FieldStart then csv_read Quoted cur row s
         else if md = QuoteSeen then csv_read Quoted (cur @ [c]) row s
         else None)
      else if md = QuoteSeen then None
      else csv_read Unquoted (cur @ [c]) row s)"

lemma csv_marks: "quote_mark \<noteq> CHR '',''" "quote_mark \<noteq> line_feed" "line_feed \<noteq> CHR '',''"
  by (code_simp, code_simp, code_simp)

lemma read_unquoted:
  assumes "\<And>c. c \<in> set f \<Longrightarrow> c \<noteq> CHR '','' \<and> c \<noteq> quote_mark \<and> c \<noteq> line_feed" "md = FieldStart \<or> md = Unquoted"
  shows "csv_read md cur row (f @ s) = csv_read (if f = [] then md else Unquoted) (cur @ f) row s"
  using assms
proof (induction f arbitrary: md cur)
  case (Cons c f)
  then show ?case using Cons.IH [of Unquoted "cur @ [c]"] by auto
qed simp

lemma read_quoted:
  "csv_read Quoted cur row (concat (map (\<lambda>c. if c = quote_mark then [quote_mark, quote_mark] else [c]) f) @ quote_mark # s) =
     csv_read QuoteSeen (cur @ f) row s"
  by (induction f arbitrary: cur) (simp_all add: csv_marks)

lemma read_field:
  assumes "field_end d"
  shows "csv_read FieldStart [] row (csv_field us f @ d # s) =
    (if d = CHR '','' then csv_read FieldStart [] (row @ [f]) s else map_option (\<lambda>rs. (row @ [f]) # rs) (csv_read FieldStart [] [] s))"
proof (cases "csv_needs_quotes us f")
  case True
  then show ?thesis using assms read_quoted [of "[]" row f "d # s"] csv_marks by (auto simp: csv_field_def field_end_def)
next
  case False
  then have "c \<noteq> CHR '','' \<and> c \<noteq> quote_mark \<and> c \<noteq> line_feed" if "c \<in> set f" for c
    using that by (auto simp: csv_needs_quotes_def)
  from read_unquoted [OF this, where md = FieldStart and cur = "[]" and row = row and s = "d # s"]
  show ?thesis using assms False csv_marks by (auto simp: csv_field_def field_end_def)
qed

lemma read_line:
  assumes "cols \<noteq> []"
  shows "csv_read FieldStart [] row (csv_line us cols @ s) = map_option (\<lambda>rs. (row @ cols) # rs) (csv_read FieldStart [] [] s)"
  using assms
proof (induction cols arbitrary: row rule: induct_list012)
  case (2 f)
  then show ?case using read_field [of line_feed row us f s] csv_marks by (simp add: csv_line_def field_end_def)
next
  case (3 f g cols)
  have "csv_line us (f # g # cols) @ s = csv_field us f @ CHR '','' # csv_line us (g # cols) @ s"
    by (simp add: csv_line_def)
  then show ?case using 3(2) [of "row @ [f]"] read_field [of "CHR '',''" row us f] by (simp add: field_end_def)
qed simp

lemma read_lines: "(\<And>r. r \<in> set rows \<Longrightarrow> r \<noteq> []) \<Longrightarrow> csv_read FieldStart [] [] (concat (map (csv_line us) rows)) = Some rows"
  by (induction rows) (simp_all add: read_line)

lemma csv_rows_text: "csv_rows env rs = Inr t \<Longrightarrow> t = concat (map (\<lambda>r. csv_line (ce_space env) (record_row env r)) rs)"
  by (induction env rs arbitrary: t rule: csv_rows.induct) (auto split: sum.splits simp: map_sum_def)

text \<open>
  C31. A WiGLE file means what was captured: a CSV reader finds in it the preamble, the
  column names and one row of fourteen fields per record, whatever commas, quotes, line breaks or
  spaces the names of the captured networks contain.
\<close>

theorem csv_reads_back:
  assumes "write_csv env rs m = Inr t"
  shows "csv_read FieldStart [] [] t = Some (csv_preamble (default_metadata m) # csv_columns # map (record_row env) rs)"
proof -
  obtain u where u: "csv_rows env rs = Inr u" "t = csv_line (ce_space env) (csv_preamble (default_metadata m)) @ csv_line (ce_space env) csv_columns @ u"
    using assms by (cases "csv_rows env rs") (auto simp: write_csv_def)
  let ?rows = "csv_preamble (default_metadata m) # csv_columns # map (record_row env) rs"
  have "t = concat (map (csv_line (ce_space env)) ?rows)"
    using u(2) csv_rows_text [OF u(1)] by (simp add: comp_def)
  moreover have "csv_preamble (default_metadata m) \<noteq> []" "csv_columns \<noteq> []" "record_row env r \<noteq> []" for r
    by (simp_all add: csv_preamble_def csv_columns_def record_row_def)
  then have "r \<noteq> []" if "r \<in> set ?rows" for r using that by (auto simp: eq_commute [of "[]"])
  ultimately show ?thesis using read_lines [of ?rows "ce_space env"] by blast
qed

subsection \<open>Uploading\<close>

text \<open>A network that gives a list of answers, and records what it was sent and how long the pauses were.\<close>

record net =
  nt_answers :: "(go_error + upload_response) list"
  nt_sent :: "upload_request list"
  nt_waits :: "int list"

definition err_refused :: go_error where
  "err_refused = ErrText ''connection refused''"

definition scripted :: "(string \<Rightarrow> go_error + json) \<Rightarrow> (string \<Rightarrow> string) \<Rightarrow> net http" where
  "scripted parse uni = \<lparr>ht_request = (\<lambda>_. None),
     ht_send = (\<lambda>q n. (Ret (case nt_answers n of [] \<Rightarrow> Inl err_refused | a # _ \<Rightarrow> a),
                    n\<lparr>nt_answers := tl (nt_answers n), nt_sent := nt_sent n @ [q]\<rparr>)),
     ht_wait = (\<lambda>d n. (Ret None, n\<lparr>nt_waits := nt_waits n @ [d]\<rparr>)),
     ht_json = parse, ht_fold = uni\<rparr>"

definition attempt_of :: "'w http \<Rightarrow> go_error + upload_response \<Rightarrow> (go_error + string) \<times> bool" where
  "attempt_of h a = (case a of Inl err \<Rightarrow> (Inl err, True) | Inr r \<Rightarrow> upload_answer h r)"

text \<open>The answers after which the upload tries again, and how many of the first \<open>n\<close> there are in a row.\<close>

definition retried :: "'w http \<Rightarrow> go_error + upload_response \<Rightarrow> bool" where
  "retried h a \<longleftrightarrow> snd (attempt_of h a)"

definition retries :: "'w http \<Rightarrow> nat \<Rightarrow> (go_error + upload_response) list \<Rightarrow> nat" where
  "retries h n as = length (takeWhile (retried h) (take n as))"

lemma retried_error: "retried h a \<Longrightarrow> \<exists>e. attempt_of h a = (Inl e, True)"
  by (auto simp: retried_def attempt_of_def upload_answer_def split: sum.splits prod.splits option.splits if_splits)

lemma upload_loop_scripted:
  assumes "left < length (nt_answers n)"
  shows "upload_loop (scripted parse uni) (do_upload (scripted parse uni) base fname contents c) d mx i left n =
    (Ret (case fst (attempt_of (scripted parse uni) (nt_answers n ! retries (scripted parse uni) left (nt_answers n))) of
        Inr tid \<Rightarrow> Inr \<lparr>ur_transaction = tid, ur_attempts = i + int (retries (scripted parse uni) left (nt_answers n))\<rparr>
      | Inl err \<Rightarrow> Inl (wrapped (''WiGLE upload failed after '' @ itoa mx @ '' attempt(s): '') err)),
     n\<lparr>nt_answers := drop (Suc (retries (scripted parse uni) left (nt_answers n))) (nt_answers n),
       nt_sent := nt_sent n @ replicate (Suc (retries (scripted parse uni) left (nt_answers n)))
         \<lparr>uq_url = base @ ''/api/v2/file/upload'', uq_filename = fname, uq_contents = contents, uq_credentials = c\<rparr>,
       nt_waits := nt_waits n @ replicate (retries (scripted parse uni) left (nt_answers n)) d\<rparr>)"
  using assms
proof (induction left arbitrary: n i)
  let ?h = "scripted parse uni"
  let ?q = "\<lparr>uq_url = base @ ''/api/v2/file/upload'', uq_filename = fname, uq_contents = contents, uq_credentials = c\<rparr>"
  have once: "do_upload ?h base fname contents c m = (Ret (attempt_of ?h a), m\<lparr>nt_answers := as, nt_sent := nt_sent m @ [?q]\<rparr>)"
    if "nt_answers m = a # as" for m a as
    using that by (simp add: do_upload_def scripted_def attempt_of_def bindP_def retP_def split: sum.split)
  {
    case 0
    then obtain a as where a: "nt_answers n = a # as" by (cases "nt_answers n") auto
    show ?case
      by (subst upload_loop.simps)
         (simp add: bindP_def once [OF a] a retries_def retP_def Let_def split: prod.split sum.split)
  next
    case (Suc left)
    then obtain a as where a: "nt_answers n = a # as" "left < length as" by (cases "nt_answers n") auto
    show ?case
    proof (cases "retried ?h a")
      case False
      then obtain r where r: "attempt_of ?h a = (r, False)" by (cases "attempt_of ?h a") (simp add: retried_def)
      show ?thesis
        by (subst upload_loop.simps)
           (simp add: bindP_def once [OF a(1)] a(1) retries_def retP_def Let_def retried_def r split: sum.split)
    next
      case True
      then obtain e where e: "attempt_of ?h a = (Inl e, True)" using retried_error by blast
      let ?n = "n\<lparr>nt_answers := as, nt_sent := nt_sent n @ [?q], nt_waits := nt_waits n @ [d]\<rparr>"
      have "upload_loop ?h (do_upload ?h base fname contents c) d mx i (Suc left) n =
          upload_loop ?h (do_upload ?h base fname contents c) d mx (i + 1) left ?n"
        by (subst upload_loop.simps) (simp add: bindP_def once [OF a(1)] e, simp add: scripted_def)
      moreover have "retries ?h (Suc left) (nt_answers n) = Suc (retries ?h left as)" using True a by (simp add: retries_def)
      ultimately show ?thesis using Suc.IH [of ?n "i + 1"] a by (simp add: add.assoc cong: sum.case_cong)
    qed
  }
qed

definition base_url_of :: "uploader \<Rightarrow> string" where
  "base_url_of u = (if trim_suffix (up_base_url u) ''/'' = [] then wigle_default_url else trim_suffix (up_base_url u) ''/'')"

definition attempts_of :: "uploader \<Rightarrow> int" where
  "attempts_of u = (if up_max_attempts u \<le> 0 then 3 else up_max_attempts u)"

text \<open>
  C32. An upload sends the same request until an answer is not retryable (success, or an error
  other than 429, 5xx and a broken connection) or the attempts are used up, pausing in between, and
  its result is the last answer's. The error text always names the configured number of attempts,
  also when fewer were made.
\<close>

theorem upload_attempts:
  assumes load: "load n = (Ret (Inr c), n)" "wigle_complete c" and enough: "attempts_of u \<le> int (length (nt_answers n))"
    and k: "k = retries (scripted parse uni) (nat (attempts_of u - 1)) (nt_answers n)"
  shows "\<exists>n'. upload (scripted parse uni) u (Some load) fname contents True n =
      (Ret (case fst (attempt_of (scripted parse uni) (nt_answers n ! k)) of
          Inr tid \<Rightarrow> Inr \<lparr>ur_transaction = tid, ur_attempts = 1 + int k\<rparr>
        | Inl err \<Rightarrow> Inl (wrapped (''WiGLE upload failed after '' @ itoa (attempts_of u) @ '' attempt(s): '') err)), n') \<and>
    nt_sent n' = nt_sent n @ replicate (Suc k)
      \<lparr>uq_url = base_url_of u @ ''/api/v2/file/upload'', uq_filename = fname, uq_contents = contents, uq_credentials = c\<rparr> \<and>
    length (nt_waits n') = length (nt_waits n) + k \<and> int k < attempts_of u"
proof -
  have pos: "1 \<le> attempts_of u" by (simp add: attempts_of_def)
  then have left: "nat (attempts_of u - 1) < length (nt_answers n)" using enough by linarith
  have "k \<le> nat (attempts_of u - 1)" unfolding k retries_def by (rule order_trans [OF length_takeWhile_le]) simp
  with pos have "int k < attempts_of u" by linarith
  moreover have "upload (scripted parse uni) u (Some load) fname contents True n =
      upload_loop (scripted parse uni) (do_upload (scripted parse uni) (base_url_of u) fname contents c)
        (if up_retry_delay u \<le> 0 then second else up_retry_delay u) (attempts_of u) 1 (nat (attempts_of u - 1)) n"
    using load by (simp add: upload_def tryP_def bindP_def base_url_of_def attempts_of_def Let_def)
  ultimately show ?thesis using upload_loop_scripted [OF left] k by (simp cong: sum.case_cong)
qed

definition test_http :: "net http" where
  "test_http = scripted (\<lambda>s. Inr (JObj [(''transid'', JStr s), (''success'', JBool False)])) (\<lambda>s. s)"

theorem upload_attempts_witness:
  "\<exists>n'. upload test_http \<lparr>up_base_url = [], up_max_attempts = 0, up_retry_delay = 0\<rparr> (Some (retP (Inr \<lparr>wc_api_name = ''n'', wc_token = ''t''\<rparr>)))
      ''f'' ''text'' True \<lparr>nt_answers = [Inr \<lparr>us_status = 503, us_body = Inr []\<rparr>, Inr \<lparr>us_status = 401, us_body = Inr []\<rparr>, Inl err_refused],
        nt_sent = [], nt_waits = []\<rparr> =
     (Ret (Inl (wrapped ''WiGLE upload failed after 3 attempt(s): '' (ErrText ''WiGLE API returned HTTP 401''))), n') \<and>
     length (nt_sent n') = 2"
proof -
  let ?u = "\<lparr>up_base_url = [], up_max_attempts = 0, up_retry_delay = 0\<rparr>" and ?c = "\<lparr>wc_api_name = ''n'', wc_token = ''t''\<rparr>"
  let ?n = "\<lparr>nt_answers = [Inr \<lparr>us_status = 503, us_body = Inr []\<rparr>, Inr \<lparr>us_status = 401, us_body = Inr []\<rparr>, Inl err_refused],
        nt_sent = [], nt_waits = []\<rparr>"
  have c: "wigle_complete ?c" by (simp add: wigle_complete_def)
  have a: "attempts_of ?u = 3" by (simp add: attempts_of_def)
  have k: "1 = retries test_http (nat (attempts_of ?u - 1)) (nt_answers ?n)"
    by (simp add: a retries_def retried_def attempt_of_def upload_answer_def numeral_2_eq_2)
  have digits: "itoa 3 = ''3''" "itoa 401 = ''401''"
    by (simp_all add: itoa_def nat_digits.simps digit_chars)
  have r: "attempt_of test_http (nt_answers ?n ! 1) = (Inl (ErrText ''WiGLE API returned HTTP 401''), False)"
    by (simp add: attempt_of_def upload_answer_def digits)
  have load: "retP (Inr ?c) ?n = (Ret (Inr ?c), ?n)" by (simp add: retP_def)
  have enough: "attempts_of ?u \<le> int (length (nt_answers ?n))" by (simp add: a)
  note up = upload_attempts [where load = "retP (Inr ?c)" and n = "?n" and u = "?u" and fname = "''f''" and contents = "''text''", OF load c enough k [unfolded test_http_def], folded test_http_def]
  show ?thesis using up r by (auto simp: a digits)
qed

subsection \<open>A concrete capture\<close>

definition test_csv :: csv_env where
  "test_csv = \<lparr>ce_fold = map lower_char, ce_space = (\<lambda>_. False), ce_time = (\<lambda>_. ''2025-01-02 03:04:05''), ce_float = (\<lambda>_. ''1.5'')\<rparr>"

definition test_record :: "string \<Rightarrow> string \<Rightarrow> wigle_record" where
  "test_record mac ssid = \<lparr>wr_bssid = mac, wr_ssid = ssid, wr_auth_mode = ''WPA2'', wr_first_seen = 5, wr_channel = 6, wr_frequency = 2437,
     wr_rssi = -60, wr_latitude = 1, wr_longitude = 2, wr_altitude = 3, wr_accuracy = 4\<rparr>"

definition test_metadata :: device_metadata where
  "test_metadata = \<lparr>dm_app_release = ''0.1.0'', dm_model = ''wifi-water-bottle'', dm_release = [], dm_device = [], dm_brand = []\<rparr>"

lemma test_folding: "folding (ce_fold test_csv)"
  by (simp add: folding_def test_csv_def to_lower_def lower_char_idem)

lemma test_accepts: "accepted (map lower_char) (test_record '' AA:BB:CC:DD:EE:0F'' ssid) = Some (test_record ''aa:bb:cc:dd:ee:0f'' ssid)"
proof -
  have b: "to_lower (map lower_char) (trim_space '' AA:BB:CC:DD:EE:0F'') = ''aa:bb:cc:dd:ee:0f'' \<and> is_mac6 ''aa:bb:cc:dd:ee:0f''" by code_simp
  then show ?thesis by (simp add: accepted_def normalize_def test_record_def Let_def)
qed

lemma test_refuses: "accepted (map lower_char) (test_record ''nonsense'' ssid) = None"
proof -
  have b: "\<not> is_mac6 (to_lower (map lower_char) (trim_space ''nonsense''))" by code_simp
  then show ?thesis by (simp add: accepted_def normalize_def test_record_def Let_def)
qed

theorem preview_exportable_witness:
  "pv_records (preview (ce_fold test_csv) [test_record ''nonsense'' ''a'', test_record '' AA:BB:CC:DD:EE:0F'' ''b'']) =
     [test_record ''aa:bb:cc:dd:ee:0f'' ''b''] \<and>
   (\<exists>t. write_csv test_csv (pv_records (preview (ce_fold test_csv) [test_record ''nonsense'' ''a'', test_record '' AA:BB:CC:DD:EE:0F'' ''b'']))
      test_metadata = Inr t)"
proof -
  have "List.map_filter (accepted (ce_fold test_csv)) [test_record ''nonsense'' ''a'', test_record '' AA:BB:CC:DD:EE:0F'' ''b''] =
      [test_record ''aa:bb:cc:dd:ee:0f'' ''b'']"
    using test_accepts test_refuses by (simp add: map_filter_simps) (simp add: test_csv_def)
  with preview_exportable [OF test_folding, of "[test_record ''nonsense'' ''a'', test_record '' AA:BB:CC:DD:EE:0F'' ''b'']" test_metadata]
  show ?thesis by metis
qed

theorem csv_reads_back_witness:
  "\<exists>t. write_csv test_csv [test_record ''aa:bb:cc:dd:ee:0f'' ''a,b''] test_metadata = Inr t \<and>
     csv_read FieldStart [] [] t = Some [csv_preamble test_metadata, csv_columns, record_row test_csv (test_record ''aa:bb:cc:dd:ee:0f'' ''a,b'')]"
proof -
  have b: "to_lower (map lower_char) (trim_space ''aa:bb:cc:dd:ee:0f'') = ''aa:bb:cc:dd:ee:0f'' \<and> is_mac6 ''aa:bb:cc:dd:ee:0f''" by code_simp
  then have "normalize (ce_fold test_csv) (test_record ''aa:bb:cc:dd:ee:0f'' ''a,b'') = Inr (test_record ''aa:bb:cc:dd:ee:0f'' ''a,b'')"
    by (simp add: normalize_def test_record_def test_csv_def Let_def)
  then obtain t where t: "write_csv test_csv [test_record ''aa:bb:cc:dd:ee:0f'' ''a,b''] test_metadata = Inr t" by (simp add: write_csv_def)
  have "default_metadata test_metadata = test_metadata" by (simp add: default_metadata_def test_metadata_def)
  with csv_reads_back [OF t] t show ?thesis by simp
qed

text \<open>The server's \<open>success\<close> flag is decoded and never looked at.\<close>

lemma upload_ignores_success:
  "fst (attempt_of test_http (Inr \<lparr>us_status = 200, us_body = Inr ''''\<rparr>)) = Inr ''''"
  by (simp add: attempt_of_def upload_answer_def test_http_def scripted_def decode_struct_def field_match_def transid_spec_def str_field_def)

end
