(* ===== verification/Tui_Runs.thy ===== *)
theory Tui_Runs
  imports Tui_Contract Wigle_Properties
begin

section \<open>Invariants of the console's runs\<close>

text \<open>
  One update and one command, seen from the outside: what they may add to the waiting commands, and
  what they leave alone; from these the invariant of every run.
\<close>

subsection \<open>Updates\<close>

definition app_ok :: "nat \<Rightarrow> 'i app \<Rightarrow> bool" where
  "app_ok n m \<longleftrightarrow> pairing_ok n (ap_pairing m) \<and> update_ok n (ap_update m) \<and> tunnel_ok n (ap_tunnel m) \<and> wigle_ok n (ap_wigle m) \<and>
     (\<forall>k. ap_confirm m = Some k \<longrightarrow> confirm_ok n k)"

lemma app_okD: "app_ok n m \<Longrightarrow> pairing_ok n (ap_pairing m)" "app_ok n m \<Longrightarrow> update_ok n (ap_update m)"
  "app_ok n m \<Longrightarrow> tunnel_ok n (ap_tunnel m)" "app_ok n m \<Longrightarrow> wigle_ok n (ap_wigle m)"
  by (simp_all add: app_ok_def)

lemma app_ok_mono: "app_ok n m \<Longrightarrow> n \<le> n' \<Longrightarrow> app_ok n' m"
  by (auto simp: app_ok_def intro: pairing.ok_mono update.ok_mono tunnel.ok_mono wigle.ok_mono confirm_mono)

lemma app_ok_simps [simp]:
  "app_ok n (m\<lparr>ap_active := v\<rparr>) \<longleftrightarrow> app_ok n m" "app_ok n (m\<lparr>ap_survey := y\<rparr>) \<longleftrightarrow> app_ok n m" "app_ok n (m\<lparr>ap_full_help := b\<rparr>) \<longleftrightarrow> app_ok n m"
  "app_ok n (m\<lparr>ap_dashboard := d\<rparr>) \<longleftrightarrow> app_ok n m" "app_ok n (m\<lparr>ap_provision := p\<rparr>) \<longleftrightarrow> app_ok n m"
  "app_ok n (m\<lparr>ap_width := w, ap_height := j\<rparr>) \<longleftrightarrow> app_ok n m"
  by (simp_all add: app_ok_def)

lemma app_ok_parts:
  "app_ok n m \<Longrightarrow> pairing_ok n y1 \<Longrightarrow> app_ok n (m\<lparr>ap_pairing := y1\<rparr>)" "app_ok n m \<Longrightarrow> update_ok n y2 \<Longrightarrow> app_ok n (m\<lparr>ap_update := y2\<rparr>)"
  "app_ok n m \<Longrightarrow> tunnel_ok n y3 \<Longrightarrow> app_ok n (m\<lparr>ap_tunnel := y3\<rparr>)" "app_ok n m \<Longrightarrow> wigle_ok n y4 \<Longrightarrow> app_ok n (m\<lparr>ap_wigle := y4\<rparr>)"
  by (simp_all add: app_ok_def)

lemma screen_keeps:
  assumes "app_ok (handles h) m" "msg_ok (handles h) msg"
  shows "keeps app_ok (screen_update env v msg m) h"
  by (cases v)
    (simp_all add: screen_update_def assms app_okD [OF assms(1)] app_ok_parts [OF assms(1)] dashboard.in_model pairing.in_model
      provision.in_model update.in_model survey.in_model tunnel.in_model wigle.in_model)

lemma broadcast_to_keeps:
  assumes "app_ok (handles h) m" "msg_ok (handles h) msg"
  shows "\<exists>m' cs h'. broadcast_to env vs msg m h = (Ret (m', cs), h') \<and> app_ok (handles h) m' \<and> (\<forall>c \<in> set cs. screen_cmd (handles h) c) \<and>
    handles h' = handles h"
  using assms
proof (induction vs arbitrary: m h)
  case Nil
  then show ?case by (simp add: retP_def)
next
  case (Cons v vs)
  from screen_keeps [OF Cons.prems, of env v] obtain m1 c h1 where
    1: "screen_update env v msg m h = (Ret (m1, c), h1)" "app_ok (handles h) m1" "screen_cmd (handles h) c" "handles h1 = handles h"
    by (rule keepsE)
  with Cons.IH [of h1 m1] Cons.prems(2) show ?case by (auto simp: bindP_def retP_def)
qed

lemma broadcast_keeps:
  assumes "app_ok (handles h) m" "msg_ok (handles h) msg"
  shows "keeps app_ok (broadcast env msg m) h"
proof -
  from broadcast_to_keeps [OF assms, of env screen_order] obtain m' cs h' where
    "broadcast_to env screen_order msg m h = (Ret (m', cs), h')" "app_ok (handles h) m'" "\<forall>c \<in> set cs. screen_cmd (handles h) c"
    "handles h' = handles h" by blast
  then show ?thesis by (intro keepsI [of _ _ m' "Batch cs" h']) (simp_all add: broadcast_def bindP_def retP_def)
qed

subsection \<open>Updates of the whole model\<close>

text \<open>What a user has to do for a confirmation to let its command go.\<close>

definition accepts :: "'i text_fields \<Rightarrow> string \<Rightarrow> 'i confirm \<Rightarrow> bool" where
  "accepts tf key k \<longleftrightarrow>
     (if cf_gate k \<noteq> [] then key = ''enter'' \<and> ti_value tf (gate_input tf k) = cf_gate k else key = ''y'' \<or> key = ''enter'')"

lemma confirm_update_cases:
  assumes "confirm_update tf (Key key) k = (k', c, resolved)"
  shows "cf_command k' = cf_command k \<and> cf_gate k' = cf_gate k \<and> cf_title k' = cf_title k \<and> cf_body k' = cf_body k \<and> cf_danger k' = cf_danger k \<and>
    (accepts tf key k \<and> c = cf_command k \<and> resolved \<or> (\<exists>b. c = blink b))"
proof -
  have b: "NoCmd = blink False" by (simp add: blink_def)
  show ?thesis
    using assms by (auto simp: confirm_update_def accepts_def confirm_field_def set_input_def set_error_def field_update_def b
      split: if_splits prod.splits)
qed

lemma held_names: "told t b d g x \<or> closing_cmd n x \<Longrightarrow> names_ok n x \<and> \<not> consumer x"
  by (cases "(n, x)" rule: closing_cmd.cases) auto

lemma set_active_ok: "app_ok n m \<Longrightarrow> app_ok n (fst (set_active v m)) \<and> (\<forall>x \<in> set (leaves (snd (set_active v m))). names_ok n x \<and> \<not> gated x)"
  by (simp add: set_active_def survey_activate_def Let_def)

definition released :: "'i text_fields \<Rightarrow> 'i msg \<Rightarrow> 'i app \<Rightarrow> 'i cmd \<Rightarrow> bool" where
  "released tf msg m x \<longleftrightarrow>
     (\<exists>key k. msg = Key key \<and> ap_confirm m = Some k \<and> accepts tf key k \<and> x \<in> set (leaves (cf_command k)) \<and> told_by k x)"

definition adds_ok :: "'i text_fields \<Rightarrow> 'i msg \<Rightarrow> 'i app \<Rightarrow> nat \<Rightarrow> 'i cmd \<Rightarrow> bool" where
  "adds_ok tf msg m n c \<longleftrightarrow> (\<forall>x \<in> set (leaves c). names_ok n x \<and> (gated x \<longrightarrow> released tf msg m x))"

lemma screen_adds: "screen_cmd n c \<Longrightarrow> adds_ok tf msg m n c"
  by (auto simp: screen_cmd_def adds_ok_def)

lemma held_consumers: "confirm_ok n k \<Longrightarrow> filter consumer (leaves (cf_command k)) = []"
  unfolding confirm_ok_def filter_empty_conv using held_names by blast

lemma closing_not_gated: "closing_cmd n x \<Longrightarrow> \<not> gated x"
  by (cases "(n, x)" rule: closing_cmd.cases) auto

lemma quit_confirm_ok: "tunnel_ok n t \<Longrightarrow> tu_running t \<Longrightarrow> confirm_ok n (quit_confirm (tu_handle t))"
  by (auto simp: quit_confirm_def tunnel_ok_def)

lemma handle_global_key_ok:
  assumes "app_ok (handles h) m"
  shows "\<exists>r h'. handle_global_key k m h = (Ret r, h') \<and> handles h' = handles h \<and>
    (case r of None \<Rightarrow> h' = h | Some mc \<Rightarrow> app_ok (handles h) (fst mc) \<and> (\<forall>x \<in> set (leaves (snd mc)). names_ok (handles h) x \<and> \<not> gated x))"
proof -
  have "app_ok (handles h) (m\<lparr>ap_confirm := Some (quit_confirm (tu_handle (ap_tunnel m)))\<rparr>)" if "tu_running (ap_tunnel m)"
    using assms quit_confirm_ok [OF _ that, of "handles h"] by (simp add: app_ok_def)
  then show ?thesis
    using assms set_active_ok [OF assms]
    by (cases "screen_key k") (simp_all add: handle_global_key_def bindP_def cancel_def retP_def)
qed

lemma confirm_adds:
  assumes "confirm_ok n k" "ap_confirm m = Some k" "accepts tf key k"
  shows "adds_ok tf (Key key) m n (cf_command k)"
  unfolding adds_ok_def
proof (intro ballI conjI impI)
  fix x assume x: "x \<in> set (leaves (cf_command k))"
  then have held: "told_by k x \<or> closing_cmd n x" using assms(1) by (simp add: confirm_ok_def)
  then show "names_ok n x" using held_names by blast
  assume "gated x"
  with held have "told_by k x" using closing_not_gated by blast
  then show "released tf (Key key) m x" using x assms(2,3) by (simp add: released_def)
qed

lemma app_update_ok:
  assumes "app_ok (handles h) m" "msg_ok (handles h) msg"
  obtains m' c h' where "app_update env msg m h = (Ret (m', c), h')" "app_ok (handles h) m'" "handles h' = handles h"
    "adds_ok (ue_fields env) msg m (handles h) c"
proof -
  have screens: "keeps app_ok p h \<Longrightarrow> p = app_update env msg m \<Longrightarrow> thesis" for p
    by (erule keepsE) (use that screen_adds in blast)
  show thesis
  proof (cases "\<exists>k. msg = Key k")
    case False
    then consider (size) w j where "msg = WindowSize w j" | (ask) k where "msg = ConfirmRequested k" | (other) "app_update env msg m = broadcast env msg m"
      by (cases msg) (auto simp: app_update_def)
    then show thesis
    proof cases
      case size
      then have "keeps app_ok (app_update env msg m) h"
        using assms(1) by (simp add: app_update_def resize_def survey_set_size_def logs_set_size_def render_def bindP_assoc screen_simps)
      then show thesis by (rule screens) simp
    next
      case ask
      then have "keeps app_ok (app_update env msg m) h"
        using assms by (simp add: app_update_def screen_simps app_ok_def asks_confirm)
      then show thesis by (rule screens) simp
    next
      case other
      then show thesis by (metis screens broadcast_keeps [OF assms])
    qed
  next
    case True
    then obtain key where key: "msg = Key key" by blast
    show thesis
    proof (cases "ap_confirm m")
      case (Some k)
      obtain k' c resolved where u: "confirm_update (ue_fields env) msg k = (k', c, resolved)" by (metis prod_cases3)
      have k: "confirm_ok (handles h) k" using assms(1) Some by (simp add: app_ok_def)
      let ?m = "m\<lparr>ap_confirm := (if resolved then None else Some k')\<rparr>"
      have cases: "cf_command k' = cf_command k" "cf_gate k' = cf_gate k \<and> cf_title k' = cf_title k \<and> cf_body k' = cf_body k \<and> cf_danger k' = cf_danger k"
        "accepts (ue_fields env) key k \<and> c = cf_command k \<or> (\<exists>b. c = blink b)"
        using confirm_update_cases u key by blast+
      have "app_ok (handles h) ?m" using assms(1) k cases(1,2) by (auto simp: app_ok_def confirm_ok_def)
      moreover have "adds_ok (ue_fields env) msg m (handles h) c"
        using cases(3)
      proof
        assume "accepts (ue_fields env) key k \<and> c = cf_command k"
        then show ?thesis using confirm_adds [OF k Some] key by blast
      qed (auto intro: screen_adds)
      moreover have "app_update env msg m h = (Ret (?m, c), h)"
        using u key Some by (simp add: app_update_def retP_def)
      ultimately show thesis using that by blast
    next
      case None
      from handle_global_key_ok [OF assms(1), of key] obtain r h' where
        r: "handle_global_key key m h = (Ret r, h')" "handles h' = handles h"
        "case r of None \<Rightarrow> h' = h | Some mc \<Rightarrow> app_ok (handles h) (fst mc) \<and> (\<forall>x \<in> set (leaves (snd mc)). names_ok (handles h) x \<and> \<not> gated x)"
        by blast
      show thesis
      proof (cases r)
        case r_none: None
        then have "app_update env msg m h = screen_update env (ap_active m) msg m h"
          using key None r by (simp add: app_update_def bindP_def)
        then show thesis using keepsE [OF screen_keeps [OF assms, of env "ap_active m"]] that screen_adds by metis
      next
        case (Some mc)
        then have "app_update env msg m h = (Ret (fst mc, snd mc), h')"
          using key None r by (simp add: app_update_def bindP_def retP_def)
        then show thesis by (rule that) (use r Some in \<open>simp_all add: adds_ok_def\<close>)
      qed
    qed
  qed
qed

subsection \<open>The consumer and its buffer\<close>

lemma concat_leaves_spawn: "concat (map leaves (spawn c)) = leaves c"
proof (induction c rule: spawn.induct)
  case (2 cs)
  then show ?case by (induction cs) simp_all
qed simp_all

text \<open>Only a visit to the survey starts a consumer; screens neither touch its flag, nor store events, nor touch a tunnel.\<close>

abbreviation started :: "'i app \<Rightarrow> bool" where
  "started m \<equiv> sy_consumer_started (ap_survey m)"

definition stored :: "ui_heap \<Rightarrow> event list" where
  "stored h = b_events (en_buffer h)"

definition frames :: "('m \<Rightarrow> bool) \<Rightarrow> bool \<Rightarrow> (ui_heap, 'm \<times> 'c) prog \<Rightarrow> ui_heap \<Rightarrow> bool" where
  "frames flag b p h \<longleftrightarrow> wp p (\<lambda>r h'. stored h' = stored h \<and> uh_handles h' = uh_handles h \<and> (\<forall>m c. r = Ret (m, c) \<longrightarrow> flag m = b)) h"

lemma frames_ret [screen_simps]: "frames flag b (retP (m, c)) h \<longleftrightarrow> flag m = b"
  by (auto simp: frames_def prog_simps)

lemma frames_stay [screen_simps]: "frames flag b (stay m) h \<longleftrightarrow> flag m = b"
  by (simp add: frames_def prog_simps)

lemma frames_field [screen_simps]: "frames flag b (go_field tf msg x f) h \<longleftrightarrow> flag (f (fst (field_update tf msg x))) = b"
  by (simp add: frames_def prog_simps)

lemma frames_client [screen_simps]: "frames flag b (bindP get_client f) h \<longleftrightarrow> frames flag b (f (en_client h)) h"
  by (simp add: frames_def prog_simps)

lemma frames_set_client [screen_simps]: "frames flag b (bindP (set_client c) f) h \<longleftrightarrow> frames flag b (f ()) (h\<lparr>en_client := Some c\<rparr>)"
  by (simp add: frames_def prog_simps stored_def)

lemma frames_buffer [screen_simps]:
  "b_events (snd (g (en_buffer h))) = b_events (en_buffer h) \<Longrightarrow>
   frames flag b (bindP (on_buffer g) f) h \<longleftrightarrow> frames flag b (f (fst (g (en_buffer h)))) (h\<lparr>en_buffer := snd (g (en_buffer h))\<rparr>)"
  by (simp add: frames_def prog_simps stored_def)

lemma frames_snapshot [screen_simps]: "frames flag b (bindP (snapshot (Some i)) f) h \<longleftrightarrow> frames flag b (f (th_history (uh_handles h ! i))) h"
  by (simp add: frames_def prog_simps)

lemma still_frames:
  "frames (\<lambda>_. b) b (dashboard_update env msg m1) h" "frames (\<lambda>_. b) b (pairing_update env msg m2) h"
  "frames (\<lambda>_. b) b (provision_update env msg m3) h" "frames (\<lambda>_. b) b (update_update env msg m4) h"
  "frames (\<lambda>_. b) b (wigle_update env msg m6) h"
  by (cases msg; simp add: dashboard_update_def pairing_update_def pairing_field_def provision_update_def provision_field_def
      update_update_def update_field_def wigle_update_def wigle_browse_key_def wigle_credentials_key_def wigle_field_def screen_simps
      Let_def split: sum.split)+

lemma tunnel_frames: "tunnel_ok n m \<Longrightarrow> frames (\<lambda>_. b) b (tunnel_update env msg m) h"
  by (cases msg; cases "tu_handle m")
    (auto simp: tunnel_update_def tunnel_ok_def tunnel_field_def screen_simps Let_def split: sum.split)

lemma set_paused_events [simp]: "b_events (set_paused p b) = b_events b"
  by (simp add: set_paused_def Let_def)

lemma logs_frames: "frames (\<lambda>_. b) b (logs_update env msg l) h"
  by (cases msg) (simp_all add: logs_update_def render_def bindP_assoc screen_simps Let_def stay_def)

lemma survey_frames: "frames sy_consumer_started (sy_consumer_started m) (survey_update env msg m) h"
proof -
  have "frames sy_consumer_started (sy_consumer_started m) (bindP (logs_update env msg (sy_logs m)) (\<lambda>(l, c). retP (m\<lparr>sy_logs := l\<rparr>, c))) h"
    using logs_frames [of True env msg "sy_logs m" h] by (auto simp: frames_def prog_simps elim!: wp_mono split: outcome.split)
  then show ?thesis
    by (cases msg) (simp_all add: survey_update_def screen_simps Let_def split: option.split)
qed

lemma at_screen_frames: "frames (\<lambda>y. started (put y)) b (f x) h \<Longrightarrow> frames started b (at_screen f x put) h"
  by (auto simp: frames_def at_screen_def prog_simps elim!: wp_mono split: outcome.split)

lemma screen_frames: "app_ok n m \<Longrightarrow> frames started (started m) (screen_update env v msg m) h"
  by (cases v; simp add: screen_update_def; rule at_screen_frames)
    (simp_all add: still_frames survey_frames tunnel_frames [OF app_okD(3)])

lemma broadcast_to_frames:
  "app_ok (handles h) m \<Longrightarrow> msg_ok (handles h) msg \<Longrightarrow> frames started (started m) (broadcast_to env vs msg m) h"
proof (induction vs arbitrary: m h)
  case (Cons v vs)
  from screen_keeps [OF Cons.prems, of env v] obtain m1 c h1 where
    1: "screen_update env v msg m h = (Ret (m1, c), h1)" "app_ok (handles h) m1" "handles h1 = handles h"
    by (rule keepsE)
  have "stored h1 = stored h" "uh_handles h1 = uh_handles h" "started m1 = started m"
    using screen_frames [OF Cons.prems(1), of env v msg h] 1(1) by (simp_all add: frames_def wp_def)
  with Cons.IH [of h1 m1] Cons.prems(2) 1 show ?case
    by (auto simp: frames_def wp_def bindP_def retP_def split: prod.splits outcome.splits)
qed (simp add: screen_simps)

text \<open>So only \<open>set_active\<close> starts the consumer, once.\<close>

definition consumers :: "'i cmd list \<Rightarrow> 'i cmd list" where
  "consumers cs = filter consumer (concat (map leaves cs))"

lemma screen_consumers: "screen_cmd n c \<Longrightarrow> consumers (spawn c) = []"
  by (auto simp: consumers_def concat_leaves_spawn screen_cmd_def filter_empty_conv)

definition starts_once :: "'i app \<Rightarrow> 'i app \<Rightarrow> 'i cmd \<Rightarrow> bool" where
  "starts_once m m' c \<longleftrightarrow> started m' = started m \<and> consumers (spawn c) = [] \<or>
     \<not> started m \<and> started m' \<and> c = Batch [TickLogs, StartConsumer]"

lemma starts_once_screen: "screen_cmd n c \<Longrightarrow> started m' = started m \<Longrightarrow> starts_once m m' c"
  by (simp add: starts_once_def screen_consumers)

lemma set_active_starts: "starts_once m (fst (set_active v m)) (snd (set_active v m))"
  by (simp add: starts_once_def set_active_def survey_activate_def Let_def consumers_def)

lemma set_active_starts_eq: "set_active v m = (a, b) \<Longrightarrow> starts_once m a b"
  using set_active_starts [of m v] by simp

lemma handle_global_key_starts:
  assumes "handle_global_key k m h = (Ret r, h')"
  shows "stored h' = stored h \<and> uh_handles h' = uh_handles h \<and> (\<forall>mc. r = Some mc \<longrightarrow> starts_once m (fst mc) (snd mc))"
proof -
  have plain: "starts_once m (m\<lparr>ap_confirm := k1\<rparr>) NoCmd" "starts_once m m QuitProgram" "starts_once m (m\<lparr>ap_full_help := b\<rparr>) NoCmd" for k1 b
    by (simp_all add: starts_once_def consumers_def)
  show ?thesis
    using assms
    by (cases "screen_key k") (auto simp: handle_global_key_def bindP_def cancel_def retP_def stored_def plain split: if_split_asm
        dest: set_active_starts_eq)
qed

lemma framesD: "frames flag b p h \<Longrightarrow> p h = (Ret (m, c), h') \<Longrightarrow> stored h' = stored h \<and> uh_handles h' = uh_handles h \<and> flag m = b"
  by (simp add: frames_def wp_def)

lemma app_update_starts:
  assumes ok: "app_ok (handles h) m" "msg_ok (handles h) msg" and u: "app_update env msg m h = (Ret (m', c), h')"
  shows "stored h' = stored h \<and> uh_handles h' = uh_handles h \<and> starts_once m m' c"
proof (cases "\<exists>k. msg = Key k")
  case False
  then consider (size) w j where "msg = WindowSize w j" | (ask) k where "msg = ConfirmRequested k" | (other) "app_update env msg m = broadcast env msg m"
    by (cases msg) (auto simp: app_update_def)
  then show ?thesis
  proof cases
    case size
    then show ?thesis
      using u by (auto simp: app_update_def resize_def survey_set_size_def logs_set_size_def render_def bindP_def on_buffer_def retP_def
        stay_def starts_once_def consumers_def)
  next
    case ask
    then show ?thesis using u by (auto simp: app_update_def stay_def retP_def starts_once_def consumers_def)
  next
    case other
    from broadcast_keeps [OF ok, of env] u other have "screen_cmd (handles h) c" by (auto elim!: keepsE)
    moreover from u other obtain cs where b: "broadcast_to env screen_order msg m h = (Ret (m', cs), h')"
      by (auto simp: broadcast_def bindP_def retP_def split: prod.splits outcome.splits)
    ultimately show ?thesis using framesD [OF broadcast_to_frames [OF ok] b] starts_once_screen by blast
  qed
next
  case True
  then obtain key where key: "msg = Key key" by blast
  show ?thesis
  proof (cases "ap_confirm m")
    case (Some k)
    obtain k' c1 resolved where cu: "confirm_update (ue_fields env) msg k = (k', c1, resolved)" by (metis prod_cases3)
    then have u': "c = c1" "started m' = started m" "h' = h" using u key Some by (auto simp: app_update_def retP_def)
    have "c1 = cf_command k \<or> (\<exists>b. c1 = blink b)" using confirm_update_cases cu key by blast
    moreover have "consumers (spawn (cf_command k)) = []"
      using ok(1) Some held_consumers by (fastforce simp: consumers_def concat_leaves_spawn app_ok_def)
    moreover have "consumers (spawn (blink b)) = []" for b :: bool by (simp add: blink_def consumers_def)
    ultimately show ?thesis using u' by (auto simp: starts_once_def)
  next
    case None
    then have e: "app_update env msg m = bindP (handle_global_key key m) (\<lambda>r. case r of Some mc \<Rightarrow> retP mc | None \<Rightarrow> screen_update env (ap_active m) msg m)"
      using key by (simp add: app_update_def cong: option.case_cong)
    from handle_global_key_ok [OF ok(1), of key] obtain r h1 where
      r: "handle_global_key key m h = (Ret r, h1)" "case r of None \<Rightarrow> h1 = h | Some mc \<Rightarrow> True"
      by (fastforce split: option.splits)
    show ?thesis
    proof (cases r)
      case r_none: None
      then have s: "screen_update env (ap_active m) msg m h = (Ret (m', c), h')" using u e r by (simp add: bindP_def)
      with keepsE [OF screen_keeps [OF ok, of env "ap_active m"]] have "screen_cmd (handles h) c" by (metis Pair_inject outcome.inject(1))
      then show ?thesis using framesD [OF screen_frames [OF ok(1)] s] starts_once_screen by blast
    next
      case (Some mc)
      then show ?thesis using u e r handle_global_key_starts [OF r(1)] by (auto simp: bindP_def retP_def)
    qed
  qed
qed

subsection \<open>Commands\<close>

lemma answer_iff: "answer f p w = (Ret (m, c), w') \<longleftrightarrow> (\<exists>r. p w = (Ret r, w') \<and> m = Some (f r) \<and> c = NoCmd)"
  by (auto simp: answer_def bindP_def retP_def split: prod.splits outcome.splits)

lemma on_laptop_heap: "on_laptop p w = (r, w') \<Longrightarrow> uw_heap w' = uw_heap w"
  by (auto simp: on_laptop_def split: prod.splits)

lemma with_client_heap: "with_client none f w = (r, w') \<Longrightarrow> uw_heap w' = uw_heap w"
  by (auto simp: with_client_def bindP_def on_heap_def get_client_def retP_def dest: on_laptop_heap split: option.splits)

lemma retP_heap: "retP x w = (r, w') \<Longrightarrow> w' = w"
  by (simp add: retP_def)

lemma tunnel_start_heap:
  "run_tunnel_start co port h = (r, h') \<Longrightarrow> stored h' = stored h \<and> handles h \<le> handles h' \<and> (\<forall>i u. r = Ret (Inr (i, u)) \<longrightarrow> i < handles h')"
  by (auto simp: run_tunnel_start_def tryP_def bindP_def get_client_def retP_def add_handle_def handles_def stored_def
      split: option.splits sum.splits)

lemma load_preview_counts:
  "load_preview env p l = (Ret (Inr (rs, q)), l') \<Longrightarrow> pv_valid q = length (pv_records q)"
  by (auto simp: load_preview_def tryP_def bindP_def retP_def preview_def preview_from_spec split: prod.splits outcome.splits sum.splits)

text \<open>
  A command that ran: tunnels are only added, what it goes on as was in it before (a closing tunnel
  and a started consumer apart), and only a consumer stores events.
\<close>

definition performed_ok :: "('a, 'h) ui_world \<Rightarrow> 'i cmd \<Rightarrow> 'i msg option \<Rightarrow> 'i cmd \<Rightarrow> ('a, 'h) ui_world \<Rightarrow> bool" where
  "performed_ok w c m c' w' \<longleftrightarrow> handles (uw_heap w) \<le> handles (uw_heap w') \<and>
     (\<forall>x \<in> set (leaves c'). names_ok (handles (uw_heap w')) x \<and> (gated x \<longrightarrow> x \<in> set (leaves c))) \<and>
     (\<forall>msg. m = Some msg \<longrightarrow> msg_ok (handles (uw_heap w')) msg)"

lemma performed_answer:
  "handles (uw_heap w) \<le> handles (uw_heap w') \<Longrightarrow> msg_ok (handles (uw_heap w')) m \<Longrightarrow> performed_ok w c (Some m) NoCmd w'"
  by (simp add: performed_ok_def)

lemma consuming_leaves: "consuming cl = (m, c) \<Longrightarrow> (leaves c = [] \<or> (\<exists>x y. leaves c = [Consuming x y])) \<and> (\<forall>msg. m = Some msg \<longrightarrow> msg_ok n msg)"
  by (auto simp: consuming_def split: consume_loc.splits)

lemma start_consumer_leaves:
  "start_consumer h = (m, c) \<Longrightarrow> (leaves c = [] \<or> (\<exists>x y. leaves c = [Consuming x y])) \<and> (\<forall>msg. m = Some msg \<longrightarrow> msg_ok n msg)"
  by (auto simp: start_consumer_def split: option.splits dest: consuming_leaves)

lemma perform_ok:
  assumes "perform co n ci c w = (Ret (m, c'), w')" "\<forall>x \<in> set (leaves c). names_ok (handles (uw_heap w)) x"
  shows "performed_ok w c m c' w'"
  using assms
proof (induction co n ci c arbitrary: m c' rule: perform.induct)
  case (10 co n ci)
  then show ?case using start_consumer_leaves by (fastforce simp: on_heap_def performed_ok_def)
next
  case (11 co n ci cl l)
  let ?r = "consume_step (le_encode (co_env co)) (le_fold (co_env co)) ci (cl\<lparr>c_buffer := en_buffer (uw_heap w)\<rparr>, l)"
  have r: "consuming ?r = (m, c')" and w: "uw_heap w' = (uw_heap w)\<lparr>en_buffer := c_buffer (fst ?r)\<rparr>"
    using 11(1) by (auto simp: on_heap_def bindP_def consume_once_def retP_def Let_def)
  from consuming_leaves [OF r, of "handles (uw_heap w)"] show ?case by (auto simp: performed_ok_def w)
next
  case (13 co n ci port)
  obtain r h' where h: "run_tunnel_start co port (uw_heap w) = (r, h')" by fastforce
  with 13 obtain x where "r = Ret x" "m = Some (TunnelStarted x)" "c' = NoCmd" "uw_heap w' = h'"
    by (auto simp: answer_iff on_heap_def)
  with tunnel_start_heap [OF h] show ?case by (cases x) (auto intro!: performed_answer)
next
  case (19 co n ci p)
  then obtain r l where "load_preview (co_env co) p (uw_laptop w) = (Ret r, l)" "w' = w\<lparr>uw_laptop := l\<rparr>"
      "m = Some (WiglePreviewed (map_sum id snd r))" "c' = NoCmd"
    by (auto simp: preview_file_cmd_def answer_iff on_laptop_def split: prod.splits)
  then show ?case using load_preview_counts by (cases r) (auto intro!: performed_answer)
next
  case (14 co n ci i)
  then show ?case by (auto simp: drain_tunnel_cmd_def on_heap_def bindP_def drain_def retP_def performed_ok_def split: list.splits)
next
  case (25 co n ci c cs)
  from 25(2) obtain c1 where 1: "perform co n ci c w = (Ret (m, c1), w')" "c' = Sequence (if c1 = NoCmd then cs else c1 # cs)"
    by (auto simp: bindP_def retP_def split: prod.splits outcome.splits)
  with 25(1) [OF 1(1)] 25(3) show ?case by (auto simp: performed_ok_def intro: names_mono)
qed (auto simp: cmd_defs answer_iff panicP_def retP_def on_heap_def cancel_def performed_ok_def dest!: on_laptop_heap with_client_heap)

lemma consumers_simps [simp]:
  "consumers [] = []" "consumers (cs @ cs') = consumers cs @ consumers cs'" "consumers (spawn c) = consumers [c]"
  by (simp_all add: consumers_def concat_leaves_spawn)

lemma perform_quiet:
  assumes "perform co n ci c w = (Ret (m, c'), w')" "consumers [c] = []"
  shows "consumers [c'] = [] \<and> stored (uw_heap w') = stored (uw_heap w)"
  using assms
proof (induction co n ci c arbitrary: m c' rule: perform.induct)
  case (13 co n ci port)
  then show ?case using tunnel_start_heap by (fastforce simp: answer_iff on_heap_def consumers_def split: prod.splits)
next
  case (14 co n ci i)
  then show ?case
    by (auto simp: drain_tunnel_cmd_def on_heap_def bindP_def drain_def retP_def consumers_def stored_def at_handle_def split: list.splits)
next
  case (25 co n ci c cs)
  from 25(2) obtain c1 where 1: "perform co n ci c w = (Ret (m, c1), w')" "c' = Sequence (if c1 = NoCmd then cs else c1 # cs)"
    by (auto simp: bindP_def retP_def split: prod.splits outcome.splits)
  with 25(1) [OF 1(1)] 25(3) show ?case by (auto simp: consumers_def)
qed (auto simp: cmd_defs answer_iff panicP_def retP_def on_heap_def cancel_def consumers_def stored_def at_handle_def
    dest!: on_laptop_heap with_client_heap)

lemma consuming_next: "consuming cl = (m, c) \<Longrightarrow> c = NoCmd \<or> (\<exists>x y. c = Consuming x y)"
  by (auto simp: consuming_def split: consume_loc.splits)

lemma perform_consumer:
  assumes "perform co n ci c w = (Ret (m, c'), w')" "consumer c"
  shows "(c' = NoCmd \<or> (\<exists>x y. c' = Consuming x y)) \<and>
    (c = StartConsumer \<longrightarrow> stored (uw_heap w') = stored (uw_heap w) \<and> (en_client (uw_heap w) = None \<longrightarrow> c' = NoCmd))"
proof (cases c)
  case StartConsumer
  then have "start_consumer (uw_heap w) = (m, c')" "uw_heap w' = uw_heap w" using assms(1) by (auto simp: on_heap_def)
  then show ?thesis using StartConsumer
    by (cases "en_client (uw_heap w)") (auto simp: start_consumer_def dest: consuming_next)
next
  case (Consuming cl l)
  let ?r = "consume_step (le_encode (co_env co)) (le_fold (co_env co)) ci (cl\<lparr>c_buffer := en_buffer (uw_heap w)\<rparr>, l)"
  have "consuming ?r = (m, c')"
    using assms(1) Consuming by (auto simp: on_heap_def bindP_def consume_once_def retP_def Let_def)
  then show ?thesis using consuming_next Consuming by blast
qed (use assms(2) in simp_all)

subsection \<open>Steps\<close>

definition run_inv :: "('a, 'h, 'i) ui \<Rightarrow> bool" where
  "run_inv s \<longleftrightarrow> (let n = handles (uw_heap (ui_world s)) in app_ok n (ui_app s) \<and>
     (\<forall>c \<in> set (ui_pending s). \<forall>x \<in> set (leaves c). names_ok n x) \<and> (\<forall>m \<in> set (ui_mail s). msg_ok n m))"

lemma run_inv_start: "run_inv (ui_start co l)"
  by (simp add: run_inv_def ui_start_def new_app_def app_init_def app_ok_def pairing_ok_def update_ok_def tunnel_ok_def wigle_ok_def
      new_pairing_def new_update_screen_def new_tunnel_screen_def new_wigle_screen_def new_fields_def fields_ok_def no_preview_def Let_def)

lemma spawn_leafD: "x \<in> set (leaves c') \<Longrightarrow> c' \<in> set (spawn c) \<Longrightarrow> x \<in> set (leaves c)"
  using arg_cong [OF concat_leaves_spawn [of c], of set] by auto

lemma deliver_inv:
  assumes "run_inv s" "msg_ok (handles (uw_heap (ui_world s))) m" "deliver co m s = (r, s')"
  shows "r = Ret () \<and> run_inv s' \<and> stored (uw_heap (ui_world s')) = stored (uw_heap (ui_world s)) \<and>
    uh_handles (uw_heap (ui_world s')) = uh_handles (uw_heap (ui_world s)) \<and>
    (\<exists>c. ui_pending s' = ui_pending s @ spawn c \<and> starts_once (ui_app s) (ui_app s') c \<and>
       (\<forall>x \<in> set (leaves c). gated x \<longrightarrow> released (co_fields co) m (ui_app s) x))"
proof -
  let ?h = "uw_heap (ui_world s)"
  have ok: "app_ok (handles ?h) (ui_app s)" using assms(1) by (simp add: run_inv_def Let_def)
  from app_update_ok [OF ok assms(2), of "screens_env co"] obtain a c h' where
    u: "app_update (screens_env co) m (ui_app s) ?h = (Ret (a, c), h')" "app_ok (handles ?h) a" "handles h' = handles ?h"
      "adds_ok (ue_fields (screens_env co)) m (ui_app s) (handles ?h) c" .
  have "ue_fields (screens_env co) = co_fields co" by (simp add: screens_env_def)
  with u app_update_starts [OF ok assms(2) u(1)] assms(1,3) show ?thesis
    by (auto simp: deliver_def run_inv_def Let_def adds_ok_def) (metis spawn_leafD)
qed

lemma run_command_inv:
  assumes inv: "run_inv s" and p: "ui_pending s = cs @ c # cs'" and r: "run_command co n ci cs c cs' s = (Ret (), s')"
  obtains m c' w where "perform co n ci c (ui_world s) = (Ret (m, c'), w)" "run_inv s'" "ui_app s' = ui_app s" "ui_world s' = w"
    "ui_pending s' = cs @ spawn c' @ cs'" "\<forall>x \<in> set (leaves c'). gated x \<longrightarrow> x \<in> set (leaves c)"
proof -
  obtain m c' w where 1: "perform co n ci c (ui_world s) = (Ret (m, c'), w)"
      "s' = s\<lparr>ui_world := w, ui_pending := cs @ spawn c' @ cs', ui_mail := ui_mail s @ (case m of None \<Rightarrow> [] | Some m \<Rightarrow> [m])\<rparr>"
    using r by (auto simp: run_command_def split: prod.splits outcome.splits)
  have "\<forall>x \<in> set (leaves c). names_ok (handles (uw_heap (ui_world s))) x" using inv p by (simp add: run_inv_def Let_def)
  note ok = perform_ok [OF 1(1) this, unfolded performed_ok_def]
  have "run_inv s'"
    unfolding run_inv_def Let_def
  proof (intro conjI ballI)
    show "app_ok (handles (uw_heap (ui_world s'))) (ui_app s')"
      using inv ok 1(2) by (auto simp: run_inv_def Let_def intro: app_ok_mono)
    show "msg_ok (handles (uw_heap (ui_world s'))) msg" if "msg \<in> set (ui_mail s')" for msg
      using that inv ok 1(2) by (auto simp: run_inv_def Let_def split: option.splits intro: msg_mono)
    show "names_ok (handles (uw_heap (ui_world s'))) x" if "c1 \<in> set (ui_pending s')" "x \<in> set (leaves c1)" for c1 x
    proof (cases "c1 \<in> set (spawn c')")
      case True
      then show ?thesis using ok 1(2) that(2) by (auto dest: spawn_leafD)
    next
      case False
      then have "c1 \<in> set (ui_pending s)" using that(1) p 1(2) by auto
      then have "names_ok (handles (uw_heap (ui_world s))) x" using inv that(2) by (simp add: run_inv_def Let_def)
      then show ?thesis using ok 1(2) by (auto intro: names_mono)
    qed
  qed
  then show thesis using that 1 ok by simp
qed

text \<open>The commands in waiting, wherever they stand in a sequence.\<close>

definition waiting :: "('a, 'h, 'i) ui \<Rightarrow> 'i cmd set" where
  "waiting s = (\<Union>c \<in> set (ui_pending s). set (leaves c))"

lemma spawn_UN: "(\<Union>c' \<in> set (spawn c). set (leaves c')) = set (leaves c)"
  using arg_cong [OF concat_leaves_spawn [of c], of set] by simp

lemma waiting_append: "ui_pending s' = ui_pending s @ spawn c \<Longrightarrow> waiting s' = waiting s \<union> set (leaves c)"
  by (simp add: waiting_def UN_Un spawn_UN)

lemma waiting_replace: "ui_pending s = cs @ c # cs' \<Longrightarrow> ui_pending s' = cs @ spawn c' @ cs' \<Longrightarrow>
    waiting s' \<subseteq> waiting s \<union> set (leaves c') \<and> set (leaves c) \<subseteq> waiting s"
  by (auto simp: waiting_def UN_Un spawn_UN)

lemma ui_step_inv:
  assumes "ui_step co s l r s'" "run_inv s"
  shows "((\<forall>c. l \<noteq> Ran c) \<longrightarrow> r = Ret ()) \<and> (r = Ret () \<longrightarrow> run_inv s' \<and>
    (\<forall>x \<in> waiting s'. gated x \<longrightarrow> x \<in> waiting s \<or> (\<exists>m. l = Got m \<and> released (co_fields co) m (ui_app s) x)))"
  using assms
proof cases
  case (us_key k)
  from deliver_inv [OF assms(2) _ us_key(3)] us_key show ?thesis by (auto dest: waiting_append)
next
  case (us_resize w h)
  from deliver_inv [OF assms(2) _ us_resize(3)] us_resize show ?thesis by (auto dest: waiting_append)
next
  case (us_mail ms m ms')
  let ?s = "s\<lparr>ui_mail := ms @ ms'\<rparr>"
  have "run_inv ?s" "msg_ok (handles (uw_heap (ui_world ?s))) m"
    using assms(2) us_mail(3) by (auto simp: run_inv_def Let_def)
  from deliver_inv [OF this us_mail(5)] us_mail show ?thesis by (auto dest: waiting_append)
next
  case us_quit
  then show ?thesis using assms(2) by (simp add: run_inv_def waiting_def)
next
  case (us_run cs c cs' n ci)
  show ?thesis
  proof (intro conjI impI)
    assume "r = Ret ()"
    with us_run obtain m c' w where "run_inv s'" "ui_pending s' = cs @ spawn c' @ cs'"
        "\<forall>x \<in> set (leaves c'). gated x \<longrightarrow> x \<in> set (leaves c)"
      using run_command_inv [OF assms(2) us_run(3)] by metis
    then show "run_inv s'" "\<forall>x \<in> waiting s'. gated x \<longrightarrow> x \<in> waiting s \<or> (\<exists>m. l = Got m \<and> released (co_fields co) m (ui_app s) x)"
      using waiting_replace [OF us_run(3), of s' c'] by blast+
  qed (use us_run in simp)
next
  case (us_tunnel h i t)
  then show ?thesis using assms(2) by (simp add: run_inv_def waiting_def)
next
  case us_signal
  then show ?thesis using assms(2) by (simp add: run_inv_def waiting_def)
next
  case us_cancelled
  then show ?thesis using assms(2) by (auto simp: run_inv_def Let_def waiting_def)
qed

lemma ui_run_inv: "ui_run co (ui_start co l) tr s \<Longrightarrow> run_inv s"
proof (induction rule: ui_run.induct)
  case (ur_step tr s l s')
  then show ?case using ui_step_inv by blast
qed (rule run_inv_start)

end
