(* ===== verification/Laptop_Cli_Properties.thy ===== *)
theory Laptop_Cli_Properties
  imports Laptop_Cli Laptop_Examples Wigle_Properties
begin

section \<open>Properties of the command line\<close>

text \<open>
  Without \<open>--confirm\<close> no command changes anything on the Pi or uploads anything; and the live log
  never indexes an empty view and prints redacted events only.
\<close>

subsection \<open>Commands without confirmation\<close>

definition names_flag :: "string \<Rightarrow> string \<Rightarrow> bool" where
  "names_flag f a \<longleftrightarrow> (\<exists>n. strip_dashes a = Some n \<and> fst (flag_split n) = f)"

definition unconfirmed :: "string list \<Rightarrow> bool" where
  "unconfirmed args \<longleftrightarrow> (\<forall>a \<in> set args. \<not> names_flag ''confirm'' a)"

lemma unconfirmed_flag:
  assumes "unconfirmed args" "parse_flags spec atoi Map.empty args = Inr (vs, rest)"
  shows "\<not> flag_bool vs ''confirm''"
  using parse_flags_given [OF assms(2), of "''confirm''"] assms(1)
  by (auto simp: flag_bool_def unconfirmed_def names_flag_def)

lemma unconfirmed_tail: "unconfirmed (a # args) \<Longrightarrow> unconfirmed args"
  by (simp add: unconfirmed_def)

text \<open>Another agent that treats unconfirmed messages alike, and another WiGLE server.\<close>

definition differs_confirmed :: "'a transport \<Rightarrow> (string \<Rightarrow> wire_message \<Rightarrow> ('a, go_error option) prog) \<Rightarrow> bool" where
  "differs_confirmed tr snd1 \<longleftrightarrow> (\<forall>cid m. \<not> wm_confirm m \<longrightarrow> snd1 cid m = tr_send tr cid m)"

definition elsewhere ::
  "(string \<Rightarrow> wire_message \<Rightarrow> ('a, go_error option) prog) \<Rightarrow> 'h http \<Rightarrow> ('a, 'h) laptop_env \<Rightarrow> ('a, 'h) laptop_env" where
  "elsewhere snd1 h env = env\<lparr>le_transport := (le_transport env)\<lparr>tr_send := snd1\<rparr>, le_http := h\<rparr>"

lemma elsewhere_simps [simp]:
  "le_io (elsewhere s1 h env) = le_io env" "le_keyring (elsewhere s1 h env) = le_keyring env"
  "le_crypto (elsewhere s1 h env) = le_crypto env" "le_csv (elsewhere s1 h env) = le_csv env"
  "le_parse (elsewhere s1 h env) = le_parse env" "le_fold (elsewhere s1 h env) = le_fold env"
  "le_atoi (elsewhere s1 h env) = le_atoi env" "le_encode (elsewhere s1 h env) = le_encode env"
  "le_input (elsewhere s1 h env) = le_input env" "le_no_input (elsewhere s1 h env) = le_no_input env"
  "le_listen (elsewhere s1 h env) = le_listen env" "le_tunnel_events (elsewhere s1 h env) = le_tunnel_events env"
  "le_logs (elsewhere s1 h env) = le_logs env" "le_transport (elsewhere s1 h env) = (le_transport env)\<lparr>tr_send := s1\<rparr>"
  by (simp_all add: elsewhere_def)

lemma transport_other_send:
  "tr_dial (tr\<lparr>tr_send := x\<rparr>) = tr_dial tr" "tr_handshake (tr\<lparr>tr_send := x\<rparr>) = tr_handshake tr"
  "tr_recv (tr\<lparr>tr_send := x\<rparr>) = tr_recv tr" "tr_close (tr\<lparr>tr_send := x\<rparr>) = tr_close tr"
  by simp_all

lemma close_elsewhere: "with_close (tr\<lparr>tr_send := x\<rparr>) m = with_close tr m"
  by (simp only: with_close_def transport_other_send)

lemma call_elsewhere:
  "differs_confirmed tr snd1 \<Longrightarrow> \<not> wm_confirm m \<Longrightarrow> rpc_call (tr\<lparr>tr_send := snd1\<rparr>) cid m = rpc_call tr cid m"
  by (simp only: rpc_call_def differs_confirmed_def transport_other_send transport.simps) simp

lemma request_elsewhere:
  assumes "differs_confirmed tr snd1"
  shows "rpc_request (tr\<lparr>tr_send := snd1\<rparr>) c i opn False p = rpc_request tr c i opn False p"
proof -
  have "rpc_open (tr\<lparr>tr_send := snd1\<rparr>) c = rpc_open tr c" by (simp only: rpc_open_def transport_other_send)
  moreover have "\<not> wm_confirm hello_message" by (simp add: hello_message_def empty_message_def)
  ultimately show ?thesis
    unfolding rpc_request_def
    by (simp add: call_elsewhere [OF assms] close_elsewhere empty_message_def)
qed

lemma status_elsewhere: "differs_confirmed (le_transport env) snd1 \<Longrightarrow> status_cmd (elsewhere snd1 h env) c = status_cmd env c"
  by (simp add: status_cmd_def rpc_status_def request_elsewhere)

lemma provision_elsewhere: "unconfirmed args \<Longrightarrow> provision_cmd (elsewhere snd1 h env) c args = provision_cmd env c args"
  by (cases "parse_flags [(''request-id'', FString), (''confirm'', FBool)] (le_atoi env) Map.empty args")
     (auto simp: provision_cmd_def orfail_def controller_provision_def Let_def dest: unconfirmed_flag)

lemma update_elsewhere: "unconfirmed args \<Longrightarrow> update_cmd (elsewhere snd1 h env) c args = update_cmd env c args"
  by (cases "parse_flags [(''request-id'', FString), (''version'', FString), (''channel'', FString), (''confirm'', FBool)] (le_atoi env) Map.empty args")
     (auto simp: update_cmd_def orfail_def controller_update_def Let_def dest: unconfirmed_flag)

lemma survey_elsewhere:
  assumes "differs_confirmed (le_transport env) snd1" "unconfirmed args"
  shows "survey_cmd (elsewhere snd1 h env) c args = survey_cmd env c args"
proof (cases args)
  case (Cons w rest)
  have "\<not> flag_bool vs ''confirm''" if "parse_flags [(''confirm'', FBool)] (le_atoi env) Map.empty rest = Inr (vs, r)" for vs r
    using unconfirmed_flag [OF _ that] assms(2) Cons by (simp add: unconfirmed_def)
  then show ?thesis
    using Cons
    by (cases "parse_flags [(''confirm'', FBool)] (le_atoi env) Map.empty rest")
       (auto simp: survey_cmd_def orfail_def rpc_survey_def request_elsewhere [OF assms(1)] Let_def)
qed (simp add: survey_cmd_def)

lemma tunnel_elsewhere: "tunnel_cmd (elsewhere snd1 h env) c args = tunnel_cmd env c args"
  by (simp only: tunnel_cmd_def elsewhere_simps)

lemma load_preview_elsewhere: "load_preview (elsewhere snd1 h env) p = load_preview env p"
  by (simp only: load_preview_def elsewhere_simps)

lemma control_elsewhere:
  assumes "differs_confirmed (le_transport env) snd1" "unconfirmed args"
  shows "run_control (elsewhere snd1 h env) args = run_control env args"
proof (cases args)
  case (Cons a rest)
  have "unconfirmed rest" using assms(2) Cons unconfirmed_tail by blast
  moreover have "profile_import_cmd (elsewhere snd1 h env) words = profile_import_cmd env words" for words
    by (simp only: profile_import_cmd_def read_material_def elsewhere_simps)
  moreover have "logs_cmd (elsewhere snd1 h env) = logs_cmd env" by (rule ext) (simp add: logs_cmd_def)
  ultimately show ?thesis
    unfolding run_control_def Cons
    by (simp only: status_elsewhere [OF assms(1)] provision_elsewhere update_elsewhere survey_elsewhere [OF assms(1)] tunnel_elsewhere
        list.case elsewhere_simps)
qed (simp add: run_control_def)

lemma upload_elsewhere: "unconfirmed args \<Longrightarrow> wigle_upload_cmd (elsewhere snd1 h env) args = wigle_upload_cmd env args"
  by (cases "parse_flags [(''input'', FString), (''confirm'', FBool)] (le_atoi env) Map.empty args")
     (auto simp: wigle_upload_cmd_def orfail_def load_preview_elsewhere Let_def dest: unconfirmed_flag)

text \<open>
  C33. A command line without a \<open>--confirm\<close> flag cannot set anything off: it does exactly the same
  when every confirmed request and every upload would do something else, so it sends neither.
\<close>

theorem unconfirmed_commands_are_inert:
  assumes "unconfirmed args" "differs_confirmed (le_transport env) snd1"
  shows "run_cli env args s = run_cli (elsewhere snd1 h env) args s"
proof (cases args)
  case (Cons a rest)
  have rest: "unconfirmed rest" using assms(1) Cons unconfirmed_tail by blast
  show ?thesis
  proof (cases rest)
    case Nil
    then show ?thesis using Cons control_elsewhere [OF assms(2) rest] by (simp add: run_cli_def)
  next
    case words: (Cons w words)
    have "unconfirmed words" using rest words unconfirmed_tail by blast
    from upload_elsewhere [OF this, of snd1 h env]
    have "wigle_preview_cmd (elsewhere snd1 h env) words = wigle_preview_cmd env words"
      "wigle_export_cmd (elsewhere snd1 h env) words = wigle_export_cmd env words"
      "wigle_upload_cmd (elsewhere snd1 h env) words = wigle_upload_cmd env words"
      "wigle_credentials_cmd (elsewhere snd1 h env) words = wigle_credentials_cmd env words"
      by (simp_all only: wigle_preview_cmd_def wigle_export_cmd_def wigle_credentials_cmd_def parse_input_def load_preview_elsewhere elsewhere_simps)
    then show ?thesis
      using control_elsewhere [OF assms(2) rest, of h] by (simp only: run_cli_def Cons words list.case)
  qed
qed (simp add: run_cli_def)

text \<open>A laptop with nothing on it, whose agent counts what it is sent.\<close>

definition counting_transport :: "nat transport" where
  "counting_transport = \<lparr>tr_dial = (\<lambda>_. retP None), tr_handshake = retP None, tr_send = (\<lambda>cid m n. (Ret None, Suc n)),
     tr_recv = retP (Inl io_eof), tr_close = retP ()\<rparr>"

definition test_laptop_env :: "(nat, net) laptop_env" where
  "test_laptop_env = \<lparr>le_io = no_faults, le_keyring = good_keyring,
     le_crypto = \<lparr>gen_key = Inr, rand_serial = Inr, now_at = (\<lambda>_. 0), encode_cert = (\<lambda>_. []), decode_cert = (\<lambda>_. Inl io_eof),
       encode_key = (\<lambda>_. Inl io_eof), decode_key = (\<lambda>_. Inl io_eof), pem_encode = (\<lambda>t d. d), pem_decode = Some, sha256_hex = id\<rparr>,
     le_transport = counting_transport, le_http = test_http, le_csv = test_csv, le_parse = (\<lambda>_. Inr []), le_fold = (\<lambda>s. s),
     le_atoi = (\<lambda>_. Inr 0), le_encode = (\<lambda>_. Inr []), le_input = [], le_no_input = io_eof, le_listen = Inr, le_tunnel_events = [], le_logs = []\<rparr>"

definition test_laptop :: "(nat, net) laptop" where
  "test_laptop = \<lparr>lp_os = \<lparr>fs = Map.empty, ios = 0\<rparr>, lp_keyring = \<lparr>kr_items = Map.empty, kr_calls = 0\<rparr>, lp_agent = 0,
     lp_http = \<lparr>nt_answers = [], nt_sent = [], nt_waits = []\<rparr>, lp_out = [], lp_err = []\<rparr>"

theorem unconfirmed_commands_are_inert_witness:
  "run_cli test_laptop_env [''wigle'', ''upload'', ''--input'', ''x''] test_laptop =
   run_cli (elsewhere (\<lambda>cid m. if wm_confirm m then panicP ''sent'' else tr_send counting_transport cid m)
       (test_http\<lparr>ht_send := (\<lambda>q. panicP ''uploaded'')\<rparr>) test_laptop_env) [''wigle'', ''upload'', ''--input'', ''x''] test_laptop"
proof -
  have "unconfirmed [''wigle'', ''upload'', ''--input'', ''x'']"
    by (simp add: unconfirmed_def names_flag_def strip_dashes_def flag_split_def Let_def)
  moreover have "differs_confirmed (le_transport test_laptop_env)
      (\<lambda>cid m. if wm_confirm m then panicP ''sent'' else tr_send counting_transport cid m)"
    by (simp add: differs_confirmed_def test_laptop_env_def)
  ultimately show ?thesis by (rule unconfirmed_commands_are_inert)
qed

subsection \<open>The live log\<close>

definition clean_event :: "(string \<Rightarrow> string) \<Rightarrow> event \<Rightarrow> bool" where
  "clean_event uni e \<longleftrightarrow> (case ev_payload e of None \<Rightarrow> True | Some p \<Rightarrow> clean_map uni p)"

lemma clean_redacted: "clean_event uni (redact_event uni e)"
  by (simp add: clean_event_def redact_event_def redact_clean split: option.split)

lemma plain_keys: "\<not> is_sensitive uni ''reason''" "\<not> is_sensitive uni ''message''"
  by (simp_all add: is_sensitive_def sensitive_keys_def dashes_to_underscores_def to_lower_def is_ascii_def lower_char_def Let_def)

lemma clean_marker: "clean_event uni (overflow_marker now)"
  by (simp add: clean_event_def overflow_marker_def plain_keys)

text \<open>A buffer that overflowed keeps its marker; one that did not has lost nothing.\<close>

lemma trim_keeps_all: "\<not> b_overflowed (trim_locked enc now b) \<Longrightarrow> b_events (trim_locked enc now b) = b_events b"
  using trim_oldest_same [of enc "b_config b" "b_events b"]
  by (auto simp: trim_locked_def trim_to_bounds_def Let_def split: if_splits list.splits prod.splits)

lemma trim_oldest_set: "set (fst (trim_oldest enc c es)) \<subseteq> set es"
  using trim_oldest_suffix [of enc c es] by (rule set_mono_suffix)

lemma trim_rest_set: "set (fst (trim_rest enc c m es)) \<subseteq> insert m (set es)"
proof -
  obtain es' where "fst (trim_rest enc c m es) = m # es'" "suffix es' es" using trim_rest_suffix by blast
  then show ?thesis using set_mono_suffix by fastforce
qed

lemma trim_set: "set (b_events (trim_locked enc now b)) \<subseteq> insert (overflow_marker now) (set (b_events b))"
proof -
  have "set (fst (trim_rest enc (b_config b) (overflow_marker now) (fst (trim_oldest enc (b_config b) (b_events b))))) \<subseteq>
      insert (overflow_marker now) (set (b_events b))"
    using trim_rest_set trim_oldest_set by fastforce
  moreover have "b_events b = m # es \<Longrightarrow> set (fst (trim_rest enc (b_config b) m es)) \<subseteq> set (b_events b)" for m es
    using trim_rest_set [of enc "b_config b" m es] by simp
  ultimately show ?thesis using trim_oldest_set [of enc "b_config b" "b_events b"]
    by (fastforce simp: trim_locked_def trim_to_bounds_def Let_def split: if_splits list.splits prod.splits)
qed

definition log_inv :: "encoder \<Rightarrow> (string \<Rightarrow> string) \<Rightarrow> live_log \<Rightarrow> bool" where
  "log_inv enc uni l \<longleftrightarrow> buffer_inv enc (ll_buffer l) \<and> b_filter (ll_buffer l) = no_filter \<and> \<not> b_paused (ll_buffer l) \<and>
     (\<forall>e \<in> set (b_events (ll_buffer l)). clean_event uni e) \<and>
     (\<forall>t \<in> set (ll_lines l). \<exists>e. enc e = Inr t \<and> clean_event uni e)"

lemma no_filter_sees_all: "b_filter b = no_filter \<Longrightarrow> \<not> b_paused b \<Longrightarrow> visible b = b_events b"
  by (simp add: visible_def visible_locked_def event_matches_def no_filter_def set_has_def)

lemma appended_log:
  assumes inv: "log_inv enc uni l" and e: "clean_event uni e"
  shows "log_inv enc uni (l\<lparr>ll_buffer := appended enc now e (ll_buffer l)\<rparr>) \<and> b_events (appended enc now e (ll_buffer l)) \<noteq> []"
proof -
  let ?b = "appended enc now e (ll_buffer l)"
  have spec: "buffer_inv enc ?b" "b_filter ?b = b_filter (ll_buffer l)" "b_paused ?b = b_paused (ll_buffer l)"
    using appended_spec [of enc "ll_buffer l" now e] inv by (simp_all add: log_inv_def)
  have "set (b_events ?b) \<subseteq> insert (overflow_marker now) (insert e (set (b_events (ll_buffer l))))"
    using trim_set [of enc now "(ll_buffer l)\<lparr>b_events := b_events (ll_buffer l) @ [e]\<rparr>"] by (simp add: appended_def)
  then have "\<forall>x \<in> set (b_events ?b). clean_event uni x" using inv e clean_marker [of uni now] by (auto simp: log_inv_def)
  moreover have "b_events ?b \<noteq> []"
  proof (cases "b_overflowed ?b")
    case True
    then show ?thesis using spec(1) by (simp add: buffer_inv_def)
  next
    case False
    then show ?thesis using trim_keeps_all by (auto simp: appended_def)
  qed
  ultimately show ?thesis using spec inv by (simp add: log_inv_def)
qed

lemma live_line_spec:
  assumes "log_inv enc uni l" "b_events (ll_buffer l) \<noteq> []" "live_line enc what werr l = (r, l')"
  shows "(\<exists>x. r = Ret x) \<and> log_inv enc uni l'"
proof -
  have v: "visible (ll_buffer l) = b_events (ll_buffer l)" using assms(1) by (simp add: log_inv_def no_filter_sees_all)
  have last: "\<exists>e. enc e = Inr x \<and> clean_event uni e" if "enc (last (b_events (ll_buffer l))) = Inr x" for x
    using that assms(1,2) by (intro exI [of _ "last (b_events (ll_buffer l))"]) (simp add: log_inv_def)
  show ?thesis using assms v last by (auto simp: live_line_def log_inv_def split: sum.splits option.splits)
qed

lemma log_inv_seq: "log_inv enc uni (l\<lparr>ll_buffer := b\<rparr>) \<Longrightarrow> log_inv enc uni (l\<lparr>ll_buffer := b\<lparr>b_last_sequence := q\<rparr>\<rparr>)"
  by (simp add: log_inv_def)

lemma live_step_spec:
  assumes inv: "log_inv enc uni l" and step: "live_step enc uni i l = (r, l')"
  shows "(\<exists>x. r = Ret x) \<and> log_inv enc uni l'"
proof (cases i)
  case (LogEvent e now werr)
  show ?thesis
  proof (cases "ll_events_open l")
    case opn: True
    let ?m = "\<lambda>t. \<lparr>ev_sequence = 0, ev_occurred_at = now, ev_severity = ''warn'', ev_source = ''client'',
        ev_kind = kind_malformed_event, ev_correlation_id = [], ev_payload = Some [(''reason'', JStr t)]\<rparr>"
    have bad: "log_inv enc uni (l\<lparr>ll_buffer := malformed enc now t (ll_buffer l)\<rparr>)" for t
      using appended_log [OF inv, of "?m t" now]
      by (simp add: malformed_def append_marker_appended clean_event_def plain_keys)
    have good: "log_inv enc uni (l\<lparr>ll_buffer := store_event enc now t (redact_event uni e) (ll_buffer l)\<rparr>)"
      "b_events (store_event enc now t (redact_event uni e) (ll_buffer l)) \<noteq> []" for t
      using appended_log [OF inv clean_redacted, of now e] by (simp_all add: store_event_appended log_inv_seq)
    obtain err b where add: "buffer_add enc uni now e (ll_buffer l) = (err, b)" by fastforce
    have inv_b: "log_inv enc uni (l\<lparr>ll_buffer := b\<rparr>)"
      using add bad good(1) by (auto simp only: buffer_add_def Let_def prod.inject split: option.splits sum.splits)
    have "err = None \<Longrightarrow> b_events b \<noteq> []"
      using add good(2) by (auto simp only: buffer_add_def Let_def prod.inject option.distinct split: option.splits sum.splits)
    with inv_b consider (bad) x where "err = Some x" "log_inv enc uni (l\<lparr>ll_buffer := b\<rparr>)"
      | (good) "err = None" "log_inv enc uni (l\<lparr>ll_buffer := b\<rparr>)" "b_events b \<noteq> []"
      by (cases err) auto
    then show ?thesis
    proof cases
      case bad
      then show ?thesis using step LogEvent opn add by (simp add: live_step_def) blast
    next
      case good
      then have "live_line enc ''write live log: '' werr (l\<lparr>ll_buffer := b\<rparr>) = (r, l')"
        using step LogEvent opn add by (simp add: live_step_def)
      from live_line_spec [OF good(2) _ this] good(3) show ?thesis by simp
    qed
  qed (use inv step LogEvent in \<open>auto simp: live_step_def\<close>)
next
  case (LogErr err now werr)
  let ?m = "\<lparr>ev_sequence = 0, ev_occurred_at = now, ev_severity = ''warn'', ev_source = ''client'',
        ev_kind = kind_history_gap, ev_correlation_id = [], ev_payload = Some [(''reason'', JStr (error_text err))]\<rparr>"
  let ?b = "mark_history_gap enc now (error_text err) (ll_buffer l)"
  have gap: "log_inv enc uni (l\<lparr>ll_buffer := ?b\<rparr>)" "b_events ?b \<noteq> []"
    using appended_log [OF inv, of ?m now]
    by (simp_all add: mark_history_gap_def append_marker_appended clean_event_def plain_keys)
  show ?thesis
  proof (cases "ll_errs_open l \<and> errors_is err err_rpc_resync")
    case True
    then have "live_line enc ''write live log history gap: '' werr (l\<lparr>ll_buffer := ?b\<rparr>) = (r, l')"
      using step LogErr by (simp add: live_step_def)
    from live_line_spec [OF gap(1) _ this] gap(2) show ?thesis by simp
  next
    case False
    then show ?thesis using inv step LogErr by (auto simp: live_step_def split: if_splits)
  qed
qed (use inv step in \<open>auto simp: live_step_def log_inv_def\<close>)

lemma live_loop_spec:
  "log_inv enc uni l \<Longrightarrow> live_loop enc uni is l = (r, l') \<Longrightarrow> (\<exists>x. r = Ret x) \<and> log_inv enc uni l'"
proof (induction "is" arbitrary: l)
  case (Cons i "is")
  obtain r1 l1 where s: "live_step enc uni i l = (r1, l1)" by fastforce
  from live_step_spec [OF Cons.prems(1) s] obtain x where x: "r1 = Ret x" "log_inv enc uni l1" by blast
  then show ?case using Cons.prems s Cons.IH [OF x(2)]
    by (cases x) (auto simp: bindP_def retP_def split: if_splits)
qed (auto simp: retP_def)

lemma new_log_inv: "log_inv enc uni new_live_log"
proof -
  have "b_events (ll_buffer new_live_log) = []" "b_filter (ll_buffer new_live_log) = no_filter" "\<not> b_paused (ll_buffer new_live_log)"
    "ll_lines new_live_log = []"
    by (simp_all add: new_live_log_def new_buffer_def Let_def)
  then show ?thesis unfolding log_inv_def using buffer_inv_new by (simp add: new_live_log_def)
qed

text \<open>
  The live log never panics, although it indexes the last visible event without a check:
  after every event and every gap the view is not empty. Each line it prints is the encoding of an
  event whose payload is redacted.
\<close>

theorem live_log_prints_redacted:
  assumes "live_loop enc uni is new_live_log = (r, l)"
  shows "(\<exists>x. r = Ret x) \<and> (\<forall>t \<in> set (ll_lines l). \<exists>e. enc e = Inr t \<and> clean_event uni e)"
  using live_loop_spec [OF new_log_inv assms] by (simp add: log_inv_def)

theorem live_log_prints_redacted_witness:
  "\<exists>r l. live_loop (\<lambda>e. Inr (ev_kind e)) (\<lambda>s. s) [LogErr err_rpc_resync 3 None, LogEventsClosed, LogErrsClosed] new_live_log = (r, l) \<and>
     (\<exists>x. r = Ret x) \<and> (\<forall>t \<in> set (ll_lines l). \<exists>e. ev_kind e = t \<and> clean_event (\<lambda>s. s) e)"
proof -
  obtain r l where r: "live_loop (\<lambda>e. Inr (ev_kind e)) (\<lambda>s. s) [LogErr err_rpc_resync 3 None, LogEventsClosed, LogErrsClosed] new_live_log = (r, l)"
    by fastforce
  from live_log_prints_redacted [OF r] r show ?thesis by auto
qed

end
