(* ===== verification/Tui_Properties.thy ===== *)
theory Tui_Properties
  imports Tui_Runs Laptop_Cli_Properties
begin

section \<open>Properties of the console\<close>

text \<open>
  Runs of the console from its start: what reaches the agent was confirmed, no handler panics, the
  log's consumer is started once; then what can be typed, and pairing from end to end.
\<close>

subsection \<open>Confirmation\<close>

text \<open>
  The user's act that let a command go: a key in an open modal that told what it held, for a typed
  gate with its text in the field.
\<close>

definition confirmed_in :: "('a, 'h, 'i) console \<Rightarrow> (('a, 'h, 'i) ui \<times> 'i ui_label) list \<Rightarrow> 'i cmd \<Rightarrow> bool" where
  "confirmed_in co tr x \<longleftrightarrow>
     (\<exists>s key k. (s, Got (Key key)) \<in> set tr \<and> ap_confirm (ui_app s) = Some k \<and> x \<in> set (leaves (cf_command k)) \<and> told_by k x \<and>
        (case x of
           ProvisionSubmit i \<Rightarrow> key = ''enter'' \<and> ti_value (co_fields co) (gate_input (co_fields co) k) = i \<and> i \<noteq> []
         | UpdateSubmit q \<Rightarrow> key = ''enter'' \<and> ti_value (co_fields co) (gate_input (co_fields co) k) = ru_version q \<and> ru_version q \<noteq> []
         | _ \<Rightarrow> key = ''y'' \<or> key = ''enter''))"

lemma released_confirmed:
  assumes "released (co_fields co) m (ui_app s) x" "(s, Got m) \<in> set tr"
  shows "confirmed_in co tr x"
proof -
  obtain key k where k: "m = Key key" "ap_confirm (ui_app s) = Some k" "accepts (co_fields co) key k" "x \<in> set (leaves (cf_command k))"
      "told_by k x"
    using assms(1) by (auto simp: released_def)
  then show ?thesis
    unfolding confirmed_in_def using assms(2)
    by (intro exI [of _ s] exI [of _ key] exI [of _ k]) (cases x; auto simp: accepts_def split: if_splits)
qed

lemma confirmed_mono: "confirmed_in co tr x \<Longrightarrow> confirmed_in co (e # tr) x"
  unfolding confirmed_in_def by (meson list.set_intros(2))

text \<open>
  C34. Nothing is provisioned, updated, surveyed or uploaded without the user's word: whenever such
  a command waits to be run, a key was pressed earlier in an open modal that held it and named what
  it does (the version and channel of an update, how many records an upload sends, whether the survey
  starts or stops), and for provisioning and updates it was enter with exactly the request id or the
  version in the field.
\<close>

theorem gated_commands_were_confirmed:
  assumes "ui_run co (ui_start co l) tr s" "x \<in> waiting s" "gated x"
  shows "confirmed_in co tr x"
  using assms
proof (induction rule: ui_run.induct)
  case ur_start
  then show ?case by (auto simp: waiting_def ui_start_def app_init_def)
next
  case (ur_step tr s lab s')
  have "x \<in> waiting s \<or> (\<exists>m. lab = Got m \<and> released (co_fields co) m (ui_app s) x)"
    using ui_step_inv [OF ur_step(2) ui_run_inv [OF ur_step(1)]] ur_step.prems by blast
  then show ?case
  proof
    assume "x \<in> waiting s"
    then show ?case using ur_step.IH ur_step.prems(2) by (intro confirmed_mono) blast
  qed (auto intro: released_confirmed)
qed

subsection \<open>No handler panics\<close>

text \<open>
  C35. The console never dereferences a tunnel it does not have: in every run each message and key
  is handled without a panic, and the commands in waiting name only tunnels that were started.
\<close>

theorem console_never_dereferences_nil:
  assumes "ui_run co (ui_start co l) tr s"
  shows "(\<forall>lab r s'. ui_step co s lab r s' \<and> (\<forall>c. lab \<noteq> Ran c) \<longrightarrow> r = Ret ()) \<and> CloseTunnel None \<notin> waiting s \<and>
    (\<forall>i. CloseTunnel (Some i) \<in> waiting s \<or> DrainTunnel i \<in> waiting s \<longrightarrow> i < length (uh_handles (uw_heap (ui_world s))))"
proof -
  have inv: "run_inv s" using ui_run_inv [OF assms] .
  then have "\<forall>x \<in> waiting s. names_ok (handles (uw_heap (ui_world s))) x" by (auto simp: run_inv_def Let_def waiting_def)
  then have "CloseTunnel None \<notin> waiting s" "CloseTunnel (Some i) \<in> waiting s \<or> DrainTunnel i \<in> waiting s \<Longrightarrow> i < handles (uw_heap (ui_world s))" for i
    by fastforce+
  then show ?thesis using ui_step_inv [OF _ inv] by (auto simp: handles_def)
qed

subsection \<open>The log's consumer\<close>

definition flat :: "'i cmd list \<Rightarrow> bool" where
  "flat cs \<longleftrightarrow> (\<forall>c \<in> set cs. consumers [c] = [] \<or> consumer c)"

definition unpaired_start :: "(('a, 'h, 'i) ui \<times> 'i ui_label) list \<Rightarrow> bool" where
  "unpaired_start tr \<longleftrightarrow> (\<exists>s. (s, Ran StartConsumer) \<in> set tr \<and> en_client (uw_heap (ui_world s)) = None)"

text \<open>Before the consumer starts, while it waits to start, and after.\<close>

definition consumer_phase :: "(('a, 'h, 'i) ui \<times> 'i ui_label) list \<Rightarrow> ('a, 'h, 'i) ui \<Rightarrow> bool" where
  "consumer_phase tr s \<longleftrightarrow> flat (ui_pending s) \<and>
     (\<not> started (ui_app s) \<and> consumers (ui_pending s) = [] \<and> stored (uw_heap (ui_world s)) = [] \<and> \<not> unpaired_start tr \<or>
      started (ui_app s) \<and> consumers (ui_pending s) = [StartConsumer] \<and> stored (uw_heap (ui_world s)) = [] \<and> \<not> unpaired_start tr \<or>
      started (ui_app s) \<and> (consumers (ui_pending s) = [] \<or> (\<exists>x y. consumers (ui_pending s) = [Consuming x y])) \<and>
        (unpaired_start tr \<longrightarrow> consumers (ui_pending s) = [] \<and> stored (uw_heap (ui_world s)) = []))"

lemma consumer_alone: "consumer c \<Longrightarrow> consumers [c] = [c]"
  by (cases c) (simp_all add: consumers_def)

lemma flat_append [simp]: "flat (cs @ cs') \<longleftrightarrow> flat cs \<and> flat cs'"
  by (auto simp: flat_def)

lemma flat_quiet: "consumers cs = [] \<Longrightarrow> flat cs"
  by (auto simp: flat_def consumers_def filter_empty_conv)

lemma unpaired_other: "(\<forall>c. l \<noteq> Ran c) \<Longrightarrow> unpaired_start ((s, l) # tr) = unpaired_start tr"
  by (auto simp: unpaired_start_def)

lemma phase_same:
  "consumer_phase tr s \<Longrightarrow> unpaired_start tr' = unpaired_start tr \<Longrightarrow> started (ui_app s') = started (ui_app s) \<Longrightarrow> flat (ui_pending s') \<Longrightarrow>
   consumers (ui_pending s') = consumers (ui_pending s) \<Longrightarrow> stored (uw_heap (ui_world s')) = stored (uw_heap (ui_world s)) \<Longrightarrow>
   consumer_phase tr' s'"
  by (simp add: consumer_phase_def)

lemma phase_deliver:
  assumes "consumer_phase tr s" "run_inv s" "msg_ok (handles (uw_heap (ui_world s))) m" "deliver co m s = (Ret (), s')"
    "unpaired_start tr' = unpaired_start tr"
  shows "consumer_phase tr' s'"
proof -
  from deliver_inv [OF assms(2-4)] obtain c where c: "ui_pending s' = ui_pending s @ spawn c" "starts_once (ui_app s) (ui_app s') c"
      "stored (uw_heap (ui_world s')) = stored (uw_heap (ui_world s))" by blast
  show ?thesis
  proof (cases "started (ui_app s') = started (ui_app s) \<and> consumers (spawn c) = []")
    case True
    show ?thesis by (rule phase_same [OF assms(1,5)]) (use True c assms(1) in \<open>auto simp: consumer_phase_def intro: flat_quiet\<close>)
  next
    case False
    then have f: "\<not> started (ui_app s)" "started (ui_app s')" "c = Batch [TickLogs, StartConsumer]" using c(2) by (auto simp: starts_once_def)
    have "flat (spawn c)" "consumers (spawn c) = [StartConsumer]" "consumers [TickLogs, StartConsumer :: 'c cmd] = [StartConsumer]"
      by (simp_all add: f(3) flat_def consumers_def)
    then show ?thesis using f assms(1,5) c by (auto simp: consumer_phase_def)
  qed
qed

lemma phase_run:
  assumes "consumer_phase tr s" "run_inv s" "ui_pending s = cs @ c # cs'" "run_command co n ci cs c cs' s = (Ret (), s')"
  shows "consumer_phase ((s, Ran c) # tr) s'"
proof -
  from run_command_inv [OF assms(2-4)] obtain m c' w where
    p: "perform co n ci c (ui_world s) = (Ret (m, c'), w)" "ui_app s' = ui_app s" "ui_world s' = w" "ui_pending s' = cs @ spawn c' @ cs'" .
  have pending: "consumers (ui_pending s) = consumers cs @ consumers [c] @ consumers cs'"
    using consumers_simps(2) [of cs "c # cs'"] consumers_simps(2) [of "[c]" cs'] by (simp add: assms(3))
  have flat: "flat cs" "flat cs'" "consumers [c] = [] \<or> consumer c"
    using assms(1,3) by (auto simp: consumer_phase_def flat_def)
  from flat(3) show ?thesis
  proof
    assume q: "consumers [c] = []"
    then have "c \<noteq> StartConsumer" by (auto simp: consumers_def)
    then have "unpaired_start ((s, Ran c) # tr) = unpaired_start tr" by (auto simp: unpaired_start_def)
    with perform_quiet [OF p(1) q] flat(1,2) p pending q show ?thesis
      by (intro phase_same [OF assms(1)]) (simp_all add: flat_quiet)
  next
    assume q: "consumer c"
    note next1 = perform_consumer [OF p(1) q]
    have alone: "consumers [c] = [c]" using q by (rule consumer_alone)
    then have rest: "consumers cs = []" "consumers cs' = []" and started: "started (ui_app s)"
      using assms(1) pending by (auto simp: consumer_phase_def append_eq_Cons_conv)
    have after: "consumers [c'] = [] \<or> (\<exists>x y. consumers [c'] = [Consuming x y])" "flat (spawn c')"
      using next1 by (auto simp: consumers_def flat_def)
    have before: "stored (uw_heap (ui_world s)) = [] \<and> \<not> unpaired_start tr" if "c = StartConsumer"
      using assms(1) pending alone that by (auto simp: consumer_phase_def append_eq_Cons_conv)
    have "consumers [c'] = [] \<and> stored (uw_heap w) = []" if "unpaired_start ((s, Ran c) # tr)"
    proof (cases "c = StartConsumer")
      case True
      then have "en_client (uw_heap (ui_world s)) = None" using that before by (auto simp: unpaired_start_def)
      then show ?thesis using next1 before True by (auto simp: consumers_def)
    next
      case False
      then have "unpaired_start tr" using that by (auto simp: unpaired_start_def)
      then show ?thesis using assms(1) pending alone by (auto simp: consumer_phase_def)
    qed
    then show ?thesis using p flat after rest started by (auto simp: consumer_phase_def)
  qed
qed

lemma run_phase: "ui_run co (ui_start co l) tr s \<Longrightarrow> consumer_phase tr s"
proof (induction rule: ui_run.induct)
  case ur_start
  then show ?case
    by (simp add: consumer_phase_def ui_start_def app_init_def new_app_def new_survey_def consumers_def flat_def unpaired_start_def
        stored_def new_heap_def new_engine_def new_buffer_def engine.defs Let_def)
next
  case (ur_step tr s lab s')
  note inv = ui_run_inv [OF ur_step(1)]
  from ur_step(2) show ?case
  proof cases
    case (us_key k)
    show ?thesis by (rule phase_deliver [OF ur_step.IH inv _ us_key(3)]) (simp_all add: unpaired_other us_key(1))
  next
    case (us_resize w h)
    show ?thesis by (rule phase_deliver [OF ur_step.IH inv _ us_resize(3)]) (simp_all add: unpaired_other us_resize(1))
  next
    case (us_mail ms m ms')
    let ?s = "s\<lparr>ui_mail := ms @ ms'\<rparr>"
    have "consumer_phase tr ?s" "run_inv ?s" "msg_ok (handles (uw_heap (ui_world ?s))) m"
      using ur_step.IH inv us_mail(3) by (auto simp: consumer_phase_def run_inv_def Let_def)
    from phase_deliver [OF this us_mail(5)] show ?thesis by (simp add: unpaired_other us_mail(1))
  next
    case (us_run cs c cs' n ci)
    then show ?thesis using phase_run [OF ur_step.IH inv] by simp
  qed (use ur_step.IH in \<open>auto simp: consumer_phase_def unpaired_other stored_def at_handle_def\<close>)
qed

text \<open>
  C37. The live log has one chance: if the survey screen is first visited before a profile is paired,
  the consumer it starts gives up at once, and in every later state of the run no consumer is
  waiting or running and not one event is stored, whatever is paired afterwards.
\<close>

theorem early_visit_silences_log:
  assumes "ui_run co (ui_start co l) tr s" "(s1, Ran StartConsumer) \<in> set tr" "en_client (uw_heap (ui_world s1)) = None"
  shows "b_events (en_buffer (uw_heap (ui_world s))) = [] \<and> (\<forall>c \<in> waiting s. \<not> consumer c)"
proof -
  have "unpaired_start tr" using assms(2,3) by (auto simp: unpaired_start_def)
  then have "stored (uw_heap (ui_world s)) = []" "consumers (ui_pending s) = []"
    using run_phase [OF assms(1)] by (auto simp: consumer_phase_def)
  then show ?thesis by (auto simp: stored_def consumers_def filter_empty_conv waiting_def)
qed

subsection \<open>Pairing from end to end\<close>

lemma orfail_none: "orfail p f s = (Ret None, s') \<longleftrightarrow> (\<exists>x s1. p s = (Ret (Inr x), s1) \<and> f x s1 = (Ret None, s'))"
  by (auto simp: orfail_def bindP_def failP_def retP_def split: prod.splits outcome.splits sum.splits)

lemma at_os_iff: "at_os f s = (Ret x, s') \<longleftrightarrow> (\<exists>t. f (lp_os s) = (x, t) \<and> s' = s\<lparr>lp_os := t\<rparr>)"
  by (auto simp: at_os_def split: prod.splits)

lemma at_keyring_iff: "at_keyring p s = (r, s') \<longleftrightarrow> (\<exists>k. p (lp_keyring s) = (r, k) \<and> s' = s\<lparr>lp_keyring := k\<rparr>)"
  by (auto simp: at_keyring_def split: prod.splits)

lemma run_pairing_success:
  assumes "run_pairing co ca cert key i l = (Ret None, l')" "co_deps co = default_app_deps (co_env co)"
  obtains c o1 o2 o3 where
    "os_read_file (le_io (co_env co)) ca (lp_os l) = (Inr (cr_ca_pem c), o1)" "os_read_file (le_io (co_env co)) cert o1 = (Inr (cr_cert_pem c), o2)"
    "os_read_file (le_io (co_env co)) key o2 = (Inr (cr_key_pem c), o3)" "cr_client_id c = i"
    "profile_save (le_keyring (co_env co)) c (lp_keyring l) = (Ret None, lp_keyring l')"
proof -
  from assms obtain ca1 cert1 key1 o1 o2 o3 k where
    "os_read_file (le_io (co_env co)) ca (lp_os l) = (Inr ca1, o1)" "os_read_file (le_io (co_env co)) cert o1 = (Inr cert1, o2)"
    "os_read_file (le_io (co_env co)) key o2 = (Inr key1, o3)"
    "profile_save (le_keyring (co_env co)) \<lparr>cr_ca_pem = ca1, cr_cert_pem = cert1, cr_key_pem = key1, cr_client_id = i\<rparr> (lp_keyring l) =
       (Ret None, lp_keyring l')"
    by (auto simp: run_pairing_def Let_def orfail_none at_os_iff default_app_deps_def at_keyring_iff)
  then show thesis
    by (intro that [of "\<lparr>cr_ca_pem = ca1, cr_cert_pem = cert1, cr_key_pem = key1, cr_client_id = i\<rparr>" o1 o2 o3]) simp_all
qed

lemma saved_asks_for_profile: "\<exists>a' c h'. app_update env (PairingSaved None) a h = (Ret (a', c), h') \<and> LoadCredentials \<in> set (leaves c)"
  by (auto simp: app_update_def broadcast_def screen_order_def screen_update_def at_screen_def bindP_def retP_def stay_def go_field_def
      dashboard_update_def pairing_update_def provision_update_def provision_field_def update_update_def update_field_def
      survey_update_def logs_update_def tunnel_update_def tunnel_field_def wigle_update_def wigle_field_def split: prod.splits)

lemma loaded_sets_client:
  "ue_new_client env pi_address creds = Inr c \<Longrightarrow>
   \<exists>a' cmd h'. app_update env (CredentialsLoaded (Inr creds)) a h = (Ret (a', cmd), h') \<and> en_client h' = Some c"
  by (auto simp: app_update_def broadcast_def screen_order_def screen_update_def at_screen_def bindP_def retP_def stay_def go_field_def
      dashboard_update_def set_client_def pairing_update_def pairing_field_def provision_update_def provision_field_def update_update_def
      update_field_def survey_update_def logs_update_def tunnel_update_def tunnel_field_def wigle_update_def wigle_field_def Let_def
      split: prod.splits)

text \<open>Loaded credentials of which no client can be made leave the client as it is.\<close>

lemma loaded_keeps_client:
  "ue_new_client env pi_address creds = Inl err \<Longrightarrow>
   \<exists>a' cmd h'. app_update env (CredentialsLoaded (Inr creds)) a h = (Ret (a', cmd), h') \<and> en_client h' = en_client h \<and>
     db_status_err (ap_dashboard a') = Some err"
  by (auto simp: app_update_def broadcast_def screen_order_def screen_update_def at_screen_def bindP_def retP_def stay_def go_field_def
      dashboard_update_def pairing_update_def pairing_field_def provision_update_def provision_field_def update_update_def
      update_field_def survey_update_def logs_update_def tunnel_update_def tunnel_field_def wigle_update_def wigle_field_def Let_def
      split: prod.splits)

text \<open>
  C40. Pairing in the console takes effect if the files hold usable material: when the pairing screen's
  command reports success, the message makes the console load the profile again, what is loaded is
  the content of the three files and the id, and, if a client can be made from it, the message that
  brings it sets that client. If none can be made (an invalid PEM, say), the dashboard says why and the
  console goes on with the client it had, although the pairing was reported as a success.
\<close>

theorem pairing_reaches_client:
  assumes "perform co n ci (PairingSubmit ca cert key i) w = (Ret (Some (PairingSaved None), c0), w1)"
    and "co_deps co = default_app_deps (co_env co)" "keyring_ok (le_keyring (co_env co)) (lp_keyring (uw_laptop w1))"
  shows "(\<exists>a1 c h1. app_update (screens_env co) (PairingSaved None) a h = (Ret (a1, c), h1) \<and> LoadCredentials \<in> set (leaves c)) \<and>
    (\<exists>creds w2 o1 o2 o3. perform co n ci LoadCredentials w1 = (Ret (Some (CredentialsLoaded (Inr creds)), NoCmd), w2) \<and>
      os_read_file (le_io (co_env co)) ca (lp_os (uw_laptop w)) = (Inr (cr_ca_pem creds), o1) \<and>
      os_read_file (le_io (co_env co)) cert o1 = (Inr (cr_cert_pem creds), o2) \<and>
      os_read_file (le_io (co_env co)) key o2 = (Inr (cr_key_pem creds), o3) \<and> cr_client_id creds = i \<and>
      (\<forall>cl. new_rpc_client (le_crypto (co_env co)) pi_address creds = Inr cl \<longrightarrow>
        (\<exists>a2 cmd h2. app_update (screens_env co) (CredentialsLoaded (Inr creds)) a' h' = (Ret (a2, cmd), h2) \<and> en_client h2 = Some cl)) \<and>
      (\<forall>err. new_rpc_client (le_crypto (co_env co)) pi_address creds = Inl err \<longrightarrow>
        (\<exists>a2 cmd h2. app_update (screens_env co) (CredentialsLoaded (Inr creds)) a' h' = (Ret (a2, cmd), h2) \<and>
          en_client h2 = en_client h' \<and> db_status_err (ap_dashboard a2) = Some err)))"
proof (rule conjI [OF saved_asks_for_profile])
  have p: "run_pairing co ca cert key i (uw_laptop w) = (Ret None, uw_laptop w1)"
    using assms(1) by (auto simp: answer_iff on_laptop_def split: prod.splits)
  from run_pairing_success [OF p assms(2)] obtain c o1 o2 o3 where
    c: "os_read_file (le_io (co_env co)) ca (lp_os (uw_laptop w)) = (Inr (cr_ca_pem c), o1)"
      "os_read_file (le_io (co_env co)) cert o1 = (Inr (cr_cert_pem c), o2)"
      "os_read_file (le_io (co_env co)) key o2 = (Inr (cr_key_pem c), o3)" "cr_client_id c = i"
      "profile_save (le_keyring (co_env co)) c (lp_keyring (uw_laptop w)) = (Ret None, lp_keyring (uw_laptop w1))" .
  from profile.saved_then_loaded [OF c(5) refl assms(3)] obtain k3 where
    k: "profile_load (le_keyring (co_env co)) (lp_keyring (uw_laptop w1)) = (Ret (Inr c), k3)" by blast
  have load: "perform co n ci LoadCredentials w1 =
      (Ret (Some (CredentialsLoaded (Inr c)), NoCmd), w1\<lparr>uw_laptop := (uw_laptop w1)\<lparr>lp_keyring := k3\<rparr>\<rparr>)"
    by (simp add: load_credentials_cmd_def answer_def on_laptop_def assms(2) default_app_deps_def at_keyring_def k bindP_def retP_def)
  have made: "ue_new_client (screens_env co) = new_rpc_client (le_crypto (co_env co))"
    by (simp add: screens_env_def assms(2) default_app_deps_def)
  have "\<forall>cl. new_rpc_client (le_crypto (co_env co)) pi_address c = Inr cl \<longrightarrow>
      (\<exists>a2 cmd h2. app_update (screens_env co) (CredentialsLoaded (Inr c)) a' h' = (Ret (a2, cmd), h2) \<and> en_client h2 = Some cl)"
    using loaded_sets_client made by metis
  moreover have "\<forall>err. new_rpc_client (le_crypto (co_env co)) pi_address c = Inl err \<longrightarrow>
      (\<exists>a2 cmd h2. app_update (screens_env co) (CredentialsLoaded (Inr c)) a' h' = (Ret (a2, cmd), h2) \<and>
        en_client h2 = en_client h' \<and> db_status_err (ap_dashboard a2) = Some err)"
    using loaded_keeps_client made by metis
  ultimately show "\<exists>creds w2 o1 o2 o3. perform co n ci LoadCredentials w1 = (Ret (Some (CredentialsLoaded (Inr creds)), NoCmd), w2) \<and>
      os_read_file (le_io (co_env co)) ca (lp_os (uw_laptop w)) = (Inr (cr_ca_pem creds), o1) \<and>
      os_read_file (le_io (co_env co)) cert o1 = (Inr (cr_cert_pem creds), o2) \<and>
      os_read_file (le_io (co_env co)) key o2 = (Inr (cr_key_pem creds), o3) \<and> cr_client_id creds = i \<and>
      (\<forall>cl. new_rpc_client (le_crypto (co_env co)) pi_address creds = Inr cl \<longrightarrow>
        (\<exists>a2 cmd h2. app_update (screens_env co) (CredentialsLoaded (Inr creds)) a' h' = (Ret (a2, cmd), h2) \<and> en_client h2 = Some cl)) \<and>
      (\<forall>err. new_rpc_client (le_crypto (co_env co)) pi_address creds = Inl err \<longrightarrow>
        (\<exists>a2 cmd h2. app_update (screens_env co) (CredentialsLoaded (Inr creds)) a' h' = (Ret (a2, cmd), h2) \<and>
          en_client h2 = en_client h' \<and> db_status_err (ap_dashboard a2) = Some err))"
    using load c by blast
qed

subsection \<open>What cannot be typed\<close>

text \<open>
  What is used of a text field: a named key adds nothing to its text, another key at most its own
  bytes, and the focus does not change it.
\<close>

definition typing_fields :: "'i text_fields \<Rightarrow> string set \<Rightarrow> bool" where
  "typing_fields tf named \<longleftrightarrow> (\<forall>p n. ti_value tf (ti_new tf p n) = []) \<and> (\<forall>x. ti_value tf (ti_focus tf x) = ti_value tf x) \<and>
     (\<forall>x. ti_value tf (ti_blur tf x) = ti_value tf x) \<and>
     (\<forall>k x. set (ti_value tf (fst (ti_key tf k x))) \<subseteq> set (ti_value tf x) \<union> (if k \<in> named then {} else set k))"

fun type_keys :: "'i ui_env \<Rightarrow> string list \<Rightarrow> 'i wigle_screen \<Rightarrow> (ui_heap, 'i wigle_screen) prog" where
  "type_keys env [] m = retP m"
| "type_keys env (k # ks) m = bindP (wigle_update env (Key k) m) (\<lambda>(m, c). type_keys env ks m)"

definition plain_key :: "string set \<Rightarrow> string \<Rightarrow> bool" where
  "plain_key named k \<longleftrightarrow> k \<in> named \<or> length k = 1 \<or> set k \<inter> set ''ceu'' = {}"

definition lacks_hotkeys :: "'i text_fields \<Rightarrow> 'i wigle_screen \<Rightarrow> bool" where
  "lacks_hotkeys tf m \<longleftrightarrow> wigle_ok 0 m \<and> (\<forall>x \<in> set (wg_inputs m). set (ti_value tf x) \<inter> set ''ceu'' = {})"

lemma field_key: "field_update tf (Key k) x = (fst (ti_key tf k x), blink (snd (ti_key tf k x)))"
  by (simp add: field_update_def split: prod.split)

lemma set_list_update: "y \<in> set (xs[i := z]) \<Longrightarrow> y \<in> set xs \<or> y = z"
  using set_update_subset_insert by fastforce

lemma refocus_lacks:
  assumes "typing_fields tf named" "\<forall>x \<in> set xs. P (ti_value tf x)" "i < length xs" "j < length xs" "y \<in> set (refocus tf i j xs)"
  shows "P (ti_value tf y)"
proof -
  let ?xs = "xs[i := ti_blur tf (xs ! i)]"
  have 1: "\<forall>x \<in> set ?xs. P (ti_value tf x)"
    using assms(1-3) by (auto simp: typing_fields_def dest!: set_list_update)
  then have "P (ti_value tf (ti_focus tf (?xs ! j)))" using assms(1,4) by (simp add: typing_fields_def)
  moreover have "y \<in> set ?xs \<or> y = ti_focus tf (?xs ! j)"
    using set_list_update assms(5) unfolding refocus_def Let_def by fast
  ultimately show ?thesis using 1 by blast
qed

lemma lacks_flags [simp]:
  "lacks_hotkeys tf (m\<lparr>wg_mode := d\<rparr>) \<longleftrightarrow> lacks_hotkeys tf m" "lacks_hotkeys tf (m\<lparr>wg_cred_name := x\<rparr>) \<longleftrightarrow> lacks_hotkeys tf m"
  "lacks_hotkeys tf (m\<lparr>wg_cred_token := x\<rparr>) \<longleftrightarrow> lacks_hotkeys tf m"
  "lacks_hotkeys tf (m\<lparr>wg_mode := d, wg_cred_name := x, wg_cred_focus_token := b\<rparr>) \<longleftrightarrow> lacks_hotkeys tf m"
  "lacks_hotkeys tf (wigle_switch_field tf1 m) \<longleftrightarrow> lacks_hotkeys tf m"
  by (simp_all add: lacks_hotkeys_def wigle_ok_def wigle_switch_field_def)

lemma wigle_key_lacks:
  assumes tf: "typing_fields (ue_fields env) named" and k: "plain_key named k" and m: "lacks_hotkeys (ue_fields env) m"
    and u: "wigle_update env (Key k) m h = (Ret (m', c), h')"
  shows "lacks_hotkeys (ue_fields env) m'"
proof -
  let ?tf = "ue_fields env"
  have bounds: "wg_focus m < length (wg_inputs m)" "(wg_focus m + 1) mod 2 < length (wg_inputs m)"
    using m by (simp_all add: lacks_hotkeys_def wigle_ok_def fields_ok_def)
  have moved: "lacks_hotkeys ?tf (m\<lparr>wg_inputs := refocus ?tf (wg_focus m) ((wg_focus m + 1) mod 2) (wg_inputs m),
      wg_focus := (wg_focus m + 1) mod 2\<rparr>)"
    using m refocus_lacks [OF tf _ bounds, of "\<lambda>v. set v \<inter> set ''ceu'' = {}"]
    by (auto simp: lacks_hotkeys_def wigle_ok_def fields_ok_focus)
  have typed: "lacks_hotkeys ?tf (m\<lparr>wg_inputs := (wg_inputs m)[wg_focus m := fst (ti_key ?tf k (wg_inputs m ! wg_focus m))]\<rparr>)"
    if "k \<noteq> ''c''" "k \<noteq> ''e''" "k \<noteq> ''u''"
  proof -
    have "k \<in> named \<or> set k \<inter> set ''ceu'' = {}"
      using k that by (auto simp: plain_key_def length_Suc_conv)
    moreover have "set (ti_value ?tf (wg_inputs m ! wg_focus m)) \<inter> set ''ceu'' = {}"
      using m bounds(1) by (simp add: lacks_hotkeys_def)
    ultimately have "set (ti_value ?tf (fst (ti_key ?tf k (wg_inputs m ! wg_focus m)))) \<inter> set ''ceu'' = {}"
      using tf unfolding typing_fields_def by (smt (verit) Int_iff Un_iff disjoint_iff subsetD sup_bot.right_neutral)
    then show ?thesis using m by (auto simp: lacks_hotkeys_def wigle_ok_def dest!: set_list_update)
  qed
  show ?thesis
    using u m moved typed
    by (auto simp: wigle_update_def wigle_credentials_key_def wigle_browse_key_def wigle_field_def go_field_def field_key stay_def retP_def
        Let_def split: if_splits)
qed

lemma type_keys_lacks:
  assumes "typing_fields (ue_fields env) named" "\<forall>k \<in> set ks. plain_key named k" "lacks_hotkeys (ue_fields env) m0"
    "type_keys env ks m0 h = (Ret m, h')"
  shows "lacks_hotkeys (ue_fields env) m"
  using assms(2-4)
proof (induction ks arbitrary: m0 h)
  case (Cons k ks)
  from Cons.prems(3) obtain m1 c h1 where "wigle_update env (Key k) m0 h = (Ret (m1, c), h1)" "type_keys env ks m1 h1 = (Ret m, h')"
    by (auto simp: bindP_def split: prod.splits outcome.splits)
  then show ?case using Cons wigle_key_lacks [OF assms(1)] by (meson list.set_intros)
qed (simp add: retP_def)

text \<open>
  C39. On the WiGLE screen a path with a c, an e or a u cannot be typed key by key, \<open>capture.json\<close> for one,
  the example the field itself shows: these keys are commands of the screen, and whatever plain keys are
  pressed one at a time, neither field ever holds such a letter. A plain key is a named one, which
  inserts nothing, one character, or one whose text has none of the three letters; a chord such as \<open>alt+c\<close>
  and pasted text, whose strings are longer and contain the letter, are not, and do put it in the field.
\<close>

theorem capture_path_cannot_be_typed:
  assumes "typing_fields (ue_fields env) named" "\<forall>k \<in> set ks. plain_key named k"
    and "type_keys env ks (new_wigle_screen (ue_fields env)) h = (Ret m, h')"
  shows "\<forall>x \<in> set (wg_inputs m). set (ti_value (ue_fields env) x) \<inter> set ''ceu'' = {} \<and> ti_value (ue_fields env) x \<noteq> ''capture.json''"
proof -
  have start: "lacks_hotkeys (ue_fields env) (new_wigle_screen (ue_fields env))"
    using assms(1)
    by (auto simp: lacks_hotkeys_def wigle_ok_def fields_ok_def new_wigle_screen_def no_preview_def new_fields_def typing_fields_def Let_def)
  have "lacks_hotkeys (ue_fields env) m" by (rule type_keys_lacks [OF assms(1,2) start assms(3)])
  then show ?thesis by (fastforce simp: lacks_hotkeys_def)
qed

end
