(* ===== verification/Tui_View.thy ===== *)
theory Tui_View
  imports Tui_App
begin

section \<open>What the console draws\<close>

text \<open>
  The \<open>View\<close> functions of the screens, \<open>theme.go\<close>, \<open>layout.go\<close>, and the key bindings of \<open>keys.go\<close> as the
  footer shows them. A style is the record of what the code asks of the lipgloss library. What the
  libraries make of their arguments at one moment (frames of spinners and cursors, the log's scroll
  position) is the record \<open>drawing\<close>, with the text of a number and Unicode case mapping. The lines of
  the log, which the code renders when it refreshes the log, are rendered here when they are drawn.
\<close>

subsection \<open>Styles\<close>

datatype border = RoundedBorder | ThickBorder

record style =
  sl_fg :: "string option"
  sl_bg :: "string option"
  sl_bold :: bool
  sl_padding :: "nat \<times> nat"
  sl_border :: "border option"
  sl_border_fg :: "string option"
  sl_width :: "int option"
  sl_height :: "int option"

definition new_style :: style where
  "new_style = \<lparr>sl_fg = None, sl_bg = None, sl_bold = False, sl_padding = (0, 0), sl_border = None, sl_border_fg = None,
     sl_width = None, sl_height = None\<rparr>"

definition color_bg :: string where "color_bg = ''#0a0e0a''"
definition color_fg :: string where "color_fg = ''#c8ffd4''"
definition color_green :: string where "color_green = ''#33ff66''"
definition color_green_dim :: string where "color_green_dim = ''#1f9e44''"
definition color_amber :: string where "color_amber = ''#ffb454''"
definition color_red :: string where "color_red = ''#ff5f5f''"
definition color_grey :: string where "color_grey = ''#7a8c7a''"
definition color_grey_dark :: string where "color_grey_dark = ''#3a463a''"

definition style_header_bar :: style where
  "style_header_bar = new_style\<lparr>sl_fg := Some color_green, sl_bold := True, sl_padding := (0, 1)\<rparr>"

definition style_tab_active :: style where
  "style_tab_active = new_style\<lparr>sl_fg := Some color_bg, sl_bg := Some color_green, sl_bold := True, sl_padding := (0, 1)\<rparr>"

definition style_tab_idle :: style where
  "style_tab_idle = new_style\<lparr>sl_fg := Some color_grey_dark, sl_padding := (0, 1)\<rparr>"

definition style_panel :: style where
  "style_panel = new_style\<lparr>sl_border := Some RoundedBorder, sl_border_fg := Some color_green_dim, sl_padding := (1, 2)\<rparr>"

definition style_footer :: style where
  "style_footer = new_style\<lparr>sl_fg := Some color_grey, sl_padding := (0, 1)\<rparr>"

definition style_title :: style where
  "style_title = new_style\<lparr>sl_fg := Some color_green, sl_bold := True\<rparr>"

definition style_success :: style where
  "style_success = new_style\<lparr>sl_fg := Some color_green, sl_bold := True\<rparr>"

definition style_warn :: style where
  "style_warn = new_style\<lparr>sl_fg := Some color_amber, sl_bold := True\<rparr>"

definition style_error :: style where
  "style_error = new_style\<lparr>sl_fg := Some color_red, sl_bold := True\<rparr>"

definition style_dim :: style where
  "style_dim = new_style\<lparr>sl_fg := Some color_grey\<rparr>"

definition style_label :: style where
  "style_label = new_style\<lparr>sl_fg := Some color_green_dim\<rparr>"

definition style_confirm_danger :: style where
  "style_confirm_danger = new_style\<lparr>sl_border := Some ThickBorder, sl_border_fg := Some color_red, sl_padding := (1, 3)\<rparr>"

definition style_confirm_caution :: style where
  "style_confirm_caution = new_style\<lparr>sl_border := Some ThickBorder, sl_border_fg := Some color_amber, sl_padding := (1, 3)\<rparr>"

definition severity_style :: "string \<Rightarrow> style" where
  "severity_style s =
     (if s = ''debug'' then style_dim else if s = ''warn'' then style_warn else if s = ''error'' then style_error
      else new_style\<lparr>sl_fg := Some color_fg\<rparr>)"

text \<open>The styles of the help line: keys, descriptions and separators, short and full.\<close>

record help_styles =
  hs_short_key :: style
  hs_short_desc :: style
  hs_short_separator :: style
  hs_full_key :: style
  hs_full_desc :: style
  hs_full_separator :: style

definition help_styles :: help_styles where
  "help_styles = (let k = new_style\<lparr>sl_fg := Some color_green\<rparr>; d = new_style\<lparr>sl_fg := Some color_grey\<rparr>;
       s = new_style\<lparr>sl_fg := Some color_grey_dark\<rparr> in
     \<lparr>hs_short_key = k, hs_short_desc = d, hs_short_separator = s, hs_full_key = k, hs_full_desc = d, hs_full_separator = s\<rparr>)"

subsection \<open>Key bindings\<close>

record binding =
  kb_keys :: "string list"
  kb_help_key :: string
  kb_help_desc :: string

definition binding :: "string list \<Rightarrow> string \<Rightarrow> string \<Rightarrow> binding" where
  "binding ks k d = \<lparr>kb_keys = ks, kb_help_key = k, kb_help_desc = d\<rparr>"

record global_keys =
  gk_next :: binding
  gk_prev :: binding
  gk_help :: binding
  gk_quit :: binding
  gk_screen :: "binding list"

definition global_keys :: global_keys where
  "global_keys = \<lparr>gk_next = binding ['']''] '']'' ''next screen'', gk_prev = binding [''[''] ''['' ''prev screen'',
     gk_help = binding [''?''] ''?'' ''help'', gk_quit = binding [''q'', ''ctrl+c''] ''q'' ''quit'',
     gk_screen = [binding [''1''] ''1'' ''dashboard'', binding [''2''] ''2'' ''pairing'', binding [''3''] ''3'' ''provision'',
       binding [''4''] ''4'' ''update'', binding [''5''] ''5'' ''survey'', binding [''6''] ''6'' ''tunnel'', binding [''7''] ''7'' ''wigle'']\<rparr>"

definition short_help :: "global_keys \<Rightarrow> binding list" where
  "short_help k = [gk_next k, gk_help k, gk_quit k]"

definition full_help :: "global_keys \<Rightarrow> binding list list" where
  "full_help k = [gk_screen k, [gk_next k, gk_prev k, gk_help k, gk_quit k]]"

subsection \<open>The libraries\<close>

record 'i drawing =
  dr_render :: "style \<Rightarrow> string \<Rightarrow> string"
  dr_join :: "string list \<Rightarrow> string"
  dr_center :: "int \<Rightarrow> int \<Rightarrow> string \<Rightarrow> string"
  dr_field :: "'i \<Rightarrow> string"
  dr_spinner :: "screen \<Rightarrow> string"
  dr_viewport :: "int \<Rightarrow> int \<Rightarrow> string \<Rightarrow> string"
  dr_table :: "(string \<times> nat) list \<Rightarrow> nat \<Rightarrow> string list list \<Rightarrow> string"
  dr_help :: "help_styles \<Rightarrow> int \<Rightarrow> binding list + binding list list \<Rightarrow> string"
  dr_number :: "string \<Rightarrow> string"
  dr_lower :: "string \<Rightarrow> string"
  dr_upper :: "string \<Rightarrow> string"

definition nl :: string where
  "nl = [CHR 0x0A]"

definition nl2 :: string where
  "nl2 = nl @ nl"

subsection \<open>Formatting values and times\<close>

text \<open>\<open>%v\<close> of what \<open>encoding/json\<close> decodes: a map is printed with its keys in order.\<close>

fun go_value :: "(string \<Rightarrow> string) \<Rightarrow> json \<Rightarrow> string"
  and go_values :: "(string \<Rightarrow> string) \<Rightarrow> json list \<Rightarrow> string list"
  and go_entries :: "(string \<Rightarrow> string) \<Rightarrow> (string \<times> json) list \<Rightarrow> (string \<times> string) list" where
  "go_value num JNull = ''<nil>''"
| "go_value num (JBool b) = (if b then ''true'' else ''false'')"
| "go_value num (JNum t) = num t"
| "go_value num (JStr s) = s"
| "go_value num (JArr vs) = ''['' @ join_with '' '' (go_values num vs) @ '']''"
| "go_value num (JObj p) = ''map['' @ join_with '' '' (map (\<lambda>(k, v). k @ '':'' @ v) (sort_key fst (go_entries num p))) @ '']''"
| "go_values num [] = []"
| "go_values num (v # vs) = go_value num v # go_values num vs"
| "go_entries num [] = []"
| "go_entries num ((k, v) # p) = (k, go_value num v) # go_entries num p"

text \<open>\<open>Format("15:04:05")\<close>; all times of the program are UTC.\<close>

definition two_digits :: "int \<Rightarrow> string" where
  "two_digits n = (if n < 10 then ''0'' else []) @ itoa n"

definition clock_text :: "time \<Rightarrow> string" where
  "clock_text t = (let s = t div 1000000000 mod 86400 in
     two_digits (s div 3600) @ '':'' @ two_digits (s div 60 mod 60) @ '':'' @ two_digits (s mod 60))"

definition upper_char :: "char \<Rightarrow> char" where
  "upper_char c = (let n = (of_char c :: nat) in if 97 \<le> n \<and> n \<le> 122 then char_of (n - 32) else c)"

definition to_upper :: "(string \<Rightarrow> string) \<Rightarrow> string \<Rightarrow> string" where
  "to_upper uni s = (if is_ascii s then map upper_char s else uni s)"

subsection \<open>Layout\<close>

text \<open>The bullets are the characters U+25CB and U+25CF, the dot U+00B7, in UTF-8.\<close>

definition circle :: string where "circle = [CHR 0xE2, CHR 0x97, CHR 0x8B]"
definition disc :: string where "disc = [CHR 0xE2, CHR 0x97, CHR 0x8F]"
definition dot :: string where "dot = [CHR 0xC2, CHR 0xB7]"

definition render_header :: "'i drawing \<Rightarrow> int \<Rightarrow> bool \<Rightarrow> string \<Rightarrow> string" where
  "render_header d width paired survey_state =
     (let badge = (if paired then dr_render d style_success (disc @ '' paired'') else dr_render d style_dim (circle @ '' unpaired''));
          survey = (if survey_state \<noteq> [] then ''  survey: '' @ survey_state else []);
          left = dr_render d style_header_bar ''bottle-tui'' @ ''  '' @ dr_render d style_dim pi_address @ ''  '' @ badge @ survey
      in dr_render d (new_style\<lparr>sl_width := Some width\<rparr>) left)"

definition screen_title :: "screen \<Rightarrow> string" where
  "screen_title s =
     (case s of
        ScreenDashboard \<Rightarrow> ''1:dashboard'' | ScreenPairing \<Rightarrow> ''2:pairing'' | ScreenProvision \<Rightarrow> ''3:provision''
      | ScreenUpdate \<Rightarrow> ''4:update'' | ScreenSurvey \<Rightarrow> ''5:survey'' | ScreenTunnel \<Rightarrow> ''6:tunnel'' | ScreenWigle \<Rightarrow> ''7:wigle'')"

definition render_tabs :: "'i drawing \<Rightarrow> screen \<Rightarrow> string" where
  "render_tabs d active =
     join_with '' '' (map (\<lambda>s. dr_render d (if s = active then style_tab_active else style_tab_idle) (screen_title s)) screen_order)"

definition render_footer :: "'i drawing \<Rightarrow> int \<Rightarrow> string \<Rightarrow> string" where
  "render_footer d width help = dr_render d (style_footer\<lparr>sl_width := Some width\<rparr>) help"

definition modal_width :: "int \<Rightarrow> int" where
  "modal_width width = (let w = width - 8; w = (if w > 72 then 72 else w) in if w < 20 then 20 else w)"

definition confirm_view :: "'i drawing \<Rightarrow> 'i text_fields \<Rightarrow> int \<Rightarrow> 'i confirm \<Rightarrow> string" where
  "confirm_view d tf width k =
     (let style = (if cf_danger k then style_confirm_danger else style_confirm_caution);
          lines = [dr_render d style_title (cf_title k), [], cf_body k] @
            (if cf_gate k \<noteq> [] then [[], ''Type '' @ go_quote (cf_gate k) @ '' to confirm:'', dr_field d (gate_input tf k)]
             else [[], dr_render d style_dim ''[y] confirm    [n/esc] cancel''])
      in dr_render d (style\<lparr>sl_width := Some (modal_width width)\<rparr>) (dr_join d lines))"

subsection \<open>Screens\<close>

text \<open>A line below the rest, for an error or a result.\<close>

definition below :: "'i drawing \<Rightarrow> style \<Rightarrow> string \<Rightarrow> string" where
  "below d st t = nl2 @ dr_render d st t"

definition below_error :: "'i drawing \<Rightarrow> go_error option \<Rightarrow> string" where
  "below_error d e = (case e of None \<Rightarrow> [] | Some err \<Rightarrow> below d style_error (error_text err))"

definition label :: "'i drawing \<Rightarrow> string \<Rightarrow> string \<Rightarrow> string" where
  "label d l t = dr_render d style_label l @ t"

definition labelled_fields :: "'i drawing \<Rightarrow> string list \<Rightarrow> 'i list \<Rightarrow> string" where
  "labelled_fields d ls xs = concat (map (\<lambda>(l, x). label d l (dr_field d x) @ nl) (zip ls xs))"

definition dashboard_view :: "'i drawing \<Rightarrow> dashboard \<Rightarrow> string" where
  "dashboard_view d m =
     (if \<not> db_paired m then
        ''No control-plane profile is paired yet.'' @
        (case db_cred_err m of None \<Rightarrow> [] | Some err \<Rightarrow> below d style_dim (error_text err)) @
        nl2 @ ''Go to the '' @ dr_render d style_title ''pairing'' @ '' screen to import a profile.''
      else if db_loading m then dr_spinner d ScreenDashboard @ '' fetching status from '' @ pi_address @ ''...''
      else (case db_status_err m of
        Some err \<Rightarrow> dr_render d style_error (''status error: '' @ error_text err) @ below d style_dim ''press r to retry''
      | None \<Rightarrow>
          if \<not> db_have_fetch m then dr_render d style_dim ''press r to fetch status''
          else
            (let st = db_status m in
             label d ''pi:      '' pi_address @ nl @
             label d ''state:   '' (if st_ready st then dr_render d style_success ''ready'' else dr_render d style_warn ''not ready'') @ nl @
             label d ''survey:  '' (st_survey st) @ nl @
             (if st_message st \<noteq> [] then label d ''message: '' (st_message st) @ nl else []) @
             nl @ dr_render d style_dim ''press r to refresh'')))"

definition pairing_view :: "'i drawing \<Rightarrow> 'i pairing \<Rightarrow> string" where
  "pairing_view d m =
     dr_render d style_title ''Import control-plane profile'' @ nl2 @
     labelled_fields d [''ca:   '', ''cert: '', ''key:  '', ''id:   ''] (pa_inputs m) @
     nl @ dr_render d style_dim ''tab/shift+tab move field, enter on last field submits'' @
     (if pa_saving m then below d style_warn ''saving to OS keyring...'' else []) @
     below_error d (pa_err m) @
     (if pa_success m then below d style_success ''profile saved; switch to dashboard and press r'' else [])"

definition job_style :: "'i drawing \<Rightarrow> string \<Rightarrow> style" where
  "job_style d state =
     (let lower = to_lower (dr_lower d) state in
      if contains lower ''rollback'' \<or> contains lower ''fail'' then style_error
      else if contains lower ''complete'' \<or> contains lower ''succeed'' then style_success
      else style_warn)"

definition render_job :: "'i drawing \<Rightarrow> remote_job \<Rightarrow> go_error option \<Rightarrow> string" where
  "render_job d j e =
     (case e of
        Some err \<Rightarrow> dr_render d style_error (''error: '' @ error_text err)
      | None \<Rightarrow>
          label d ''job:     '' (rj_id j) @ nl @ label d ''state:   '' (dr_render d (job_style d (rj_state j)) (rj_state j)) @ nl @
          (if rj_message j \<noteq> [] then label d ''message: '' (rj_message j) else []))"

text \<open>What provision and update show until a profile is loaded.\<close>

definition pair_first :: "'i drawing \<Rightarrow> string \<Rightarrow> string" where
  "pair_first d title = dr_render d style_title title @ below d style_dim ''pair a profile first (screen 2)''"

definition provision_view :: "'i drawing \<Rightarrow> ui_heap \<Rightarrow> 'i provision \<Rightarrow> string" where
  "provision_view d h m =
     (if en_client h = None then pair_first d ''Provision''
      else dr_render d style_title ''Provision'' @ nl2 @
        label d ''request id: '' (dr_field d (po_request_id m)) @ nl2 @
        dr_render d style_dim ''enter to submit (requires typed confirmation)'' @
        (if po_submitting m then nl2 @ dr_spinner d ScreenProvision @ '' provisioning...'' else []) @
        (if po_have_result m then nl2 @ render_job d (po_job m) (po_err m) else []))"

definition update_view :: "'i drawing \<Rightarrow> ui_heap \<Rightarrow> 'i update_screen \<Rightarrow> string" where
  "update_view d h m =
     (if en_client h = None then pair_first d ''Update''
      else dr_render d style_title ''Update'' @ nl2 @
        labelled_fields d [''request id: '', ''version:     '', ''channel:     ''] (us_inputs m) @
        nl @ dr_render d style_dim ''tab moves fields, enter submits (requires typed confirmation)'' @
        (if us_submitting m then nl2 @ dr_spinner d ScreenUpdate @ '' updating...'' else []) @
        (if us_have_result m then nl2 @ render_job d (us_job m) (us_err m) else []))"

definition reason_of :: "'i drawing \<Rightarrow> event \<Rightarrow> string" where
  "reason_of d e = go_value (dr_number d)
     (case ev_payload e of None \<Rightarrow> JNull | Some p \<Rightarrow> (case map_of p ''reason'' of None \<Rightarrow> JNull | Some v \<Rightarrow> v))"

definition render_log_line :: "'i drawing \<Rightarrow> event \<Rightarrow> string" where
  "render_log_line d e =
     (let ts = clock_text (ev_occurred_at e) in
      if ev_kind e = kind_history_gap then dr_render d style_warn (ts @ ''  --- history gap: '' @ reason_of d e @ '' ---'')
      else if ev_kind e = kind_client_buffer_overflow then
        dr_render d style_warn (ts @ ''  --- buffer overflow: oldest events dropped ---'')
      else if ev_kind e = kind_malformed_event then
        dr_render d style_error (ts @ ''  --- malformed event: '' @ reason_of d e @ '' ---'')
      else
        (let body = ts @ '' ['' @ to_upper (dr_upper d) (ev_severity e) @ ''] '' @ ev_source e @ ''/'' @ ev_kind e;
             payload = (case ev_payload e of
                 None \<Rightarrow> [] | Some p \<Rightarrow> if p = [] then [] else ''  '' @ go_value (dr_number d) (JObj p))
         in dr_render d (severity_style (ev_severity e)) (body @ payload)))"

definition log_lines :: "'i drawing \<Rightarrow> logs \<Rightarrow> string list" where
  "log_lines d m = map (render_log_line d) (lm_content m)"

definition logs_view :: "'i drawing \<Rightarrow> logs \<Rightarrow> string" where
  "logs_view d m =
     (let status = (if lm_disconnected m then dr_render d style_error ''disconnected''
           else if lm_paused m then dr_render d style_warn ''paused (scroll lock)''
           else dr_render d style_success ''live'')
      in dr_join d [label d ''events: '' status,
           dr_viewport d (lm_width m) (lm_height m) (join_with nl (log_lines d m))])"

definition survey_view :: "'i drawing \<Rightarrow> ui_heap \<Rightarrow> survey \<Rightarrow> string" where
  "survey_view d h m =
     (if en_client h = None then pair_first d ''Survey''
      else dr_render d style_dim ''[s] start survey    [x] stop survey    [p] pause/resume scroll'' @
        (if sy_last_action m \<noteq> [] then nl @ dr_render d style_success (sy_last_action m) else []) @
        (case sy_last_err m of None \<Rightarrow> [] | Some err \<Rightarrow> nl @ dr_render d style_error (error_text err)) @
        nl2 @ logs_view d (sy_logs m))"

definition tunnel_status_text :: "tunnel_status \<Rightarrow> string" where
  "tunnel_status_text s =
     (case s of StatusStarting \<Rightarrow> ''starting'' | StatusConnected \<Rightarrow> ''connected'' | StatusReconnecting \<Rightarrow> ''reconnecting'' | StatusClosed \<Rightarrow> ''closed'')"

definition render_tunnel_event :: "'i drawing \<Rightarrow> tunnel_event \<Rightarrow> string" where
  "render_tunnel_event d e =
     (let style = (case tv_status e of StatusConnected \<Rightarrow> style_success | StatusReconnecting \<Rightarrow> style_warn | _ \<Rightarrow> style_dim) in
      case tv_err e of
        Some err \<Rightarrow> dr_render d style_error (tunnel_status_text (tv_status e) @ '': '' @ error_text err)
      | None \<Rightarrow> dr_render d style (tunnel_status_text (tv_status e) @ '': '' @ tv_message e))"

definition tunnel_view :: "'i drawing \<Rightarrow> ui_heap \<Rightarrow> 'i tunnel_screen \<Rightarrow> string" where
  "tunnel_view d h m =
     (if en_client h = None then pair_first d ''Kismet tunnel''
      else if \<not> tu_running m then
        dr_render d style_title ''Kismet tunnel'' @ nl2 @
        label d ''local port: '' (dr_field d (tu_port m)) @ nl2 @
        dr_render d style_dim ''[t] start tunnel (loopback only, fixed Pi Kismet destination)'' @
        below_error d (tu_err m)
      else
        dr_render d style_title ''Kismet tunnel'' @ nl2 @
        label d ''url:    '' (tu_url m) @ nl @
        label d ''status: '' (if tu_closing m then dr_render d style_warn ''closing'' else dr_render d style_success ''connected'') @ nl2 @
        dr_render d style_dim ''[c] close tunnel'' @ nl2 @
        concat (map (\<lambda>e. render_tunnel_event d e @ nl) (tu_history m)))"

definition wigle_columns :: "(string \<times> nat) list" where
  "wigle_columns = [(''BSSID'', 18), (''SSID'', 20), (''Auth'', 10), (''Ch'', 4), (''RSSI'', 6)]"

definition wigle_credentials_view :: "'i drawing \<Rightarrow> 'i wigle_screen \<Rightarrow> string" where
  "wigle_credentials_view d m =
     dr_render d style_title ''WiGLE credentials'' @ nl2 @
     label d ''api name: '' (dr_field d (wg_cred_name m)) @ nl @
     label d ''token:    '' (dr_field d (wg_cred_token m)) @ nl2 @
     dr_render d style_dim ''tab switches field, enter saves to OS keyring, esc back'' @
     below_error d (wg_cred_err m) @
     (if wg_cred_saved m then below d style_success ''credentials saved'' else [])"

definition preview_view :: "'i drawing \<Rightarrow> 'i wigle_screen \<Rightarrow> string" where
  "preview_view d m =
     (let p = wg_preview m in
      nl2 @ dr_render d style_label ''preview:'' @ '' '' @ itoa (int (pv_valid p)) @ '' valid, '' @ itoa (int (pv_invalid p)) @ '' invalid'' @
      concat (map (\<lambda>i. nl @ dr_render d style_warn (''  record '' @ itoa (int (pi_index i)) @ '' skipped: '' @ pi_reason i)) (pv_issues p)) @
      (if pv_valid p > 0 then nl2 @ dr_table d wigle_columns 8 (wg_rows m) else []))"

definition wigle_view :: "'i drawing \<Rightarrow> 'i wigle_screen \<Rightarrow> string" where
  "wigle_view d m =
     (if wg_mode m = WigleCredentials then wigle_credentials_view d m
      else
        dr_render d style_title ''WiGLE export / upload'' @ nl2 @
        label d ''input:  '' (dr_field d (wg_inputs m ! 0)) @ nl @
        label d ''output: '' (dr_field d (wg_inputs m ! 1)) @ nl2 @
        dr_render d style_dim (join_with (''  '' @ dot @ ''  '') [''enter preview'', ''e export'', ''u upload'', ''c credentials'']) @
        (case wg_preview_err m of
           Some err \<Rightarrow> below d style_error (error_text err)
         | None \<Rightarrow> if wg_have_preview m then preview_view d m else []) @
        (case wg_export_err m of
           Some err \<Rightarrow> below d style_error (error_text err)
         | None \<Rightarrow> if wg_export_msg m \<noteq> [] then below d style_success (wg_export_msg m) else []) @
        (case wg_upload_err m of
           Some err \<Rightarrow> below d style_error (error_text err)
         | None \<Rightarrow> if ur_transaction (wg_upload_result m) \<noteq> []
                   then below d style_success (''uploaded: transaction='' @ ur_transaction (wg_upload_result m)) else []))"

subsection \<open>The whole window\<close>

definition active_view :: "'i drawing \<Rightarrow> ui_heap \<Rightarrow> 'i app \<Rightarrow> string" where
  "active_view d h m =
     (case ap_active m of
        ScreenDashboard \<Rightarrow> dashboard_view d (ap_dashboard m)
      | ScreenPairing \<Rightarrow> pairing_view d (ap_pairing m)
      | ScreenProvision \<Rightarrow> provision_view d h (ap_provision m)
      | ScreenUpdate \<Rightarrow> update_view d h (ap_update m)
      | ScreenSurvey \<Rightarrow> survey_view d h (ap_survey m)
      | ScreenTunnel \<Rightarrow> tunnel_view d h (ap_tunnel m)
      | ScreenWigle \<Rightarrow> wigle_view d (ap_wigle m))"

definition help_view :: "'i drawing \<Rightarrow> 'i app \<Rightarrow> string" where
  "help_view d m = dr_help d help_styles (ap_width m) (if ap_full_help m then Inr (full_help global_keys) else Inl (short_help global_keys))"

definition app_view :: "'i drawing \<Rightarrow> 'i text_fields \<Rightarrow> ui_heap \<Rightarrow> 'i app \<Rightarrow> string" where
  "app_view d tf h m =
     (if ap_width m = 0 then ''starting bottle-tui...''
      else
        (let width = content_size 20 (ap_width m); height = content_size 5 (ap_height m);
             header = render_header d (ap_width m) (en_client h \<noteq> None) (st_survey (db_status (ap_dashboard m)));
             tabs = render_tabs d (ap_active m);
             content = (case ap_confirm m of
                 Some k \<Rightarrow> dr_center d width height (confirm_view d tf (ap_width m) k)
               | None \<Rightarrow> active_view d h m);
             panel = dr_render d (style_panel\<lparr>sl_width := Some width, sl_height := Some height\<rparr>) content;
             footer = render_footer d (ap_width m) (help_view d m)
         in dr_join d [header, tabs, panel, footer]))"

end
