(* ===== verification/Tui_View_Properties.thy ===== *)
theory Tui_View_Properties
  imports Tui_View Tui_Runs Laptop_Cli_Properties
begin

section \<open>What the console shows\<close>

text \<open>
  The live log of the console holds redacted events only, in its buffer, in what a paused log keeps,
  and in what is drawn.
\<close>

subsection \<open>Redacted buffers\<close>

definition clean_buffer :: "(string \<Rightarrow> string) \<Rightarrow> buffer \<Rightarrow> bool" where
  "clean_buffer uni b \<longleftrightarrow> (\<forall>e \<in> set (b_events b) \<union> set (b_paused_rendered b). clean_event uni e)"

lemma clean_visible: "clean_buffer uni b \<Longrightarrow> e \<in> set (visible b) \<Longrightarrow> clean_event uni e"
  by (auto simp: clean_buffer_def visible_def visible_locked_def split: if_splits)

lemma clean_set_paused: "clean_buffer uni b \<Longrightarrow> clean_buffer uni (set_paused p b)"
  by (auto simp: clean_buffer_def set_paused_def visible_locked_def Let_def)

lemma trim_locked_paused [simp]: "b_paused_rendered (trim_locked enc now b) = b_paused_rendered b"
  by (simp add: trim_locked_def trim_to_bounds_def Let_def split: list.split prod.split)

lemma clean_appended: "clean_buffer uni b \<Longrightarrow> clean_event uni e \<Longrightarrow> clean_buffer uni (appended enc now e b)"
  using trim_set [of enc now "b\<lparr>b_events := b_events b @ [e]\<rparr>"] clean_marker [of uni now]
  by (fastforce simp: clean_buffer_def appended_def)

lemma clean_marked:
  "clean_buffer uni b \<Longrightarrow> clean_buffer uni (append_marker enc now kind severity src [(''reason'', JStr t)] b)"
  by (simp add: append_marker_appended clean_appended clean_event_def plain_keys)

lemma clean_sequence [simp]: "clean_buffer uni (b\<lparr>b_last_sequence := q\<rparr>) \<longleftrightarrow> clean_buffer uni b"
  by (simp add: clean_buffer_def)

lemma clean_add: "clean_buffer uni b \<Longrightarrow> clean_buffer uni (snd (buffer_add enc uni now e b))"
  using clean_appended [OF _ clean_redacted]
  by (auto simp: buffer_add_def malformed_def clean_marked store_event_appended Let_def split: option.split sum.split)

lemma clean_consume:
  "clean_buffer uni (c_buffer (fst s)) \<Longrightarrow> clean_buffer uni (c_buffer (fst (consume_step enc uni i s)))"
  by (induction enc uni i s rule: consume_step.induct)
    (auto simp: clean_add consume_error_def mark_history_gap_def clean_marked Let_def split: option.split sum.split)

subsection \<open>Updates\<close>

definition tidy :: "(string \<Rightarrow> string) \<Rightarrow> ('m \<Rightarrow> bool) \<Rightarrow> (ui_heap, 'm \<times> 'c) prog \<Rightarrow> ui_heap \<Rightarrow> bool" where
  "tidy uni good p h \<longleftrightarrow> wp p (\<lambda>r h'. clean_buffer uni (en_buffer h') \<and> (\<forall>m c. r = Ret (m, c) \<longrightarrow> good m)) h"

definition clean_logs :: "(string \<Rightarrow> string) \<Rightarrow> logs \<Rightarrow> bool" where
  "clean_logs uni l \<longleftrightarrow> (\<forall>e \<in> set (lm_content l). clean_event uni e)"

abbreviation clean_app :: "(string \<Rightarrow> string) \<Rightarrow> 'i app \<Rightarrow> bool" where
  "clean_app uni m \<equiv> clean_logs uni (sy_logs (ap_survey m))"

lemma clean_logs_simps [simp]:
  "clean_logs uni (l\<lparr>lm_started := a\<rparr>) \<longleftrightarrow> clean_logs uni l" "clean_logs uni (l\<lparr>lm_disconnected := a\<rparr>) \<longleftrightarrow> clean_logs uni l"
  "clean_logs uni (l\<lparr>lm_err := e\<rparr>) \<longleftrightarrow> clean_logs uni l" "clean_logs uni (l\<lparr>lm_paused := a\<rparr>) \<longleftrightarrow> clean_logs uni l"
  by (simp_all add: clean_logs_def)

lemma render_wp [prog_simps]: "wp (render m) Q h \<longleftrightarrow> Q (Ret (m\<lparr>lm_content := visible (en_buffer h)\<rparr>)) h"
  by (simp add: render_def prog_simps)

lemma clean_rendered: "clean_buffer uni b \<Longrightarrow> clean_logs uni (m\<lparr>lm_content := visible b\<rparr>)"
  by (simp add: clean_logs_def clean_visible)

lemma logs_tidy:
  "clean_buffer uni (en_buffer h) \<Longrightarrow> clean_logs uni l \<Longrightarrow> tidy uni (clean_logs uni) (logs_update env msg l) h"
  by (cases msg) (simp_all add: logs_update_def tidy_def prog_simps clean_rendered clean_set_paused Let_def)

lemma tidy_inside:
  "tidy uni good p h \<Longrightarrow> (\<And>y. good y \<Longrightarrow> P (put y)) \<Longrightarrow> tidy uni P (bindP p (\<lambda>(y, c). retP (put y, c))) h"
  unfolding tidy_def wp_bind by (erule wp_mono) (auto simp: prog_simps split: outcome.split)

lemma survey_tidy:
  assumes "clean_buffer uni (en_buffer h)" "clean_logs uni (sy_logs m)"
  shows "tidy uni (\<lambda>m. clean_logs uni (sy_logs m)) (survey_update env msg m) h"
proof -
  have "tidy uni (\<lambda>m. clean_logs uni (sy_logs m)) (bindP (logs_update env msg (sy_logs m)) (\<lambda>(l, c). retP (m\<lparr>sy_logs := l\<rparr>, c))) h"
    by (rule tidy_inside [OF logs_tidy [OF assms]]) simp
  then show ?thesis using assms
    by (cases msg) (simp_all add: survey_update_def tidy_def prog_simps Let_def split: option.split)
qed

lemma other_tidy:
  assumes "clean_buffer uni (en_buffer h)"
  shows "tidy uni (\<lambda>_. True) (dashboard_update env msg m1) h" "tidy uni (\<lambda>_. True) (pairing_update env msg m2) h"
    "tidy uni (\<lambda>_. True) (provision_update env msg m3) h" "tidy uni (\<lambda>_. True) (update_update env msg m4) h"
    "tidy uni (\<lambda>_. True) (wigle_update env msg m6) h"
  using assms
  by (cases msg; simp add: dashboard_update_def pairing_update_def pairing_field_def provision_update_def provision_field_def
      update_update_def update_field_def wigle_update_def wigle_browse_key_def wigle_credentials_key_def wigle_field_def tidy_def prog_simps
      Let_def split: sum.split)+

lemma tunnel_tidy: "clean_buffer uni (en_buffer h) \<Longrightarrow> tunnel_ok n m \<Longrightarrow> tidy uni (\<lambda>_. True) (tunnel_update env msg m) h"
  by (cases msg; cases "tu_handle m")
    (auto simp: tunnel_update_def tunnel_ok_def tunnel_field_def tidy_def prog_simps Let_def split: sum.split)

lemma at_screen_tidy: "tidy uni good (f x) h \<Longrightarrow> (\<And>y. good y \<Longrightarrow> P (put y)) \<Longrightarrow> tidy uni P (at_screen f x put) h"
  unfolding at_screen_def by (rule tidy_inside)

lemma screen_tidy:
  assumes "app_ok n m" "clean_buffer uni (en_buffer h)" "clean_app uni m"
  shows "tidy uni (clean_app uni) (screen_update env v msg m) h"
  using other_tidy [OF assms(2)] tunnel_tidy [OF assms(2) app_okD(3) [OF assms(1)]] survey_tidy [OF assms(2,3)] assms(3)
  by (cases v) (auto simp: screen_update_def intro!: at_screen_tidy)

lemma broadcast_to_tidy:
  "app_ok (handles h) m \<Longrightarrow> msg_ok (handles h) msg \<Longrightarrow> clean_buffer uni (en_buffer h) \<Longrightarrow> clean_app uni m \<Longrightarrow>
   tidy uni (clean_app uni) (broadcast_to env vs msg m) h"
proof (induction vs arbitrary: m h)
  case (Cons v vs)
  from screen_keeps [OF Cons.prems(1,2), of env v] obtain m1 c h1 where
    1: "screen_update env v msg m h = (Ret (m1, c), h1)" "app_ok (handles h) m1" "handles h1 = handles h"
    by (rule keepsE)
  have "clean_buffer uni (en_buffer h1)" "clean_app uni m1"
    using screen_tidy [OF Cons.prems(1,3,4), of env v msg] 1(1) by (simp_all add: tidy_def wp_def)
  with Cons.IH [of h1 m1] Cons.prems(2) 1 show ?case
    by (auto simp: tidy_def wp_def bindP_def retP_def split: prod.splits outcome.splits)
qed (simp add: tidy_def prog_simps)

lemma set_active_clean: "clean_app uni m \<Longrightarrow> clean_app uni (fst (set_active v m))"
  by (simp add: set_active_def survey_activate_def Let_def)

lemma global_key_tidy:
  assumes "clean_buffer uni (en_buffer h)" "clean_app uni m" "handle_global_key k m h = (Ret (Some (m', c)), h')"
  shows "clean_buffer uni (en_buffer h') \<and> clean_app uni m'"
  using assms set_active_clean [OF assms(2)]
  by (cases "screen_key k") (auto simp: handle_global_key_def bindP_def cancel_def retP_def split: if_split_asm dest!: arg_cong [where f = fst])

lemma app_update_clean:
  assumes ok: "app_ok (handles h) m" "msg_ok (handles h) msg" and clean: "clean_buffer uni (en_buffer h)" "clean_app uni m"
    and u: "app_update env msg m h = (Ret (m', c), h')"
  shows "clean_buffer uni (en_buffer h') \<and> clean_app uni m'"
proof (cases "\<exists>k. msg = Key k")
  case False
  then consider (size) w j where "msg = WindowSize w j" | (ask) k where "msg = ConfirmRequested k" | (other) "app_update env msg m = broadcast env msg m"
    by (cases msg) (auto simp: app_update_def)
  then show ?thesis
  proof cases
    case size
    then have "tidy uni (clean_app uni) (app_update env msg m) h"
      using clean by (simp add: app_update_def resize_def survey_set_size_def logs_set_size_def tidy_def prog_simps clean_rendered)
    then show ?thesis using u by (simp add: tidy_def wp_def)
  next
    case ask
    then show ?thesis using u clean by (auto simp: app_update_def stay_def retP_def)
  next
    case other
    then obtain cs where "broadcast_to env screen_order msg m h = (Ret (m', cs), h')"
      using u by (auto simp: broadcast_def bindP_def retP_def split: prod.splits outcome.splits)
    then show ?thesis using broadcast_to_tidy [OF ok clean, of env screen_order] by (simp add: tidy_def wp_def)
  qed
next
  case True
  then obtain key where key: "msg = Key key" by blast
  show ?thesis
  proof (cases "ap_confirm m")
    case (Some k)
    then show ?thesis using u key clean by (auto simp: app_update_def retP_def split: prod.splits)
  next
    case None
    then have e: "app_update env msg m h = bindP (handle_global_key key m) (\<lambda>r. case r of Some mc \<Rightarrow> retP mc | None \<Rightarrow> screen_update env (ap_active m) msg m) h"
      using key by (simp add: app_update_def cong: option.case_cong)
    from handle_global_key_ok [OF ok(1), of key] obtain r h1 where
      r: "handle_global_key key m h = (Ret r, h1)" "case r of None \<Rightarrow> h1 = h | Some mc \<Rightarrow> True"
      by (fastforce split: option.splits)
    show ?thesis
    proof (cases r)
      case r_none: None
      then have "screen_update env (ap_active m) msg m h = (Ret (m', c), h')" using u e r by (simp add: bindP_def)
      then show ?thesis using screen_tidy [OF ok(1) clean, of env "ap_active m" msg] by (simp add: tidy_def wp_def)
    next
      case (Some mc)
      then have "handle_global_key key m h = (Ret (Some (m', c)), h')" using u e r by (simp add: bindP_def retP_def)
      then show ?thesis using global_key_tidy [OF clean] by blast
    qed
  qed
qed

subsection \<open>Commands and runs\<close>

lemma tunnel_start_buffer: "run_tunnel_start co port h = (r, h') \<Longrightarrow> en_buffer h' = en_buffer h"
  by (auto simp: run_tunnel_start_def tryP_def bindP_def get_client_def retP_def add_handle_def split: option.splits sum.splits)

lemma perform_clean:
  assumes "perform co n ci c w = (Ret (m, c'), w')" "clean_buffer (le_fold (co_env co)) (en_buffer (uw_heap w))"
  shows "clean_buffer (le_fold (co_env co)) (en_buffer (uw_heap w'))"
  using assms
proof (induction co n ci c arbitrary: m c' rule: perform.induct)
  case (11 co n ci cl l)
  then show ?case
    using clean_consume [of "le_fold (co_env co)" "(cl\<lparr>c_buffer := en_buffer (uw_heap w)\<rparr>, l)" "le_encode (co_env co)" ci]
    by (auto simp: on_heap_def bindP_def consume_once_def retP_def Let_def)
next
  case (13 co n ci port)
  then show ?case using tunnel_start_buffer by (fastforce simp: answer_iff on_heap_def split: prod.splits)
next
  case (14 co n ci i)
  then show ?case
    by (auto simp: drain_tunnel_cmd_def on_heap_def bindP_def drain_def retP_def at_handle_def split: list.splits)
next
  case (25 co n ci c cs)
  then show ?case by (auto simp: bindP_def retP_def split: prod.splits outcome.splits)
qed (auto simp: cmd_defs answer_iff panicP_def retP_def on_heap_def cancel_def at_handle_def dest!: on_laptop_heap with_client_heap)

definition clean_ui :: "(string \<Rightarrow> string) \<Rightarrow> ('a, 'h, 'i) ui \<Rightarrow> bool" where
  "clean_ui uni s \<longleftrightarrow> clean_buffer uni (en_buffer (uw_heap (ui_world s))) \<and> clean_app uni (ui_app s)"

lemma deliver_clean:
  assumes "run_inv s" "msg_ok (handles (uw_heap (ui_world s))) m" "clean_ui uni s" "deliver co m s = (Ret (), s')"
  shows "clean_ui uni s'"
proof -
  have ok: "app_ok (handles (uw_heap (ui_world s))) (ui_app s)" using assms(1) by (simp add: run_inv_def Let_def)
  show ?thesis
    using assms(3,4) app_update_clean [OF ok assms(2)]
    by (auto simp: deliver_def clean_ui_def split: prod.splits outcome.splits)
qed

lemma run_clean: "ui_run co (ui_start co l) tr s \<Longrightarrow> clean_ui (le_fold (co_env co)) s"
proof (induction rule: ui_run.induct)
  case ur_start
  then show ?case
    by (simp add: clean_ui_def clean_buffer_def clean_logs_def ui_start_def new_app_def new_survey_def new_logs_def new_heap_def new_engine_def
        new_buffer_def engine.defs Let_def)
next
  case (ur_step tr s lab s')
  note inv = ui_run_inv [OF ur_step(1)]
  from ur_step(2) show ?case
  proof cases
    case (us_key k)
    show ?thesis by (rule deliver_clean [OF inv _ ur_step.IH us_key(3)]) simp
  next
    case (us_resize w h)
    show ?thesis by (rule deliver_clean [OF inv _ ur_step.IH us_resize(3)]) simp
  next
    case (us_mail ms m ms')
    let ?s = "s\<lparr>ui_mail := ms @ ms'\<rparr>"
    have "clean_ui (le_fold (co_env co)) ?s" "run_inv ?s" "msg_ok (handles (uw_heap (ui_world ?s))) m"
      using ur_step.IH inv us_mail(3) by (auto simp: clean_ui_def run_inv_def Let_def)
    then show ?thesis using deliver_clean us_mail(5) by blast
  next
    case (us_run cs c cs' n ci)
    from run_command_inv [OF inv us_run(3,5)] obtain m c' w where
      "perform co n ci c (ui_world s) = (Ret (m, c'), w)" "ui_app s' = ui_app s" "ui_world s' = w" .
    then show ?thesis using ur_step.IH perform_clean by (auto simp: clean_ui_def)
  qed (use ur_step.IH in \<open>auto simp: clean_ui_def at_handle_def\<close>)
qed

text \<open>Redacting a redacted event changes nothing.\<close>

lemma clean_fixed: "clean_event uni e \<Longrightarrow> redact_event uni e = e"
  by (cases "ev_payload e") (simp_all add: clean_event_def redact_event_def redact_idem(1))

text \<open>
  C36. The console never shows a secret of an event: in every run the events the live log draws are all
  redacted, the value under each sensitive key of their payloads is the redaction mark at any depth that
  redaction reaches, so redacting them again before drawing would draw the same lines; and so are all
  events the buffer holds and those it keeps for a paused log.
\<close>

theorem log_draws_redacted:
  assumes "ui_run co (ui_start co l) tr s"
  shows "(\<forall>e \<in> set (lm_content (sy_logs (ap_survey (ui_app s)))). clean_event (le_fold (co_env co)) e) \<and>
    log_lines d (sy_logs (ap_survey (ui_app s))) =
      map (\<lambda>e. render_log_line d (redact_event (le_fold (co_env co)) e)) (lm_content (sy_logs (ap_survey (ui_app s)))) \<and>
    (\<forall>e \<in> set (b_events (en_buffer (uw_heap (ui_world s)))) \<union> set (b_paused_rendered (en_buffer (uw_heap (ui_world s)))).
      clean_event (le_fold (co_env co)) e)"
  using run_clean [OF assms] by (auto simp: clean_ui_def clean_buffer_def clean_logs_def log_lines_def clean_fixed)

end
