(* ===== verification/Tui_Lost_Tunnel.thy ===== *)
theory Tui_Lost_Tunnel
  imports Tui_Runs
begin

section \<open>A tunnel the console loses\<close>

text \<open>
  What can still close a tunnel: a command in waiting, an open modal, or the tunnel screen while it
  takes the tunnel for running. The reports of a tunnel's end do not say which tunnel they mean, and
  one that arrives late takes all of these from the next tunnel.
\<close>

subsection \<open>Commands that close\<close>

text \<open>\<open>B\<close> are the tunnels in question, as \<open>CloseTunnel\<close> names them.\<close>

definition spares :: "nat option set \<Rightarrow> 'i cmd \<Rightarrow> bool" where
  "spares B c \<longleftrightarrow> (\<forall>y \<in> B. CloseTunnel y \<notin> set (leaves c))"

lemma spares_simps [simp]:
  "spares B NoCmd" "spares B (Batch cs) \<longleftrightarrow> (\<forall>c \<in> set cs. spares B c)" "spares B (Sequence cs) \<longleftrightarrow> (\<forall>c \<in> set cs. spares B c)"
  "spares B (blink b)" "spares B (spin env v t1)" "spares B (TickSpinner v)" "spares B FetchStatus" "spares B LoadCredentials"
  "spares B (PairingSubmit p1 p2 p3 t)" "spares B TickLogs" "spares B TickTunnel" "spares B (TunnelStart p)" "spares B (WiglePreview p1)"
  "spares B (WigleExport rs p1)" "spares B (WigleSave c1)" "spares B (DrainTunnel i)" "spares B (AwaitClose i)"
  "spares B (RequestConfirm k)" "spares B QuitProgram" "spares B CancelAndQuit" "spares B StartConsumer" "spares B (Consuming cl l)"
  "spares B (CloseTunnel y) \<longleftrightarrow> y \<notin> B"
  by (auto simp: spares_def blink_def spin_def)

lemma spares_spawn: "spares B c \<Longrightarrow> c' \<in> set (spawn c) \<Longrightarrow> spares B c'"
  using spawn_leafD unfolding spares_def by metis

lemma spares_asked: "asks_ok k \<Longrightarrow> spares B (cf_command k)"
  by (fastforce simp: asks_ok_def spares_def)

subsection \<open>Updates\<close>

text \<open>An update that ends in a good state and closes none of \<open>B\<close>.\<close>

definition calm :: "nat option set \<Rightarrow> ('m \<Rightarrow> bool) \<Rightarrow> (ui_heap, 'm \<times> 'i cmd) prog \<Rightarrow> ui_heap \<Rightarrow> bool" where
  "calm B good p h \<longleftrightarrow> wp p (\<lambda>r h'. \<forall>m c. r = Ret (m, c) \<longrightarrow> good m \<and> spares B c) h"

lemma calmD: "calm B good p h \<Longrightarrow> p h = (Ret (m, c), h') \<Longrightarrow> good m \<and> spares B c"
  by (simp add: calm_def wp_def)

lemma calm_ret [screen_simps]: "calm B good (retP (m, c)) h \<longleftrightarrow> good m \<and> spares B c"
  by (auto simp: calm_def prog_simps)

lemma calm_stay [screen_simps]: "calm B good (stay m) h \<longleftrightarrow> good m"
  by (simp add: calm_def prog_simps)

lemma calm_field [screen_simps]: "calm B good (go_field tf msg x f) h \<longleftrightarrow> good (f (fst (field_update tf msg x)))"
  by (simp add: calm_def prog_simps field_update_def split: prod.split)

lemma calm_client [screen_simps]: "calm B good (bindP get_client f) h \<longleftrightarrow> calm B good (f (en_client h)) h"
  by (simp add: calm_def prog_simps)

lemma calm_set_client [screen_simps]: "calm B good (bindP (set_client c) f) h \<longleftrightarrow> calm B good (f ()) (h\<lparr>en_client := Some c\<rparr>)"
  by (simp add: calm_def prog_simps)

lemma calm_buffer [screen_simps]:
  "calm B good (bindP (on_buffer g) f) h \<longleftrightarrow> calm B good (f (fst (g (en_buffer h)))) (h\<lparr>en_buffer := snd (g (en_buffer h))\<rparr>)"
  by (simp add: calm_def prog_simps)

lemma calm_snapshot [screen_simps]: "calm B good (bindP (snapshot (Some i)) f) h \<longleftrightarrow> calm B good (f (th_history (uh_handles h ! i))) h"
  by (simp add: calm_def prog_simps)

lemma calm_inside: "calm B good p h \<Longrightarrow> (\<And>y. good y \<Longrightarrow> P (put y)) \<Longrightarrow> calm B P (bindP p (\<lambda>(y, c). retP (put y, c))) h"
  unfolding calm_def wp_bind by (erule wp_mono) (auto simp: prog_simps split: outcome.split)

lemma logs_calm: "calm B (\<lambda>_. True) (logs_update env msg l) h"
  by (cases msg) (simp_all add: logs_update_def render_def bindP_assoc screen_simps Let_def)

lemma survey_calm: "calm B (\<lambda>_. True) (survey_update env msg m) h"
proof -
  have "calm B (\<lambda>_. True) (bindP (logs_update env msg (sy_logs m)) (\<lambda>(l, c). retP (m\<lparr>sy_logs := l\<rparr>, c))) h"
    by (rule calm_inside [OF logs_calm]) simp
  then show ?thesis
    by (cases msg) (simp_all add: survey_update_def screen_simps Let_def split: option.split)
qed

lemma others_calm:
  "calm B (\<lambda>_. True) (dashboard_update env msg m1) h" "calm B (\<lambda>_. True) (pairing_update env msg m2) h"
  "calm B (\<lambda>_. True) (provision_update env msg m3) h" "calm B (\<lambda>_. True) (update_update env msg m4) h"
  "calm B (\<lambda>_. True) (wigle_update env msg m6) h"
  by (cases msg; simp add: dashboard_update_def pairing_update_def pairing_submit_def pairing_field_def provision_update_def provision_field_def
      update_update_def update_field_def wigle_update_def wigle_browse_key_def wigle_credentials_key_def wigle_field_def screen_simps
      Let_def split: sum.split)+

text \<open>
  The screens have no part in it but the tunnel's own. \<open>P\<close> is what is known of that screen: it holds
  before, and the screen's update keeps it and closes none of \<open>B\<close>.
\<close>

definition tunnel_keeps :: "'i ui_env \<Rightarrow> 'i msg \<Rightarrow> nat option set \<Rightarrow> ('i tunnel_screen \<Rightarrow> bool) \<Rightarrow> bool" where
  "tunnel_keeps env msg B P \<longleftrightarrow> (\<forall>n x h. tunnel_ok n x \<and> P x \<longrightarrow> calm B P (tunnel_update env msg x) h)"

lemma at_screen_calm: "calm B good (f x) h \<Longrightarrow> (\<And>y. good y \<Longrightarrow> P (put y)) \<Longrightarrow> calm B P (at_screen f x put) h"
  unfolding at_screen_def by (rule calm_inside)

lemma screen_calm:
  assumes "tunnel_keeps env msg B P" "P (ap_tunnel m)" "app_ok n m" "Q (ap_confirm m)"
  shows "calm B (\<lambda>m. P (ap_tunnel m) \<and> Q (ap_confirm m)) (screen_update env v msg m) h"
proof -
  have "calm B P (tunnel_update env msg (ap_tunnel m)) h" using assms by (auto simp: tunnel_keeps_def app_ok_def)
  then show ?thesis
    using assms(2,4) by (cases v) (auto simp: screen_update_def intro!: at_screen_calm [OF survey_calm] at_screen_calm [OF others_calm(1)]
      at_screen_calm [OF others_calm(2)] at_screen_calm [OF others_calm(3)] at_screen_calm [OF others_calm(4)] at_screen_calm [OF others_calm(5)]
      elim: at_screen_calm)
qed

lemma broadcast_to_calm:
  assumes "tunnel_keeps env msg B P"
  shows "P (ap_tunnel m) \<Longrightarrow> Q (ap_confirm m) \<Longrightarrow> app_ok (handles h) m \<Longrightarrow> msg_ok (handles h) msg \<Longrightarrow>
    broadcast_to env vs msg m h = (Ret (m', cs), h') \<Longrightarrow> P (ap_tunnel m') \<and> Q (ap_confirm m') \<and> (\<forall>c \<in> set cs. spares B c)"
proof (induction vs arbitrary: m h cs)
  case (Cons v vs)
  from screen_keeps [OF Cons.prems(3,4), of env v] obtain m1 c h1 where
    1: "screen_update env v msg m h = (Ret (m1, c), h1)" "app_ok (handles h) m1" "handles h1 = handles h"
    by (rule keepsE)
  have "P (ap_tunnel m1)" "Q (ap_confirm m1)" "spares B c"
    using calmD [OF screen_calm [OF assms Cons.prems(1,3), of Q] 1(1)] Cons.prems(2) by simp_all
  with Cons.IH [of m1 h1] Cons.prems(4,5) 1 show ?case
    by (auto simp: bindP_def retP_def split: prod.splits outcome.splits)
qed (simp add: retP_def)

abbreviation modal_spares :: "nat option set \<Rightarrow> 'i confirm option \<Rightarrow> bool" where
  "modal_spares B k \<equiv> (\<forall>x. k = Some x \<longrightarrow> spares B (cf_command x))"

lemma global_key_calm:
  assumes "handle_global_key k m h = (Ret (Some (m', c)), h')" "modal_spares B (ap_confirm m)"
    "tu_running (ap_tunnel m) \<Longrightarrow> tu_handle (ap_tunnel m) \<notin> B"
  shows "ap_tunnel m' = ap_tunnel m \<and> modal_spares B (ap_confirm m') \<and> spares B c"
  using assms
  by (cases "screen_key k")
    (auto simp: handle_global_key_def set_active_def survey_activate_def quit_confirm_def yes_no_confirm_def bindP_def cancel_def retP_def Let_def
      split: if_split_asm)

lemma app_update_calm:
  assumes tunnel: "tunnel_keeps env msg B P" "P (ap_tunnel m)" and ok: "app_ok (handles h) m" "msg_ok (handles h) msg"
    and modal: "modal_spares B (ap_confirm m)" and quit: "tu_running (ap_tunnel m) \<Longrightarrow> tu_handle (ap_tunnel m) \<notin> B"
    and u: "app_update env msg m h = (Ret (m', c), h')"
  shows "P (ap_tunnel m') \<and> modal_spares B (ap_confirm m') \<and> spares B c"
proof (cases "\<exists>k. msg = Key k")
  case False
  then consider (size) w j where "msg = WindowSize w j" | (ask) k where "msg = ConfirmRequested k" | (other) "app_update env msg m = broadcast env msg m"
    by (cases msg) (auto simp: app_update_def)
  then show ?thesis
  proof cases
    case size
    then show ?thesis
      using u tunnel(2) modal by (auto simp: app_update_def resize_def survey_set_size_def logs_set_size_def render_def bindP_def on_buffer_def
        retP_def stay_def)
  next
    case ask
    then show ?thesis using u ok(2) tunnel(2) by (auto simp: app_update_def stay_def retP_def spares_asked)
  next
    case other
    then obtain cs where "broadcast_to env screen_order msg m h = (Ret (m', cs), h')" "c = Batch cs"
      using u by (auto simp: broadcast_def bindP_def retP_def split: prod.splits outcome.splits)
    then show ?thesis using broadcast_to_calm [OF tunnel, of "modal_spares B"] modal ok by simp
  qed
next
  case True
  then obtain key where key: "msg = Key key" by blast
  show ?thesis
  proof (cases "ap_confirm m")
    case (Some k)
    obtain k' c1 resolved where cu: "confirm_update (ue_fields env) msg k = (k', c1, resolved)" by (metis prod_cases3)
    then have m': "c = c1" "m' = m\<lparr>ap_confirm := (if resolved then None else Some k')\<rparr>" using u key Some by (auto simp: app_update_def retP_def)
    have "cf_command k' = cf_command k" "c1 = cf_command k \<or> (\<exists>b. c1 = blink b)" using confirm_update_cases cu key by blast+
    then show ?thesis using m' modal Some tunnel(2) by auto
  next
    case None
    then have e: "app_update env msg m h = bindP (handle_global_key key m) (\<lambda>r. case r of Some mc \<Rightarrow> retP mc | None \<Rightarrow> screen_update env (ap_active m) msg m) h"
      using key by (simp add: app_update_def cong: option.case_cong)
    from handle_global_key_ok [OF ok(1), of key] obtain r h1 where
      r: "handle_global_key key m h = (Ret r, h1)" "r = None \<Longrightarrow> h1 = h"
      by (fastforce split: option.splits)
    show ?thesis
    proof (cases r)
      case r_none: None
      then have "screen_update env (ap_active m) msg m h = (Ret (m', c), h')" using u e r by (simp add: bindP_def)
      then show ?thesis using calmD [OF screen_calm [OF tunnel ok(1), of "modal_spares B"]] modal by simp
    next
      case (Some mc)
      then have "handle_global_key key m h = (Ret (Some (m', c)), h')" using u e r by (simp add: bindP_def retP_def)
      then show ?thesis using global_key_calm [OF _ modal quit] tunnel(2) by simp
    qed
  qed
qed

text \<open>The tunnel screen: it closes only the tunnel it takes for running, and takes up only the one just started.\<close>

lemma tunnel_keeps_handle:
  "tunnel_keeps env msg {} (\<lambda>x. tu_handle x = g \<or> (\<exists>i u. msg = TunnelStarted (Inr (i, u)) \<and> tu_handle x = Some i))"
proof -
  have "calm {} (\<lambda>x. tu_handle x = g \<or> (\<exists>i u. msg = TunnelStarted (Inr (i, u)) \<and> tu_handle x = Some i)) (tunnel_update env msg m) h"
    if "tunnel_ok n m" "tu_handle m = g \<or> (\<exists>i u. msg = TunnelStarted (Inr (i, u)) \<and> tu_handle m = Some i)" for n h and m :: "'a tunnel_screen"
    using that
    by (cases msg; cases "tu_handle m")
      (auto simp: tunnel_update_def tunnel_ok_def tunnel_field_def screen_simps Let_def split: sum.split)
  then show ?thesis by (auto simp: tunnel_keeps_def)
qed

definition taken :: "nat \<Rightarrow> 'i tunnel_screen \<Rightarrow> bool" where
  "taken j m \<longleftrightarrow> tu_running m \<and> tu_handle m = Some j"

lemma tunnel_keeps_lost:
  assumes "\<And>u. msg \<noteq> TunnelStarted (Inr (j, u))"
  shows "tunnel_keeps env msg {Some j} (\<lambda>x. \<not> taken j x)"
proof -
  have "calm {Some j} (\<lambda>x. \<not> taken j x) (tunnel_update env msg m) h" if "tunnel_ok n m" "\<not> taken j m" for n h and m :: "'a tunnel_screen"
    using that assms
    by (cases msg; cases "tu_handle m")
      (auto simp: tunnel_update_def tunnel_ok_def tunnel_field_def taken_def screen_simps Let_def split: sum.split)
  then show ?thesis by (auto simp: tunnel_keeps_def)
qed

subsection \<open>Steps of the tunnels and commands\<close>

definition still_open :: "tunnel \<Rightarrow> bool" where
  "still_open t \<longleftrightarrow> tn_close t = NotClosed \<and> tn_listening t"

lemma background_open: "background_step h t t' \<Longrightarrow> still_open t \<Longrightarrow> still_open t'"
proof -
  assume b: "background_step h t t'" and t: "still_open t"
  then have "tn_close t' = NotClosed" "tunnel_step t (Ret ()) t'" by (simp_all add: background_step_def still_open_def)
  from this(2,1) show ?thesis
    using t
    by cases (auto simp: still_open_def accept_round_def set_relay_def relay_opened_def relay_emitted_def relay_copies_def set_status_def send_event_def
        close_begin_def close_waited_def close_events_def Let_def split: sum.splits option.splits if_splits relay_phase.splits relay_event.splits)
qed

abbreviation tunnel_of :: "nat \<Rightarrow> ui_heap \<Rightarrow> tunnel" where
  "tunnel_of j h \<equiv> th_tunnel (uh_handles h ! j)"

definition performed_calm :: "nat \<Rightarrow> ('a, 'h) ui_world \<Rightarrow> 'i msg option \<Rightarrow> 'i cmd \<Rightarrow> ('a, 'h) ui_world \<Rightarrow> bool" where
  "performed_calm j w m c' w' \<longleftrightarrow> spares {Some j} c' \<and> (still_open (tunnel_of j (uw_heap w)) \<longrightarrow> still_open (tunnel_of j (uw_heap w'))) \<and>
     (\<forall>i u. m = Some (TunnelStarted (Inr (i, u))) \<longrightarrow> i = handles (uw_heap w))"

lemma tunnel_start_new:
  "run_tunnel_start co port h = (r, h') \<Longrightarrow> j < handles h \<Longrightarrow>
   tunnel_of j h' = tunnel_of j h \<and> (\<forall>i u. r = Ret (Inr (i, u)) \<longrightarrow> i = handles h)"
  by (auto simp: run_tunnel_start_def tryP_def bindP_def get_client_def retP_def add_handle_def handles_def nth_append
      split: option.splits sum.splits)

lemma spares_consuming: "consuming cl = (m, c) \<Longrightarrow> spares B c \<and> (\<forall>x. m \<noteq> Some (TunnelStarted x))"
  by (auto simp: consuming_def split: consume_loc.splits)

lemma spares_start_consumer: "start_consumer h = (m, c) \<Longrightarrow> spares B c \<and> (\<forall>x. m \<noteq> Some (TunnelStarted x))"
  by (auto simp: start_consumer_def split: option.splits dest: spares_consuming)

lemma history_append_tunnel [simp]: "th_tunnel (history_append e h) = th_tunnel h"
  by (simp add: history_append_def Let_def)

lemma perform_calm:
  assumes "perform co n ci c w = (Ret (m, c'), w')" "spares {Some j} c" "j < handles (uw_heap w)"
  shows "performed_calm j w m c' w'"
  using assms
proof (induction co n ci c arbitrary: m c' rule: perform.induct)
  case (10 co n ci)
  then show ?case by (auto simp: on_heap_def performed_calm_def dest: spares_start_consumer)
next
  case (11 co n ci cl l)
  then show ?case by (auto simp: on_heap_def bindP_def consume_once_def retP_def Let_def performed_calm_def dest: spares_consuming)
next
  case (13 co n ci port)
  then show ?case using tunnel_start_new by (fastforce simp: answer_iff on_heap_def performed_calm_def split: prod.splits)
next
  case (14 co n ci i)
  then show ?case
    by (cases "i = j") (auto simp: drain_tunnel_cmd_def on_heap_def bindP_def drain_def retP_def performed_calm_def at_handle_def handles_def
      still_open_def split: list.splits)
next
  case (16 co n ci i)
  then show ?case by (auto simp: close_tunnel_cmd_def on_heap_def performed_calm_def at_handle_def)
next
  case (25 co n ci c cs)
  from 25(2) obtain c1 where 1: "perform co n ci c w = (Ret (m, c1), w')" "c' = Sequence (if c1 = NoCmd then cs else c1 # cs)"
    by (auto simp: bindP_def retP_def split: prod.splits outcome.splits)
  with 25(1) [OF 1(1)] 25(3,4) show ?case by (auto simp: performed_calm_def)
qed (auto simp: cmd_defs answer_iff panicP_def retP_def on_heap_def cancel_def performed_calm_def at_handle_def
    dest!: on_laptop_heap with_client_heap)

subsection \<open>Runs\<close>

text \<open>The tunnels whose start the console has not been told of yet: each is told once.\<close>

fun opened :: "'i msg \<Rightarrow> nat list" where
  "opened (TunnelStarted (Inr (i, u))) = [i]"
| "opened m = []"

definition announced :: "'i msg list \<Rightarrow> nat list" where
  "announced ms = concat (map opened ms)"

lemma announced_simps [simp]: "announced [] = []" "announced (m # ms) = opened m @ announced ms" "announced (ms @ ms') = announced ms @ announced ms'"
  by (simp_all add: announced_def)

lemma opened_iff: "i \<in> set (opened m) \<longleftrightarrow> (\<exists>u. m = TunnelStarted (Inr (i, u)))"
  by (cases m rule: opened.cases) auto

lemma announced_iff: "i \<in> set (announced ms) \<longleftrightarrow> (\<exists>u. TunnelStarted (Inr (i, u)) \<in> set ms)"
  by (auto simp: announced_def opened_iff)

lemma opened_one: "opened m = [] \<or> (\<exists>i u. m = TunnelStarted (Inr (i, u)) \<and> opened m = [i])"
  by (cases m rule: opened.cases) auto

definition told_once :: "('a, 'h, 'i) ui \<Rightarrow> bool" where
  "told_once s \<longleftrightarrow> distinct (announced (ui_mail s)) \<and>
     (\<forall>j. tu_handle (ap_tunnel (ui_app s)) = Some j \<longrightarrow> j \<notin> set (announced (ui_mail s)))"

lemma announced_exist: "run_inv s \<Longrightarrow> i \<in> set (announced (ui_mail s)) \<Longrightarrow> i < handles (uw_heap (ui_world s))"
  by (fastforce simp: run_inv_def announced_iff Let_def)

lemma handle_exists: "run_inv s \<Longrightarrow> tu_handle (ap_tunnel (ui_app s)) = Some j \<Longrightarrow> j < handles (uw_heap (ui_world s))"
  by (auto simp: run_inv_def Let_def app_ok_def tunnel_ok_def)

text \<open>
  Nothing is left that closes the tunnel \<open>j\<close>, and it is open: the screen does not take it for running and
  will not be told of it again, no open modal closes it, no command in waiting does.
\<close>

definition lost :: "nat \<Rightarrow> ('a, 'h, 'i) ui \<Rightarrow> bool" where
  "lost j s \<longleftrightarrow> \<not> taken j (ap_tunnel (ui_app s)) \<and> modal_spares {Some j} (ap_confirm (ui_app s)) \<and>
     (\<forall>c \<in> set (ui_pending s). spares {Some j} c) \<and> j \<notin> set (announced (ui_mail s)) \<and>
     j < handles (uw_heap (ui_world s)) \<and> still_open (tunnel_of j (uw_heap (ui_world s)))"

lemma delivered:
  assumes "run_inv s" "msg_ok (handles (uw_heap (ui_world s))) m" "deliver co m s = (Ret (), s')"
  obtains c h where "app_update (screens_env co) m (ui_app s) (uw_heap (ui_world s)) = (Ret (ui_app s', c), h)"
    "ui_pending s' = ui_pending s @ spawn c" "uh_handles (uw_heap (ui_world s')) = uh_handles (uw_heap (ui_world s))"
    "ui_mail s' = ui_mail s" "app_ok (handles (uw_heap (ui_world s))) (ui_app s)"
proof -
  have "app_ok (handles (uw_heap (ui_world s))) (ui_app s)" using assms(1) by (simp add: run_inv_def Let_def)
  moreover have "uh_handles (uw_heap (ui_world s')) = uh_handles (uw_heap (ui_world s))" using deliver_inv [OF assms] by blast
  ultimately show thesis
    using assms(3) by (auto simp: deliver_def intro: that split: prod.splits outcome.splits)
qed

lemma deliver_told_once:
  assumes "run_inv s" "msg_ok (handles (uw_heap (ui_world s))) m" "deliver co m s = (Ret (), s')"
    and "told_once s" "distinct (opened m @ announced (ui_mail s))"
  shows "told_once s'"
proof -
  obtain c h where d: "app_update (screens_env co) m (ui_app s) (uw_heap (ui_world s)) = (Ret (ui_app s', c), h)"
      "ui_mail s' = ui_mail s" "app_ok (handles (uw_heap (ui_world s))) (ui_app s)"
    using delivered [OF assms(1-3)] by metis
  have "tu_handle (ap_tunnel (ui_app s')) = tu_handle (ap_tunnel (ui_app s)) \<or>
      (\<exists>i u. m = TunnelStarted (Inr (i, u)) \<and> tu_handle (ap_tunnel (ui_app s')) = Some i)"
    using app_update_calm [OF tunnel_keeps_handle _ d(3) assms(2) _ _ d(1), of "tu_handle (ap_tunnel (ui_app s))"]
    by (simp add: spares_def)
  then show ?thesis using assms(4,5) d(2) by (auto simp: told_once_def)
qed

lemma deliver_lost:
  assumes "run_inv s" "msg_ok (handles (uw_heap (ui_world s))) m" "deliver co m s = (Ret (), s')" "lost j s" "j \<notin> set (opened m)"
  shows "lost j s'"
proof -
  obtain c h where d: "app_update (screens_env co) m (ui_app s) (uw_heap (ui_world s)) = (Ret (ui_app s', c), h)"
      "ui_pending s' = ui_pending s @ spawn c" "uh_handles (uw_heap (ui_world s')) = uh_handles (uw_heap (ui_world s))"
      "ui_mail s' = ui_mail s" "app_ok (handles (uw_heap (ui_world s))) (ui_app s)"
    using delivered [OF assms(1-3)] by metis
  have "m \<noteq> TunnelStarted (Inr (j, u))" for u using assms(5) by auto
  from app_update_calm [OF tunnel_keeps_lost [OF this] _ d(5) assms(2) _ _ d(1)] assms(4)
  have "\<not> taken j (ap_tunnel (ui_app s'))" "modal_spares {Some j} (ap_confirm (ui_app s'))" "spares {Some j} c"
    by (auto simp: lost_def taken_def)
  then show ?thesis using assms(4) d by (auto simp: lost_def handles_def dest: spares_spawn)
qed

lemma run_mail:
  assumes "run_inv s" "ui_pending s = cs @ c # cs'" "run_command co n ci cs c cs' s = (Ret (), s')"
  obtains m c' where "perform co n ci c (ui_world s) = (Ret (m, c'), ui_world s')" "ui_app s' = ui_app s" "ui_pending s' = cs @ spawn c' @ cs'"
    "ui_mail s' = ui_mail s @ (case m of None \<Rightarrow> [] | Some m \<Rightarrow> [m])"
  using assms(3) by (auto simp: run_command_def intro: that split: prod.splits outcome.splits)

lemma performed_opens:
  assumes "perform co n ci c w = (Ret (Some m, c'), w')" "i \<in> set (opened m)"
  shows "i = handles (uw_heap w)"
proof -
  have "run_tunnel_start co p h = (Ret (Inr (i, u)), h') \<Longrightarrow> i = handles h" for p h h' u
    by (auto simp: run_tunnel_start_def tryP_def bindP_def get_client_def retP_def add_handle_def handles_def
        split: option.splits sum.splits)
  then show ?thesis
    using assms
  proof (induction co n ci c arbitrary: m c' rule: perform.induct)
    case (13 co n ci port)
    then show ?case by (fastforce simp: answer_iff on_heap_def opened_iff split: prod.splits)
  next
    case (25 co n ci c cs)
    from 25(3) obtain c1 where "perform co n ci c w = (Ret (Some m, c1), w')"
      by (auto simp: bindP_def retP_def split: prod.splits outcome.splits)
    with 25(1) [OF 25(2) this 25(4)] show ?case by simp
  qed (auto simp: cmd_defs answer_iff panicP_def retP_def on_heap_def bindP_def drain_def opened_iff consume_once_def Let_def
      dest: spares_consuming spares_start_consumer split: list.splits)
qed

lemma step_told_once:
  assumes "ui_step co s lab (Ret ()) s'" "run_inv s" "told_once s"
  shows "told_once s'"
  using assms(1)
proof cases
  case (us_key k)
  show ?thesis by (rule deliver_told_once [OF assms(2) _ us_key(3) assms(3)]) (use assms(3) in \<open>simp_all add: told_once_def\<close>)
next
  case (us_resize w h)
  show ?thesis by (rule deliver_told_once [OF assms(2) _ us_resize(3) assms(3)]) (use assms(3) in \<open>simp_all add: told_once_def\<close>)
next
  case (us_mail ms m ms')
  let ?s = "s\<lparr>ui_mail := ms @ ms'\<rparr>"
  have "run_inv ?s" "msg_ok (handles (uw_heap (ui_world ?s))) m" "told_once ?s" "distinct (opened m @ announced (ui_mail ?s))"
    using assms(2,3) us_mail(3) by (auto simp: run_inv_def Let_def told_once_def)
  from deliver_told_once [OF this(1,2) us_mail(5) this(3,4)] show ?thesis .
next
  case (us_run cs c cs' n ci)
  obtain m c' where p: "perform co n ci c (ui_world s) = (Ret (m, c'), ui_world s')" "ui_app s' = ui_app s"
      "ui_mail s' = ui_mail s @ (case m of None \<Rightarrow> [] | Some m \<Rightarrow> [m])"
    using run_mail [OF assms(2) us_run(3,5)] by metis
  show ?thesis
  proof (cases m)
    case (Some x)
    have "i = handles (uw_heap (ui_world s))" if "i \<in> set (opened x)" for i using performed_opens p(1) Some that by blast
    moreover have "distinct (opened x)" using opened_one [of x] by auto
    ultimately show ?thesis
      using p(2,3) Some assms(3) announced_exist [OF assms(2)] handle_exists [OF assms(2)]
      by (fastforce simp: told_once_def)
  qed (use p assms(3) in \<open>simp add: told_once_def\<close>)
qed (use assms(3) in \<open>auto simp: told_once_def\<close>)

lemma run_told_once: "ui_run co (ui_start co l) tr s \<Longrightarrow> told_once s"
proof (induction rule: ui_run.induct)
  case (ur_step tr s lab s')
  then show ?case using step_told_once ui_run_inv by blast
qed (simp add: told_once_def ui_start_def)

lemma step_lost:
  assumes "ui_step co s lab (Ret ()) s'" "run_inv s" "lost j s"
  shows "lost j s'"
  using assms(1)
proof cases
  case (us_key k)
  show ?thesis by (rule deliver_lost [OF assms(2) _ us_key(3) assms(3)]) simp_all
next
  case (us_resize w h)
  show ?thesis by (rule deliver_lost [OF assms(2) _ us_resize(3) assms(3)]) simp_all
next
  case (us_mail ms m ms')
  let ?s = "s\<lparr>ui_mail := ms @ ms'\<rparr>"
  have "run_inv ?s" "msg_ok (handles (uw_heap (ui_world ?s))) m" "lost j ?s" "j \<notin> set (opened m)"
    using assms(2,3) us_mail(3) by (auto simp: run_inv_def Let_def lost_def)
  from deliver_lost [OF this(1,2) us_mail(5) this(3,4)] show ?thesis .
next
  case (us_run cs c cs' n ci)
  obtain m c' where p: "perform co n ci c (ui_world s) = (Ret (m, c'), ui_world s')" "ui_app s' = ui_app s" "ui_pending s' = cs @ spawn c' @ cs'"
      "ui_mail s' = ui_mail s @ (case m of None \<Rightarrow> [] | Some m \<Rightarrow> [m])"
    using run_mail [OF assms(2) us_run(3,5)] by metis
  have j: "spares {Some j} c" "j < handles (uw_heap (ui_world s))" using assms(3) us_run(3) by (simp_all add: lost_def)
  note calm = perform_calm [OF p(1) j, unfolded performed_calm_def]
  have "handles (uw_heap (ui_world s)) \<le> handles (uw_heap (ui_world s'))"
    using perform_ok [OF p(1)] assms(2) us_run(3) by (auto simp: performed_ok_def run_inv_def Let_def)
  moreover have "j \<notin> set (announced (case m of None \<Rightarrow> [] | Some m \<Rightarrow> [m]))"
    using calm j(2) by (auto simp: opened_iff split: option.split)
  ultimately show ?thesis using assms(3) p us_run(3) calm by (auto simp: lost_def dest: spares_spawn)
next
  case (us_tunnel h i t)
  then show ?thesis
    using assms(3) background_open [OF us_tunnel(6)] by (cases "i = j") (auto simp: lost_def at_handle_def handles_def)
qed (use assms(3) in \<open>auto simp: lost_def\<close>)

lemma run_lost: "ui_run co s tr s' \<Longrightarrow> run_inv s \<Longrightarrow> lost j s \<Longrightarrow> lost j s'"
proof -
  assume "ui_run co s tr s'" and s: "run_inv s" "lost j s"
  then have "run_inv s' \<and> lost j s'"
  proof (induction rule: ui_run.induct)
    case (ur_step tr s1 lab s2)
    then show ?case using ui_step_inv step_lost by blast
  qed simp
  then show ?thesis ..
qed

subsection \<open>A report that arrives late\<close>

definition finished :: "tunnel \<Rightarrow> bool" where
  "finished t \<longleftrightarrow> tn_close t = CloseDone \<and> tn_events t = [] \<and> \<not> tn_events_open t"

text \<open>The report of the end of a tunnel, whichever it is, is handled.\<close>

lemma closed_handled:
  "tu_handle (ap_tunnel a) = Some j \<Longrightarrow>
   \<exists>a' c h'. app_update env TunnelClosed a h = (Ret (a', c), h') \<and> \<not> tu_running (ap_tunnel a') \<and> ap_confirm a' = ap_confirm a \<and>
     spares B c \<and> uh_handles h' = uh_handles h"
  by (auto simp: app_update_def broadcast_def screen_order_def screen_update_def at_screen_def bindP_def retP_def stay_def go_field_def
      dashboard_update_def pairing_update_def pairing_field_def provision_update_def provision_field_def update_update_def
      update_field_def survey_update_def logs_update_def tunnel_update_def snapshot_def wigle_update_def wigle_field_def field_update_def Let_def
      split: prod.splits)

lemma report_mailed:
  assumes "\<not> ui_quit s" "report = DrainTunnel i \<or> report = AwaitClose i" "ui_pending s = cs @ report # cs'"
    and "finished (tunnel_of i (uw_heap (ui_world s)))"
  shows "ui_step co s (Ran report) (Ret ()) (s\<lparr>ui_pending := cs @ cs', ui_mail := ui_mail s @ [TunnelClosed]\<rparr>)"
proof (rule us_run [OF assms(1,3)])
  show "ready (uw_heap (ui_world s)) report" using assms(2,4) by (auto simp: finished_def)
  have "(ui_world s)\<lparr>uw_heap := uw_heap (ui_world s)\<rparr> = ui_world s" by simp
  then show "run_command co 0 ci cs report cs' s = (Ret (), s\<lparr>ui_pending := cs @ cs', ui_mail := ui_mail s @ [TunnelClosed]\<rparr>)"
    using assms(2,4)
    by (auto simp: run_command_def drain_tunnel_cmd_def on_heap_def bindP_def drain_def retP_def answer_def finished_def)
qed

text \<open>
  C38. The console can lose an open tunnel for good. The end of a tunnel is reported twice, by the command
  that drained its events and by the one that closed it, and neither report says which tunnel it
  means. Take any state of any run in which the console shows an open tunnel that nothing is about to
  close, while a report of a finished tunnel is still due. Then the report can be sent and handled
  at once, after which the screen takes the open tunnel for closed; and from there on, whatever the user
  does and in whatever order the rest happens, the screen never takes it for running again, no
  command to close it is ever issued, quitting included, and it stays open and listening.
\<close>

theorem stale_report_loses_tunnel:
  assumes "ui_run co (ui_start co l) tr s" "\<not> ui_quit s"
    and "tu_running (ap_tunnel (ui_app s))" "tu_handle (ap_tunnel (ui_app s)) = Some j" "still_open (tunnel_of j (uw_heap (ui_world s)))"
    and "CloseTunnel (Some j) \<notin> waiting s" "\<forall>k. ap_confirm (ui_app s) = Some k \<longrightarrow> CloseTunnel (Some j) \<notin> set (leaves (cf_command k))"
    and "report = DrainTunnel i \<or> report = AwaitClose i" "report \<in> set (ui_pending s)" "finished (tunnel_of i (uw_heap (ui_world s)))"
  shows "\<exists>s1 s2. ui_step co s (Ran report) (Ret ()) s1 \<and> ui_step co s1 (Got TunnelClosed) (Ret ()) s2 \<and>
    \<not> tu_running (ap_tunnel (ui_app s2)) \<and>
    (\<forall>tr' s'. ui_run co s2 tr' s' \<longrightarrow> still_open (tunnel_of j (uw_heap (ui_world s'))) \<and> CloseTunnel (Some j) \<notin> waiting s' \<and>
      \<not> (tu_running (ap_tunnel (ui_app s')) \<and> tu_handle (ap_tunnel (ui_app s')) = Some j))"
proof -
  have inv: "run_inv s" and once: "told_once s" using ui_run_inv run_told_once assms(1) by blast+
  obtain cs cs' where p: "ui_pending s = cs @ report # cs'" using assms(9) by (meson split_list)
  let ?s1 = "s\<lparr>ui_pending := cs @ cs', ui_mail := ui_mail s @ [TunnelClosed]\<rparr>"
  have 1: "ui_step co s (Ran report) (Ret ()) ?s1" by (rule report_mailed [OF assms(2,8) p assms(10)])
  obtain a c h where u: "app_update (screens_env co) TunnelClosed (ui_app s) (uw_heap (ui_world s)) = (Ret (a, c), h)"
      "\<not> tu_running (ap_tunnel a)" "ap_confirm a = ap_confirm (ui_app s)" "spares {Some j} c" "uh_handles h = uh_handles (uw_heap (ui_world s))"
    using closed_handled [OF assms(4)] by metis
  let ?s2 = "s\<lparr>ui_app := a, ui_world := (ui_world s)\<lparr>uw_heap := h\<rparr>, ui_pending := (cs @ cs') @ spawn c\<rparr>"
  have "deliver co TunnelClosed (?s1\<lparr>ui_mail := ui_mail s\<rparr>) = (Ret (), ?s2)" by (simp add: deliver_def u(1))
  then have 2: "ui_step co ?s1 (Got TunnelClosed) (Ret ()) ?s2"
    by (intro us_mail [of _ "ui_mail s" _ "[]"]) (simp_all add: assms(2))
  have inv2: "run_inv ?s2" using ui_step_inv [OF 2] ui_step_inv [OF 1 inv] by blast
  have "lost j ?s2"
    using u assms(4-7) once handle_exists [OF inv assms(4)] p
    by (auto simp: lost_def taken_def told_once_def handles_def spares_def waiting_def dest: spawn_leafD)
  then have "lost j s'" if "ui_run co ?s2 tr' s'" for tr' s' using run_lost [OF that inv2] by blast
  then have "\<forall>tr' s'. ui_run co ?s2 tr' s' \<longrightarrow> still_open (tunnel_of j (uw_heap (ui_world s'))) \<and> CloseTunnel (Some j) \<notin> waiting s' \<and>
      \<not> (tu_running (ap_tunnel (ui_app s')) \<and> tu_handle (ap_tunnel (ui_app s')) = Some j)"
    by (auto simp: lost_def taken_def spares_def waiting_def)
  then show ?thesis using 1 2 u(2) by (intro exI [of _ ?s1] exI [of _ ?s2]) simp
qed

end
