(* ===== verification/Tui_Examples.thy ===== *)
theory Tui_Examples
  imports Tui_Properties Tui_View_Properties Tui_Lost_Tunnel Laptop_Examples
begin

section \<open>Runs of the console on concrete input\<close>

text \<open>
  A console over plain text fields and a laptop in memory, a function that plays a list of acts as a
  run, and the properties of the console applied to what it plays.
\<close>

text \<open>Steps of a tunnel's goroutines that close it.\<close>

datatype closing = AcceptFails | CloseWaits | CloseEmits | CloseEnds

definition close_step :: "closing \<Rightarrow> tunnel \<Rightarrow> tunnel option" where
  "close_step x t =
     (case x of
        AcceptFails \<Rightarrow> if tn_accept t = Accepting then Some (accept_round (Inl net_err_closed) t) else None
      | CloseWaits \<Rightarrow> if tn_close t = CloseWaiting \<and> goroutines_done t then Some (close_waited t) else None
      | CloseEmits \<Rightarrow> (case tn_close t of
            CloseEmitting e \<Rightarrow> (case send_event e t of (Ret _, t') \<Rightarrow> Some (t'\<lparr>tn_close := CloseSent\<rparr>) | _ \<Rightarrow> None)
          | _ \<Rightarrow> None)
      | CloseEnds \<Rightarrow> if tn_close t = CloseSent then Some (close_events t) else None)"

datatype act = Press string | Receive nat | Start nat | Feed nat consume_input | Elsewhere_in nat closing

definition deliverable :: "'i msg \<Rightarrow> bool" where
  "deliverable m = (case m of QuitMsg \<Rightarrow> False | _ \<Rightarrow> True)"

definition stalled :: consume_input where
  "stalled = OpenResult None test_wait"

definition start_at :: "('a, 'h, 'i) console \<Rightarrow> nat \<Rightarrow> consume_input \<Rightarrow> ('a, 'h, 'i) ui \<Rightarrow> (('a, 'h, 'i) ui \<times> 'i ui_label) option" where
  "start_at co i ci s =
     (if ui_quit s \<or> i \<ge> length (ui_pending s) \<or> \<not> ready (uw_heap (ui_world s)) (ui_pending s ! i) then None
      else case run_command co 0 ci (take i (ui_pending s)) (ui_pending s ! i) (drop (Suc i) (ui_pending s)) s of
          (Ret _, s') \<Rightarrow> Some (s', Ran (ui_pending s ! i)) | _ \<Rightarrow> None)"

fun play1 :: "('a, 'h, 'i) console \<Rightarrow> act \<Rightarrow> ('a, 'h, 'i) ui \<Rightarrow> (('a, 'h, 'i) ui \<times> 'i ui_label) option" where
  "play1 co (Press k) s =
     (if ui_quit s then None else case deliver co (Key k) s of (Ret _, s') \<Rightarrow> Some (s', Got (Key k)) | _ \<Rightarrow> None)"
| "play1 co (Receive i) s =
     (if ui_quit s \<or> i \<ge> length (ui_mail s) \<or> \<not> deliverable (ui_mail s ! i) then None
      else case deliver co (ui_mail s ! i) (s\<lparr>ui_mail := take i (ui_mail s) @ drop (Suc i) (ui_mail s)\<rparr>) of
          (Ret _, s') \<Rightarrow> Some (s', Got (ui_mail s ! i)) | _ \<Rightarrow> None)"
| "play1 co (Start i) s = start_at co i stalled s"
| "play1 co (Feed i ci) s = start_at co i ci s"
| "play1 co (Elsewhere_in i x) s =
     (let h = uw_heap (ui_world s) in
      if ui_quit s \<or> i \<ge> length (uh_handles h) then None
      else case close_step x (th_tunnel (uh_handles h ! i)) of
          None \<Rightarrow> None
        | Some t \<Rightarrow> Some (s\<lparr>ui_world := (ui_world s)\<lparr>uw_heap := at_handle i (\<lambda>x. x\<lparr>th_tunnel := t\<rparr>) h\<rparr>\<rparr>, Elsewhere))"

fun play :: "('a, 'h, 'i) console \<Rightarrow> act list \<Rightarrow> (('a, 'h, 'i) ui \<times> 'i ui_label) list \<Rightarrow> ('a, 'h, 'i) ui \<Rightarrow>
    ((('a, 'h, 'i) ui \<times> 'i ui_label) list \<times> ('a, 'h, 'i) ui) option" where
  "play co [] tr s = Some (tr, s)"
| "play co (x # xs) tr s = (case play1 co x s of None \<Rightarrow> None | Some (s', l) \<Rightarrow> play co xs ((s, l) # tr) s')"

lemma close_step_background: "close_step x t = Some t' \<Longrightarrow> background_step h t t'"
proof (cases x)
  case AcceptFails
  assume "close_step x t = Some t'"
  then have "tn_accept t = Accepting" "t' = accept_round (Inl net_err_closed) t" using AcceptFails by (simp_all add: close_step_def split: if_splits)
  then show ?thesis using ts_accept_error by (simp add: background_step_def) (simp add: accept_round_def set_status_def)
next
  case CloseWaits
  assume "close_step x t = Some t'"
  then have "tn_close t = CloseWaiting" "goroutines_done t" "t' = close_waited t" using CloseWaits by (simp_all add: close_step_def split: if_splits)
  then show ?thesis using ts_waited by (simp add: background_step_def) (simp add: close_waited_def set_status_def)
next
  case CloseEmits
  assume "close_step x t = Some t'"
  then obtain e t1 where e: "tn_close t = CloseEmitting e" "send_event e t = (Ret (), t1)" "t' = t1\<lparr>tn_close := CloseSent\<rparr>"
    using CloseEmits by (auto simp: close_step_def split: close_phase.splits prod.splits outcome.splits)
  then have "tunnel_step t (Ret ()) t'" using ts_close_emit by blast
  then show ?thesis using e by (auto simp: background_step_def send_event_def split: if_splits)
next
  case CloseEnds
  assume "close_step x t = Some t'"
  then have "tn_close t = CloseSent" "t' = close_events t" using CloseEnds by (simp_all add: close_step_def split: if_splits)
  then show ?thesis using ts_close_events by (simp add: background_step_def) (simp add: close_events_def)
qed

lemma start_at_step: "start_at co i ci s = Some (s', l) \<Longrightarrow> ui_step co s l (Ret ()) s'"
proof -
  assume p: "start_at co i ci s = Some (s', l)"
  have "ui_pending s = take i (ui_pending s) @ ui_pending s ! i # drop (Suc i) (ui_pending s)" if "i < length (ui_pending s)"
    using that by (rule id_take_nth_drop)
  then show ?thesis using p by (auto simp: start_at_def split: if_splits prod.splits outcome.splits intro!: us_run)
qed

lemma play1_step: "play1 co x s = Some (s', l) \<Longrightarrow> ui_step co s l (Ret ()) s'"
proof (cases x)
  case (Press k)
  assume "play1 co x s = Some (s', l)"
  then show ?thesis using Press by (auto split: if_splits prod.splits outcome.splits intro: us_key)
next
  case (Receive i)
  assume p: "play1 co x s = Some (s', l)"
  have "ui_mail s = take i (ui_mail s) @ ui_mail s ! i # drop (Suc i) (ui_mail s)" if "i < length (ui_mail s)"
    using that by (rule id_take_nth_drop)
  then show ?thesis using p Receive by (auto simp: deliverable_def split: if_splits prod.splits outcome.splits intro!: us_mail)
next
  case (Start i)
  assume "play1 co x s = Some (s', l)"
  then show ?thesis using Start start_at_step by simp
next
  case (Feed i ci)
  assume "play1 co x s = Some (s', l)"
  then show ?thesis using Feed start_at_step by simp
next
  case (Elsewhere_in i y)
  assume p: "play1 co x s = Some (s', l)"
  then obtain t where "\<not> ui_quit s" "i < length (uh_handles (uw_heap (ui_world s)))"
      "close_step y (th_tunnel (uh_handles (uw_heap (ui_world s)) ! i)) = Some t" "l = Elsewhere"
      "s' = s\<lparr>ui_world := (ui_world s)\<lparr>uw_heap := at_handle i (\<lambda>x. x\<lparr>th_tunnel := t\<rparr>) (uw_heap (ui_world s))\<rparr>\<rparr>"
    using Elsewhere_in by (auto simp: Let_def split: if_splits option.splits)
  then show ?thesis using us_tunnel [OF _ refl] close_step_background by blast
qed

lemma play_run: "play co xs tr s = Some (tr', s') \<Longrightarrow> ui_run co s0 tr s \<Longrightarrow> ui_run co s0 tr' s'"
  by (induction xs arbitrary: tr s) (auto split: option.splits prod.splits intro: ur_step play1_step)

definition plain_fields :: "string text_fields" where
  "plain_fields = \<lparr>ti_new = (\<lambda>p n. []), ti_value = (\<lambda>x. x), ti_set_value = (\<lambda>v x. v), ti_mask = (\<lambda>c x. x), ti_focus = (\<lambda>x. x), ti_blur = (\<lambda>x. x),
     ti_key = (\<lambda>k x. (if length k = 1 then x @ k else x, False)), ti_other = (\<lambda>x. (x, False))\<rparr>"

definition test_creds :: credentials where
  "test_creds = \<lparr>cr_ca_pem = ''ca'', cr_cert_pem = ''cert'', cr_key_pem = ''key'', cr_client_id = ''id''\<rparr>"

definition test_console :: "bool \<Rightarrow> (nat, net, string) console" where
  "test_console paired = \<lparr>co_deps = (default_app_deps test_laptop_env)
       \<lparr>ad_load_profile := retP (if paired then Inr test_creds else Inl err_keyring_not_found), ad_new_client := (\<lambda>_ _. Inr laptop_client)\<rparr>,
     co_env = test_laptop_env, co_fields = plain_fields, co_spin = (\<lambda>_ _. False)\<rparr>"

definition early_acts :: "act list" where
  "early_acts = [Press ''5'', Start 2]"

definition started_unpaired :: "('a, 'h, 'i) ui \<times> 'i ui_label \<Rightarrow> bool" where
  "started_unpaired x \<longleftrightarrow> (case x of (s, Ran StartConsumer) \<Rightarrow> en_client (uw_heap (ui_world s)) = None | _ \<Rightarrow> False)"

definition played :: "(('a, 'h, 'i) ui \<times> 'i ui_label \<Rightarrow> bool) \<Rightarrow> (('a, 'h, 'i) ui \<Rightarrow> bool) \<Rightarrow>
    ((('a, 'h, 'i) ui \<times> 'i ui_label) list \<times> ('a, 'h, 'i) ui) option \<Rightarrow> bool" where
  "played P Q r \<longleftrightarrow> (case r of None \<Rightarrow> False | Some (tr, s) \<Rightarrow> list_ex P tr \<and> Q s)"

lemma goroutines_done_code [code]:
  "goroutines_done t \<longleftrightarrow> tn_accept t = AcceptDone \<and> list_all (\<lambda>p. case p of RelayDone \<Rightarrow> True | _ \<Rightarrow> False) (tn_relays t)"
proof -
  have "(case p of RelayDone \<Rightarrow> True | _ \<Rightarrow> False) \<longleftrightarrow> p = RelayDone" for p by (cases p) simp_all
  then show ?thesis by (simp add: goroutines_done_def)
qed

lemma early: "played started_unpaired (\<lambda>_. True) (play (test_console False) early_acts [] (ui_start (test_console False) test_laptop))"
  by code_simp

lemma played_run:
  assumes "played P Q (play co xs [] (ui_start co l))"
  obtains tr s x where "ui_run co (ui_start co l) tr s" "x \<in> set tr" "P x" "Q s"
proof -
  obtain tr s where "play co xs [] (ui_start co l) = Some (tr, s)" "list_ex P tr" "Q s"
    using assms by (auto simp: played_def split: option.splits prod.splits)
  then show thesis using that play_run [OF _ ur_start] by (fastforce simp: list_ex_iff)
qed

theorem early_visit_silences_log_witness:
  "\<exists>tr s. ui_run (test_console False) (ui_start (test_console False) test_laptop) tr s \<and> tr \<noteq> [] \<and>
     b_events (en_buffer (uw_heap (ui_world s))) = [] \<and> StartConsumer \<notin> waiting s"
proof -
  from played_run [OF early] obtain tr s x where
    r: "ui_run (test_console False) (ui_start (test_console False) test_laptop) tr s" "x \<in> set tr" "started_unpaired x" .
  then obtain s1 where "(s1, Ran StartConsumer) \<in> set tr" "en_client (uw_heap (ui_world s1)) = None"
    by (auto simp: started_unpaired_def split: prod.splits ui_label.splits cmd.splits)
  from early_visit_silences_log [OF r(1) this] have "b_events (en_buffer (uw_heap (ui_world s))) = []" "StartConsumer \<notin> waiting s"
    by fastforce+
  moreover have "tr \<noteq> []" using r(2) by auto
  ultimately show ?thesis using r(1) by blast
qed

theorem console_never_dereferences_nil_witness:
  "\<exists>s'. ui_step (test_console True) (ui_start (test_console True) test_laptop) (Got (Key ''6'')) (Ret ()) s' \<and>
     CloseTunnel None \<notin> waiting (ui_start (test_console True) test_laptop)"
proof -
  let ?s = "ui_start (test_console True) test_laptop"
  obtain r s' where d: "deliver (test_console True) (Key ''6'') ?s = (r, s')" by fastforce
  have "ui_step (test_console True) ?s (Got (Key ''6'')) r s'" by (rule us_key [OF _ d]) (simp add: ui_start_def)
  with console_never_dereferences_nil [OF ur_start, of "test_console True" test_laptop] show ?thesis by blast
qed

text \<open>A profile is loaded, the provision screen opened, an id typed, submitted, and typed again in the modal.\<close>

definition provision_acts :: "act list" where
  "provision_acts = [Start 0, Receive 0, Press ''3'', Press ''a'', Press ''enter'', Start 2, Receive 0, Press ''a'', Press ''enter'']"

definition holds_provision :: "string \<Rightarrow> ('a, 'h, 'i) ui \<Rightarrow> bool" where
  "holds_provision i s \<longleftrightarrow> list_ex (\<lambda>c. case c of ProvisionSubmit j \<Rightarrow> j = i | _ \<Rightarrow> False) (ui_pending s)"

lemma holds_provision_waits: "holds_provision i s \<Longrightarrow> ProvisionSubmit i \<in> waiting s"
proof -
  assume "holds_provision i s"
  then obtain c where c: "c \<in> set (ui_pending s)" "case c of ProvisionSubmit j \<Rightarrow> j = i | _ \<Rightarrow> False"
    by (auto simp: holds_provision_def list_ex_iff)
  from c(2) have "c = ProvisionSubmit i" by (cases c) simp_all
  then show ?thesis using c(1) by (force simp: waiting_def)
qed

lemma provisions:
  "played (\<lambda>_. True) (holds_provision ''a'') (play (test_console True) provision_acts [] (ui_start (test_console True) test_laptop))"
  by code_simp

theorem gated_commands_were_confirmed_witness:
  "\<exists>tr s. ui_run (test_console True) (ui_start (test_console True) test_laptop) tr s \<and> ProvisionSubmit ''a'' \<in> waiting s \<and>
     confirmed_in (test_console True) tr (ProvisionSubmit ''a'')"
proof -
  from played_run [OF provisions] obtain tr s where
    r: "ui_run (test_console True) (ui_start (test_console True) test_laptop) tr s" "holds_provision ''a'' s" by metis
  have "ProvisionSubmit ''a'' \<in> waiting s" by (rule holds_provision_waits [OF r(2)])
  with gated_commands_were_confirmed [OF r(1) this] r(1) show ?thesis by auto
qed

definition files_laptop :: "(nat, net) laptop" where
  "files_laptop = test_laptop\<lparr>lp_os := \<lparr>fs = (\<lambda>p. if p = ''/ca'' then Some (FileNode ''A'' 384) else if p = ''/cert'' then Some (FileNode ''B'' 384)
     else if p = ''/key'' then Some (FileNode ''C'' 384) else None), ios = 0\<rparr>\<rparr>"

text \<open>
  A tunnel is closed, its close reported and another started before the goroutine that drained the first
  has sent its report.
\<close>

definition stale_acts :: "act list" where
  "stale_acts = [Start 0, Receive 0, Press ''6'', Press ''t'', Start 2, Receive 0, Press ''c'', Start 4,
     Elsewhere_in 0 AcceptFails, Elsewhere_in 0 CloseWaits, Elsewhere_in 0 CloseEmits, Elsewhere_in 0 CloseEnds,
     Start 4, Start 2, Start 2, Receive 0, Press ''t'', Start 4, Receive 0]"

definition owes_report :: "('a, 'h, 'i) ui \<Rightarrow> bool" where
  "owes_report s \<longleftrightarrow> (let t = ap_tunnel (ui_app s); h = uw_heap (ui_world s) in
     \<not> ui_quit s \<and> tu_running t \<and> (case tu_handle t of None \<Rightarrow> False | Some j \<Rightarrow> j = 1) \<and>
     still_open (tunnel_of 1 h) \<and> finished (tunnel_of 0 h) \<and> (case ap_confirm (ui_app s) of None \<Rightarrow> True | Some k \<Rightarrow> False) \<and>
     list_ex (\<lambda>c. case c of DrainTunnel i \<Rightarrow> i = 0 | _ \<Rightarrow> False) (ui_pending s) \<and>
     list_all (\<lambda>c. list_all (\<lambda>x. case x of CloseTunnel y \<Rightarrow> False | _ \<Rightarrow> True) (leaves c)) (ui_pending s))"

lemma still_open_code [code]: "still_open t \<longleftrightarrow> (case tn_close t of NotClosed \<Rightarrow> tn_listening t | _ \<Rightarrow> False)"
  by (simp add: still_open_def split: close_phase.split)

lemma finished_code [code]:
  "finished t \<longleftrightarrow> (case tn_close t of CloseDone \<Rightarrow> True | _ \<Rightarrow> False) \<and> (case tn_events t of [] \<Rightarrow> \<not> tn_events_open t | _ \<Rightarrow> False)"
  by (simp add: finished_def split: close_phase.split list.split)

lemma stale: "played (\<lambda>_. True) owes_report (play (test_console True) stale_acts [] (ui_start (test_console True) test_laptop))"
  by code_simp

lemma owes_reportD:
  assumes "owes_report s"
  shows "DrainTunnel 0 \<in> set (ui_pending s)" "CloseTunnel y \<notin> waiting s" "tu_handle (ap_tunnel (ui_app s)) = Some 1" "ap_confirm (ui_app s) = None"
proof -
  obtain c where c: "c \<in> set (ui_pending s)" "case c of DrainTunnel i \<Rightarrow> i = 0 | _ \<Rightarrow> False"
    using assms by (auto simp: owes_report_def list_ex_iff Let_def)
  from c(2) have "c = DrainTunnel 0" by (cases c) simp_all
  with c(1) show "DrainTunnel 0 \<in> set (ui_pending s)" by simp
  show "CloseTunnel y \<notin> waiting s"
    using assms by (fastforce simp: owes_report_def list_all_iff waiting_def Let_def)
  show "tu_handle (ap_tunnel (ui_app s)) = Some 1" "ap_confirm (ui_app s) = None"
    using assms by (auto simp: owes_report_def Let_def split: option.splits)
qed

theorem stale_report_loses_tunnel_witness:
  "\<exists>tr s s1 s2. ui_run (test_console True) (ui_start (test_console True) test_laptop) tr s \<and> tu_running (ap_tunnel (ui_app s)) \<and>
     ui_step (test_console True) s (Ran (DrainTunnel 0)) (Ret ()) s1 \<and> ui_step (test_console True) s1 (Got TunnelClosed) (Ret ()) s2 \<and>
     \<not> tu_running (ap_tunnel (ui_app s2)) \<and> still_open (tunnel_of 1 (uw_heap (ui_world s2))) \<and> CloseTunnel (Some 1) \<notin> waiting s2"
proof -
  from played_run [OF stale] obtain tr s where
    r: "ui_run (test_console True) (ui_start (test_console True) test_laptop) tr s" "owes_report s" by metis
  then have q: "\<not> ui_quit s" "tu_running (ap_tunnel (ui_app s))" "still_open (tunnel_of 1 (uw_heap (ui_world s)))"
      "finished (tunnel_of 0 (uw_heap (ui_world s)))"
    by (simp_all add: owes_report_def Let_def)
  have modal: "\<forall>k. ap_confirm (ui_app s) = Some k \<longrightarrow> CloseTunnel (Some 1) \<notin> set (leaves (cf_command k))"
    by (simp add: owes_reportD(4) [OF r(2)])
  from stale_report_loses_tunnel [OF r(1) q(1,2) owes_reportD(3) [OF r(2)] q(3) owes_reportD(2) [OF r(2)] modal
      disjI1 [OF refl] owes_reportD(1) [OF r(2)] q(4)]
  obtain s1 s2 where s2: "ui_step (test_console True) s (Ran (DrainTunnel 0)) (Ret ()) s1"
    "ui_step (test_console True) s1 (Got TunnelClosed) (Ret ()) s2" "\<not> tu_running (ap_tunnel (ui_app s2))"
    "\<And>tr' s'. ui_run (test_console True) s2 tr' s' \<Longrightarrow> still_open (tunnel_of 1 (uw_heap (ui_world s'))) \<and> CloseTunnel (Some 1) \<notin> waiting s'"
    by metis
  show ?thesis using r(1) q(2) s2(1-3) s2(4) [OF ur_start] by metis
qed

subsection \<open>Drawing\<close>

definition plain_drawing :: "string drawing" where
  "plain_drawing = \<lparr>dr_render = (\<lambda>st t. t), dr_join = join_with nl, dr_center = (\<lambda>w h t. t), dr_field = (\<lambda>x. x), dr_spinner = (\<lambda>v. ''-''),
     dr_viewport = (\<lambda>w h t. t), dr_table = (\<lambda>cs n rs. join_with nl (map (join_with '' '') rs)), dr_help = (\<lambda>hs w ks. []),
     dr_number = (\<lambda>t. t), dr_lower = (\<lambda>t. t), dr_upper = (\<lambda>t. t)\<rparr>"

definition secret_event :: event where
  "secret_event = \<lparr>ev_sequence = 1, ev_occurred_at = 45296000000000, ev_severity = ''info'', ev_source = ''pi'', ev_kind = ''survey'',
     ev_correlation_id = [], ev_payload = Some [(''ssid'', JStr ''cafe''), (''password'', JStr ''hunter2'')]\<rparr>"

definition log_acts :: "act list" where
  "log_acts = [Start 0, Receive 0, Press ''5'', Start 3, Feed 3 (OpenResult None test_wait),
     Feed 3 (RecvResult None (Inr secret_event) 9 (Inl io_eof) test_wait), Start 2, Receive 0]"

definition shows_line :: "string \<Rightarrow> ('a, 'h, string) ui \<Rightarrow> bool" where
  "shows_line t s \<longleftrightarrow> log_lines plain_drawing (sy_logs (ap_survey (ui_app s))) = [t]"

lemma shown_line: "played (\<lambda>_. True) (shows_line ''12:34:56 [INFO] pi/survey  map[password:[REDACTED] ssid:cafe]'')
    (play (test_console True) log_acts [] (ui_start (test_console True) test_laptop))"
  by code_simp

theorem log_draws_redacted_witness:
  "\<exists>tr s e. ui_run (test_console True) (ui_start (test_console True) test_laptop) tr s \<and>
     lm_content (sy_logs (ap_survey (ui_app s))) = [e] \<and> clean_event (le_fold (co_env (test_console True))) e \<and>
     log_lines plain_drawing (sy_logs (ap_survey (ui_app s))) = [''12:34:56 [INFO] pi/survey  map[password:[REDACTED] ssid:cafe]'']"
proof -
  from played_run [OF shown_line] obtain tr s where
    r: "ui_run (test_console True) (ui_start (test_console True) test_laptop) tr s"
      "shows_line ''12:34:56 [INFO] pi/survey  map[password:[REDACTED] ssid:cafe]'' s" by metis
  then obtain e where "lm_content (sy_logs (ap_survey (ui_app s))) = [e]"
    by (auto simp: shows_line_def log_lines_def)
  with log_draws_redacted [OF r(1), of plain_drawing] r show ?thesis by (auto simp: shows_line_def)
qed

subsection \<open>Pairing and typing\<close>

definition pairing_console :: "(nat, net, string) console" where
  "pairing_console = (test_console True)\<lparr>co_deps := default_app_deps test_laptop_env\<rparr>"

lemma pairs: "case run_pairing pairing_console ''/ca'' ''/cert'' ''/key'' ''id'' files_laptop of (Ret None, l) \<Rightarrow> True | _ \<Rightarrow> False"
  by code_simp

theorem pairing_reaches_client_witness:
  "\<exists>w1 creds w2. perform pairing_console 0 stalled (PairingSubmit ''/ca'' ''/cert'' ''/key'' ''id'') \<lparr>uw_heap = new_heap, uw_laptop = files_laptop\<rparr> =
      (Ret (Some (PairingSaved None), NoCmd), w1) \<and>
    perform pairing_console 0 stalled LoadCredentials w1 = (Ret (Some (CredentialsLoaded (Inr creds)), NoCmd), w2) \<and> cr_client_id creds = ''id''"
proof -
  obtain l where l: "run_pairing pairing_console ''/ca'' ''/cert'' ''/key'' ''id'' files_laptop = (Ret None, l)"
    using pairs by (auto split: prod.splits outcome.splits option.splits)
  obtain w1 where w1: "perform pairing_console 0 stalled (PairingSubmit ''/ca'' ''/cert'' ''/key'' ''id'')
      \<lparr>uw_heap = new_heap, uw_laptop = files_laptop\<rparr> = (Ret (Some (PairingSaved None), NoCmd), w1)"
    by (simp add: answer_iff on_laptop_def l)
  have co: "co_deps pairing_console = default_app_deps (co_env pairing_console)"
    "keyring_ok (le_keyring (co_env pairing_console)) (lp_keyring (uw_laptop w1))"
    by (simp_all add: pairing_console_def test_console_def test_laptop_env_def keyring_ok_def good_keyring_def)
  from pairing_reaches_client [OF w1 co] w1 show ?thesis by blast
qed

lemma plain_typing: "typing_fields plain_fields {''tab'', ''enter'', ''esc''}"
  by (auto simp: typing_fields_def plain_fields_def)

theorem capture_path_cannot_be_typed_witness:
  "\<exists>m. type_keys (screens_env pairing_console) [''c'', ''a'', ''p'', ''esc'', ''x''] (new_wigle_screen plain_fields) new_heap = (Ret m, new_heap) \<and>
     ''capture.json'' \<notin> set (wg_inputs m)"
proof -
  have tf: "ue_fields (screens_env pairing_console) = plain_fields" by (simp add: screens_env_def pairing_console_def test_console_def)
  obtain m where m: "type_keys (screens_env pairing_console) [''c'', ''a'', ''p'', ''esc'', ''x''] (new_wigle_screen plain_fields) new_heap = (Ret m, new_heap)"
    by (simp add: wigle_update_def wigle_browse_key_def wigle_credentials_key_def wigle_field_def go_field_def field_key stay_def retP_def
        bindP_def tf new_wigle_screen_def Let_def)
  have "\<forall>x \<in> set (wg_inputs m). set (ti_value plain_fields x) \<inter> set ''ceu'' = {} \<and> ti_value plain_fields x \<noteq> ''capture.json''"
    using capture_path_cannot_be_typed [of "screens_env pairing_console", unfolded tf, OF plain_typing _ m] by (simp add: plain_key_def)
  then have "''capture.json'' \<notin> set (wg_inputs m)" by (auto simp: plain_fields_def)
  with m show ?thesis by blast
qed

end
