(* ===== verification/Spec2Isabelle.thy ===== *)
theory Spec2Isabelle
  imports Updater_Properties Eventbus Event_Client Agent_Main_Examples Laptop_Examples Tui_Examples
begin

text \<open>
  Verification of the wifi-water-bottle agent and its laptop client.

  \<^bold>\<open>The program.\<close> An agent (\<open>src/bottle-agent\<close>) runs on a Raspberry Pi: it prepares the machine, updates
  itself, runs a survey and publishes events, all on request of a laptop that was paired with it. The
  laptop (\<open>src/bottle-tui\<close>) has a command line and an interactive console; it keeps a profile in the
  keyring of its system, talks to the agent over mutually authenticated TLS, relays Kismet's port, and
  exports captures to WiGLE. Components meet at interfaces: the workflows use a \<open>Host\<close> and a \<open>Jobs\<close>
  store, the control plane uses a handler and a pairing store, the laptop uses a connection.

  \<^bold>\<open>Theories, in the order of the code.\<close> \<open>Bottle_Prelude\<close>: Go's errors, panics and strings, a state monad
  with weakest preconditions, JSON values. \<open>Go_OS\<close>, \<open>Go_Lib\<close>, \<open>Go_Flag\<close>, \<open>Go_Base64\<close>: what is used of Go's
  standard library: files, addresses and \<open>io.Copy\<close>, command-line flags, base64. \<open>Retention\<close>: the
  contract shared by bus and buffer.

  The agent. \<open>Jobs\<close>: \<open>lifecycle.go\<close> (job records, \<open>MemoryJobs\<close>) and \<open>file_jobs.go\<close>. \<open>Lifecycle\<close>, \<open>Provisioner\<close>
  and \<open>Updater\<close>, each with its \<open>_Properties\<close>: the workflows of \<open>lifecycle.go\<close> over any \<open>Host\<close>. \<open>Host\<close>:
  \<open>host.go\<close>, the production host. \<open>Eventbus\<close>: \<open>eventbus.go\<close>. \<open>Agent_Pairing\<close>, \<open>Agent_Controlplane\<close>,
  \<open>Agent_Session\<close>, \<open>Agent_Server\<close>: \<open>controlplane/server.go\<close>, from the allowlist over one connection to
  the server's runs. \<open>Agent_Handler\<close>: \<open>agent.go\<close>. \<open>Agent_Tunnel\<close>: \<open>tunnel/server.go\<close>. \<open>Agent_Pki\<close>: \<open>pki.go\<close>.
  \<open>Agent_Main\<close>: \<open>main.go\<close>, setup and service.

  The laptop. \<open>Event_Buffer\<close> and \<open>Event_Client\<close>: \<open>model/events.go\<close> and \<open>controlplane/eventstream.go\<close>.
  \<open>Wire_Json\<close>: the two structs \<open>wireMessage\<close> of \<open>controlplane/server.go\<close> and \<open>controlplane/client.go\<close>, each
  with its own tags, and the JSON between them. \<open>Laptop_Client\<close>: \<open>controlplane/client.go\<close> and
  \<open>provisioncontrol/controller.go\<close>. \<open>Laptop_Agent\<close>: a laptop connected to the agent's model; its
  requests pass as messages, and what the JSON makes of a message, in both directions, is proved
  beside it. \<open>Laptop_Tunnel\<close>: \<open>tunnel/tunnel.go\<close> and \<open>mtls.go\<close>. \<open>Laptop_Keyring\<close>: both
  \<open>keyring.go\<close>. \<open>Wigle\<close>: \<open>wigle.go\<close>. \<open>Laptop_Cli\<close>: \<open>main.go\<close>. \<open>Tui_Base\<close>, \<open>Tui_Screens\<close>, \<open>Tui_App\<close>,
  \<open>Tui_View\<close>: the console, \<open>internal/tui\<close> and \<open>tui.go\<close>, its messages and modal, its screens, its routing
  and runtime, and what it draws. Theories named \<open>_Properties\<close>, \<open>_Examples\<close>, \<open>Tui_Contract\<close>,
  \<open>Tui_Runs\<close> and \<open>Tui_Lost_Tunnel\<close> hold no code of the program: contracts, properties, and the runs
  they are applied to. This theory puts the bus, the stream of one laptop and its consumer together.

  \<^bold>\<open>State and operations.\<close> A Go struct is a record with its fields, an operation one definition; an operation
  that changes state is a program \<open>('s, 'a) prog\<close>, from a state to an outcome (a value or a panic)
  and the next state. An error is a value of \<open>go_error\<close>, a pair \<open>(T, error)\<close> a sum. A nil pointer is
  \<open>None\<close>. Code under a mutex is one step. What runs concurrently is a step relation: \<open>bus_step\<close>, the
  connections of \<open>server_step\<close>, the goroutines of \<open>tunnel_step\<close>, the commands and messages of \<open>ui_step\<close>,
  the event path of \<open>path_step\<close>. A context is a value (\<open>go_context\<close>), and what waits for its end is a step
  of its own (\<open>wake\<close>). A nil map is \<open>None\<close>, and writing to it a panic.
  Machine integers whose width matters are words (event sequences, free storage); Go's \<open>int\<close> is \<open>int\<close>
  where its values are small by construction (counts, indices, ports).

  \<^bold>\<open>Interfaces.\<close> \<open>job_store\<close> (both job stores) and \<open>total_job_store\<close> (the one in memory), \<open>release_host\<close> (the Pi host),
  \<open>handler_contract\<close> (the agent's handler), \<open>retention\<close> (bus and buffer), \<open>credential_store\<close> (both
  keyring stores), \<open>elm_screen\<close> (the seven screens): each is a locale interpreted on the models of the
  code, and its lemmas are proved once.

  \<^bold>\<open>Properties.\<close> Provisioning and updates refine a plan of host actions, resume where they stopped,
  need confirmation, and a rolled back update restores the release that was active (C1 to C8). Events arrive in order; the
  buffer is bounded and redacted; a laptop that fell behind is never served again while the agent
  runs (C9 to C14). Only
  paired and confirming clients reach the handler, in every interleaving; a pairing survives a
  restart; what setup writes is what the service accepts (C15 to C22). The agent's relay loses and
  invents nothing of a direction that ended cleanly, requests on the laptop are runs on the agent,
  events survive the wire, and tunnels do not panic (C23 to C28). Credential
  stores, export and upload (C29 to C32). No command line and no run of the console does anything on the
  agent that was not confirmed, by a modal that said what it does; the console's handlers do not panic
  and its log shows redacted events only; what it loses, a log, a tunnel, a path, is proved of all
  runs (C33 to C40).

  \<^bold>\<open>Bounds and fuel.\<close> Loops are structural recursions or terminate by a measure. \<open>Host\<close> walks directories
  to a depth of 2048, more than a path of 4096 bytes can have. Other bounds are the code's own: the
  channels and histories of bus, tunnel and buffer, three upload attempts.

  \<^bold>\<open>Parameters.\<close> The JSON texts of jobs, pairings, buffered events and captures; of the wire's JSON, the texts of times and
  of \<open>float64\<close> numbers and the replacement of bytes that are not UTF-8; key generation, certificates'
  encodings and SHA-256; Unicode case folding beyond ASCII; clocks; the order in which a Go map is
  ranged over; shell commands, sockets, HTTP and TLS; the keyring; the text fields, spinners, styles
  and runtime of the console's libraries. Each is an argument of the definitions, and what is relied on is
  a hypothesis with an instance that satisfies it. Where Go leaves an order of evaluation open
  (\<open>return m, m.survey.Activate()\<close>), the model takes the order of its compiler, calls first.

  \<^bold>\<open>Not modelled.\<close> What the terminal libraries make of a style, a text field, a table or a scrolled text
  (the parameter \<open>drawing\<close>). The exit codes and signals of the two \<open>main\<close> functions and the
  usage text of the flag package. The libraries the program calls. The shell scripts and service units
  under \<open>src/deploy\<close>, which are not Go code.
\<close>

section \<open>The event path from the agent to the laptop\<close>

text \<open>
  The bus of the agent and the consumer of one laptop, run together. The bus moves on its own
  (publishing, other subscribers); the laptop opens a stream, which asks for its cursor
  (\<open>Requested\<close>, \<open>StreamEvents\<close> of \<open>controlplane/client.go\<close>); the agent answers with the history gap
  or with a channel (\<open>dispatch\<close> of \<open>controlplane/server.go\<close>), whose events its goroutine writes and
  the stream carries in order; a receive takes the next of them. A stream may fail at any time, and
  a failed one is gone when the consumer opens the next.
\<close>

datatype event_link = NoStream | Requested "64 word" | Refused | Accepted nat "bus_event list"

record event_path =
  ep_bus :: bus_run
  ep_client :: "event_client \<times> consume_loc"
  ep_link :: event_link

definition ep_cursor :: "event_path \<Rightarrow> 64 word" where
  "ep_cursor p = last_sequence (c_buffer (fst (ep_client p)))"

text \<open>After a failed receive the stream is kept only while the consumer still receives from it.\<close>

definition link_after :: "consume_loc \<Rightarrow> event_link \<Rightarrow> event_link" where
  "link_after l k = (if l = AtRecv then k else NoStream)"

inductive path_step ::
  "encoder \<Rightarrow> (string \<Rightarrow> string) \<Rightarrow> wire_codec \<Rightarrow> event_path \<Rightarrow> event_path \<Rightarrow> bool" for enc uni wc where
  path_bus: "bus_step (ep_bus p) b \<Longrightarrow> path_step enc uni wc p (p\<lparr>ep_bus := b\<rparr>)"
| path_open: "ep_client p = (c, AtOpen) \<Longrightarrow>
    path_step enc uni wc p (p\<lparr>ep_client := consume_step enc uni (OpenResult None w) (c, AtOpen),
      ep_link := Requested (last_sequence (c_buffer c))\<rparr>)"
| path_open_fails: "ep_client p = (c, AtOpen) \<Longrightarrow>
    path_step enc uni wc p (p\<lparr>ep_client := consume_step enc uni (OpenResult (Some e) w) (c, AtOpen), ep_link := NoStream\<rparr>)"
| path_accepted: "ep_link p = Requested k \<Longrightarrow> subscribe Background k (r_bus (ep_bus p)) = (Inr a, b) \<Longrightarrow>
    bus_step (ep_bus p) b' \<Longrightarrow> r_bus b' = b \<Longrightarrow> path_step enc uni wc p (p\<lparr>ep_bus := b', ep_link := Accepted a []\<rparr>)"
| path_refused: "ep_link p = Requested k \<Longrightarrow> fst (subscribe Background k (r_bus (ep_bus p))) = Inl e \<Longrightarrow>
    path_step enc uni wc p (p\<lparr>ep_link := Refused\<rparr>)"
| path_written: "ep_link p = Accepted a q \<Longrightarrow> receive a (r_bus (ep_bus p)) = (Some e, b) \<Longrightarrow>
    bus_step (ep_bus p) b' \<Longrightarrow> r_bus b' = b \<Longrightarrow> path_step enc uni wc p (p\<lparr>ep_bus := b', ep_link := Accepted a (q @ [e])\<rparr>)"
| path_received: "ep_client p = (c, AtRecv) \<Longrightarrow> ep_link p = Accepted a (e # q) \<Longrightarrow>
    laptop_decode wc (event_json wc e) = Inr m \<Longrightarrow>
    path_step enc uni wc p (p\<lparr>ep_client := consume_step enc uni (RecvResult ctx (Inr (message_event wc m)) now f w) (c, AtRecv),
      ep_link := Accepted a q\<rparr>)"
| path_fails: "ep_client p = (c, AtRecv) \<Longrightarrow> consume_step enc uni (RecvResult ctx (Inl err) now f w) (c, AtRecv) = (c', l) \<Longrightarrow>
    path_step enc uni wc p (p\<lparr>ep_client := (c', l), ep_link := link_after l (ep_link p)\<rparr>)"

text \<open>Behind: the cursor is older than everything the bus retains, and no stream was accepted for it.\<close>

definition behind :: "event_path \<Rightarrow> bool" where
  "behind p \<longleftrightarrow> unat (ep_cursor p) + limit (r_bus (ep_bus p)) < length (hist (ep_bus p))"

definition unserved :: "event_path \<Rightarrow> bool" where
  "unserved p \<longleftrightarrow> ep_link p \<in> {NoStream, Refused, Requested (ep_cursor p)}"

lemma behind_refused:
  assumes "bus_reach n (ep_bus p)" "behind p" "Suc (length (hist (ep_bus p))) < 2 ^ 64"
  shows "subscribe ctx (ep_cursor p) (r_bus (ep_bus p)) = (Inl err_event_history_gap, r_bus (ep_bus p))"
proof -
  have "represents (r_bus (ep_bus p)) (hist (ep_bus p))" using bus_reach_ok [OF assms(1,3)] by (simp add: run_ok_def)
  then show ?thesis
    using history_gap_iff [OF _ assms(3), of "r_bus (ep_bus p)" "ep_cursor p"] assms(2) by (simp add: behind_def subscribe_def)
qed

lemma quiet_step:
  assumes "\<forall>ctx e now f w. i \<noteq> RecvResult ctx (Inr e) now f w"
  shows "last_sequence (c_buffer (fst (consume_step enc uni i (c, l)))) = last_sequence (c_buffer c)"
proof -
  have "input_seq enc uni i (c, l) = []"
    using assms by (induction enc uni i "(c, l)" rule: input_seq.induct) auto
  then show ?thesis using consume_step_last [of enc uni i "(c, l)"] by simp
qed

lemma path_step_unserved:
  assumes step: "path_step enc uni wc p p'" and reach: "bus_reach n (ep_bus p)" and "behind p" "unserved p"
    and len: "Suc (length (hist (ep_bus p))) < 2 ^ 64"
  shows "bus_reach n (ep_bus p') \<and> behind p' \<and> unserved p' \<and> ep_cursor p' = ep_cursor p"
  using step
proof (cases rule: path_step.cases)
  case (path_bus b)
  then show ?thesis
    using assms behind_stays [of "ep_bus p" b "ep_cursor p"] reach_step [OF reach]
    by (auto simp: behind_def unserved_def ep_cursor_def)
next
  case (path_open c w)
  then show ?thesis using assms by (auto simp: behind_def unserved_def ep_cursor_def)
next
  case (path_open_fails c e w)
  have "last_sequence (c_buffer (fst (consume_step enc uni (OpenResult (Some e) w) (c, AtOpen)))) = last_sequence (c_buffer c)"
    by (rule quiet_step) simp
  with path_open_fails show ?thesis using assms by (simp add: behind_def unserved_def ep_cursor_def)
next
  case (path_accepted k a b b')
  then show ?thesis using assms behind_refused [OF reach \<open>behind p\<close> len, of Background] by (auto simp: unserved_def)
next
  case (path_refused k e)
  then show ?thesis using assms by (auto simp: behind_def unserved_def ep_cursor_def)
next
  case (path_fails c ctx err now f w c' l)
  have "last_sequence (c_buffer (fst (consume_step enc uni (RecvResult ctx (Inl err) now f w) (c, AtRecv)))) = last_sequence (c_buffer c)"
    by (rule quiet_step) simp
  with path_fails show ?thesis using assms by (auto simp: behind_def unserved_def ep_cursor_def link_after_def)
qed (use assms in \<open>auto simp: unserved_def\<close>)

lemma path_step_hist: "path_step enc uni wc p p' \<Longrightarrow> length (hist (ep_bus p)) \<le> length (hist (ep_bus p'))"
  by (induction rule: path_step.induct) (auto dest: bus_step_hist)

text \<open>
  C10. A laptop that fell behind never gets events again: once its cursor is older than everything
  the agent retains and it has no accepted stream, then whatever is published, however often it reopens
  its stream and however its streams fail, its cursor stays where it is, no stream is ever accepted,
  and in every later state a subscription with that cursor is refused with the history gap.
\<close>

theorem resync_never_recovers:
  assumes run: "(path_step enc uni wc)\<^sup>*\<^sup>* p p'"
    and "bus_reach n (ep_bus p)" and "unat (ep_cursor p) + limit (r_bus (ep_bus p)) < length (hist (ep_bus p))"
    and "ep_link p \<in> {NoStream, Refused, Requested (ep_cursor p)}"
    and "Suc (length (hist (ep_bus p'))) < 2 ^ 64"
  shows "ep_cursor p' = ep_cursor p \<and> (\<forall>a q. ep_link p' \<noteq> Accepted a q) \<and>
    subscribe ctx (ep_cursor p') (r_bus (ep_bus p')) = (Inl err_event_history_gap, r_bus (ep_bus p'))"
proof -
  have "bus_reach n (ep_bus p') \<and> behind p' \<and> unserved p' \<and> ep_cursor p' = ep_cursor p"
    using run assms(5)
  proof (induction rule: rtranclp_induct)
    case base
    then show ?case using assms(2-4) by (simp add: behind_def unserved_def)
  next
    case (step p1 p2)
    have "Suc (length (hist (ep_bus p1))) < 2 ^ 64" using path_step_hist [OF step.hyps(2)] step.prems by linarith
    with step.IH have ih: "bus_reach n (ep_bus p1)" "behind p1" "unserved p1" "ep_cursor p1 = ep_cursor p"
      "Suc (length (hist (ep_bus p1))) < 2 ^ 64" by simp_all
    from path_step_unserved [OF step.hyps(2) ih(1,2,3,5)] ih(4) show ?case by simp
  qed
  with behind_refused [of n p' ctx] assms(5) show ?thesis by (auto simp: unserved_def)
qed

text \<open>A laptop that never connected while three events went through a bus that keeps two.\<close>

theorem resync_never_recovers_witness:
  "\<exists>p p'. (path_step test_enc id test_codec_wire)\<^sup>*\<^sup>* p p' \<and> bus_reach 2 (ep_bus p) \<and> ep_client p = (test_client, AtOpen) \<and>
     ep_link p' = Refused \<and> fst (subscribe Background (ep_cursor p') (r_bus (ep_bus p'))) = Inl err_event_history_gap"
proof -
  obtain s where s: "bus_reach 2 s" "length (hist s) = 3" "max_events (r_bus s) = 2"
    using filled [of 3] by auto
  let ?p = "\<lparr>ep_bus = s, ep_client = (test_client, AtOpen), ep_link = NoStream\<rparr>"
  let ?p1 = "\<lparr>ep_bus = s, ep_client = (test_client, AtRecv), ep_link = Requested 0\<rparr>"
  let ?p2 = "?p1\<lparr>ep_link := Refused\<rparr>"
  have c: "last_sequence (c_buffer test_client) = 0"
    by (simp add: test_client_def new_client_def last_sequence_def new_buffer_def Let_def)
  have behind: "unat (ep_cursor ?p) + limit (r_bus (ep_bus ?p)) < length (hist (ep_bus ?p))"
    by (simp add: ep_cursor_def c s limit_def)
  have len: "Suc (length (hist s)) < 2 ^ 64" by (simp add: s(2))
  have "path_step test_enc id test_codec_wire ?p ?p1" using path_open [of ?p test_client test_enc id test_codec_wire test_wait] c by simp
  moreover have "path_step test_enc id test_codec_wire ?p1 ?p2"
    using path_refused [of ?p1 0 err_event_history_gap] behind_refused [of 2 ?p Background] s(1) len behind
    by (simp add: behind_def ep_cursor_def c)
  ultimately have run: "(path_step test_enc id test_codec_wire)\<^sup>*\<^sup>* ?p ?p2" by (meson converse_rtranclp_into_rtranclp rtranclp.rtrancl_refl)
  have "subscribe Background (ep_cursor ?p2) (r_bus (ep_bus ?p2)) = (Inl err_event_history_gap, r_bus (ep_bus ?p2))"
    by (rule resync_never_recovers [OF run _ behind, THEN conjunct2, THEN conjunct2]) (use s(1) len in simp_all)
  then have "fst (subscribe Background (ep_cursor ?p2) (r_bus (ep_bus ?p2))) = Inl err_event_history_gap"
    by (simp only: fst_conv)
  with run s(1) show ?thesis by (intro exI [of _ ?p] exI [of _ ?p2]) simp
qed

end
